(* ===== verification/Prelude.thy ===== *)
theory Prelude
  imports Main "HOL-Library.Word" "HOL-Library.AList" "HOL-Library.Sublist"
begin

text \<open>
  What every component shares.

  \<^item> Results.  A Rust \<open>Result<T, E>\<close> is \<open>'e + 'a\<close> with \<open>Inl\<close> for \<open>Err\<close>; the \<open>?\<close> operator
    is \<open>and_then\<close>.  A function whose loop is not bounded by the structure of its arguments
    takes fuel and returns an \<open>option\<close> around the result, \<open>None\<close> meaning that the fuel ran
    out; the operator \<open>?\<close> lifted to such functions is \<open>fuel_then\<close>.
  \<^item> Machine integers.  \<open>u8\<close> to \<open>u64\<close> are words; \<open>to_le_bytes\<close>, \<open>to_be_bytes\<close> and their
    inverses are written over the unsigned value.  \<open>usize\<close> values are lengths and offsets
    of buffers in memory and are modelled as \<open>nat\<close>.
  \<^item> Strings.  A Rust \<open>String\<close> is the list of its UTF-8 bytes, each byte a \<open>char\<close>, so that
    \<open>length\<close> is \<open>str::len\<close>; \<open>valid_utf8\<close> is the check of \<open>std::str::from_utf8\<close>.
  \<^item> Hash maps.  A \<open>HashMap\<close> is an association list with distinct keys, its iteration
    order the order of the list; what is proved holds for every such list.
\<close>

named_theorems result_simps "how the result combinators compute and invert"
named_theorems wf_intros "introduction rules of well-formedness predicates"

section \<open>Results\<close>

definition and_then :: "'e + 'a \<Rightarrow> ('a \<Rightarrow> 'e + 'b) \<Rightarrow> 'e + 'b" where
  "and_then r f = (case r of Inl e \<Rightarrow> Inl e | Inr a \<Rightarrow> f a)"

lemma and_then_Inl [simp]: "and_then (Inl e) f = Inl e"
  by (simp add: and_then_def)

lemma and_then_Inr [simp]: "and_then (Inr a) f = f a"
  by (simp add: and_then_def)

lemma and_then_eq_Inr [result_simps]:
  "and_then r f = Inr b \<longleftrightarrow> (\<exists>a. r = Inr a \<and> f a = Inr b)"
  by (cases r) auto

lemma and_then_eq_Inl [result_simps]:
  "and_then r f = Inl e \<longleftrightarrow> r = Inl e \<or> (\<exists>a. r = Inr a \<and> f a = Inl e)"
  by (cases r) auto

lemma and_then_cong [fundef_cong]:
  "r = r' \<Longrightarrow> (\<And>a. r' = Inr a \<Longrightarrow> f a = f' a) \<Longrightarrow> and_then r f = and_then r' f'"
  by (cases r') auto

definition fuel_then :: "('e + 'a) option \<Rightarrow> ('a \<Rightarrow> ('e + 'b) option) \<Rightarrow> ('e + 'b) option" where
  "fuel_then r f =
     (case r of None \<Rightarrow> None | Some (Inl e) \<Rightarrow> Some (Inl e) | Some (Inr a) \<Rightarrow> f a)"

lemma fuel_then_simps [simp]:
  "fuel_then None f = None"
  "fuel_then (Some (Inl e)) f = Some (Inl e)"
  "fuel_then (Some (Inr a)) f = f a"
  by (simp_all add: fuel_then_def)

lemma fuel_then_eq_Inr [result_simps]:
  "fuel_then r f = Some (Inr b) \<longleftrightarrow> (\<exists>a. r = Some (Inr a) \<and> f a = Some (Inr b))"
  by (auto simp: fuel_then_def split: option.splits sum.splits)

lemma fuel_then_eq_Some [result_simps]:
  "fuel_then r f = Some x \<longleftrightarrow>
     (\<exists>e. r = Some (Inl e) \<and> x = Inl e) \<or> (\<exists>a. r = Some (Inr a) \<and> f a = Some x)"
  by (auto simp: fuel_then_def split: option.splits sum.splits)

lemma fuel_then_eq_None [result_simps]:
  "fuel_then r f = None \<longleftrightarrow> r = None \<or> (\<exists>a. r = Some (Inr a) \<and> f a = None)"
  by (auto simp: fuel_then_def split: option.splits sum.splits)

lemma fuel_then_cong [fundef_cong]:
  "r = r' \<Longrightarrow> (\<And>a. r' = Some (Inr a) \<Longrightarrow> f a = f' a) \<Longrightarrow> fuel_then r f = fuel_then r' f'"
  by (auto simp: fuel_then_def split: option.splits sum.splits)

text \<open>Collecting an iterator of results into a result of a vector stops at the first error.\<close>

fun try_map :: "('a \<Rightarrow> 'e + 'b) \<Rightarrow> 'a list \<Rightarrow> 'e + 'b list" where
  "try_map f [] = Inr []"
| "try_map f (x # xs) = and_then (f x) (\<lambda>y. and_then (try_map f xs) (\<lambda>ys. Inr (y # ys)))"

lemma try_map_Inr: "try_map f xs = Inr ys \<longleftrightarrow> list_all2 (\<lambda>x y. f x = Inr y) xs ys"
  by (induction xs arbitrary: ys) (auto simp: result_simps list_all2_Cons1)

lemma try_map_eq_map: "(\<And>x. x \<in> set xs \<Longrightarrow> f x = Inr (g x)) \<Longrightarrow> try_map f xs = Inr (map g xs)"
  by (induction xs) auto

section \<open>Machine integers and their bytes\<close>

type_synonym u8 = "8 word"
type_synonym u16 = "16 word"
type_synonym u32 = "32 word"
type_synonym u64 = "64 word"

fun nat_le_bytes :: "nat \<Rightarrow> nat \<Rightarrow> u8 list" where
  "nat_le_bytes 0 k = []"
| "nat_le_bytes (Suc n) k = word_of_nat (k mod 256) # nat_le_bytes n (k div 256)"

fun nat_of_le_bytes :: "u8 list \<Rightarrow> nat" where
  "nat_of_le_bytes [] = 0"
| "nat_of_le_bytes (b # bs) = unat b + 256 * nat_of_le_bytes bs"

lemma length_nat_le_bytes [simp]: "length (nat_le_bytes n k) = n"
  by (induction n arbitrary: k) auto

lemma nat_of_nat_le_bytes: "nat_of_le_bytes (nat_le_bytes n k) = k mod 256 ^ n"
proof (induction n arbitrary: k)
  case 0
  then show ?case by simp
next
  case (Suc n)
  have "unat (word_of_nat (k mod 256) :: u8) = k mod 256"
    by (simp add: unat_of_nat)
  then show ?case
    by (simp add: Suc.IH mod_mult2_eq)
qed

lemma nat_of_le_bytes_bound: "nat_of_le_bytes bs < 256 ^ length bs"
proof (induction bs)
  case Nil
  then show ?case by simp
next
  case (Cons b bs)
  have "unat b < 256"
    using unsigned_less [of b, where ?'a = nat] by simp
  with Cons.IH show ?case by simp
qed

definition to_le_bytes :: "'a::len word \<Rightarrow> u8 list" where
  "to_le_bytes w = nat_le_bytes (LENGTH('a) div 8) (unat w)"

definition to_be_bytes :: "'a::len word \<Rightarrow> u8 list" where
  "to_be_bytes w = rev (to_le_bytes w)"

definition from_le_bytes :: "u8 list \<Rightarrow> 'a::len word" where
  "from_le_bytes bs = word_of_nat (nat_of_le_bytes bs)"

definition from_be_bytes :: "u8 list \<Rightarrow> 'a::len word" where
  "from_be_bytes bs = from_le_bytes (rev bs)"

lemma length_to_le_bytes [simp]: "length (to_le_bytes (w :: 'a::len word)) = LENGTH('a) div 8"
  by (simp add: to_le_bytes_def)

lemma length_to_be_bytes [simp]: "length (to_be_bytes (w :: 'a::len word)) = LENGTH('a) div 8"
  by (simp add: to_be_bytes_def)

lemma from_to_le_bytes:
  assumes "LENGTH('a::len) = 8 * n"
  shows "from_le_bytes (to_le_bytes (w :: 'a word)) = w"
proof -
  have "unat w < 256 ^ n"
    using unsigned_less [of w, where ?'a = nat] assms by (simp add: power_mult)
  then show ?thesis
    using assms by (simp add: from_le_bytes_def to_le_bytes_def nat_of_nat_le_bytes)
qed

lemma from_to_bytes16 [simp]:
  "from_le_bytes (to_le_bytes (w :: u16)) = w" "from_be_bytes (to_be_bytes (w :: u16)) = w"
  using from_to_le_bytes [of 2 w] by (simp_all add: from_be_bytes_def to_be_bytes_def)

lemma from_to_bytes32 [simp]:
  "from_le_bytes (to_le_bytes (w :: u32)) = w" "from_be_bytes (to_be_bytes (w :: u32)) = w"
  using from_to_le_bytes [of 4 w] by (simp_all add: from_be_bytes_def to_be_bytes_def)

lemma from_to_bytes64 [simp]:
  "from_le_bytes (to_le_bytes (w :: u64)) = w" "from_be_bytes (to_be_bytes (w :: u64)) = w"
  using from_to_le_bytes [of 8 w] by (simp_all add: from_be_bytes_def to_be_bytes_def)

section \<open>Strings as bytes\<close>

definition byte_of :: "char \<Rightarrow> u8" where
  "byte_of c = word_of_nat (of_char c)"

definition char_of_byte :: "u8 \<Rightarrow> char" where
  "char_of_byte b = char_of (unat b)"

definition as_bytes :: "string \<Rightarrow> u8 list" where
  "as_bytes s = map byte_of s"

definition str_of_bytes :: "u8 list \<Rightarrow> string" where
  "str_of_bytes bs = map char_of_byte bs"

lemma unat_byte_of: "unat (byte_of c) = of_char c"
  by (simp add: byte_of_def unat_of_nat)

lemma char_of_byte_of [simp]: "char_of_byte (byte_of c) = c"
  by (simp add: char_of_byte_def unat_byte_of)

lemma byte_of_char_of_byte [simp]: "byte_of (char_of_byte b) = b"
proof -
  have "unat b < 256"
    using unsigned_less [of b, where ?'a = nat] by simp
  then have "of_char (char_of (unat b)) = unat b"
    by simp
  then show ?thesis
    by (simp add: byte_of_def char_of_byte_def)
qed

lemma str_of_as_bytes [simp]: "str_of_bytes (as_bytes s) = s"
  by (induction s) (simp_all add: str_of_bytes_def as_bytes_def)

lemma as_bytes_str_of [simp]: "as_bytes (str_of_bytes bs) = bs"
  by (induction bs) (simp_all add: str_of_bytes_def as_bytes_def)

lemma length_as_bytes [simp]: "length (as_bytes s) = length s"
  by (simp add: as_bytes_def)

lemma length_str_of_bytes [simp]: "length (str_of_bytes bs) = length bs"
  by (simp add: str_of_bytes_def)

lemma as_bytes_simps [simp]:
  "as_bytes [] = []" "as_bytes (c # s) = byte_of c # as_bytes s"
  "as_bytes (s @ t) = as_bytes s @ as_bytes t"
  by (simp_all add: as_bytes_def)

lemma byte_of_eq_iff [simp]: "byte_of c = byte_of d \<longleftrightarrow> c = d"
  by (metis char_of_byte_of)

text \<open>The validity check of \<open>std::str::from_utf8\<close>: shortest forms only, no surrogates.\<close>

definition utf8_cont :: "nat \<Rightarrow> bool" where
  "utf8_cont b \<longleftrightarrow> 0x80 \<le> b \<and> b \<le> 0xBF"

definition utf8_second :: "nat \<Rightarrow> nat \<Rightarrow> bool" where
  "utf8_second a b \<longleftrightarrow> utf8_cont b \<and>
     (a = 0xE0 \<longrightarrow> 0xA0 \<le> b) \<and> (a = 0xED \<longrightarrow> b \<le> 0x9F) \<and>
     (a = 0xF0 \<longrightarrow> 0x90 \<le> b) \<and> (a = 0xF4 \<longrightarrow> b \<le> 0x8F)"

fun valid_utf8_codes :: "nat list \<Rightarrow> bool" where
  "valid_utf8_codes [] = True"
| "valid_utf8_codes (a # s) =
     (if a < 0x80 then valid_utf8_codes s
      else if 0xC2 \<le> a \<and> a \<le> 0xDF then
        (case s of b # s' \<Rightarrow> utf8_cont b \<and> valid_utf8_codes s' | _ \<Rightarrow> False)
      else if 0xE0 \<le> a \<and> a \<le> 0xEF then
        (case s of b # c # s' \<Rightarrow> utf8_second a b \<and> utf8_cont c \<and> valid_utf8_codes s' | _ \<Rightarrow> False)
      else if 0xF0 \<le> a \<and> a \<le> 0xF4 then
        (case s of b # c # d # s' \<Rightarrow>
            utf8_second a b \<and> utf8_cont c \<and> utf8_cont d \<and> valid_utf8_codes s' | _ \<Rightarrow> False)
      else False)"

definition valid_utf8 :: "string \<Rightarrow> bool" where
  "valid_utf8 s = valid_utf8_codes (map of_char s)"

definition is_ascii :: "string \<Rightarrow> bool" where
  "is_ascii s = list_all (\<lambda>c. of_char c < (128::nat)) s"

lemma valid_utf8_codes_ascii: "list_all (\<lambda>a. a < 0x80) s \<Longrightarrow> valid_utf8_codes s"
  by (induction s) auto

lemma is_ascii_valid_utf8: "is_ascii s \<Longrightarrow> valid_utf8 s"
  unfolding valid_utf8_def is_ascii_def
  by (rule valid_utf8_codes_ascii) (simp add: list.pred_map comp_def)

lemma valid_utf8_Nil [simp]: "valid_utf8 []"
  by (simp add: valid_utf8_def)

lemma is_ascii_append [simp]: "is_ascii (s @ t) \<longleftrightarrow> is_ascii s \<and> is_ascii t"
  by (simp add: is_ascii_def)

end
