(* ===== verification/Rust_Strings.thy ===== *)
theory Rust_Strings
  imports Prelude
begin

text \<open>
  The string and character functions of Rust's standard library that the code calls, each
  with the lemmas the components need: classification of ASCII characters, \<open>split\<close>,
  \<open>split_once\<close>, \<open>strip_prefix\<close>, \<open>strip_suffix\<close>, decimal display and parsing of unsigned
  integers, and \<open>hex::encode\<close> and \<open>hex::decode\<close>.  \<open>str::starts_with\<close> and \<open>str::ends_with\<close>
  are \<open>prefix\<close> and \<open>suffix\<close> of the library.
\<close>

section \<open>Characters\<close>

abbreviation code_of :: "char \<Rightarrow> nat" where
  "code_of c \<equiv> of_char c"

definition is_ascii_digit :: "char \<Rightarrow> bool" where
  "is_ascii_digit c \<longleftrightarrow> 48 \<le> code_of c \<and> code_of c \<le> 57"

definition is_ascii_alphabetic :: "char \<Rightarrow> bool" where
  "is_ascii_alphabetic c \<longleftrightarrow>
     (65 \<le> code_of c \<and> code_of c \<le> 90) \<or> (97 \<le> code_of c \<and> code_of c \<le> 122)"

definition is_ascii_alphanumeric :: "char \<Rightarrow> bool" where
  "is_ascii_alphanumeric c \<longleftrightarrow> is_ascii_digit c \<or> is_ascii_alphabetic c"

lemma alphanumeric_not_special [simp]:
  "\<not> is_ascii_alphanumeric CHR ''/''" "\<not> is_ascii_alphanumeric CHR ''.''"
  "\<not> is_ascii_alphanumeric CHR '',''" "\<not> is_ascii_alphanumeric CHR ''=''"
  "\<not> is_ascii_alphanumeric CHR '';''" "\<not> is_ascii_alphanumeric CHR '':''"
  "\<not> is_ascii_alphanumeric CHR ''%''" "\<not> is_ascii_alphanumeric CHR 0x00"
  by (simp_all add: is_ascii_alphanumeric_def is_ascii_digit_def is_ascii_alphabetic_def)

lemma alphanumeric_ascii: "is_ascii_alphanumeric c \<Longrightarrow> code_of c < 128"
  by (auto simp: is_ascii_alphanumeric_def is_ascii_digit_def is_ascii_alphabetic_def)

definition single_quoted :: "string \<Rightarrow> string" where
  "single_quoted s = CHR 0x27 # s @ [CHR 0x27]"

section \<open>Splitting\<close>

fun split_on :: "char \<Rightarrow> string \<Rightarrow> string list" where
  "split_on c [] = [[]]"
| "split_on c (x # xs) =
     (if x = c then [] # split_on c xs
      else (case split_on c xs of [] \<Rightarrow> [[x]] | p # ps \<Rightarrow> (x # p) # ps))"

fun join_with :: "char \<Rightarrow> string list \<Rightarrow> string" where
  "join_with c [] = []"
| "join_with c [p] = p"
| "join_with c (p # q # ps) = p @ c # join_with c (q # ps)"

fun split_once :: "char \<Rightarrow> string \<Rightarrow> (string \<times> string) option" where
  "split_once c [] = None"
| "split_once c (x # xs) =
     (if x = c then Some ([], xs)
      else map_option (\<lambda>(k, v). (x # k, v)) (split_once c xs))"

lemma split_on_not_Nil [simp]: "split_on c s \<noteq> []"
  by (induction s) (auto split: list.splits)

lemma split_on_no_sep: "c \<notin> set s \<Longrightarrow> split_on c s = [s]"
  by (induction s) auto

lemma split_on_append: "c \<notin> set p \<Longrightarrow> split_on c (p @ c # s) = p # split_on c s"
  by (induction p) auto

lemma join_with_Cons: "join_with c ((x # p) # ps) = x # join_with c (p # ps)"
  by (cases ps) auto

lemma join_with_Nil: "ps \<noteq> [] \<Longrightarrow> join_with c ([] # ps) = c # join_with c ps"
  by (cases ps) auto

lemma join_with_not_Nil: "p \<in> set ps \<Longrightarrow> p \<noteq> [] \<Longrightarrow> join_with c ps \<noteq> []"
  by (induction c ps rule: join_with.induct) auto

lemma join_with_member: "x \<in> set (join_with c ps) \<Longrightarrow> x \<noteq> c \<Longrightarrow> \<exists>p\<in>set ps. x \<in> set p"
  by (induction c ps rule: join_with.induct) auto

lemma suffix_snoc_last: "b \<noteq> [] \<Longrightarrow> suffix [c] (a @ d # b) \<longleftrightarrow> suffix [c] b"
  by (cases b rule: rev_cases) (auto simp: suffix_def)

lemma join_split_on: "join_with c (split_on c s) = s"
proof (induction s)
  case Nil
  then show ?case by simp
next
  case (Cons x s)
  then show ?case
    by (auto simp: join_with_Cons join_with_Nil split: list.splits)
qed

lemma split_on_join:
  "ps \<noteq> [] \<Longrightarrow> \<forall>p\<in>set ps. c \<notin> set p \<Longrightarrow> split_on c (join_with c ps) = ps"
  by (induction c ps rule: join_with.induct) (auto simp: split_on_no_sep split_on_append)

lemma split_on_parts: "p \<in> set (split_on c s) \<Longrightarrow> c \<notin> set p \<and> set p \<subseteq> set s"
proof (induction s arbitrary: p)
  case Nil
  then show ?case by simp
next
  case (Cons x s)
  then show ?case
    by (cases "split_on c s") (fastforce split: if_splits)+
qed

lemma split_once_append: "c \<notin> set k \<Longrightarrow> split_once c (k @ c # v) = Some (k, v)"
  by (induction k) auto

lemma split_once_Some: "split_once c s = Some (k, v) \<longleftrightarrow> s = k @ c # v \<and> c \<notin> set k"
proof (induction s arbitrary: k)
  case Nil
  then show ?case by simp
next
  case (Cons x s)
  then show ?case
    by (cases k) auto
qed

lemma split_once_None: "split_once c s = None \<longleftrightarrow> c \<notin> set s"
  by (induction s) auto

definition strip_prefix :: "string \<Rightarrow> string \<Rightarrow> string option" where
  "strip_prefix p s = (if prefix p s then Some (drop (length p) s) else None)"

definition strip_suffix :: "string \<Rightarrow> string \<Rightarrow> string option" where
  "strip_suffix p s = (if suffix p s then Some (take (length s - length p) s) else None)"

lemma strip_prefix_Some: "strip_prefix p s = Some r \<longleftrightarrow> s = p @ r"
  by (auto simp: strip_prefix_def prefix_def)

lemma strip_suffix_Some: "strip_suffix p s = Some r \<longleftrightarrow> s = r @ p"
  by (auto simp: strip_suffix_def suffix_def)

section \<open>Decimal numbers\<close>

fun show_nat :: "nat \<Rightarrow> string" where
  "show_nat n =
     (if n < 10 then [char_of (48 + n)] else show_nat (n div 10) @ [char_of (48 + n mod 10)])"

declare show_nat.simps [simp del]

definition digit_value :: "char \<Rightarrow> nat" where
  "digit_value c = code_of c - 48"

definition digits_value :: "string \<Rightarrow> nat" where
  "digits_value s = foldl (\<lambda>n c. 10 * n + digit_value c) 0 s"

text \<open>
  \<open>str::parse\<close> at an unsigned type whose values are below \<open>bound\<close>: an optional plus sign,
  then one or more decimal digits.
\<close>

definition parse_uint :: "nat \<Rightarrow> string \<Rightarrow> nat option" where
  "parse_uint bound s =
     (let ds = (case s of c # r \<Rightarrow> if c = CHR ''+'' then r else s | [] \<Rightarrow> [])
      in if ds \<noteq> [] \<and> list_all is_ascii_digit ds \<and> digits_value ds < bound
         then Some (digits_value ds) else None)"

lemma digit_char: "d < 10 \<Longrightarrow> code_of (char_of (48 + d)) = 48 + d"
  by simp

lemma show_nat_digits: "list_all is_ascii_digit (show_nat n)"
proof (induction n rule: show_nat.induct)
  case (1 n)
  have "n mod 10 < 10"
    by simp
  then have "is_ascii_digit (char_of (48 + n mod 10))"
    by (simp add: is_ascii_digit_def)
  moreover have "n < 10 \<Longrightarrow> is_ascii_digit (char_of (48 + n))"
    by (simp add: is_ascii_digit_def)
  ultimately show ?case
    using "1.IH" by (subst show_nat.simps) simp
qed

lemma show_nat_not_Nil [simp]: "show_nat n \<noteq> []"
  by (subst show_nat.simps) simp

lemma digits_value_show_nat: "digits_value (show_nat n) = n"
proof (induction n rule: show_nat.induct)
  case (1 n)
  show ?case
  proof (cases "n < 10")
    case True
    then show ?thesis
      by (subst show_nat.simps) (simp add: digits_value_def digit_value_def)
  next
    case False
    then have "digits_value (show_nat (n div 10)) = n div 10"
      by (rule "1.IH")
    moreover have "n mod 10 < 10"
      by simp
    then have "digit_value (char_of (48 + n mod 10)) = n mod 10"
      by (simp add: digit_value_def)
    ultimately show ?thesis
      using False by (subst show_nat.simps) (simp add: digits_value_def)
  qed
qed

lemma show_nat_hd: "c \<in> set (show_nat n) \<Longrightarrow> is_ascii_digit c"
  using show_nat_digits [of n] by (auto simp: list_all_iff)

lemma show_nat_no_special:
  "CHR ''+'' \<notin> set (show_nat n)" "CHR '' '' \<notin> set (show_nat n)"
  "CHR ''.'' \<notin> set (show_nat n)" "CHR '':'' \<notin> set (show_nat n)"
  "CHR '','' \<notin> set (show_nat n)" "CHR ''='' \<notin> set (show_nat n)"
  using show_nat_hd [of _ n] by (auto simp: is_ascii_digit_def dest!: show_nat_hd)

lemma parse_uint_show_nat:
  assumes "n < bound"
  shows "parse_uint bound (show_nat n) = Some n"
proof -
  obtain c r where s: "show_nat n = c # r"
    by (cases "show_nat n") auto
  then have "c \<noteq> CHR ''+''"
    using show_nat_no_special(1) [of n] by auto
  then show ?thesis
    using assms s show_nat_digits [of n] digits_value_show_nat [of n]
    by (simp add: parse_uint_def)
qed

lemma parse_uint_bound: "parse_uint bound s = Some n \<Longrightarrow> n < bound"
  by (auto simp: parse_uint_def Let_def split: if_splits)

lemma show_nat_inject: "show_nat m = show_nat n \<longleftrightarrow> m = n"
  by (metis digits_value_show_nat)

lemma is_ascii_show_nat: "is_ascii (show_nat n)"
  using show_nat_digits [of n]
  by (auto simp: is_ascii_def list_all_iff is_ascii_digit_def)

section \<open>Hexadecimal encoding\<close>

definition hex_digit :: "nat \<Rightarrow> char" where
  "hex_digit d = (if d < 10 then char_of (48 + d) else char_of (87 + d))"

definition hex_value :: "char \<Rightarrow> nat option" where
  "hex_value c =
     (let k = code_of c in
      if 48 \<le> k \<and> k \<le> 57 then Some (k - 48)
      else if 97 \<le> k \<and> k \<le> 102 then Some (k - 97 + 10)
      else if 65 \<le> k \<and> k \<le> 70 then Some (k - 65 + 10)
      else None)"

fun hex_encode :: "u8 list \<Rightarrow> string" where
  "hex_encode [] = []"
| "hex_encode (b # bs) = hex_digit (unat b div 16) # hex_digit (unat b mod 16) # hex_encode bs"

fun hex_decode :: "string \<Rightarrow> u8 list option" where
  "hex_decode [] = Some []"
| "hex_decode [c] = None"
| "hex_decode (c # d # s) =
     (case (hex_value c, hex_value d) of
        (Some h, Some l) \<Rightarrow> map_option (\<lambda>r. word_of_nat (16 * h + l) # r) (hex_decode s)
      | _ \<Rightarrow> None)"

lemma hex_value_digit: "d < 16 \<Longrightarrow> hex_value (hex_digit d) = Some d"
  by (auto simp: hex_value_def hex_digit_def Let_def)

lemma hex_decode_encode: "hex_decode (hex_encode bs) = Some bs"
proof (induction bs)
  case Nil
  then show ?case by simp
next
  case (Cons b bs)
  have "unat b < 256"
    using unsigned_less [of b, where ?'a = nat] by simp
  then have "unat b div 16 < 16" and "unat b mod 16 < 16"
    by auto
  moreover have "16 * (unat b div 16) + unat b mod 16 = unat b"
    by simp
  ultimately show ?case
    by (simp add: Cons.IH hex_value_digit del: mult_div_mod_eq)
qed

lemma length_hex_encode: "length (hex_encode bs) = 2 * length bs"
  by (induction bs) auto

lemma hex_encode_chars: "c \<in> set (hex_encode bs) \<Longrightarrow> \<exists>d < 16. c = hex_digit d"
proof (induction bs)
  case Nil
  then show ?case by simp
next
  case (Cons b bs)
  have "unat b < 256"
    using unsigned_less [of b, where ?'a = nat] by simp
  then have "unat b div 16 < 16" and "unat b mod 16 < 16"
    by auto
  moreover have "c = hex_digit (unat b div 16) \<or> c = hex_digit (unat b mod 16) \<or>
      c \<in> set (hex_encode bs)"
    using Cons.prems by auto
  ultimately show ?case using Cons.IH by blast
qed

lemma hex_digit_no_special: "d < 16 \<Longrightarrow> hex_digit d \<noteq> CHR '' '' \<and> hex_digit d \<noteq> CHR '':''"
  using hex_value_digit [of d] by (auto simp: hex_value_def)

lemma hex_encode_no_space: "CHR '' '' \<notin> set (hex_encode bs)" "CHR '':'' \<notin> set (hex_encode bs)"
  using hex_encode_chars hex_digit_no_special by metis+

section \<open>Patterns and paths\<close>

text \<open>\<open>trim_start_matches\<close> and \<open>trim_end_matches\<close> strip every repetition of the pattern.\<close>

function trim_start_matches :: "string \<Rightarrow> string \<Rightarrow> string" where
  "trim_start_matches p s =
     (if p \<noteq> [] \<and> prefix p s then trim_start_matches p (drop (length p) s) else s)"
  by pat_completeness auto

termination
  by (relation "measure (\<lambda>(p, s). length s)") (auto simp: prefix_def)

declare trim_start_matches.simps [simp del]

definition trim_end_matches :: "string \<Rightarrow> string \<Rightarrow> string" where
  "trim_end_matches p s = rev (trim_start_matches (rev p) (rev s))"

text \<open>\<open>Path::join\<close>: an absolute path replaces the base.\<close>

definition path_join :: "string \<Rightarrow> string \<Rightarrow> string" where
  "path_join base rel =
     (if prefix ''/'' rel \<or> base = [] then rel
      else if suffix ''/'' base then base @ rel else base @ ''/'' @ rel)"

end
