(* ===== verification/Core_Types.thy ===== *)
theory Core_Types
  imports Rust_Strings "HOL-Library.List_Lexorder" "HOL-Library.Char_ord"
begin

text \<open>
  The data of \<open>oxibus-core\<close> (\<open>types.rs\<close>, \<open>error.rs\<close> and the name checks of \<open>lib.rs\<close>):
  the D-Bus types, self-describing values, object paths, signatures and the error type.
  The \<open>u16\<close>, \<open>u32\<close>, \<open>u64\<close> payloads of the signed integers are their two's complement
  bits (Rust's \<open>as\<close> casts between the signed and unsigned type are the identity on bits);
  a \<open>f64\<close> is the 64 bits that \<open>f64::to_bits\<close> gives.  The struct \<open>ArrayValue\<close> is inlined
  into the constructor \<open>VArray\<close> (its element type, then its elements).
\<close>

section \<open>Errors\<close>

datatype core_error =
    InvalidSignature string string
  | SignatureTooLong nat
  | NestingTooDeep nat nat
  | InvalidObjectPath string
  | InvalidUtf8
  | EmbeddedNul
  | UnexpectedEof nat nat
  | InvalidBoolean u32
  | ArrayTooLong nat
  | MessageTooLong nat u32
  | BadByteOrder u8
  | BadProtocolVersion u8
  | MissingHeaderField string
  | TypeMismatch string
  | FdIndexOutOfRange nat nat
  | TooManyFds nat u32
  | InvalidAddress string
  | IoError string

type_synonym 'a core_result = "core_error + 'a"

section \<open>Limits\<close>

definition MAX_ARRAY_DEPTH :: nat where "MAX_ARRAY_DEPTH = 32"
definition MAX_STRUCT_DEPTH :: nat where "MAX_STRUCT_DEPTH = 32"
definition MAX_SIGNATURE_LEN :: nat where "MAX_SIGNATURE_LEN = 255"
definition MAX_ARRAY_LEN :: nat where "MAX_ARRAY_LEN = 67108864"
definition DEFAULT_MAX_MESSAGE_LEN :: u32 where "DEFAULT_MAX_MESSAGE_LEN = 134217728"

section \<open>Types\<close>

datatype dtype =
    TByte | TBoolean | TInt16 | TUInt16 | TInt32 | TUInt32 | TInt64 | TUInt64 | TDouble
  | TString | TObjectPath | TSignature | TUnixFd
  | TArray dtype
  | TStruct "dtype list"
  | TDictEntry dtype dtype
  | TVariant

fun type_code :: "dtype \<Rightarrow> char" where
  "type_code TByte = CHR ''y''"
| "type_code TBoolean = CHR ''b''"
| "type_code TInt16 = CHR ''n''"
| "type_code TUInt16 = CHR ''q''"
| "type_code TInt32 = CHR ''i''"
| "type_code TUInt32 = CHR ''u''"
| "type_code TInt64 = CHR ''x''"
| "type_code TUInt64 = CHR ''t''"
| "type_code TDouble = CHR ''d''"
| "type_code TString = CHR ''s''"
| "type_code TObjectPath = CHR ''o''"
| "type_code TSignature = CHR ''g''"
| "type_code TUnixFd = CHR ''h''"
| "type_code (TArray _) = CHR ''a''"
| "type_code (TStruct _) = CHR ''(''"
| "type_code (TDictEntry _ _) = CHR ''{''"
| "type_code TVariant = CHR ''v''"

fun alignment :: "dtype \<Rightarrow> nat" where
  "alignment TByte = 1"
| "alignment TSignature = 1"
| "alignment TVariant = 1"
| "alignment TInt16 = 2"
| "alignment TUInt16 = 2"
| "alignment TBoolean = 4"
| "alignment TInt32 = 4"
| "alignment TUInt32 = 4"
| "alignment TUnixFd = 4"
| "alignment TString = 4"
| "alignment TObjectPath = 4"
| "alignment (TArray _) = 4"
| "alignment TInt64 = 8"
| "alignment TUInt64 = 8"
| "alignment TDouble = 8"
| "alignment (TStruct _) = 8"
| "alignment (TDictEntry _ _) = 8"

fun is_basic :: "dtype \<Rightarrow> bool" where
  "is_basic (TArray _) = False"
| "is_basic (TStruct _) = False"
| "is_basic (TDictEntry _ _) = False"
| "is_basic TVariant = False"
| "is_basic _ = True"

definition is_container :: "dtype \<Rightarrow> bool" where
  "is_container t = (\<not> is_basic t)"

text \<open>\<open>write_signature\<close> pushes onto the output string; the second argument is that string.\<close>

fun write_signature :: "dtype \<Rightarrow> string \<Rightarrow> string"
  and write_signatures :: "dtype list \<Rightarrow> string \<Rightarrow> string" where
  "write_signature (TArray elem) out = write_signature elem (out @ ''a'')"
| "write_signature (TStruct fields) out = write_signatures fields (out @ ''('') @ '')''"
| "write_signature (TDictEntry k v) out =
     write_signature v (write_signature k (out @ ''{'')) @ ''}''"
| "write_signature other out = out @ [type_code other]"
| "write_signatures [] out = out"
| "write_signatures (f # fs) out = write_signatures fs (write_signature f out)"

definition to_signature_string :: "dtype \<Rightarrow> string" where
  "to_signature_string t = write_signature t []"

lemma alignment_cases: "alignment t = 1 \<or> alignment t = 2 \<or> alignment t = 4 \<or> alignment t = 8"
  by (cases t) auto

lemma alignment_pos [simp]: "0 < alignment t"
  using alignment_cases [of t] by auto

text \<open>The string that is pushed, as a function of the type alone.\<close>

fun signature_of :: "dtype \<Rightarrow> string"
  and signatures_of :: "dtype list \<Rightarrow> string" where
  "signature_of (TArray elem) = CHR ''a'' # signature_of elem"
| "signature_of (TStruct fields) = CHR ''('' # signatures_of fields @ '')''"
| "signature_of (TDictEntry k v) = CHR ''{'' # signature_of k @ signature_of v @ ''}''"
| "signature_of other = [type_code other]"
| "signatures_of [] = []"
| "signatures_of (f # fs) = signature_of f @ signatures_of fs"

lemma write_signature_eq:
  "write_signature t out = out @ signature_of t"
  "write_signatures ts out = out @ signatures_of ts"
  by (induction t out and ts out rule: write_signature_write_signatures.induct) auto

lemma to_signature_string_eq: "to_signature_string t = signature_of t"
  by (simp add: to_signature_string_def write_signature_eq)

lemma signatures_of_eq: "signatures_of ts = concat (map to_signature_string ts)"
  by (induction ts) (simp_all add: to_signature_string_eq)

lemma to_signature_string_simps [simp]:
  "to_signature_string (TArray t) = CHR ''a'' # to_signature_string t"
  "to_signature_string (TStruct ts) =
     CHR ''('' # concat (map to_signature_string ts) @ '')''"
  "to_signature_string (TDictEntry k v) =
     CHR ''{'' # to_signature_string k @ to_signature_string v @ ''}''"
  "to_signature_string TVariant = ''v''"
  by (simp_all add: to_signature_string_eq signatures_of_eq)

lemma to_signature_string_basic: "is_basic t \<Longrightarrow> to_signature_string t = [type_code t]"
  by (cases t) (simp_all add: to_signature_string_eq)

lemma to_signature_string_Cons: "\<exists>s. to_signature_string t = type_code t # s"
  by (cases t) (simp_all add: to_signature_string_basic)

lemma to_signature_string_not_Nil [simp]: "to_signature_string t \<noteq> []"
  using to_signature_string_Cons [of t] by auto

section \<open>Object paths\<close>

text \<open>The newtype derives its order from \<open>String\<close>: lexicographic on the bytes.\<close>

datatype object_path = ObjectPath (path_str: string)

instantiation object_path :: linorder
begin

definition less_eq_object_path :: "object_path \<Rightarrow> object_path \<Rightarrow> bool" where
  "less_eq_object_path p q \<longleftrightarrow> path_str p \<le> path_str q"

definition less_object_path :: "object_path \<Rightarrow> object_path \<Rightarrow> bool" where
  "less_object_path p q \<longleftrightarrow> path_str p < path_str q"

instance
  by standard
    (auto simp: less_eq_object_path_def less_object_path_def object_path.expand)

end

definition path_char :: "char \<Rightarrow> bool" where
  "path_char c \<longleftrightarrow> is_ascii_alphanumeric c \<or> c = CHR ''_''"

definition valid_segment :: "string \<Rightarrow> bool" where
  "valid_segment seg \<longleftrightarrow> seg \<noteq> [] \<and> list_all path_char seg"

definition is_valid_object_path :: "string \<Rightarrow> bool" where
  "is_valid_object_path s =
     (if \<not> prefix ''/'' s then False
      else if s = ''/'' then True
      else if suffix ''/'' s then False
      else list_all valid_segment (split_on CHR ''/'' (drop 1 s)))"

definition object_path_new :: "string \<Rightarrow> object_path core_result" where
  "object_path_new s =
     (if \<not> is_valid_object_path s then Inl (InvalidObjectPath s) else Inr (ObjectPath s))"

definition is_within_namespace :: "object_path \<Rightarrow> string \<Rightarrow> bool" where
  "is_within_namespace p pre =
     (if pre = ''/'' then True
      else path_str p = pre \<or> prefix (pre @ ''/'') (path_str p))"

lemma path_char_not_slash [simp]: "\<not> path_char CHR ''/''" "\<not> path_char CHR 0x00"
  by (simp_all add: path_char_def)

lemma path_char_ascii: "path_char c \<Longrightarrow> code_of c < 128"
  by (auto simp: path_char_def dest: alphanumeric_ascii)

text \<open>The segments of a path: none for the root.\<close>

definition path_segments :: "string \<Rightarrow> string list" where
  "path_segments s = (if s = ''/'' then [] else split_on CHR ''/'' (drop 1 s))"

definition path_of_segments :: "string list \<Rightarrow> string" where
  "path_of_segments segs = (if segs = [] then ''/'' else CHR ''/'' # join_with CHR ''/'' segs)"

lemma valid_segment_no_slash: "valid_segment p \<Longrightarrow> CHR ''/'' \<notin> set p"
  by (auto simp: valid_segment_def list_all_iff)

lemma join_with_no_trailing:
  "\<forall>p\<in>set segs. p \<noteq> [] \<and> c \<notin> set p \<Longrightarrow> segs \<noteq> [] \<Longrightarrow> \<not> suffix [c] (join_with c segs)"
proof (induction c segs rule: join_with.induct)
  case (3 c p q ps)
  then have "\<not> suffix [c] (join_with c (q # ps))"
    by simp
  moreover have "join_with c (q # ps) \<noteq> []"
    using "3.prems" by (intro join_with_not_Nil [of q]) auto
  ultimately show ?case
    by (simp add: suffix_snoc_last)
qed (auto simp: suffix_def)

lemma is_valid_object_path_of_segments:
  assumes "list_all valid_segment segs"
  shows "is_valid_object_path (path_of_segments segs)"
proof (cases "segs = []")
  case True
  then show ?thesis by (simp add: is_valid_object_path_def path_of_segments_def)
next
  case False
  have all: "\<forall>p\<in>set segs. p \<noteq> [] \<and> CHR ''/'' \<notin> set p"
    using assms valid_segment_no_slash by (auto simp: list_all_iff valid_segment_def)
  then have "\<not> suffix ''/'' (join_with CHR ''/'' segs)"
    using False by (rule join_with_no_trailing)
  moreover have "join_with CHR ''/'' segs \<noteq> []"
    using all False by (intro join_with_not_Nil [of "hd segs"]) auto
  ultimately show ?thesis
    using False assms all split_on_join [of segs "CHR ''/''"]
    by (auto simp: is_valid_object_path_def path_of_segments_def suffix_Cons)
qed

lemma is_valid_object_path_iff:
  "is_valid_object_path s \<longleftrightarrow>
     (\<exists>segs. s = path_of_segments segs \<and> list_all valid_segment segs)"
proof
  assume v: "is_valid_object_path s"
  show "\<exists>segs. s = path_of_segments segs \<and> list_all valid_segment segs"
  proof (cases "s = ''/''")
    case True
    then show ?thesis by (intro exI [of _ "[]"]) (simp add: path_of_segments_def)
  next
    case False
    with v obtain r where "s = CHR ''/'' # r"
      by (auto simp: is_valid_object_path_def prefix_def split: if_splits)
    with v False show ?thesis
      by (intro exI [of _ "split_on CHR ''/'' r"])
        (auto simp: is_valid_object_path_def path_of_segments_def join_split_on split: if_splits)
  qed
qed (auto intro: is_valid_object_path_of_segments)

lemma path_segments_of_segments:
  assumes "list_all valid_segment segs"
  shows "path_segments (path_of_segments segs) = segs"
proof (cases "segs = []")
  case True
  then show ?thesis by (simp add: path_segments_def path_of_segments_def)
next
  case False
  have all: "\<forall>p\<in>set segs. p \<noteq> [] \<and> CHR ''/'' \<notin> set p"
    using assms valid_segment_no_slash by (auto simp: list_all_iff valid_segment_def)
  then have "join_with CHR ''/'' segs \<noteq> []"
    using False by (intro join_with_not_Nil [of "hd segs"]) auto
  then show ?thesis
    using False all by (auto simp: path_segments_def path_of_segments_def split_on_join)
qed

lemma valid_object_path_ascii: "is_valid_object_path s \<Longrightarrow> is_ascii s"
proof -
  assume v: "is_valid_object_path s"
  have "code_of c < 128" if c: "c \<in> set s" "s \<noteq> ''/''" for c
  proof (cases "c = CHR ''/''")
    case False
    from v c obtain r where s: "s = CHR ''/'' # r"
      and segs: "list_all valid_segment (split_on CHR ''/'' r)"
      by (auto simp: is_valid_object_path_def prefix_def split: if_splits)
    have "c \<in> set (join_with CHR ''/'' (split_on CHR ''/'' r))"
      using False c s by (simp add: join_split_on)
    then have "\<exists>p \<in> set (split_on CHR ''/'' r). c \<in> set p"
      using False by (rule join_with_member)
    then show ?thesis
      using segs by (auto simp: list_all_iff valid_segment_def dest: path_char_ascii)
  qed simp
  then show ?thesis
    by (cases "s = ''/''") (auto simp: is_ascii_def list_all_iff)
qed


lemma split_on_join_append:
  "ps \<noteq> [] \<Longrightarrow> \<forall>p\<in>set ps. c \<notin> set p \<Longrightarrow>
     split_on c (join_with c ps @ c # s) = ps @ split_on c s"
  by (induction c ps rule: join_with.induct) (auto simp: split_on_append)

lemma join_with_append:
  "ps \<noteq> [] \<Longrightarrow> qs \<noteq> [] \<Longrightarrow> join_with c (ps @ qs) = join_with c ps @ c # join_with c qs"
  by (induction c ps rule: join_with.induct) (auto simp: neq_Nil_conv)

lemma within_namespace_segments:
  assumes ps: "list_all valid_segment ps" and ns: "list_all valid_segment ns"
  shows "is_within_namespace (ObjectPath (path_of_segments ps)) (path_of_segments ns)
           \<longleftrightarrow> prefix ns ps"
proof (cases "ns = []")
  case True
  then show ?thesis by (simp add: is_within_namespace_def path_of_segments_def)
next
  case False
  have nsep: "\<forall>p\<in>set ns. CHR ''/'' \<notin> set p" and psep: "\<forall>p\<in>set ps. CHR ''/'' \<notin> set p"
    using ns ps valid_segment_no_slash by (auto simp: list_all_iff)
  have "join_with CHR ''/'' ns \<noteq> []"
    using False ns by (intro join_with_not_Nil [of "hd ns"]) (auto simp: list_all_iff valid_segment_def)
  then have nroot: "path_of_segments ns \<noteq> ''/''"
    using False by (simp add: path_of_segments_def)
  have same: "path_of_segments ps = path_of_segments ns \<longleftrightarrow> ps = ns"
    by (metis path_segments_of_segments ps ns)
  have below: "prefix (path_of_segments ns @ ''/'') (path_of_segments ps) \<longleftrightarrow>
      (\<exists>qs. qs \<noteq> [] \<and> ps = ns @ qs)"
  proof
    assume "prefix (path_of_segments ns @ ''/'') (path_of_segments ps)"
    then obtain r where r: "path_of_segments ps = path_of_segments ns @ CHR ''/'' # r"
      by (auto simp: prefix_def)
    then have "ps \<noteq> []"
      using False by (auto simp: path_of_segments_def)
    then have "split_on CHR ''/'' (join_with CHR ''/'' ps) = ns @ split_on CHR ''/'' r"
      using r False nsep by (simp add: path_of_segments_def split_on_join_append)
    then show "\<exists>qs. qs \<noteq> [] \<and> ps = ns @ qs"
      using \<open>ps \<noteq> []\<close> psep by (intro exI [of _ "split_on CHR ''/'' r"]) (simp add: split_on_join)
  next
    assume "\<exists>qs. qs \<noteq> [] \<and> ps = ns @ qs"
    then show "prefix (path_of_segments ns @ ''/'') (path_of_segments ps)"
      using False by (auto simp: path_of_segments_def join_with_append)
  qed
  show ?thesis
    using nroot same below by (auto simp: is_within_namespace_def prefix_def)
qed

section \<open>Signatures and values\<close>

datatype dsignature = Signature (sig_str: string)

definition signature_empty :: dsignature where
  "signature_empty = Signature []"

datatype dvalue =
    VByte u8 | VBoolean bool | VInt16 u16 | VUInt16 u16 | VInt32 u32 | VUInt32 u32
  | VInt64 u64 | VUInt64 u64 | VDouble u64 | VString string | VObjectPath object_path
  | VSignature dsignature | VUnixFd u32
  | VArray dtype "dvalue list"
  | VStruct "dvalue list"
  | VDictEntry dvalue dvalue
  | VVariant dvalue

fun value_type :: "dvalue \<Rightarrow> dtype" where
  "value_type (VByte _) = TByte"
| "value_type (VBoolean _) = TBoolean"
| "value_type (VInt16 _) = TInt16"
| "value_type (VUInt16 _) = TUInt16"
| "value_type (VInt32 _) = TInt32"
| "value_type (VUInt32 _) = TUInt32"
| "value_type (VInt64 _) = TInt64"
| "value_type (VUInt64 _) = TUInt64"
| "value_type (VDouble _) = TDouble"
| "value_type (VString _) = TString"
| "value_type (VObjectPath _) = TObjectPath"
| "value_type (VSignature _) = TSignature"
| "value_type (VUnixFd _) = TUnixFd"
| "value_type (VArray t _) = TArray t"
| "value_type (VStruct fields) = TStruct (map value_type fields)"
| "value_type (VDictEntry k v) = TDictEntry (value_type k) (value_type v)"
| "value_type (VVariant _) = TVariant"

fun value_as_str :: "dvalue \<Rightarrow> string option" where
  "value_as_str (VString s) = Some s"
| "value_as_str (VObjectPath p) = Some (path_str p)"
| "value_as_str (VSignature s) = Some (sig_str s)"
| "value_as_str _ = None"

fun value_as_u32 :: "dvalue \<Rightarrow> u32 option" where
  "value_as_u32 (VUInt32 v) = Some v"
| "value_as_u32 (VUnixFd v) = Some v"
| "value_as_u32 _ = None"

fun unwrap_variant :: "dvalue \<Rightarrow> dvalue" where
  "unwrap_variant (VVariant inner) = unwrap_variant inner"
| "unwrap_variant other = other"

lemma unwrap_variant_not_variant: "unwrap_variant v \<noteq> VVariant w"
  by (induction v rule: unwrap_variant.induct) auto

end
