(* ===== verification/Signature_Parser.thy ===== *)
theory Signature_Parser
  imports Core_Types
begin

text \<open>
  \<open>oxibus-core/src/signature.rs\<close>: the recursive-descent parser of type signatures with its
  depth counters, and \<open>Signature::new\<close> of \<open>types.rs\<close>.  The bytes of the input are the
  characters of the string.  The parser is total: each call of \<open>parse_one\<close> that succeeds has
  moved the position, which is the termination argument of the field loop.

  The result is an exact description of the accepted signatures: \<open>parse_signature\<close> returns
  \<open>ts\<close> on \<open>s\<close> iff \<open>ts\<close> is well formed (nesting limits, no empty struct, dict entries only as
  array elements and with basic keys), prints as \<open>s\<close>, and \<open>s\<close> has at most 255 bytes.
\<close>

record sig_parser =
  sp_bytes :: string
  sp_pos :: nat
  array_depth :: nat
  struct_depth :: nat

definition sp_peek :: "sig_parser \<Rightarrow> char option" where
  "sp_peek p = (if sp_pos p < length (sp_bytes p) then Some (sp_bytes p ! sp_pos p) else None)"

definition sp_advance :: "sig_parser \<Rightarrow> (char \<times> sig_parser) option" where
  "sp_advance p =
     (case sp_peek p of None \<Rightarrow> None | Some b \<Rightarrow> Some (b, p\<lparr>sp_pos := sp_pos p + 1\<rparr>))"

definition nesting_too_deep :: core_error where
  "nesting_too_deep = NestingTooDeep MAX_ARRAY_DEPTH MAX_STRUCT_DEPTH"

definition leaf_type :: "char \<Rightarrow> dtype option" where
  "leaf_type b =
     (if b = CHR ''y'' then Some TByte
      else if b = CHR ''b'' then Some TBoolean
      else if b = CHR ''n'' then Some TInt16
      else if b = CHR ''q'' then Some TUInt16
      else if b = CHR ''i'' then Some TInt32
      else if b = CHR ''u'' then Some TUInt32
      else if b = CHR ''x'' then Some TInt64
      else if b = CHR ''t'' then Some TUInt64
      else if b = CHR ''d'' then Some TDouble
      else if b = CHR ''s'' then Some TString
      else if b = CHR ''o'' then Some TObjectPath
      else if b = CHR ''g'' then Some TSignature
      else if b = CHR ''h'' then Some TUnixFd
      else if b = CHR ''v'' then Some TVariant
      else None)"

text \<open>
  The specification of a well-formed type below the given array and struct depths; the flag
  says whether a dict entry may stand here.
\<close>

fun wf_type :: "bool \<Rightarrow> nat \<Rightarrow> nat \<Rightarrow> dtype \<Rightarrow> bool" where
  "wf_type a ad sd (TArray t) \<longleftrightarrow> ad < MAX_ARRAY_DEPTH \<and> wf_type True (ad + 1) sd t"
| "wf_type a ad sd (TStruct ts) \<longleftrightarrow>
     sd < MAX_STRUCT_DEPTH \<and> ts \<noteq> [] \<and> (\<forall>t \<in> set ts. wf_type False ad (sd + 1) t)"
| "wf_type a ad sd (TDictEntry k v) \<longleftrightarrow>
     a \<and> sd < MAX_STRUCT_DEPTH \<and> is_basic k \<and> wf_type False ad (sd + 1) v"
| "wf_type a ad sd _ \<longleftrightarrow> True"

text \<open>The end of a dict entry: the closing brace, and the depth counter back.\<close>

definition close_dict_entry :: "dtype \<Rightarrow> dtype \<Rightarrow> sig_parser \<Rightarrow> (dtype \<times> sig_parser) core_result" where
  "close_dict_entry key val p =
     (case sp_advance p of
        Some (c, p') \<Rightarrow>
          if c = CHR ''}'' then
            Inr (TDictEntry key val, p'\<lparr>struct_depth := struct_depth p' - 1\<rparr>)
          else Inl (InvalidSignature [] (''unterminated dict-entry: missing '' @ single_quoted ''}''))
      | None \<Rightarrow>
          Inl (InvalidSignature [] (''unterminated dict-entry: missing '' @ single_quoted ''}'')))"

lemma close_dict_entry_Inr:
  "close_dict_entry key val p = Inr (t, p') \<longleftrightarrow>
     (\<exists>q. sp_advance p = Some (CHR ''}'', q) \<and> t = TDictEntry key val \<and>
          p' = q\<lparr>struct_depth := struct_depth q - 1\<rparr>)"
  by (auto simp: close_dict_entry_def split: option.splits)

function parse_one :: "bool \<Rightarrow> sig_parser \<Rightarrow> (dtype \<times> sig_parser) core_result"
  and parse_fields :: "sig_parser \<Rightarrow> dtype list \<Rightarrow> (dtype list \<times> sig_parser) core_result" where
  "parse_one allow_dict_entry p =
     (case sp_advance p of
        None \<Rightarrow> Inl (InvalidSignature [] ''unexpected end of signature'')
      | Some (b, p1) \<Rightarrow>
          (case leaf_type b of
             Some t \<Rightarrow> Inr (t, p1)
           | None \<Rightarrow>
               if b = CHR ''a'' then
                 let p2 = p1\<lparr>array_depth := array_depth p1 + 1\<rparr> in
                 if array_depth p2 > MAX_ARRAY_DEPTH then Inl nesting_too_deep
                 else and_then (parse_one True p2) (\<lambda>(elem, p3).
                        Inr (TArray elem, p3\<lparr>array_depth := array_depth p3 - 1\<rparr>))
               else if b = CHR ''('' then
                 let p2 = p1\<lparr>struct_depth := struct_depth p1 + 1\<rparr> in
                 if struct_depth p2 > MAX_STRUCT_DEPTH then Inl nesting_too_deep
                 else and_then (parse_fields p2 []) (\<lambda>(fs, p3).
                        if fs = [] then
                          Inl (InvalidSignature [] ''struct must have at least one field'')
                        else Inr (TStruct fs, p3\<lparr>struct_depth := struct_depth p3 - 1\<rparr>))
               else if b = CHR ''{'' then
                 if \<not> allow_dict_entry then
                   Inl (InvalidSignature [] (''dict-entry '' @ single_quoted ''{'' @ '' only allowed as an array element type''))
                 else
                   let p2 = p1\<lparr>struct_depth := struct_depth p1 + 1\<rparr> in
                   if struct_depth p2 > MAX_STRUCT_DEPTH then Inl nesting_too_deep
                   else and_then (parse_one False p2) (\<lambda>(key, p3).
                     if \<not> is_basic key then
                       Inl (InvalidSignature [] ''dict-entry key must be a basic type'')
                     else and_then (parse_one False p3) (\<lambda>(val, p4).
                       close_dict_entry key val p4))
               else if b = CHR '')'' \<or> b = CHR ''}'' then
                 Inl (InvalidSignature [] ''unexpected closing bracket'')
               else Inl (InvalidSignature [b] ''unknown type code'')))"
| "parse_fields p fs =
     (case sp_advance p of
        None \<Rightarrow> Inl (InvalidSignature [] (''unterminated struct: missing '' @ single_quoted '')''))
      | Some (b, p1) \<Rightarrow>
          if b = CHR '')'' then Inr (fs, p1)
          else and_then (parse_one False p) (\<lambda>(t, p'). parse_fields p' (fs @ [t])))"
  by pat_completeness auto

lemma sp_advance_Some:
  "sp_advance p = Some (b, p1) \<longleftrightarrow>
     sp_pos p < length (sp_bytes p) \<and> b = sp_bytes p ! sp_pos p \<and> p1 = p\<lparr>sp_pos := sp_pos p + 1\<rparr>"
  by (auto simp: sp_advance_def sp_peek_def)

definition reads :: "sig_parser \<Rightarrow> string \<Rightarrow> sig_parser \<Rightarrow> bool" where
  "reads p s p' \<longleftrightarrow>
     prefix s (drop (sp_pos p) (sp_bytes p)) \<and> p' = p\<lparr>sp_pos := sp_pos p + length s\<rparr>"

lemma reads_advance: "sp_advance p = Some (b, p1) \<longleftrightarrow> reads p [b] p1"
proof (cases "sp_pos p < length (sp_bytes p)")
  case True
  then have "drop (sp_pos p) (sp_bytes p) = sp_bytes p ! sp_pos p # drop (Suc (sp_pos p)) (sp_bytes p)"
    by (simp add: Cons_nth_drop_Suc)
  then show ?thesis
    using True by (auto simp: sp_advance_Some reads_def)
qed (simp add: sp_advance_Some reads_def)

lemma reads_append: "reads p s q \<Longrightarrow> reads q s' r \<Longrightarrow> reads p (s @ s') r"
  by (auto simp: reads_def prefix_def add.commute simp flip: drop_drop)

lemma reads_depth:
  "reads (p\<lparr>array_depth := ad\<rparr>) s q \<Longrightarrow> reads p s (q\<lparr>array_depth := array_depth p\<rparr>)"
  "reads (p\<lparr>struct_depth := sd\<rparr>) s q \<Longrightarrow> reads p s (q\<lparr>struct_depth := struct_depth p\<rparr>)"
  by (auto simp: reads_def)

lemma reads_keeps:
  "reads p s q \<Longrightarrow> sp_bytes q = sp_bytes p" "reads p s q \<Longrightarrow> array_depth q = array_depth p"
  "reads p s q \<Longrightarrow> struct_depth q = struct_depth p"
  "reads p s q \<Longrightarrow> sp_pos q = sp_pos p + length s"
  "reads p s q \<Longrightarrow> sp_pos q \<le> max (sp_pos p) (length (sp_bytes p))"
  by (auto simp: reads_def prefix_def dest!: arg_cong [where f = length])

lemma leaf_type_code: "leaf_type b = Some t \<Longrightarrow> signature_of t = [b] \<and> wf_type a ad sd t"
  by (auto simp: leaf_type_def split: if_splits)

text \<open>The ways in which \<open>parse_one\<close> returns, wherever it terminates.\<close>

lemma parse_one_dom_cases:
  assumes "parse_one_parse_fields_dom (Inl (a, p))" "parse_one a p = Inr (t, p')"
  obtains (leaf) b where "sp_advance p = Some (b, p')" "leaf_type b = Some t"
  | (array) p1 elem p3 where "sp_advance p = Some (CHR ''a'', p1)"
      "\<not> MAX_ARRAY_DEPTH < array_depth p1 + 1"
      "parse_one True (p1\<lparr>array_depth := array_depth p1 + 1\<rparr>) = Inr (elem, p3)"
      "t = TArray elem" "p' = p3\<lparr>array_depth := array_depth p3 - 1\<rparr>"
  | (struct) p1 fs p3 where "sp_advance p = Some (CHR ''('', p1)"
      "\<not> MAX_STRUCT_DEPTH < struct_depth p1 + 1"
      "parse_fields (p1\<lparr>struct_depth := struct_depth p1 + 1\<rparr>) [] = Inr (fs, p3)"
      "fs \<noteq> []" "t = TStruct fs" "p' = p3\<lparr>struct_depth := struct_depth p3 - 1\<rparr>"
  | (dict) p1 key p3 val p4 p5 where "sp_advance p = Some (CHR ''{'', p1)" a
      "\<not> MAX_STRUCT_DEPTH < struct_depth p1 + 1"
      "parse_one False (p1\<lparr>struct_depth := struct_depth p1 + 1\<rparr>) = Inr (key, p3)" "is_basic key"
      "parse_one False p3 = Inr (val, p4)" "sp_advance p4 = Some (CHR ''}'', p5)"
      "t = TDictEntry key val" "p' = p5\<lparr>struct_depth := struct_depth p5 - 1\<rparr>"
proof -
  note ok = assms(2) [unfolded parse_one.psimps [OF assms(1)]]
  from ok obtain b p1 where adv: "sp_advance p = Some (b, p1)"
    by (cases "sp_advance p") auto
  show thesis
  proof (cases "leaf_type b")
    case (Some l)
    with ok adv show thesis by (intro leaf [of b]) auto
  next
    case None
    consider "b = CHR ''a''" | "b = CHR ''(''" | "b = CHR ''{''"
      using ok adv None by (auto split: if_splits)
    then show thesis
      using ok adv None array [of p1] struct [of p1] dict [of p1]
      by cases (auto simp: Let_def result_simps close_dict_entry_Inr split: if_splits)
  qed
qed

lemma bracket_not_leaf [simp]:
  "leaf_type CHR ''a'' = None" "leaf_type CHR ''('' = None" "leaf_type CHR ''{'' = None"
  by (simp_all add: leaf_type_def)

text \<open>Reading past an opening bracket with a depth raised, then lowered again.\<close>

lemma reads_in_array:
  assumes "sp_advance p = Some (b, p1)" "reads (p1\<lparr>array_depth := array_depth p1 + 1\<rparr>) s q"
  shows "reads p (b # s) (q\<lparr>array_depth := array_depth q - 1\<rparr>)"
  using reads_append [OF assms(1) [unfolded reads_advance] reads_depth(1) [OF assms(2)]]
    reads_keeps(2) [OF assms(2)] by simp

lemma reads_in_struct:
  assumes "sp_advance p = Some (b, p1)" "reads (p1\<lparr>struct_depth := struct_depth p1 + 1\<rparr>) s q"
  shows "reads p (b # s) (q\<lparr>struct_depth := struct_depth q - 1\<rparr>)"
  using reads_append [OF assms(1) [unfolded reads_advance] reads_depth(2) [OF assms(2)]]
    reads_keeps(3) [OF assms(2)] by simp

text \<open>Soundness of both functions wherever they terminate.\<close>

lemma parse_sound_dom:
  "parse_one_parse_fields_dom (Inl (a, p)) \<Longrightarrow>
     parse_one a p = Inr (t, p') \<Longrightarrow>
     reads p (signature_of t) p' \<and> wf_type a (array_depth p) (struct_depth p) t"
  "parse_one_parse_fields_dom (Inr (p, fs)) \<Longrightarrow>
     parse_fields p fs = Inr (ts, p') \<Longrightarrow>
     (\<exists>new. ts = fs @ new \<and> reads p (signatures_of new @ '')'') p' \<and>
        (\<forall>t \<in> set new. wf_type False (array_depth p) (struct_depth p) t))"
proof (induction a p and p fs arbitrary: t p' and ts p' rule: parse_one_parse_fields.pinduct)
  case (1 a p)
  from "1.hyps" "1.prems" show ?case
  proof (cases rule: parse_one_dom_cases)
    case (leaf b)
    then show ?thesis by (simp add: reads_advance leaf_type_code)
  next
    case (array p1 elem p3)
    note kept = reads_keeps [OF array(1) [unfolded reads_advance]]
    from "1.IH"(1) [OF array(1) refl _ refl refl, simplified, OF array(2) [simplified] array(3) [simplified]]
    show ?thesis using reads_in_array [OF array(1)] array kept by auto
  next
    case (struct p1 fs p3)
    note kept = reads_keeps [OF struct(1) [unfolded reads_advance]]
    from "1.IH"(2) [OF struct(1) refl _ _ refl refl, simplified, OF struct(2) [simplified] struct(3) [simplified]]
    show ?thesis using reads_in_struct [OF struct(1)] struct kept by auto
  next
    case (dict p1 key p3 val p4 p5)
    note kept = reads_keeps [OF dict(1) [unfolded reads_advance]]
    from "1.IH"(3) [OF dict(1) refl _ _ _ refl _ refl, simplified,
        OF dict(2) dict(3) [simplified] dict(4) [simplified]]
    have key: "reads (p1\<lparr>struct_depth := struct_depth p1 + 1\<rparr>) (signature_of key) p3" by simp
    from "1.IH"(4) [OF dict(1) refl _ _ _ refl _ refl _ dict(4) refl, simplified,
        OF dict(2) dict(3) [simplified] dict(5,6)]
    have val: "reads p3 (signature_of val) p4" "wf_type False (array_depth p3) (struct_depth p3) val"
      by simp_all
    have "reads (p1\<lparr>struct_depth := struct_depth p1 + 1\<rparr>) (signature_of key @ signature_of val @ ''}'') p5"
      using reads_append [OF key reads_append [OF val(1)]] dict(7) by (simp add: reads_advance)
    then show ?thesis
      using reads_in_struct [OF dict(1)] dict val(2) kept reads_keeps [OF key] by auto
  qed
next
  case (2 p fs)
  note ok = "2.prems" [unfolded parse_fields.psimps [OF "2.hyps"]]
  from ok obtain b p1 where adv: "sp_advance p = Some (b, p1)"
    by (cases "sp_advance p") auto
  show ?case
  proof (cases "b = CHR '')''")
    case True
    with ok adv show ?thesis
      by (intro exI [of _ "[]"]) (auto simp: reads_advance)
  next
    case False
    with ok adv obtain t q where
      one: "parse_one False p = Inr (t, q)" and rest: "parse_fields q (fs @ [t]) = Inr (ts, p')"
      by (auto simp: result_simps)
    from "2.IH"(1) [OF adv refl False one]
    have r: "reads p (signature_of t) q" and w: "wf_type False (array_depth p) (struct_depth p) t"
      by simp_all
    from "2.IH"(2) [OF adv refl False one refl rest] show ?thesis
      using w reads_append [OF r] reads_keeps [OF r] by (force intro: exI [of _ "t # _"])
  qed
qed


lemma signature_of_length_pos: "0 < length (signature_of t)"
  by (simp flip: to_signature_string_eq)

lemma advance_smaller:
  "sp_advance p = Some (b, p1) \<Longrightarrow>
     sp_bytes p1 = sp_bytes p \<and> sp_pos p1 = Suc (sp_pos p) \<and> sp_pos p < length (sp_bytes p)"
  by (auto simp: sp_advance_Some)

lemma parse_one_dom_smaller:
  assumes "parse_one_parse_fields_dom (Inl (a, p))" and "parse_one a p = Inr (t, p')"
  shows "sp_bytes p' = sp_bytes p \<and> sp_pos p < sp_pos p'"
  using parse_sound_dom(1) [OF assms] signature_of_length_pos [of t] by (auto simp: reads_def)

lemma parse_all_dom: "All parse_one_parse_fields_dom"
  by (rule "parse_one_parse_fields.termination" [where R = "measure (case_sum
        (\<lambda>(a, p). 2 * (length (sp_bytes p) - sp_pos p))
        (\<lambda>(p, fs). 2 * (length (sp_bytes p) - sp_pos p) + 1))"])
    (auto dest!: advance_smaller parse_one_dom_smaller)

termination parse_one
  by (rule parse_all_dom)

declare parse_one.simps [simp del] parse_fields.simps [simp del]

lemma parse_one_sound:
  "parse_one a p = Inr (t, p') \<Longrightarrow>
     reads p (signature_of t) p' \<and> wf_type a (array_depth p) (struct_depth p) t"
  by (rule parse_sound_dom(1) [OF parse_all_dom [THEN spec]])

lemma parse_one_reads: "parse_one a p = Inr (t, p') \<Longrightarrow> reads p (signature_of t) p'"
  by (simp add: parse_one_sound)

text \<open>Completeness: a well-formed type whose signature stands at the position is read.\<close>

lemma leaf_type_type_code:
  "leaf_type (type_code t) =
     (case t of TArray _ \<Rightarrow> None | TStruct _ \<Rightarrow> None | TDictEntry _ _ \<Rightarrow> None | _ \<Rightarrow> Some t)"
  by (cases t) (simp_all add: leaf_type_def)

lemma signature_of_first: "\<exists>s. signature_of t = type_code t # s \<and> type_code t \<noteq> CHR '')''"
  by (cases t) simp_all

lemma reads_split:
  "reads p (s @ s') q \<Longrightarrow>
     reads p s (p\<lparr>sp_pos := sp_pos p + length s\<rparr>) \<and> reads (p\<lparr>sp_pos := sp_pos p + length s\<rparr>) s' q"
  by (auto simp: reads_def prefix_def add.commute simp flip: drop_drop)

lemma reads_Cons:
  "reads p (c # s) q \<Longrightarrow>
     sp_advance p = Some (c, p\<lparr>sp_pos := sp_pos p + 1\<rparr>) \<and> reads (p\<lparr>sp_pos := sp_pos p + 1\<rparr>) s q"
  using reads_split [of p "[c]" s q] by (simp add: reads_advance)

lemma reads_with_depth:
  "reads p s q \<Longrightarrow> reads (p\<lparr>array_depth := ad\<rparr>) s (q\<lparr>array_depth := ad\<rparr>)"
  "reads p s q \<Longrightarrow> reads (p\<lparr>struct_depth := sd\<rparr>) s (q\<lparr>struct_depth := sd\<rparr>)"
  by (auto simp: reads_def)

lemma parse_fields_complete:
  assumes "\<And>u p q. u \<in> set us \<Longrightarrow> reads p (signature_of u) q \<Longrightarrow>
      wf_type False (array_depth p) (struct_depth p) u \<Longrightarrow> parse_one False p = Inr (u, q)"
    and "reads p (signatures_of us @ '')'') q"
    and "\<forall>u \<in> set us. wf_type False (array_depth p) (struct_depth p) u"
  shows "parse_fields p fs = Inr (fs @ us, q)"
  using assms
proof (induction us arbitrary: fs p)
  case Nil
  then show ?case by (auto simp: parse_fields.simps [of p] dest!: reads_Cons) (auto simp: reads_def)
next
  case (Cons u us)
  obtain s where first: "signature_of u = type_code u # s" "type_code u \<noteq> CHR '')''"
    using signature_of_first by blast
  then obtain p1 where adv: "sp_advance p = Some (type_code u, p1)"
    using Cons.prems(2) by (auto dest!: reads_Cons)
  define q1 where "q1 = p\<lparr>sp_pos := sp_pos p + length (signature_of u)\<rparr>"
  from Cons.prems(2) have r1: "reads p (signature_of u) q1"
    and r2: "reads q1 (signatures_of us @ '')'') q"
    by (auto simp: q1_def dest!: reads_split)
  then have "parse_one False p = Inr (u, q1)"
    using Cons.prems(3) by (intro Cons.prems(1)) auto
  moreover have "parse_fields q1 (fs @ [u]) = Inr ((fs @ [u]) @ us, q)"
    using Cons.prems(1,3) r2 reads_keeps [OF r1] by (intro Cons.IH) auto
  ultimately show ?case
    using adv first by (simp add: parse_fields.simps [of p])
qed

lemma parse_one_complete:
  "reads p (signature_of t) q \<Longrightarrow> wf_type a (array_depth p) (struct_depth p) t \<Longrightarrow>
     parse_one a p = Inr (t, q)"
proof (induction t arbitrary: a p q)
  case (TArray t)
  define p1 where "p1 = p\<lparr>sp_pos := sp_pos p + 1\<rparr>"
  from TArray.prems have adv: "sp_advance p = Some (CHR ''a'', p1)" and r: "reads p1 (signature_of t) q"
    by (auto simp: p1_def dest!: reads_Cons)
  have "parse_one True (p1\<lparr>array_depth := array_depth p1 + 1\<rparr>) =
      Inr (t, q\<lparr>array_depth := array_depth p1 + 1\<rparr>)"
    using TArray.prems by (intro TArray.IH reads_with_depth r) (simp add: p1_def)
  then show ?case
    using TArray.prems adv reads_keeps(2) [OF r]
    by (simp add: parse_one.simps [of a p] p1_def)
next
  case (TStruct ts)
  define p1 where "p1 = p\<lparr>sp_pos := sp_pos p + 1\<rparr>"
  from TStruct.prems have adv: "sp_advance p = Some (CHR ''('', p1)"
    and r: "reads p1 (signatures_of ts @ '')'') q"
    by (auto simp: p1_def dest!: reads_Cons)
  have "parse_fields (p1\<lparr>struct_depth := struct_depth p1 + 1\<rparr>) [] =
      Inr ([] @ ts, q\<lparr>struct_depth := struct_depth p1 + 1\<rparr>)"
    using TStruct.prems
    by (intro parse_fields_complete TStruct.IH reads_with_depth r) (auto simp: p1_def)
  then show ?case
    using TStruct.prems adv reads_keeps(3) [OF r]
    by (simp add: parse_one.simps [of a p] p1_def)
next
  case (TDictEntry k v)
  define p1 where "p1 = p\<lparr>sp_pos := sp_pos p + 1\<rparr>"
  define p2 where "p2 = p1\<lparr>struct_depth := struct_depth p1 + 1\<rparr>"
  define p3 where "p3 = p2\<lparr>sp_pos := sp_pos p2 + length (signature_of k)\<rparr>"
  define p4 where "p4 = p3\<lparr>sp_pos := sp_pos p3 + length (signature_of v)\<rparr>"
  from TDictEntry.prems have adv: "sp_advance p = Some (CHR ''{'', p1)"
    and r: "reads p1 (signature_of k @ signature_of v @ ''}'') q"
    by (auto simp: p1_def dest!: reads_Cons)
  have d: "array_depth p1 = array_depth p" "struct_depth p1 = struct_depth p"
    by (simp_all add: p1_def)
  have "reads p2 (signature_of k @ signature_of v @ ''}'') (q\<lparr>struct_depth := struct_depth p1 + 1\<rparr>)"
    unfolding p2_def by (intro reads_with_depth r)
  then have rk: "reads p2 (signature_of k) p3" and rv: "reads p3 (signature_of v) p4"
    and rc: "reads p4 ''}'' (q\<lparr>struct_depth := struct_depth p1 + 1\<rparr>)"
    by (auto simp: p3_def p4_def dest!: reads_split)
  have wk: "wf_type b x y k" for b x y
    using TDictEntry.prems by (cases k) auto
  have "parse_one False p2 = Inr (k, p3)"
    using rk wk by (intro TDictEntry.IH)
  moreover have "parse_one False p3 = Inr (v, p4)"
    using rv TDictEntry.prems d by (intro TDictEntry.IH) (auto simp: p3_def p2_def)
  moreover have "close_dict_entry k v p4 = Inr (TDictEntry k v, q)"
    using rc reads_keeps(3) [OF r] by (auto simp: close_dict_entry_Inr reads_advance)
  moreover have a
    using TDictEntry.prems by simp
  moreover have "p1\<lparr>struct_depth := Suc (struct_depth p)\<rparr> = p2"
    by (simp add: p2_def d)
  ultimately show ?case
    using TDictEntry.prems adv d
    by (simp add: parse_one.simps [of True p] leaf_type_def Let_def)
qed (auto simp: parse_one.simps leaf_type_def dest!: reads_Cons, auto simp: reads_def)


section \<open>Whole signatures\<close>

function parse_types :: "sig_parser \<Rightarrow> dtype list \<Rightarrow> dtype list core_result" where
  "parse_types p out =
     (case sp_peek p of
        None \<Rightarrow> Inr out
      | Some _ \<Rightarrow> and_then (parse_one False p) (\<lambda>(t, p'). parse_types p' (out @ [t])))"
  by pat_completeness auto

lemma parse_one_smaller:
  "parse_one a p = Inr (t, p') \<Longrightarrow>
     sp_bytes p' = sp_bytes p \<and> sp_pos p < sp_pos p' \<and>
     length (sp_bytes p) - sp_pos p' < length (sp_bytes p) - sp_pos p"
proof -
  assume "parse_one a p = Inr (t, p')"
  then have r: "reads p (signature_of t) p'"
    by (rule parse_one_reads)
  then have "length (signature_of t) \<le> length (sp_bytes p) - sp_pos p"
    by (auto simp: reads_def dest: prefix_length_le)
  moreover have "p' = p\<lparr>sp_pos := sp_pos p + length (signature_of t)\<rparr>"
    using r by (simp add: reads_def)
  moreover note signature_of_length_pos [of t]
  ultimately show ?thesis
    by (simp del: length_greater_0_conv; linarith)
qed

lemma drop_after:
  assumes "drop n xs = s @ zs"
  shows "drop (n + length s) xs = zs"
proof -
  have "drop (length s) (drop n xs) = zs"
    using assms by simp
  then show ?thesis
    by (simp add: add.commute)
qed

termination parse_types
  by (relation "measure (\<lambda>(p, out). length (sp_bytes p) - sp_pos p)")
    (auto dest!: parse_one_smaller)

declare parse_types.simps [simp del]

definition parse_signature :: "string \<Rightarrow> dtype list core_result" where
  "parse_signature s =
     (if length s > MAX_SIGNATURE_LEN then Inl (SignatureTooLong (length s))
      else if \<not> is_ascii s then Inl (InvalidSignature s ''signature must be ASCII'')
      else parse_types \<lparr>sp_bytes = s, sp_pos = 0, array_depth = 0, struct_depth = 0\<rparr> [])"

definition parse_single_complete_type :: "string \<Rightarrow> dtype core_result" where
  "parse_single_complete_type s =
     and_then (parse_signature s) (\<lambda>types.
       if length types \<noteq> 1 then Inl (InvalidSignature s ''expected exactly one complete type'')
       else Inr (hd types))"

definition signature_new :: "string \<Rightarrow> dsignature core_result" where
  "signature_new s =
     (if length s > MAX_SIGNATURE_LEN then Inl (SignatureTooLong (length s))
      else and_then (parse_signature s) (\<lambda>_. Inr (Signature s)))"

definition signature_types :: "dsignature \<Rightarrow> dtype list core_result" where
  "signature_types sig = parse_signature (sig_str sig)"

lemma parse_types_sound:
  "parse_types p out = Inr ts \<Longrightarrow> array_depth p = 0 \<Longrightarrow> struct_depth p = 0 \<Longrightarrow>
     \<exists>new. ts = out @ new \<and> drop (sp_pos p) (sp_bytes p) = signatures_of new \<and>
       (\<forall>t \<in> set new. wf_type False 0 0 t)"
proof (induction p out rule: parse_types.induct)
  case (1 p out)
  show ?case
  proof (cases "sp_peek p")
    case None
    then show ?thesis
      using "1.prems" by (auto simp: parse_types.simps [of p] sp_peek_def split: if_splits)
  next
    case (Some b)
    then obtain t p' where one: "parse_one False p = Inr (t, p')"
      and rest: "parse_types p' (out @ [t]) = Inr ts"
      using "1.prems" by (auto simp: parse_types.simps [of p] result_simps)
    note s = parse_one_sound [OF one]
    then have k: "array_depth p' = 0" "struct_depth p' = 0"
      using "1.prems" by (auto simp: reads_def)
    from "1.IH" [OF Some one refl rest k] obtain new where
      "ts = (out @ [t]) @ new" "drop (sp_pos p') (sp_bytes p') = signatures_of new"
      "\<forall>t \<in> set new. wf_type False 0 0 t"
      by auto
    then show ?thesis
      using s "1.prems"
      by (intro exI [of _ "t # new"]) (auto simp: reads_def prefix_def drop_after)
  qed
qed

lemma parse_types_complete:
  "drop (sp_pos p) (sp_bytes p) = signatures_of ts \<Longrightarrow> array_depth p = 0 \<Longrightarrow>
     struct_depth p = 0 \<Longrightarrow> \<forall>t \<in> set ts. wf_type False 0 0 t \<Longrightarrow>
     parse_types p out = Inr (out @ ts)"
proof (induction ts arbitrary: p out)
  case Nil
  then show ?case by (simp add: parse_types.simps [of p] sp_peek_def)
next
  case (Cons t ts)
  define q where "q = p\<lparr>sp_pos := sp_pos p + length (signature_of t)\<rparr>"
  have r: "reads p (signature_of t) q"
    using Cons.prems by (simp add: reads_def q_def)
  then have one: "parse_one False p = Inr (t, q)"
    using Cons.prems by (intro parse_one_complete) auto
  have "parse_types q (out @ [t]) = Inr ((out @ [t]) @ ts)"
    using Cons.prems r
    by (intro Cons.IH) (auto simp: reads_def q_def drop_after)
  moreover have "sp_peek p \<noteq> None"
    using Cons.prems signature_of_length_pos [of t]
    by (cases "sp_pos p < length (sp_bytes p)") (auto simp: sp_peek_def)
  ultimately show ?case
    using one by (auto simp: parse_types.simps [of p])
qed

lemma type_code_ascii: "code_of (type_code t) < 128"
  by (cases t) auto

lemma is_ascii_Cons [simp]: "is_ascii (c # s) \<longleftrightarrow> code_of c < 128 \<and> is_ascii s"
  by (simp add: is_ascii_def)

lemma is_ascii_Nil [simp]: "is_ascii []"
  by (simp add: is_ascii_def)

lemma signature_of_ascii: "is_ascii (signature_of t)" "is_ascii (signatures_of ts)"
  by (induction t and ts rule: signature_of_signatures_of.induct) auto

text \<open>Signatures are uniquely decodable: no two lists of types print alike.\<close>

lemma type_code_not_close: "type_code t \<noteq> CHR '')''"
  by (cases t) simp_all

lemma signature_of_unique:
  "signature_of t @ xs = signature_of t' @ ys \<Longrightarrow> t = t' \<and> xs = ys"
proof (induction t arbitrary: t' xs ys)
  case (TArray t)
  then show ?case by (cases t') auto
next
  case (TStruct ts)
  have fields: "us = us' \<and> as = bs"
    if "signatures_of us @ CHR '')'' # as = signatures_of us' @ CHR '')'' # bs" "set us \<subseteq> set ts"
    for us us' as bs
    using that
  proof (induction us arbitrary: us')
    case Nil
    then show ?case
      using signature_of_first by (cases us') (auto, metis append_Cons list.inject signature_of_first)
  next
    case (Cons u us)
    show ?case
    proof (cases us')
      case Nil
      with Cons.prems show ?thesis
        by (metis append_Cons append_Nil append_assoc list.inject signature_of_first signatures_of.simps)
    next
      case (Cons w ws)
      with Cons.prems(1) have "u = w \<and> signatures_of us @ CHR '')'' # as = signatures_of ws @ CHR '')'' # bs"
        using Cons.prems(2) by (intro TStruct.IH) auto
      then show ?thesis
        using Cons.IH [of ws] Cons.prems(2) Cons by auto
    qed
  qed
  from TStruct.prems show ?case
    using fields [of ts] by (cases t') auto
next
  case (TDictEntry k v)
  from TDictEntry.prems show ?case
    by (cases t') (auto dest!: TDictEntry.IH)
qed (case_tac t'; auto)+

lemma signatures_of_inject: "signatures_of ts = signatures_of ts' \<longleftrightarrow> ts = ts'"
  using signature_of_unique [of "TStruct ts" "[]" "TStruct ts'" "[]"] by auto
definition wf_signature :: "dtype list \<Rightarrow> bool" where
  "wf_signature ts \<longleftrightarrow> (\<forall>t \<in> set ts. wf_type False 0 0 t)"

lemma parse_signature_eq:
  "parse_signature s = Inr ts \<longleftrightarrow>
     length s \<le> 255 \<and> s = concat (map to_signature_string ts) \<and> wf_signature ts"
proof
  assume "parse_signature s = Inr ts"
  then show "length s \<le> 255 \<and> s = concat (map to_signature_string ts) \<and> wf_signature ts"
    by (auto simp: parse_signature_def MAX_SIGNATURE_LEN_def wf_signature_def
        simp flip: signatures_of_eq dest!: parse_types_sound split: if_splits)
next
  assume "length s \<le> 255 \<and> s = concat (map to_signature_string ts) \<and> wf_signature ts"
  then show "parse_signature s = Inr ts"
    using signature_of_ascii(2) [of ts]
    by (auto simp: parse_signature_def MAX_SIGNATURE_LEN_def wf_signature_def
        parse_types_complete simp flip: signatures_of_eq)
qed

lemma parse_single_eq:
  "parse_single_complete_type s = Inr t \<longleftrightarrow>
     length s \<le> 255 \<and> s = to_signature_string t \<and> wf_type False 0 0 t"
  by (auto simp: parse_single_complete_type_def result_simps parse_signature_eq wf_signature_def
      length_Suc_conv split: if_splits)

lemma signature_new_eq:
  "signature_new s = Inr sig \<longleftrightarrow> sig = Signature s \<and> (\<exists>ts. parse_signature s = Inr ts)"
  by (auto simp: signature_new_def result_simps parse_signature_eq MAX_SIGNATURE_LEN_def)

end
