(* ===== verification/Marshal.thy ===== *)
theory Marshal
  imports Core_Types
begin

text \<open>
  \<open>oxibus-core/src/marshal.rs\<close>: writing values in the wire format.  A \<open>marshaler\<close> is the
  buffer written so far and the byte order; the operations return the updated marshaler, or
  the error (every caller drops the buffer of a failed write).  The writer of an array puts a
  zero where its length goes and patches it once the elements are written.

  The reference is \<open>enc\<close>, which gives the bytes a value contributes as a function of the
  offset alone, with no buffer and no patching; \<open>write_value_enc\<close> shows that the writer
  appends exactly those bytes, or fails with the same error.
\<close>

record marshaler =
  buf :: "u8 list"
  big_endian :: bool

definition marshaler_new :: "bool \<Rightarrow> marshaler" where
  "marshaler_new be = \<lparr>buf = [], big_endian = be\<rparr>"

definition m_pos :: "marshaler \<Rightarrow> nat" where
  "m_pos m = length (buf m)"

definition push_bytes :: "u8 list \<Rightarrow> marshaler \<Rightarrow> marshaler" where
  "push_bytes bs m = m\<lparr>buf := buf m @ bs\<rparr>"

definition m_align :: "nat \<Rightarrow> marshaler \<Rightarrow> marshaler" where
  "m_align n m =
     (let rem = length (buf m) mod n
      in if rem \<noteq> 0 then m\<lparr>buf := buf m @ replicate (n - rem) 0\<rparr> else m)"

definition word_bytes :: "bool \<Rightarrow> 'a::len word \<Rightarrow> u8 list" where
  "word_bytes be v = (if be then to_be_bytes v else to_le_bytes v)"

definition write_u8 :: "u8 \<Rightarrow> marshaler \<Rightarrow> marshaler" where
  "write_u8 v m = push_bytes [v] m"

definition write_u16 :: "u16 \<Rightarrow> marshaler \<Rightarrow> marshaler" where
  "write_u16 v m = (let m' = m_align 2 m in push_bytes (word_bytes (big_endian m') v) m')"

definition write_u32 :: "u32 \<Rightarrow> marshaler \<Rightarrow> marshaler" where
  "write_u32 v m = (let m' = m_align 4 m in push_bytes (word_bytes (big_endian m') v) m')"

definition write_u64 :: "u64 \<Rightarrow> marshaler \<Rightarrow> marshaler" where
  "write_u64 v m = (let m' = m_align 8 m in push_bytes (word_bytes (big_endian m') v) m')"

text \<open>The slice copy of \<open>patch_u32\<close>; its callers patch four bytes that are there.\<close>

definition patch_u32 :: "nat \<Rightarrow> u32 \<Rightarrow> marshaler \<Rightarrow> marshaler" where
  "patch_u32 at v m =
     m\<lparr>buf := take at (buf m) @ word_bytes (big_endian m) v @ drop (at + 4) (buf m)\<rparr>"

definition write_raw_string :: "string \<Rightarrow> marshaler \<Rightarrow> marshaler core_result" where
  "write_raw_string s m =
     (if 0 \<in> set (as_bytes s) then Inl EmbeddedNul
      else Inr (push_bytes [0] (push_bytes (as_bytes s) (write_u32 (word_of_nat (length s)) m))))"

definition write_signature_str :: "string \<Rightarrow> marshaler \<Rightarrow> marshaler core_result" where
  "write_signature_str s m =
     (if length s > MAX_SIGNATURE_LEN then Inl (SignatureTooLong (length s))
      else Inr (push_bytes [0] (push_bytes (as_bytes s) (push_bytes [word_of_nat (length s)] m))))"

text \<open>The end of an array: its byte length is checked and patched in.\<close>

definition close_array :: "nat \<Rightarrow> nat \<Rightarrow> marshaler \<Rightarrow> marshaler core_result" where
  "close_array len_pos start m =
     (let byte_len = m_pos m - start
      in if byte_len > MAX_ARRAY_LEN then Inl (ArrayTooLong byte_len)
         else Inr (patch_u32 len_pos (word_of_nat byte_len) m))"

fun write_value :: "dvalue \<Rightarrow> marshaler \<Rightarrow> marshaler core_result"
  and write_values :: "dvalue list \<Rightarrow> marshaler \<Rightarrow> marshaler core_result" where
  "write_value (VByte v) m = Inr (write_u8 v m)"
| "write_value (VBoolean v) m = Inr (write_u32 (if v then 1 else 0) m)"
| "write_value (VInt16 v) m = Inr (write_u16 v m)"
| "write_value (VUInt16 v) m = Inr (write_u16 v m)"
| "write_value (VInt32 v) m = Inr (write_u32 v m)"
| "write_value (VUInt32 v) m = Inr (write_u32 v m)"
| "write_value (VInt64 v) m = Inr (write_u64 v m)"
| "write_value (VUInt64 v) m = Inr (write_u64 v m)"
| "write_value (VDouble v) m = Inr (write_u64 v m)"
| "write_value (VString s) m = write_raw_string s m"
| "write_value (VObjectPath p) m = write_raw_string (path_str p) m"
| "write_value (VSignature sig) m = write_signature_str (sig_str sig) m"
| "write_value (VUnixFd idx) m = Inr (write_u32 idx m)"
| "write_value (VArray t vs) m =
     (let m1 = m_align 4 m;
          len_pos = m_pos m1;
          m2 = m_align (alignment t) (write_u32 0 m1);
          start = m_pos m2
      in and_then (write_values vs m2) (close_array len_pos start))"
| "write_value (VStruct fs) m = write_values fs (m_align 8 m)"
| "write_value (VDictEntry k v) m = and_then (write_value k (m_align 8 m)) (write_value v)"
| "write_value (VVariant inner) m =
     and_then (write_signature_str (to_signature_string (value_type inner)) m) (write_value inner)"
| "write_values [] m = Inr m"
| "write_values (v # vs) m = and_then (write_value v m) (write_values vs)"

definition marshal_body :: "dvalue list \<Rightarrow> bool \<Rightarrow> (u8 list \<times> string) core_result" where
  "marshal_body values be =
     and_then (write_values values (marshaler_new be)) (\<lambda>m.
       Inr (buf m, concat (map (\<lambda>v. to_signature_string (value_type v)) values)))"


section \<open>The reference encoding\<close>

definition padding :: "nat \<Rightarrow> nat \<Rightarrow> nat" where
  "padding a n = (if n mod a = 0 then 0 else a - n mod a)"

definition pad :: "nat \<Rightarrow> nat \<Rightarrow> u8 list" where
  "pad a n = replicate (padding a n) 0"

definition enc_word :: "bool \<Rightarrow> nat \<Rightarrow> 'a::len word \<Rightarrow> u8 list" where
  "enc_word be n v = pad (LENGTH('a) div 8) n @ word_bytes be v"

definition enc_string :: "bool \<Rightarrow> nat \<Rightarrow> string \<Rightarrow> u8 list core_result" where
  "enc_string be n s =
     (if 0 \<in> set (as_bytes s) then Inl EmbeddedNul
      else Inr (enc_word be n (word_of_nat (length s) :: u32) @ as_bytes s @ [0]))"

definition enc_signature :: "string \<Rightarrow> u8 list core_result" where
  "enc_signature s =
     (if length s > MAX_SIGNATURE_LEN then Inl (SignatureTooLong (length s))
      else Inr (word_of_nat (length s) # as_bytes s @ [0]))"

definition array_start :: "dtype \<Rightarrow> nat \<Rightarrow> nat" where
  "array_start t n =
     (let n' = n + padding 4 n + 4 in n' + padding (alignment t) n')"

definition enc_array :: "bool \<Rightarrow> nat \<Rightarrow> dtype \<Rightarrow> u8 list \<Rightarrow> u8 list core_result" where
  "enc_array be n t elems =
     (if length elems > MAX_ARRAY_LEN then Inl (ArrayTooLong (length elems))
      else Inr (enc_word be n (word_of_nat (length elems) :: u32) @
                pad (alignment t) (n + padding 4 n + 4) @ elems))"

fun enc :: "bool \<Rightarrow> nat \<Rightarrow> dvalue \<Rightarrow> u8 list core_result"
  and enc_seq :: "bool \<Rightarrow> nat \<Rightarrow> dvalue list \<Rightarrow> u8 list core_result" where
  "enc be n (VByte v) = Inr [v]"
| "enc be n (VBoolean v) = Inr (enc_word be n (if v then 1 else 0 :: u32))"
| "enc be n (VInt16 v) = Inr (enc_word be n v)"
| "enc be n (VUInt16 v) = Inr (enc_word be n v)"
| "enc be n (VInt32 v) = Inr (enc_word be n v)"
| "enc be n (VUInt32 v) = Inr (enc_word be n v)"
| "enc be n (VInt64 v) = Inr (enc_word be n v)"
| "enc be n (VUInt64 v) = Inr (enc_word be n v)"
| "enc be n (VDouble v) = Inr (enc_word be n v)"
| "enc be n (VString s) = enc_string be n s"
| "enc be n (VObjectPath p) = enc_string be n (path_str p)"
| "enc be n (VSignature sig) = enc_signature (sig_str sig)"
| "enc be n (VUnixFd idx) = Inr (enc_word be n idx)"
| "enc be n (VArray t vs) = and_then (enc_seq be (array_start t n) vs) (enc_array be n t)"
| "enc be n (VStruct fs) =
     and_then (enc_seq be (n + padding 8 n) fs) (\<lambda>s. Inr (pad 8 n @ s))"
| "enc be n (VDictEntry k v) =
     and_then (enc be (n + padding 8 n) k) (\<lambda>s1.
     and_then (enc be (n + padding 8 n + length s1) v) (\<lambda>s2. Inr (pad 8 n @ s1 @ s2)))"
| "enc be n (VVariant inner) =
     and_then (enc_signature (to_signature_string (value_type inner))) (\<lambda>s1.
     and_then (enc be (n + length s1) inner) (\<lambda>s2. Inr (s1 @ s2)))"
| "enc_seq be n [] = Inr []"
| "enc_seq be n (v # vs) =
     and_then (enc be n v) (\<lambda>s1.
     and_then (enc_seq be (n + length s1) vs) (\<lambda>s2. Inr (s1 @ s2)))"

section \<open>The writer against the reference\<close>

lemma length_pad [simp]: "length (pad a n) = padding a n"
  by (simp add: pad_def)

lemma length_word_bytes [simp]: "length (word_bytes be (v :: 'a::len word)) = LENGTH('a) div 8"
  by (simp add: word_bytes_def)

lemma length_enc_word [simp]:
  "length (enc_word be n (v :: 'a::len word)) = padding (LENGTH('a) div 8) n + LENGTH('a) div 8"
  by (simp add: enc_word_def)

lemma m_align_push: "m_align a m = push_bytes (pad a (length (buf m))) m"
  by (simp add: m_align_def push_bytes_def pad_def padding_def Let_def)

lemma push_bytes_simps [simp]:
  "buf (push_bytes bs m) = buf m @ bs" "big_endian (push_bytes bs m) = big_endian m"
  "push_bytes bs (push_bytes as m) = push_bytes (as @ bs) m"
  "push_bytes [] m = m"
  by (simp_all add: push_bytes_def)

lemma padding_idem [simp]: "0 < a \<Longrightarrow> padding a (n + padding a n) = 0"
proof (cases "n mod a = 0")
  case False
  assume "0 < a"
  then have "n mod a < a"
    by simp
  then have "n + (a - n mod a) = n div a * a + a"
    using div_mult_mod_eq [of n a] by linarith
  then show ?thesis
    using False by (simp add: padding_def)
qed (simp add: padding_def)

lemma write_word_push [simp]:
  "write_u8 b m = push_bytes [b] m"
  "write_u16 w16 m = push_bytes (enc_word (big_endian m) (length (buf m)) w16) m"
  "write_u32 w32 m = push_bytes (enc_word (big_endian m) (length (buf m)) w32) m"
  "write_u64 w64 m = push_bytes (enc_word (big_endian m) (length (buf m)) w64) m"
  by (simp_all add: write_u8_def write_u16_def write_u32_def write_u64_def m_align_push
      enc_word_def Let_def)

lemma write_raw_string_enc:
  "write_raw_string s m =
     and_then (enc_string (big_endian m) (length (buf m)) s) (\<lambda>bs. Inr (push_bytes bs m))"
  by (simp add: write_raw_string_def enc_string_def)

lemma write_signature_enc:
  "write_signature_str s m = and_then (enc_signature s) (\<lambda>bs. Inr (push_bytes bs m))"
  by (simp add: write_signature_str_def enc_signature_def)

lemma close_array_enc:
  assumes "m1 = m_align 4 m"
    and "m2 = m_align (alignment t) (write_u32 0 m1)"
  shows "close_array (m_pos m1) (m_pos m2) (push_bytes elems m2) =
     and_then (enc_array (big_endian m) (length (buf m)) t elems) (\<lambda>bs. Inr (push_bytes bs m))"
proof -
  have "padding 4 (length (buf m) + padding 4 (length (buf m))) = 0"
    by simp
  then have none: "pad 4 (length (buf m) + padding 4 (length (buf m))) = []"
    by (simp add: pad_def)
  show ?thesis
    unfolding assms
    by (simp add: close_array_def m_pos_def Let_def m_align_push enc_array_def patch_u32_def
        push_bytes_def enc_word_def none add.assoc)
qed

lemma write_value_enc:
  "write_value v m =
     and_then (enc (big_endian m) (length (buf m)) v) (\<lambda>bs. Inr (push_bytes bs m))"
  "write_values vs m =
     and_then (enc_seq (big_endian m) (length (buf m)) vs) (\<lambda>bs. Inr (push_bytes bs m))"
proof (induction v m and vs m rule: write_value_write_values.induct)
  case (14 t vs m)
  define m1 where "m1 = m_align 4 m"
  define m2 where "m2 = m_align (alignment t) (write_u32 0 m1)"
  have "write_values vs m2 =
      and_then (enc_seq (big_endian m2) (length (buf m2)) vs) (\<lambda>bs. Inr (push_bytes bs m2))"
    using "14" by (simp add: m1_def m2_def)
  moreover have "big_endian m2 = big_endian m" "length (buf m2) = array_start t (length (buf m))"
    by (simp_all add: m1_def m2_def m_align_push array_start_def Let_def add.assoc)
  ultimately have "write_values vs m2 =
      and_then (enc_seq (big_endian m) (array_start t (length (buf m))) vs) (\<lambda>bs. Inr (push_bytes bs m2))"
    by simp
  moreover have "write_value (VArray t vs) m =
      and_then (write_values vs m2) (close_array (m_pos m1) (m_pos m2))"
    by (simp add: m1_def m2_def Let_def del: write_word_push)
  ultimately show ?case
    by (simp add: and_then_def close_array_enc [OF m1_def m2_def] split: sum.splits)
next
  case (15 fs m)
  then show ?case
    by (simp add: m_align_push and_then_def split: sum.splits)
next
  case (16 k v m)
  then show ?case
    by (auto simp add: m_align_push and_then_def add.assoc split: sum.splits)
next
  case (17 inner m)
  then show ?case
    by (auto simp: write_signature_enc and_then_def split: sum.splits)
next
  case (19 v vs m)
  then show ?case
    by (auto simp: and_then_def split: sum.splits)
qed (simp_all add: write_raw_string_enc write_signature_enc)

lemma enc_seq_append:
  "enc_seq be n (vs @ ws) =
     and_then (enc_seq be n vs) (\<lambda>s1.
     and_then (enc_seq be (n + length s1) ws) (\<lambda>s2. Inr (s1 @ s2)))"
proof (induction vs arbitrary: n)
  case Nil
  then show ?case by (cases "enc_seq be n ws") simp_all
next
  case (Cons v vs)
  then show ?case by (auto simp: and_then_def add.assoc split: sum.splits)
qed

end
