(* ===== verification/Unmarshal.thy ===== *)
theory Unmarshal
  imports Signature_Parser Marshal
begin

text \<open>
  \<open>oxibus-core/src/unmarshal.rs\<close>: reading values from wire bytes.  Every read returns the
  unmarshaler with its position moved, or the error.  The element loop of an array and the
  nesting of variants are not bounded by the type, so \<open>read_value\<close> takes fuel, counted down
  once per array element and once per variant; \<open>None\<close> is "out of fuel".  \<open>read_value_total\<close>
  shows that the number of bytes left is enough fuel for every type a signature can denote
  (an element of such a type takes at least one byte), and \<open>read_value_mono\<close> that the result
  does not depend on the fuel once there is enough.  The code recurses into variants without a
  limit on their depth; the exhaustion of its stack is not an outcome here.
\<close>

record unmarshaler =
  u_buf :: "u8 list"
  u_pos :: nat
  u_big_endian :: bool

definition unmarshaler_new :: "u8 list \<Rightarrow> bool \<Rightarrow> unmarshaler" where
  "unmarshaler_new bs be = \<lparr>u_buf = bs, u_pos = 0, u_big_endian = be\<rparr>"

definition need :: "nat \<Rightarrow> unmarshaler \<Rightarrow> unit core_result" where
  "need n u =
     (if u_pos u + n > length (u_buf u) then Inl (UnexpectedEof n (length (u_buf u) - u_pos u))
      else Inr ())"

definition u_skip :: "nat \<Rightarrow> unmarshaler \<Rightarrow> unmarshaler" where
  "u_skip n u = u\<lparr>u_pos := u_pos u + n\<rparr>"

definition u_slice :: "nat \<Rightarrow> unmarshaler \<Rightarrow> u8 list" where
  "u_slice n u = take n (drop (u_pos u) (u_buf u))"

definition u_align :: "nat \<Rightarrow> unmarshaler \<Rightarrow> unmarshaler core_result" where
  "u_align n u =
     (let rem = u_pos u mod n
      in if rem \<noteq> 0 then
           let pad = n - rem in and_then (need pad u) (\<lambda>_. Inr (u_skip pad u))
         else Inr u)"

definition word_of_bytes :: "bool \<Rightarrow> u8 list \<Rightarrow> 'a::len word" where
  "word_of_bytes be bs = (if be then from_be_bytes bs else from_le_bytes bs)"

definition read_u8 :: "unmarshaler \<Rightarrow> (u8 \<times> unmarshaler) core_result" where
  "read_u8 u = and_then (need 1 u) (\<lambda>_. Inr (u_buf u ! u_pos u, u_skip 1 u))"

definition read_u16 :: "unmarshaler \<Rightarrow> (u16 \<times> unmarshaler) core_result" where
  "read_u16 u0 =
     and_then (u_align 2 u0) (\<lambda>u.
     and_then (need 2 u) (\<lambda>_.
       Inr (word_of_bytes (u_big_endian u) (u_slice 2 u), u_skip 2 u)))"

definition read_u32 :: "unmarshaler \<Rightarrow> (u32 \<times> unmarshaler) core_result" where
  "read_u32 u0 =
     and_then (u_align 4 u0) (\<lambda>u.
     and_then (need 4 u) (\<lambda>_.
       Inr (word_of_bytes (u_big_endian u) (u_slice 4 u), u_skip 4 u)))"

definition read_u64 :: "unmarshaler \<Rightarrow> (u64 \<times> unmarshaler) core_result" where
  "read_u64 u0 =
     and_then (u_align 8 u0) (\<lambda>u.
     and_then (need 8 u) (\<lambda>_.
       Inr (word_of_bytes (u_big_endian u) (u_slice 8 u), u_skip 8 u)))"

definition read_raw_string :: "unmarshaler \<Rightarrow> (string \<times> unmarshaler) core_result" where
  "read_raw_string u0 =
     and_then (read_u32 u0) (\<lambda>(w, u). let len = unat w in
     and_then (need (len + 1) u) (\<lambda>_. let s = str_of_bytes (u_slice len u) in
       if \<not> valid_utf8 s then Inl InvalidUtf8
       else if u_buf u ! (u_pos u + len) \<noteq> 0 then
         Inl (InvalidSignature s ''string not NUL-terminated'')
       else Inr (s, u_skip (len + 1) u)))"

definition read_signature_str :: "unmarshaler \<Rightarrow> (string \<times> unmarshaler) core_result" where
  "read_signature_str u0 =
     and_then (read_u8 u0) (\<lambda>(w, u). let len = unat w in
     and_then (need (len + 1) u) (\<lambda>_. let s = str_of_bytes (u_slice len u) in
       if \<not> valid_utf8 s then Inl InvalidUtf8
       else if u_buf u ! (u_pos u + len) \<noteq> 0 then
         Inl (InvalidSignature s ''signature not NUL-terminated'')
       else Inr (s, u_skip (len + 1) u)))"

text \<open>The types whose values are read without a loop.\<close>

fun read_basic :: "dtype \<Rightarrow> unmarshaler \<Rightarrow> (dvalue \<times> unmarshaler) core_result" where
  "read_basic TByte u = and_then (read_u8 u) (\<lambda>(v, u). Inr (VByte v, u))"
| "read_basic TBoolean u =
     and_then (read_u32 u) (\<lambda>(raw, u).
       if raw = 0 then Inr (VBoolean False, u)
       else if raw = 1 then Inr (VBoolean True, u)
       else Inl (InvalidBoolean raw))"
| "read_basic TInt16 u = and_then (read_u16 u) (\<lambda>(v, u). Inr (VInt16 v, u))"
| "read_basic TUInt16 u = and_then (read_u16 u) (\<lambda>(v, u). Inr (VUInt16 v, u))"
| "read_basic TInt32 u = and_then (read_u32 u) (\<lambda>(v, u). Inr (VInt32 v, u))"
| "read_basic TUInt32 u = and_then (read_u32 u) (\<lambda>(v, u). Inr (VUInt32 v, u))"
| "read_basic TInt64 u = and_then (read_u64 u) (\<lambda>(v, u). Inr (VInt64 v, u))"
| "read_basic TUInt64 u = and_then (read_u64 u) (\<lambda>(v, u). Inr (VUInt64 v, u))"
| "read_basic TDouble u = and_then (read_u64 u) (\<lambda>(v, u). Inr (VDouble v, u))"
| "read_basic TString u = and_then (read_raw_string u) (\<lambda>(s, u). Inr (VString s, u))"
| "read_basic TObjectPath u =
     and_then (read_raw_string u) (\<lambda>(s, u).
       if \<not> is_valid_object_path s then Inl (InvalidObjectPath s)
       else Inr (VObjectPath (ObjectPath s), u))"
| "read_basic TSignature u =
     and_then (read_signature_str u) (\<lambda>(s, u).
     and_then (signature_new s) (\<lambda>sig. Inr (VSignature sig, u)))"
| "read_basic TUnixFd u = and_then (read_u32 u) (\<lambda>(v, u). Inr (VUnixFd v, u))"
| "read_basic _ u = Inl (TypeMismatch ''not a basic type'')"

text \<open>The head of an array: its byte length, and the position of its first element.\<close>

definition read_array_head :: "dtype \<Rightarrow> unmarshaler \<Rightarrow> (nat \<times> unmarshaler) core_result" where
  "read_array_head t u0 =
     and_then (read_u32 u0) (\<lambda>(w, u). let byte_len = unat w in
       if byte_len > MAX_ARRAY_LEN then Inl (ArrayTooLong byte_len)
       else and_then (u_align (alignment t) u) (\<lambda>u.
            and_then (need byte_len u) (\<lambda>_. Inr (u_pos u + byte_len, u))))"

definition read_variant_head :: "unmarshaler \<Rightarrow> (dtype \<times> unmarshaler) core_result" where
  "read_variant_head u =
     and_then (read_signature_str u) (\<lambda>(s, u).
     and_then (parse_single_complete_type s) (\<lambda>t. Inr (t, u)))"

fun read_value :: "nat \<Rightarrow> dtype \<Rightarrow> unmarshaler \<Rightarrow> (dvalue \<times> unmarshaler) core_result option"
  and read_elems :: "nat \<Rightarrow> dtype \<Rightarrow> nat \<Rightarrow> dvalue list \<Rightarrow> unmarshaler \<Rightarrow>
                       (dvalue list \<times> unmarshaler) core_result option"
  and read_values :: "nat \<Rightarrow> dtype list \<Rightarrow> unmarshaler \<Rightarrow> (dvalue list \<times> unmarshaler) core_result option"
where
  "read_value fuel (TArray t) u =
     fuel_then (Some (read_array_head t u)) (\<lambda>(stop, u1).
     fuel_then (read_elems fuel t stop [] u1) (\<lambda>(vs, u2).
       if u_pos u2 \<noteq> stop then
         Some (Inl (InvalidSignature [] ''array element did not end on declared boundary''))
       else Some (Inr (VArray t vs, u2))))"
| "read_value fuel (TStruct ts) u =
     fuel_then (Some (u_align 8 u)) (\<lambda>u1.
     fuel_then (read_values fuel ts u1) (\<lambda>(vs, u2). Some (Inr (VStruct vs, u2))))"
| "read_value fuel (TDictEntry k_ty v_ty) u =
     fuel_then (Some (u_align 8 u)) (\<lambda>u1.
     fuel_then (read_value fuel k_ty u1) (\<lambda>(k, u2).
     fuel_then (read_value fuel v_ty u2) (\<lambda>(v, u3). Some (Inr (VDictEntry k v, u3)))))"
| "read_value fuel TVariant u =
     fuel_then (Some (read_variant_head u)) (\<lambda>(inner_ty, u1).
       case fuel of
         0 \<Rightarrow> None
       | Suc f \<Rightarrow>
           fuel_then (read_value f inner_ty u1) (\<lambda>(v, u2). Some (Inr (VVariant v, u2))))"
| "read_value fuel t u = Some (read_basic t u)"
| "read_elems fuel t stop acc u =
     (if u_pos u < stop then
        case fuel of
          0 \<Rightarrow> None
        | Suc f \<Rightarrow> fuel_then (read_value f t u) (\<lambda>(v, u'). read_elems f t stop (acc @ [v]) u')
      else Some (Inr (acc, u)))"
| "read_values fuel [] u = Some (Inr ([], u))"
| "read_values fuel (t # ts) u =
     fuel_then (read_value fuel t u) (\<lambda>(v, u1).
     fuel_then (read_values fuel ts u1) (\<lambda>(vs, u2). Some (Inr (v # vs, u2))))"

definition u_remaining :: "unmarshaler \<Rightarrow> nat" where
  "u_remaining u = length (u_buf u) - u_pos u"

definition unmarshal_body :: "u8 list \<Rightarrow> string \<Rightarrow> bool \<Rightarrow> dvalue list core_result option" where
  "unmarshal_body bs sig be =
     fuel_then (Some (parse_signature sig)) (\<lambda>types.
     fuel_then (read_values (length bs) types (unmarshaler_new bs be)) (\<lambda>(vs, _). Some (Inr vs)))"

declare read_elems.simps [simp del]

lemma read_elems_simps [simp]:
  "\<not> u_pos u < stop \<Longrightarrow> read_elems f t stop acc u = Some (Inr (acc, u))"
  "u_pos u < stop \<Longrightarrow> read_elems 0 t stop acc u = None"
  "u_pos u < stop \<Longrightarrow> read_elems (Suc f) t stop acc u =
     fuel_then (read_value f t u) (\<lambda>(v, u'). read_elems f t stop (acc @ [v]) u')"
  by (subst read_elems.simps, simp)+



section \<open>Progress\<close>

text \<open>\<open>moved n u u'\<close>: \<open>u'\<close> is \<open>u\<close> at least \<open>n\<close> bytes further on, and not past the end.\<close>

definition moved :: "nat \<Rightarrow> unmarshaler \<Rightarrow> unmarshaler \<Rightarrow> bool" where
  "moved n u u' \<longleftrightarrow>
     u' = u\<lparr>u_pos := u_pos u'\<rparr> \<and> u_pos u + n \<le> u_pos u' \<and>
     (u_pos u \<le> length (u_buf u) \<longrightarrow> u_pos u' \<le> length (u_buf u))"

lemma moved_refl [simp]: "moved 0 u u"
  by (simp add: moved_def)

lemma moved_trans: "moved m u v \<Longrightarrow> moved n v w \<Longrightarrow> moved (m + n) u w"
  unfolding moved_def by (cases u; cases v; cases w) auto

lemma moved_after: "moved 0 u v \<Longrightarrow> moved n v w \<Longrightarrow> moved n u w"
  using moved_trans [of 0 u v n w] by simp

lemma moved_trans_le: "moved m u v \<Longrightarrow> moved n v w \<Longrightarrow> k \<le> m + n \<Longrightarrow> moved k u w"
  using moved_trans [of m u v n w] by (auto simp: moved_def)

lemma moved_le: "moved m u v \<Longrightarrow> n \<le> m \<Longrightarrow> moved n u v"
  by (auto simp: moved_def)

lemma moved_keeps:
  "moved n u u' \<Longrightarrow> u_buf u' = u_buf u" "moved n u u' \<Longrightarrow> u_big_endian u' = u_big_endian u"
  unfolding moved_def by (cases u; cases u'; simp)+

lemma moved_remaining:
  "moved n u u' \<Longrightarrow> u_pos u \<le> length (u_buf u) \<Longrightarrow>
     u_pos u' \<le> length (u_buf u') \<and> u_remaining u' + n \<le> u_remaining u"
  unfolding moved_def u_remaining_def by (cases u; cases u') auto

lemma need_Inr: "need n u = Inr x \<longleftrightarrow> u_pos u + n \<le> length (u_buf u)"
  by (simp add: need_def)

lemma u_skip_simps [simp]:
  "u_buf (u_skip n u) = u_buf u" "u_big_endian (u_skip n u) = u_big_endian u"
  "u_pos (u_skip n u) = u_pos u + n" "u_skip m (u_skip n u) = u_skip (n + m) u" "u_skip 0 u = u"
  by (simp_all add: u_skip_def add.assoc)

lemma moved_skip: "u_pos u + n \<le> length (u_buf u) \<Longrightarrow> moved n u (u_skip n u)"
  by (simp add: moved_def u_skip_def)

lemma u_align_moved: "u_align n u = Inr u' \<Longrightarrow> moved 0 u u'"
  by (auto simp: u_align_def Let_def result_simps need_Inr moved_def u_skip_def split: if_splits)

lemma read_word_moved:
  "read_u8 u = Inr (w8, u') \<Longrightarrow> moved 1 u u'"
  "read_u16 u = Inr (w16, u') \<Longrightarrow> moved 2 u u'"
  "read_u32 u = Inr (w32, u') \<Longrightarrow> moved 4 u u'"
  "read_u64 u = Inr (w64, u') \<Longrightarrow> moved 8 u u'"
  by (auto simp: read_u8_def read_u16_def read_u32_def read_u64_def result_simps need_Inr
      dest!: u_align_moved intro!: moved_skip moved_after [OF _ moved_skip])

lemma read_raw_string_moved: "read_raw_string u = Inr (s, u') \<Longrightarrow> moved 5 u u'"
  by (fastforce simp: read_raw_string_def result_simps need_Inr Let_def split: if_splits
      dest!: read_word_moved intro: moved_le [OF moved_trans [OF _ moved_skip]])

lemma read_signature_str_moved: "read_signature_str u = Inr (s, u') \<Longrightarrow> moved 2 u u'"
  by (fastforce simp: read_signature_str_def result_simps need_Inr Let_def split: if_splits
      dest!: read_word_moved intro: moved_le [OF moved_trans [OF _ moved_skip]])

lemma read_array_head_moved:
  "read_array_head t u = Inr (stop, u') \<Longrightarrow> moved 4 u u' \<and> stop \<le> length (u_buf u')"
  by (fastforce simp: read_array_head_def result_simps need_Inr Let_def split: if_splits
      dest!: read_word_moved u_align_moved intro: moved_trans [where n = 0, simplified])

lemma read_variant_head_moved:
  "read_variant_head u = Inr (t, u') \<Longrightarrow> moved 2 u u' \<and> wf_type False 0 0 t"
  by (auto simp: read_variant_head_def result_simps parse_single_eq dest!: read_signature_str_moved)

lemma read_basic_moved: "read_basic t u = Inr (v, u') \<Longrightarrow> moved 1 u u'"
  by (cases t) (auto simp: result_simps split: if_splits
      dest!: read_word_moved read_raw_string_moved read_signature_str_moved elim: moved_le)

declare read_basic.simps [simp del]

text \<open>The types no value of which is encoded in zero bytes: no struct without fields inside.\<close>

fun solid :: "dtype \<Rightarrow> bool" where
  "solid (TArray t) \<longleftrightarrow> solid t"
| "solid (TStruct ts) \<longleftrightarrow> ts \<noteq> [] \<and> (\<forall>t \<in> set ts. solid t)"
| "solid (TDictEntry k v) \<longleftrightarrow> solid k \<and> solid v"
| "solid _ \<longleftrightarrow> True"

lemma basic_solid: "is_basic t \<Longrightarrow> solid t"
  by (cases t) auto

lemma wf_type_solid: "wf_type a ad sd t \<Longrightarrow> solid t"
  by (induction a ad sd t rule: wf_type.induct) (auto simp: basic_solid)

lemma read_value_moved:
  "read_value f t u = Some (Inr (v, u')) \<Longrightarrow> solid t \<Longrightarrow> moved 1 u u'"
  "read_elems f t stop acc u = Some (Inr (vs, u')) \<Longrightarrow> solid t \<Longrightarrow> moved 0 u u'"
  "read_values f ts u = Some (Inr (vs, u')) \<Longrightarrow> \<forall>t \<in> set ts. solid t \<Longrightarrow> moved (length ts) u u'"
proof (induction f t u and f t stop acc u and f ts u arbitrary: v u' and vs u' and vs u'
    rule: read_value_read_elems_read_values.induct)
  case (1 fuel t u)
  then show ?case
    apply (auto simp: result_simps split: if_splits dest!: read_array_head_moved)
    apply (erule moved_trans_le [where n = 0])
     apply simp_all
    done
next
  case (2 fuel ts u)
  from "2.prems" obtain u1 vs where a: "u_align 8 u = Inr u1"
    and r: "read_values fuel ts u1 = Some (Inr (vs, u'))"
    by (auto simp: result_simps)
  have "moved (length ts) u1 u'" "1 \<le> length ts"
    using "2.IH" [of u1, OF _ r] "2.prems" a by (auto simp: Suc_le_eq)
  then show ?case
    using u_align_moved [OF a] by (auto elim: moved_trans_le)
next
  case (3 fuel k_ty v_ty u)
  from "3.prems" obtain u1 k u2 w where a: "u_align 8 u = Inr u1"
    and r1: "read_value fuel k_ty u1 = Some (Inr (k, u2))"
    and r2: "read_value fuel v_ty u2 = Some (Inr (w, u'))"
    by (auto simp: result_simps)
  have "moved 1 u1 u2" "moved 1 u2 u'"
    using "3.IH"(1) [of u1, OF _ r1] "3.IH"(2) [of u1 "(k, u2)" k u2, OF _ _ _ r2] "3.prems" a r1
    by auto
  then have "moved 1 u1 u'"
    by (rule moved_trans_le) simp
  then show ?case
    by (rule moved_after [OF u_align_moved [OF a]])
next
  case (4 fuel u)
  from "4.prems" obtain ty u1 g w where h: "read_variant_head u = Inr (ty, u1)" and g: "fuel = Suc g"
    and r: "read_value g ty u1 = Some (Inr (w, u'))"
    by (cases fuel) (auto simp: result_simps)
  have "moved 1 u1 u'"
    using "4.IH" [of "(ty, u1)" ty u1 g, OF _ _ g r] h wf_type_solid read_variant_head_moved [OF h]
    by auto
  then show ?case
    using read_variant_head_moved [OF h] by (auto elim: moved_trans_le)
next
  case (6 fuel t stop acc u)
  show ?case
  proof (cases "u_pos u < stop")
    case True
    with "6.prems" obtain f v u1 where f: "fuel = Suc f"
      and r1: "read_value f t u = Some (Inr (v, u1))"
      and r2: "read_elems f t stop (acc @ [v]) u1 = Some (Inr (vs, u'))"
      by (cases fuel) (auto simp: result_simps)
    then show ?thesis
      using "6.IH"(1) [OF True f r1] "6.IH"(2) [OF True f r1 refl r2] "6.prems"
      by (auto elim: moved_trans_le)
  next
    case False
    with "6.prems" show ?thesis by simp
  qed
next
  case (8 fuel t ts u)
  then obtain v u1 ws where r1: "read_value fuel t u = Some (Inr (v, u1))"
    and r2: "read_values fuel ts u1 = Some (Inr (ws, u'))"
    by (auto simp: result_simps)
  then show ?case
    using "8.IH"(1) [OF r1] "8.IH"(2) [OF r1 refl r2] "8.prems" by (auto elim: moved_trans_le)
qed (auto dest: read_basic_moved)


lemmas read_value_remaining = moved_remaining [OF read_value_moved(1)]

section \<open>Enough fuel\<close>

lemma read_value_total:
  "solid t \<Longrightarrow> u_pos u \<le> length (u_buf u) \<Longrightarrow> u_remaining u \<le> f \<Longrightarrow> read_value f t u \<noteq> None"
  "solid t \<Longrightarrow> u_pos u \<le> length (u_buf u) \<Longrightarrow> stop \<le> length (u_buf u) \<Longrightarrow> u_remaining u < f \<Longrightarrow>
     read_elems f t stop acc u \<noteq> None"
  "\<forall>t \<in> set ts. solid t \<Longrightarrow> u_pos u \<le> length (u_buf u) \<Longrightarrow> u_remaining u \<le> f \<Longrightarrow>
     read_values f ts u \<noteq> None"
proof (induction f t u and f t stop acc u and f ts u rule: read_value_read_elems_read_values.induct)
  case (1 fuel t u)
  show ?case
  proof (cases "read_array_head t u")
    case (Inr r)
    then obtain stop u1 where h: "read_array_head t u = Inr (stop, u1)"
      by (cases r) auto
    note m = read_array_head_moved [OF h]
    then have "u_pos u1 \<le> length (u_buf u1)" "u_remaining u1 + 4 \<le> u_remaining u"
      using moved_remaining [of 4 u u1] "1.prems" by auto
    then have "read_elems fuel t stop [] u1 \<noteq> None"
      using "1.prems" m by (intro "1.IH" [of "(stop, u1)"]) (auto simp: h)
    then show ?thesis
      by (auto simp: h result_simps)
  qed (simp add: result_simps)
next
  case (2 fuel ts u)
  have "read_values fuel ts u1 \<noteq> None" if "u_align 8 u = Inr u1" for u1
    using "2.IH" [of u1] moved_remaining [OF u_align_moved [OF that]] "2.prems" that by simp
  then show ?case
    by (auto simp: result_simps)
next
  case (3 fuel k_ty v_ty u)
  have k: "read_value fuel k_ty u1 \<noteq> None" if "u_align 8 u = Inr u1" for u1
    using "3.IH"(1) [of u1] moved_remaining [OF u_align_moved [OF that]] "3.prems" that by simp
  have "read_value fuel v_ty u2 \<noteq> None"
    if a: "u_align 8 u = Inr u1" and r: "read_value fuel k_ty u1 = Some (Inr (w, u2))" for u1 u2 w
    using "3.IH"(2) [of u1 "(w, u2)" w u2] moved_remaining [OF u_align_moved [OF a]]
      read_value_remaining [OF r] "3.prems" a r by simp
  with k show ?case
    by (auto simp: result_simps)
next
  case (4 fuel u)
  show ?case
  proof (cases "read_variant_head u")
    case (Inr r)
    then obtain ty u1 where h: "read_variant_head u = Inr (ty, u1)"
      by (cases r) auto
    have m: "u_pos u1 \<le> length (u_buf u1)" "u_remaining u1 + 2 \<le> u_remaining u"
      using moved_remaining [of 2 u u1] "4.prems" read_variant_head_moved [OF h] by auto
    then obtain f where f: "fuel = Suc f"
      using "4.prems" by (cases fuel) auto
    then have "read_value f ty u1 \<noteq> None"
      using "4.IH" [of "(ty, u1)" ty u1 f] h m "4.prems" wf_type_solid read_variant_head_moved [OF h]
      by auto
    then show ?thesis
      by (auto simp: h f result_simps)
  qed (simp add: result_simps)
next
  case (6 fuel t stop acc u)
  show ?case
  proof (cases "u_pos u < stop")
    case True
    then have pos: "0 < u_remaining u"
      using "6.prems" by (simp add: u_remaining_def)
    then obtain f where f: "fuel = Suc f"
      using "6.prems" by (cases fuel) auto
    have one: "read_value f t u \<noteq> None"
      using "6.IH"(1) [OF True f] "6.prems" f by simp
    have "read_elems f t stop (acc @ [v]) u' \<noteq> None"
      if r: "read_value f t u = Some (Inr (v, u'))" for v u'
      using "6.IH"(2) [OF True f r refl] "6.prems" f read_value_remaining [OF r]
        moved_keeps [OF read_value_moved(1) [OF r]] by simp
    with one show ?thesis
      using True by (auto simp: f result_simps)
  qed simp
next
  case (8 fuel t ts u)
  have one: "read_value fuel t u \<noteq> None"
    using "8.IH"(1) "8.prems" by simp
  have "read_values fuel ts u' \<noteq> None" if r: "read_value fuel t u = Some (Inr (v, u'))" for v u'
    using "8.IH"(2) [OF r refl] "8.prems" read_value_remaining [OF r] by simp
  with one show ?case
    by (auto simp: result_simps)
qed auto

definition fuel_le :: "'a option \<Rightarrow> 'a option \<Rightarrow> bool" where
  "fuel_le r r' \<longleftrightarrow> r = None \<or> r = r'"

lemma fuel_le_intros:
  "fuel_le r r"
  "fuel_le r r' \<Longrightarrow> (\<And>a. r = Some (Inr a) \<Longrightarrow> fuel_le (f a) (f' a)) \<Longrightarrow>
     fuel_le (fuel_then r f) (fuel_then r' f')"
  "(\<And>x y. p = (x, y) \<Longrightarrow> fuel_le (g x y) (g' x y)) \<Longrightarrow>
     fuel_le (case p of (x, y) \<Rightarrow> g x y) (case p of (x, y) \<Rightarrow> g' x y)"
  by (auto simp: fuel_le_def fuel_then_def split: option.splits sum.splits prod.splits)

lemma read_value_le:
  "f \<le> f' \<Longrightarrow> fuel_le (read_value f t u) (read_value f' t u)"
  "f \<le> f' \<Longrightarrow> fuel_le (read_elems f t stop acc u) (read_elems f' t stop acc u)"
  "f \<le> f' \<Longrightarrow> fuel_le (read_values f ts u) (read_values f' ts u)"
proof (induction f t u and f t stop acc u and f ts u arbitrary: f' and f' and f'
    rule: read_value_read_elems_read_values.induct)
  case (1 fuel t u)
  show ?case
    unfolding read_value.simps by (intro fuel_le_intros "1.IH" "1.prems") auto
next
  case (2 fuel ts u)
  show ?case
    unfolding read_value.simps by (intro fuel_le_intros "2.IH" "2.prems") auto
next
  case (3 fuel k_ty v_ty u)
  show ?case
    unfolding read_value.simps
    by (intro fuel_le_intros "3.IH"(1) "3.IH"(2) [OF _ _ sym] "3.prems") auto
next
  case (4 fuel u)
  show ?case
  proof (cases fuel)
    case (Suc g)
    with "4.prems" obtain g' where g': "f' = Suc g'" "g \<le> g'"
      by (cases f') auto
    show ?thesis
      unfolding read_value.simps Suc g' nat.case
      by (intro fuel_le_intros "4.IH" [OF _ sym Suc] g') auto
  qed (auto simp: fuel_le_def fuel_then_def split: sum.splits)
next
  case (6 fuel t stop acc u)
  show ?case
  proof (cases "u_pos u < stop")
    case True
    show ?thesis
    proof (cases fuel)
      case (Suc g)
      with "6.prems" obtain g' where g': "f' = Suc g'" "g \<le> g'"
        by (cases f') auto
      show ?thesis
        unfolding Suc g' read_elems_simps(3) [OF True]
        by (intro fuel_le_intros "6.IH"(1) [OF True Suc] "6.IH"(2) [OF True Suc _ sym] g') auto
    qed (simp add: fuel_le_def True)
  qed (simp add: fuel_le_def)
next
  case (8 fuel t ts u)
  show ?case
    unfolding read_values.simps
    by (intro fuel_le_intros "8.IH"(1) "8.IH"(2) [OF _ sym] "8.prems") auto
qed (auto simp: fuel_le_def)

lemma read_value_mono:
  "read_value f t u = Some x \<Longrightarrow> f \<le> f' \<Longrightarrow> read_value f' t u = Some x"
  "read_values f ts u = Some y \<Longrightarrow> f \<le> f' \<Longrightarrow> read_values f' ts u = Some y"
  using read_value_le(1) [of f f' t u] read_value_le(3) [of f f' ts u] by (auto simp: fuel_le_def)

end
