(* ===== verification/Wire_Roundtrip.thy ===== *)
theory Wire_Roundtrip
  imports Unmarshal
begin

text \<open>
  The two directions of the wire format together: a reader that stands before the bytes the
  writer produced gets the value back (\<open>read_enc\<close>), and every value the reader returns has
  the type that was asked for and is well formed (\<open>read_value_wf\<close>).
\<close>

section \<open>Well-formed values\<close>

fun wf_value :: "dvalue \<Rightarrow> bool" where
  "wf_value (VString s) \<longleftrightarrow> valid_utf8 s \<and> length s < 2 ^ 32"
| "wf_value (VObjectPath p) \<longleftrightarrow> is_valid_object_path (path_str p) \<and> length (path_str p) < 2 ^ 32"
| "wf_value (VSignature sig) \<longleftrightarrow> parse_signature (sig_str sig) \<in> range Inr"
| "wf_value (VArray t vs) \<longleftrightarrow> solid t \<and> (\<forall>v \<in> set vs. value_type v = t \<and> wf_value v)"
| "wf_value (VStruct vs) \<longleftrightarrow> (\<forall>v \<in> set vs. wf_value v)"
| "wf_value (VDictEntry k v) \<longleftrightarrow> wf_value k \<and> wf_value v"
| "wf_value (VVariant v) \<longleftrightarrow> wf_type False 0 0 (value_type v) \<and> wf_value v"
| "wf_value _ \<longleftrightarrow> True"

section \<open>Reading back what was written\<close>

text \<open>\<open>consumes u s u'\<close>: the bytes \<open>s\<close> stand at the position of \<open>u\<close>, and \<open>u'\<close> is past them.\<close>

definition consumes :: "unmarshaler \<Rightarrow> u8 list \<Rightarrow> unmarshaler \<Rightarrow> bool" where
  "consumes u s u' \<longleftrightarrow>
     u_pos u + length s \<le> length (u_buf u) \<and> u_slice (length s) u = s \<and> u' = u_skip (length s) u"

lemma consumes_append:
  "consumes u (s @ t) u'' \<longleftrightarrow>
     consumes u s (u_skip (length s) u) \<and> consumes (u_skip (length s) u) t u''"
  by (auto simp: consumes_def u_slice_def take_add add.assoc add.commute)

lemma consumes_Cons:
  "consumes u (b # t) u'' \<longleftrightarrow>
     u_pos u < length (u_buf u) \<and> u_buf u ! u_pos u = b \<and> consumes (u_skip 1 u) t u''"
  using consumes_append [of u "[b]" t u'']
  by (auto simp: consumes_def u_slice_def take_Suc_conv_app_nth take_Suc hd_drop_conv_nth)

lemma consumesD:
  assumes "consumes u s u'"
  shows "need (length s) u = Inr ()" "u_slice (length s) u = s" "u' = u_skip (length s) u"
  using assms by (simp_all add: consumes_def need_def)

lemma u_align_pad: "consumes u (pad a (u_pos u)) u' \<Longrightarrow> u_align a u = Inr u'"
  by (auto simp: consumes_def u_align_def need_def padding_def Let_def split: if_splits)

lemma word_of_word_bytes [simp]:
  "word_of_bytes be (word_bytes be w16) = (w16 :: u16)"
  "word_of_bytes be (word_bytes be w32) = (w32 :: u32)"
  "word_of_bytes be (word_bytes be w64) = (w64 :: u64)"
  by (simp_all add: word_of_bytes_def word_bytes_def)

lemma consumes_word:
  fixes w :: "'a::len word"
  assumes "consumes u (enc_word be (u_pos u) w) u'" and "LENGTH('a) = 8 * k"
  obtains u1 where "u_align k u = Inr u1" "need k u1 = Inr ()" "u_slice k u1 = word_bytes be w"
    "u' = u_skip k u1" "u_big_endian u1 = u_big_endian u"
proof -
  define u1 where "u1 = u_skip (length (pad k (u_pos u))) u"
  have "consumes u (pad k (u_pos u)) u1" "consumes u1 (word_bytes be w) u'"
    using assms by (simp_all add: enc_word_def consumes_append u1_def)
  then show thesis
    using consumesD [of u1 "word_bytes be w" u'] u_align_pad [of u k u1] assms(2)
    by (intro that [of u1]) (simp_all add: u1_def)
qed

lemma read_word_enc:
  "consumes u (enc_word (u_big_endian u) (u_pos u) w16) u' \<Longrightarrow> read_u16 u = Inr (w16, u')"
  "consumes u (enc_word (u_big_endian u) (u_pos u) w32) u' \<Longrightarrow> read_u32 u = Inr (w32, u')"
  "consumes u (enc_word (u_big_endian u) (u_pos u) w64) u' \<Longrightarrow> read_u64 u = Inr (w64, u')"
  by (erule consumes_word, simp, simp add: read_u16_def read_u32_def read_u64_def)+

lemma read_u8_enc: "consumes u (b # t) u' \<Longrightarrow> read_u8 u = Inr (b, u_skip 1 u)"
  by (simp add: consumes_Cons read_u8_def need_def)

lemma zero_in_as_bytes [simp]: "0 \<in> set (as_bytes s) \<longleftrightarrow> CHR 0x00 \<in> set s"
proof -
  have z: "0 = byte_of CHR 0x00"
    by (simp add: byte_of_def)
  have "inj byte_of"
    by (simp add: inj_def)
  then show ?thesis
    unfolding as_bytes_def z by (simp only: list.set_map inj_image_mem_iff)
qed

lemma consumes_nul_terminated:
  assumes "consumes u (as_bytes s @ [0]) u'"
  shows "need (length s + 1) u = Inr ()" "str_of_bytes (u_slice (length s) u) = s"
    "u_buf u ! (u_pos u + length s) = 0" "u' = u_skip (length s + 1) u"
proof -
  have c: "consumes u (as_bytes s) (u_skip (length s) u)" "consumes (u_skip (length s) u) [0] u'"
    using assms unfolding consumes_append by simp_all
  show "need (length s + 1) u = Inr ()" "u' = u_skip (length s + 1) u"
    using consumesD [OF assms] by simp_all
  show "str_of_bytes (u_slice (length s) u) = s"
    using consumesD(2) [OF c(1)] by simp
  show "u_buf u ! (u_pos u + length s) = 0"
    using c(2) unfolding consumes_Cons by simp
qed

lemma read_raw_string_enc:
  assumes enc: "enc_string (u_big_endian u) (u_pos u) s = Inr bs" and con: "consumes u bs u'"
    and s: "valid_utf8 s" "length s < 2 ^ 32"
  shows "read_raw_string u = Inr (s, u')"
proof -
  define w :: u32 where "w = word_of_nat (length s)"
  define u1 where "u1 = u_skip (length (enc_word (u_big_endian u) (u_pos u) w)) u"
  have len: "unat w = length s"
    using s by (simp add: w_def unat_of_nat)
  have bs: "bs = enc_word (u_big_endian u) (u_pos u) w @ as_bytes s @ [0]"
    using enc by (auto simp: enc_string_def w_def split: if_splits)
  then have "consumes u (enc_word (u_big_endian u) (u_pos u) w) u1"
    and c: "consumes u1 (as_bytes s @ [0]) u'"
    using con unfolding bs consumes_append u1_def by auto
  then have "read_u32 u = Inr (w, u1)"
    by (intro read_word_enc)
  then show ?thesis
    using consumes_nul_terminated [OF c] s by (simp add: read_raw_string_def len Let_def)
qed

lemma read_signature_str_enc:
  assumes enc: "enc_signature s = Inr bs" and con: "consumes u bs u'" and s: "valid_utf8 s"
  shows "read_signature_str u = Inr (s, u')"
proof -
  define w :: u8 where "w = word_of_nat (length s)"
  have len: "unat w = length s" and bs: "bs = w # as_bytes s @ [0]"
    using enc by (auto simp: w_def unat_of_nat enc_signature_def MAX_SIGNATURE_LEN_def split: if_splits)
  have r: "read_u8 u = Inr (w, u_skip 1 u)" and c: "consumes (u_skip 1 u) (as_bytes s @ [0]) u'"
    using con read_u8_enc [of u w] unfolding bs by (auto simp: consumes_Cons [of u])
  then show ?thesis
    using consumes_nul_terminated [OF c] s by (simp add: read_signature_str_def len Let_def)
qed


section \<open>The round trip\<close>

lemma signature_of_value_type:
  "enc_signature (to_signature_string t) = Inr bs \<Longrightarrow> wf_type False 0 0 t \<Longrightarrow>
     parse_single_complete_type (to_signature_string t) = Inr t"
  by (auto simp: parse_single_eq enc_signature_def MAX_SIGNATURE_LEN_def split: if_splits)

lemma to_signature_string_utf8: "valid_utf8 (to_signature_string t)"
  by (intro is_ascii_valid_utf8) (simp add: to_signature_string_eq signature_of_ascii)

lemma parse_signature_utf8: "parse_signature s = Inr ts \<Longrightarrow> valid_utf8 s"
  by (auto simp: parse_signature_def intro: is_ascii_valid_utf8 split: if_splits)

lemma read_variant_head_enc:
  assumes "enc_signature (to_signature_string t) = Inr bs" "wf_type False 0 0 t" "consumes u bs u'"
  shows "read_variant_head u = Inr (t, u')"
  using assms signature_of_value_type [OF assms(1,2)]
    read_signature_str_enc [OF assms(1,3) to_signature_string_utf8]
  by (simp add: read_variant_head_def)

lemma read_array_head_enc:
  assumes enc: "enc_array (u_big_endian u) (u_pos u) t elems = Inr bs" and con: "consumes u bs u'"
  obtains u1 where "read_array_head t u = Inr (u_pos u1 + length elems, u1)"
    "consumes u1 elems u'" "u_pos u1 = array_start t (u_pos u)" "u_big_endian u1 = u_big_endian u"
proof -
  define w :: u32 where "w = word_of_nat (length elems)"
  define u0 where "u0 = u_skip (length (enc_word (u_big_endian u) (u_pos u) w)) u"
  define u1 where "u1 = u_skip (length (pad (alignment t) (u_pos u + padding 4 (u_pos u) + 4))) u0"
  have bound: "length elems \<le> MAX_ARRAY_LEN"
    and bs: "bs = enc_word (u_big_endian u) (u_pos u) w @
      pad (alignment t) (u_pos u + padding 4 (u_pos u) + 4) @ elems"
    using enc by (auto simp: enc_array_def w_def split: if_splits)
  then have len: "unat w = length elems"
    by (simp add: w_def unat_of_nat MAX_ARRAY_LEN_def)
  have pos: "u_pos u0 = u_pos u + padding 4 (u_pos u) + 4"
    by (simp add: u0_def)
  have c0: "consumes u (enc_word (u_big_endian u) (u_pos u) w) u0"
    and c1: "consumes u0 (pad (alignment t) (u_pos u0)) u1" and c2: "consumes u1 elems u'"
    using con unfolding bs consumes_append pos u0_def u1_def by (simp_all add: add.assoc)
  have "need (length elems) u1 = Inr ()"
    using consumesD(1) [OF c2] .
  then have "read_array_head t u = Inr (u_pos u1 + length elems, u1)"
    using read_word_enc(2) [OF c0] u_align_pad [OF c1] bound
    by (simp add: read_array_head_def len Let_def)
  then show thesis
    using c2 by (intro that [of u1]) (simp_all add: u1_def u0_def array_start_def Let_def)
qed

lemma consumes_appendD:
  assumes "consumes u (s @ t) u'" and "u1 = u_skip (length s) u"
  shows "consumes u s u1" "consumes u1 t u'"
  using assms by (simp_all add: consumes_append)

lemma consumes_one: "consumes u [b] u' \<Longrightarrow> read_u8 u = Inr (b, u')"
  using read_u8_enc [of u b "[]" u'] by (simp add: consumes_def)

lemma consumes_Nil: "consumes u [] u' \<Longrightarrow> u' = u"
  by (simp add: consumes_def)

lemma signature_new_self: "parse_signature (sig_str sig) = Inr ts \<Longrightarrow> signature_new (sig_str sig) = Inr sig"
  by (simp add: signature_new_eq)

lemma path_utf8: "is_valid_object_path s \<Longrightarrow> valid_utf8 s"
  by (intro is_ascii_valid_utf8 valid_object_path_ascii)

text \<open>One step of the reader each, for any fuel.\<close>

lemma read_struct_le:
  assumes "u_align 8 u = Inr u1" "fuel_le (read_values f ts u1) (Some (Inr (fs, u')))"
  shows "fuel_le (read_value f (TStruct ts) u) (Some (Inr (VStruct fs, u')))"
  using assms by (auto simp: fuel_le_def)

lemma read_dict_le:
  assumes "u_align 8 u = Inr u1" "fuel_le (read_value f kt u1) (Some (Inr (k, u2)))"
    and "fuel_le (read_value f vt u2) (Some (Inr (v, u')))"
  shows "fuel_le (read_value f (TDictEntry kt vt) u) (Some (Inr (VDictEntry k v, u')))"
  using assms by (auto simp: fuel_le_def)

lemma read_variant_le:
  assumes "read_variant_head u = Inr (t, u1)" "\<And>g. fuel_le (read_value g t u1) (Some (Inr (v, u')))"
  shows "fuel_le (read_value f TVariant u) (Some (Inr (VVariant v, u')))"
  using assms(1) assms(2) [of "f - 1"] by (cases f) (auto simp: fuel_le_def)

lemma read_array_le:
  assumes "read_array_head t u = Inr (u_pos u1 + n, u1)" "u_pos u' = u_pos u1 + n"
    and "fuel_le (read_elems f t (u_pos u1 + n) [] u1) (Some (Inr (vs, u')))"
  shows "fuel_le (read_value f (TArray t) u) (Some (Inr (VArray t vs, u')))"
  using assms by (auto simp: fuel_le_def)

text \<open>A value that is read whatever the fuel takes bytes, so an element is one step of the loop.\<close>

lemma read_le_takes:
  assumes "solid t" "\<And>g. fuel_le (read_value g t u) (Some (Inr (v, u1)))" "u_pos u \<le> length (u_buf u)"
  shows "u_pos u < u_pos u1"
proof -
  have "read_value (u_remaining u) t u \<noteq> None"
    using assms(1,3) by (intro read_value_total) auto
  then have "read_value (u_remaining u) t u = Some (Inr (v, u1))"
    using assms(2) [of "u_remaining u"] by (auto simp: fuel_le_def)
  then show ?thesis
    using read_value_moved(1) [of "u_remaining u" t u v u1] assms(1) by (auto simp: moved_def)
qed

lemma read_elems_le:
  assumes "solid t" "\<And>g. fuel_le (read_value g t u) (Some (Inr (v, u1)))" "consumes u s u1"
    and "\<And>g. fuel_le (read_elems g t stop (acc @ [v]) u1) (Some (Inr r))" "u_pos u1 \<le> stop"
  shows "fuel_le (read_elems f t stop acc u) (Some (Inr r))"
proof -
  have less: "u_pos u < stop"
    using assms(3) by (intro less_le_trans [OF read_le_takes [OF assms(1,2)] assms(5)]) (simp add: consumes_def)
  show ?thesis
  proof (cases f)
    case (Suc g)
    then show ?thesis
      using less assms(2) [of g] assms(4) [of g] by (auto simp: fuel_le_def)
  qed (use less in \<open>simp add: fuel_le_def\<close>)
qed

text \<open>
  Whatever the fuel, the reader either runs out of it or returns the value that was written
  and stands behind its bytes.
\<close>

lemma read_enc:
  "enc be n v = Inr bs \<Longrightarrow> wf_value v \<Longrightarrow> be = u_big_endian u \<Longrightarrow> n = u_pos u \<Longrightarrow>
     consumes u bs u' \<Longrightarrow> fuel_le (read_value f (value_type v) u) (Some (Inr (v, u')))"
  "enc_seq be n vs = Inr bs \<Longrightarrow> \<forall>v \<in> set vs. wf_value v \<Longrightarrow> be = u_big_endian u \<Longrightarrow>
     n = u_pos u \<Longrightarrow> consumes u bs u' \<Longrightarrow>
     fuel_le (read_values f (map value_type vs) u) (Some (Inr (vs, u'))) \<and>
     (\<forall>t acc g. solid t \<longrightarrow> (\<forall>v \<in> set vs. value_type v = t) \<longrightarrow>
        fuel_le (read_elems g t (n + length bs) acc u) (Some (Inr (acc @ vs, u'))))"
proof (induction be n v and be n vs arbitrary: u u' f bs and u u' f bs rule: enc_enc_seq.induct)
  case (14 be n t vs)
  then obtain es where es: "enc_seq be (array_start t n) vs = Inr es" and arr: "enc_array be n t es = Inr bs"
    by (auto simp: result_simps)
  obtain u1 where h: "read_array_head t u = Inr (u_pos u1 + length es, u1)"
    and u1: "consumes u1 es u'" "u_pos u1 = array_start t n" "u_big_endian u1 = be"
    using read_array_head_enc [of u t es bs u'] arr "14.prems" by auto
  have "fuel_le (read_elems f t (u_pos u1 + length es) [] u1) (Some (Inr (vs, u')))"
    using "14.IH" [OF es _ _ _ u1(1), THEN conjunct2, rule_format, of t f "[]"] u1 "14.prems" by simp
  then show ?case
    using read_array_le [OF h] consumesD(3) [OF u1(1)] by simp
next
  case (15 be n fs)
  then obtain s where s: "enc_seq be (n + padding 8 n) fs = Inr s" and bs: "bs = pad 8 n @ s"
    by (auto simp: result_simps)
  define u1 where "u1 = u_skip (length (pad 8 n)) u"
  have c: "consumes u (pad 8 (u_pos u)) u1" "consumes u1 s u'"
    using consumes_appendD [OF _ u1_def, of s u'] "15.prems" bs by simp_all
  then show ?case
    using read_struct_le [OF u_align_pad [OF c(1)]] "15.IH" [OF s _ _ _ c(2)] "15.prems"
    by (simp add: u1_def)
next
  case (16 be n k v)
  then obtain s1 s2 where s1: "enc be (n + padding 8 n) k = Inr s1"
    and s2: "enc be (n + padding 8 n + length s1) v = Inr s2" and bs: "bs = pad 8 n @ s1 @ s2"
    by (auto simp: result_simps)
  define u1 where "u1 = u_skip (length (pad 8 n)) u"
  define u2 where "u2 = u_skip (length s1) u1"
  have c: "consumes u (pad 8 (u_pos u)) u1" "consumes u1 s1 u2" "consumes u2 s2 u'"
    using consumes_appendD [OF _ u1_def, of "s1 @ s2" u'] consumes_appendD [OF _ u2_def, of s2 u']
      "16.prems" bs by simp_all
  have "fuel_le (read_value f (value_type k) u1) (Some (Inr (k, u2)))"
    "fuel_le (read_value f (value_type v) u2) (Some (Inr (v, u')))"
    using "16.IH"(1) [OF s1 _ _ _ c(2)] "16.IH"(2) [OF s1 s2 _ _ _ c(3)] "16.prems"
    by (simp_all add: u1_def u2_def)
  from read_dict_le [OF u_align_pad [OF c(1)] this] show ?case by simp
next
  case (17 be n inner)
  then obtain s1 s2 where s1: "enc_signature (to_signature_string (value_type inner)) = Inr s1"
    and s2: "enc be (n + length s1) inner = Inr s2" and bs: "bs = s1 @ s2"
    by (auto simp: result_simps)
  define u1 where "u1 = u_skip (length s1) u"
  have c: "consumes u s1 u1" "consumes u1 s2 u'"
    using consumes_appendD [OF _ u1_def, of s2 u'] "17.prems" bs by simp_all
  then show ?case
    using read_variant_le [OF read_variant_head_enc [OF s1 _ c(1)]] "17.IH" [OF s1 s2 _ _ _ c(2)]
      "17.prems" by (simp add: u1_def)
next
  case (19 be n v vs)
  then obtain s1 s2 where s1: "enc be n v = Inr s1"
    and s2: "enc_seq be (n + length s1) vs = Inr s2" and bs: "bs = s1 @ s2"
    by (auto simp: result_simps)
  define u1 where "u1 = u_skip (length s1) u"
  have c: "consumes u s1 u1" "consumes u1 s2 u'"
    using consumes_appendD [OF _ u1_def, of s2 u'] "19.prems" bs by simp_all
  have one: "fuel_le (read_value g (value_type v) u) (Some (Inr (v, u1)))" for g
    using "19.IH"(1) [OF s1 _ _ _ c(1)] "19.prems" by simp
  have two: "fuel_le (read_values f (map value_type vs) u1) (Some (Inr (vs, u')))"
    "solid t \<Longrightarrow> \<forall>v \<in> set vs. value_type v = t \<Longrightarrow>
       fuel_le (read_elems g t (n + length s1 + length s2) acc u1) (Some (Inr (acc @ vs, u')))"
    for t acc g
    using "19.IH"(2) [OF s1 s2 _ _ _ c(2), of f] "19.prems" by (simp_all add: u1_def)
  have "fuel_le (read_elems g t (n + length bs) acc u) (Some (Inr (acc @ v # vs, u')))"
    if t: "solid t" "\<forall>w \<in> set (v # vs). value_type w = t" for t acc g
    using two(2) [of t _ "acc @ [v]"] one t "19.prems" bs
    by (intro read_elems_le [OF t(1) _ c(1)]) (auto simp: u1_def add.assoc)
  moreover have "fuel_le (read_values f (map value_type (v # vs)) u) (Some (Inr (v # vs, u')))"
    using one [of f] two(1) by (auto simp: fuel_le_def)
  ultimately show ?case
    by blast
qed (auto simp: fuel_le_def read_basic.simps read_word_enc consumes_one read_raw_string_enc
    read_signature_str_enc signature_new_self parse_signature_utf8 path_utf8 dest: consumes_Nil)

lemma read_value_written:
  assumes w: "write_value v m = Inr m'" and v: "wf_value v" "solid (value_type v)"
    and u: "u_big_endian u = big_endian m" "u_pos u = length (buf m)"
      "take (length (buf m')) (u_buf u) = buf m'" and f: "u_remaining u \<le> f"
  shows "read_value f (value_type v) u = Some (Inr (v, u\<lparr>u_pos := length (buf m')\<rparr>))"
proof -
  obtain bs where bs: "enc (big_endian m) (length (buf m)) v = Inr bs" and m': "m' = push_bytes bs m"
    using w by (auto simp: write_value_enc result_simps)
  have len: "length (buf m) + length bs \<le> length (u_buf u)"
    using arg_cong [OF u(3), of length] by (simp add: m')
  have "drop (length (buf m)) (take (length (buf m) + length bs) (u_buf u)) = bs"
    using u(3) by (simp add: m')
  then have "consumes u bs (u\<lparr>u_pos := length (buf m')\<rparr>)"
    using len u by (simp add: consumes_def u_slice_def take_drop u_skip_def m' add.commute)
  then have "fuel_le (read_value f (value_type v) u) (Some (Inr (v, u\<lparr>u_pos := length (buf m')\<rparr>)))"
    using bs v u by (intro read_enc(1)) auto
  moreover have "read_value f (value_type v) u \<noteq> None"
    using v u f len by (intro read_value_total) auto
  ultimately show ?thesis
    by (auto simp: fuel_le_def)
qed

lemma read_values_written:
  assumes w: "write_values vs m = Inr m'" and v: "\<forall>v \<in> set vs. wf_value v \<and> solid (value_type v)"
    and u: "u_big_endian u = big_endian m" "u_pos u = length (buf m)"
      "take (length (buf m')) (u_buf u) = buf m'" and f: "u_remaining u \<le> f"
  shows "read_values f (map value_type vs) u = Some (Inr (vs, u\<lparr>u_pos := length (buf m')\<rparr>))"
proof -
  obtain bs where bs: "enc_seq (big_endian m) (length (buf m)) vs = Inr bs" and m': "m' = push_bytes bs m"
    using w by (auto simp: write_value_enc result_simps)
  have len: "length (buf m) + length bs \<le> length (u_buf u)"
    using arg_cong [OF u(3), of length] by (simp add: m')
  have "drop (length (buf m)) (take (length (buf m) + length bs) (u_buf u)) = bs"
    using u(3) by (simp add: m')
  then have "consumes u bs (u\<lparr>u_pos := length (buf m')\<rparr>)"
    using len u by (simp add: consumes_def u_slice_def take_drop u_skip_def m' add.commute)
  then have "fuel_le (read_values f (map value_type vs) u) (Some (Inr (vs, u\<lparr>u_pos := length (buf m')\<rparr>)))"
    using read_enc(2) [OF bs, of u] v u by auto
  moreover have "read_values f (map value_type vs) u \<noteq> None"
    using v u f len by (intro read_value_total) auto
  ultimately show ?thesis
    by (auto simp: fuel_le_def)
qed

section \<open>What the reader returns\<close>

lemma str_of_bytes_length: "length (u_slice n u) \<le> n"
  by (simp add: u_slice_def)

lemma read_raw_string_wf:
  "read_raw_string u = Inr (s, u') \<Longrightarrow> valid_utf8 s \<and> length s < 2 ^ 32"
proof -
  assume "read_raw_string u = Inr (s, u')"
  then obtain w u1 where "read_u32 u = Inr (w, u1)" "valid_utf8 s"
    "s = str_of_bytes (u_slice (unat w) u1)"
    by (auto simp: read_raw_string_def result_simps Let_def split: if_splits)
  then show ?thesis
    using str_of_bytes_length [of "unat w" u1] unsigned_less [of w, where ?'a = nat] by simp
qed

lemma read_basic_wf: "read_basic t u = Inr (v, u') \<Longrightarrow> value_type v = t \<and> wf_value v"
  by (cases t) (auto simp: read_basic.simps result_simps signature_new_eq image_iff
      dest!: read_raw_string_wf split: if_splits)

lemma read_value_wf:
  "read_value f t u = Some (Inr (v, u')) \<Longrightarrow> solid t \<Longrightarrow> value_type v = t \<and> wf_value v"
  "read_elems f t stop acc u = Some (Inr (vs, u')) \<Longrightarrow> solid t \<Longrightarrow>
     \<forall>v \<in> set acc. value_type v = t \<and> wf_value v \<Longrightarrow> \<forall>v \<in> set vs. value_type v = t \<and> wf_value v"
  "read_values f ts u = Some (Inr (vs, u')) \<Longrightarrow> \<forall>t \<in> set ts. solid t \<Longrightarrow>
     map value_type vs = ts \<and> (\<forall>v \<in> set vs. wf_value v)"
proof (induction f t u and f t stop acc u and f ts u arbitrary: v u' and vs u' and vs u'
    rule: read_value_read_elems_read_values.induct)
  case (1 fuel t u)
  then obtain stop u1 vs where h: "read_array_head t u = Inr (stop, u1)"
    and r: "read_elems fuel t stop [] u1 = Some (Inr (vs, u'))" and v: "v = VArray t vs"
    by (auto simp: result_simps split: if_splits)
  show ?case
    using "1.IH" [of "(stop, u1)", OF _ refl r] h "1.prems" v by auto
next
  case (2 fuel ts u)
  then obtain u1 vs where a: "u_align 8 u = Inr u1"
    and r: "read_values fuel ts u1 = Some (Inr (vs, u'))" and v: "v = VStruct vs"
    by (auto simp: result_simps)
  show ?case
    using "2.IH" [of u1, OF _ r] a "2.prems" v by auto
next
  case (3 fuel k_ty v_ty u)
  then obtain u1 k u2 w where a: "u_align 8 u = Inr u1"
    and r1: "read_value fuel k_ty u1 = Some (Inr (k, u2))"
    and r2: "read_value fuel v_ty u2 = Some (Inr (w, u'))" and v: "v = VDictEntry k w"
    by (auto simp: result_simps)
  show ?case
    using "3.IH"(1) [of u1, OF _ r1] "3.IH"(2) [of u1, OF _ r1 refl r2] a "3.prems" v by auto
next
  case (4 fuel u)
  then obtain ty u1 g w where h: "read_variant_head u = Inr (ty, u1)" and g: "fuel = Suc g"
    and r: "read_value g ty u1 = Some (Inr (w, u'))" and v: "v = VVariant w"
    by (cases fuel) (auto simp: result_simps)
  have "wf_type False 0 0 ty" "solid ty"
    using read_variant_head_moved [OF h] wf_type_solid by auto
  then show ?case
    using "4.IH" [of "(ty, u1)" ty u1 g, OF _ refl g r] h v by auto
next
  case (6 fuel t stop acc u)
  show ?case
  proof (cases "u_pos u < stop")
    case True
    with "6.prems" obtain f v u1 where f: "fuel = Suc f"
      and r1: "read_value f t u = Some (Inr (v, u1))"
      and r2: "read_elems f t stop (acc @ [v]) u1 = Some (Inr (vs, u'))"
      by (cases fuel) (auto simp: result_simps)
    have "value_type v = t \<and> wf_value v"
      using "6.prems" by (intro "6.IH"(1) [OF True f r1])
    then have "\<forall>v \<in> set (acc @ [v]). value_type v = t \<and> wf_value v"
      using "6.prems"(3) by simp
    then show ?thesis
      by (rule "6.IH"(2) [OF True f r1 refl r2 "6.prems"(2)])
  qed (use "6.prems" in simp)
next
  case (8 fuel t ts u)
  then obtain v u1 ws where r1: "read_value fuel t u = Some (Inr (v, u1))"
    and r2: "read_values fuel ts u1 = Some (Inr (ws, u'))" and v: "vs = v # ws"
    by (auto simp: result_simps)
  show ?case
    using "8.IH"(1) [OF r1] "8.IH"(2) [OF r1 refl r2] "8.prems" v by auto
qed (auto dest: read_basic_wf)

end
