(* ===== verification/Names.thy ===== *)
theory Names
  imports Core_Types
begin

text \<open>
  \<open>oxibus-core/src/lib.rs\<close>: the well-known names, the standard error names and the checks of
  bus, interface and member names.  The checks look at characters one at a time; every
  character they accept is ASCII, so the byte list of the string is walked instead.
\<close>

section \<open>Well-known names\<close>

definition BUS_NAME :: string where "BUS_NAME = ''org.freedesktop.DBus''"
definition BUS_PATH :: string where "BUS_PATH = ''/org/freedesktop/DBus''"
definition BUS_INTERFACE :: string where "BUS_INTERFACE = ''org.freedesktop.DBus''"
definition MONITORING_INTERFACE :: string where
  "MONITORING_INTERFACE = ''org.freedesktop.DBus.Monitoring''"
definition STATS_INTERFACE :: string where
  "STATS_INTERFACE = ''org.freedesktop.DBus.Debug.Stats''"
definition INTROSPECTABLE_INTERFACE :: string where
  "INTROSPECTABLE_INTERFACE = ''org.freedesktop.DBus.Introspectable''"
definition PROPERTIES_INTERFACE :: string where
  "PROPERTIES_INTERFACE = ''org.freedesktop.DBus.Properties''"
definition PEER_INTERFACE :: string where "PEER_INTERFACE = ''org.freedesktop.DBus.Peer''"
definition NAME_ACQUIRED :: string where "NAME_ACQUIRED = ''NameAcquired''"
definition NAME_LOST :: string where "NAME_LOST = ''NameLost''"
definition NAME_OWNER_CHANGED :: string where "NAME_OWNER_CHANGED = ''NameOwnerChanged''"

lemmas interface_names =
  BUS_NAME_def BUS_PATH_def BUS_INTERFACE_def MONITORING_INTERFACE_def STATS_INTERFACE_def
  INTROSPECTABLE_INTERFACE_def PROPERTIES_INTERFACE_def PEER_INTERFACE_def
  NAME_ACQUIRED_def NAME_LOST_def NAME_OWNER_CHANGED_def

section \<open>Error names\<close>

definition ERR_FAILED :: string where
  "ERR_FAILED = ''org.freedesktop.DBus.Error.Failed''"
definition ERR_SERVICE_UNKNOWN :: string where
  "ERR_SERVICE_UNKNOWN = ''org.freedesktop.DBus.Error.ServiceUnknown''"
definition ERR_NAME_HAS_NO_OWNER :: string where
  "ERR_NAME_HAS_NO_OWNER = ''org.freedesktop.DBus.Error.NameHasNoOwner''"
definition ERR_NO_REPLY :: string where
  "ERR_NO_REPLY = ''org.freedesktop.DBus.Error.NoReply''"
definition ERR_BAD_ADDRESS :: string where
  "ERR_BAD_ADDRESS = ''org.freedesktop.DBus.Error.BadAddress''"
definition ERR_LIMITS_EXCEEDED :: string where
  "ERR_LIMITS_EXCEEDED = ''org.freedesktop.DBus.Error.LimitsExceeded''"
definition ERR_ACCESS_DENIED :: string where
  "ERR_ACCESS_DENIED = ''org.freedesktop.DBus.Error.AccessDenied''"
definition ERR_INVALID_ARGS :: string where
  "ERR_INVALID_ARGS = ''org.freedesktop.DBus.Error.InvalidArgs''"
definition ERR_UNKNOWN_METHOD :: string where
  "ERR_UNKNOWN_METHOD = ''org.freedesktop.DBus.Error.UnknownMethod''"
definition ERR_UNKNOWN_OBJECT :: string where
  "ERR_UNKNOWN_OBJECT = ''org.freedesktop.DBus.Error.UnknownObject''"
definition ERR_UNKNOWN_INTERFACE :: string where
  "ERR_UNKNOWN_INTERFACE = ''org.freedesktop.DBus.Error.UnknownInterface''"
definition ERR_UNKNOWN_PROPERTY :: string where
  "ERR_UNKNOWN_PROPERTY = ''org.freedesktop.DBus.Error.UnknownProperty''"
definition ERR_MATCH_RULE_NOT_FOUND :: string where
  "ERR_MATCH_RULE_NOT_FOUND = ''org.freedesktop.DBus.Error.MatchRuleNotFound''"
definition ERR_MATCH_RULE_INVALID :: string where
  "ERR_MATCH_RULE_INVALID = ''org.freedesktop.DBus.Error.MatchRuleInvalid''"
definition ERR_SPAWN_EXEC_FAILED :: string where
  "ERR_SPAWN_EXEC_FAILED = ''org.freedesktop.DBus.Error.Spawn.ExecFailed''"

section \<open>Name checks\<close>

definition name_start :: "char \<Rightarrow> bool" where
  "name_start c \<longleftrightarrow> is_ascii_alphabetic c \<or> c = CHR ''_''"

definition name_char :: "char \<Rightarrow> bool" where
  "name_char c \<longleftrightarrow> is_ascii_alphanumeric c \<or> c = CHR ''_''"

fun valid_name_element :: "string \<Rightarrow> bool" where
  "valid_name_element [] = False"
| "valid_name_element (first # rest) = (name_start first \<and> list_all name_char rest)"

definition is_valid_dotted_name :: "string \<Rightarrow> bool" where
  "is_valid_dotted_name s =
     (if s = [] \<or> length s > 255 \<or> CHR ''.'' \<notin> set s then False
      else list_all valid_name_element (split_on CHR ''.'' s))"

definition is_valid_bus_name :: "string \<Rightarrow> bool" where
  "is_valid_bus_name s =
     (case strip_prefix '':'' s of
        Some rest \<Rightarrow>
          if rest = [] \<or> length s > 255 then False
          else list_all (\<lambda>el. el \<noteq> [] \<and>
                 list_all (\<lambda>b. is_ascii_alphanumeric b \<or> b = CHR ''_'' \<or> b = CHR ''-'') el)
               (split_on CHR ''.'' rest)
      | None \<Rightarrow> is_valid_dotted_name s)"

definition is_valid_member_name :: "string \<Rightarrow> bool" where
  "is_valid_member_name s =
     (if s = [] \<or> length s > 255 then False else valid_name_element s)"

lemma valid_bus_name_length: "is_valid_bus_name s \<Longrightarrow> length s \<le> 255"
  by (auto simp: is_valid_bus_name_def is_valid_dotted_name_def split: option.splits if_splits)

text \<open>A well-known name has at least two elements; a unique name starts with a colon.\<close>

lemma split_on_two: "c \<in> set s \<Longrightarrow> \<exists>p q ps. split_on c s = p # q # ps"
proof (induction s)
  case Nil
  then show ?case by simp
next
  case (Cons x s)
  then show ?case
    by (cases "split_on c s") auto
qed

lemma well_known_name_elements:
  assumes "is_valid_bus_name s" and "\<not> prefix '':'' s"
  shows "\<exists>p q ps. split_on CHR ''.'' s = p # q # ps \<and> list_all valid_name_element (p # q # ps)"
  using assms split_on_two [of "CHR ''.''" s]
  by (auto simp: is_valid_bus_name_def is_valid_dotted_name_def strip_prefix_def split: if_splits)


end
