(* ===== verification/Header.thy ===== *)
theory Header
  imports Wire_Roundtrip Names
begin

text \<open>
  \<open>oxibus-core/src/header.rs\<close>: the message header, its accessors, the replacement of the
  sender by the bus, the check of the required fields, and the reading and writing of the
  header including the length prefix that frames a message on a stream.
\<close>

definition PROTOCOL_VERSION :: u8 where "PROTOCOL_VERSION = 1"
definition NO_REPLY_EXPECTED :: u8 where "NO_REPLY_EXPECTED = 1"
definition NO_AUTO_START :: u8 where "NO_AUTO_START = 2"
definition ALLOW_INTERACTIVE_AUTHORIZATION :: u8 where "ALLOW_INTERACTIVE_AUTHORIZATION = 4"

datatype message_type = MethodCall | MethodReturn | ErrorReply | Signal

fun message_type_u8 :: "message_type \<Rightarrow> u8" where
  "message_type_u8 MethodCall = 1"
| "message_type_u8 MethodReturn = 2"
| "message_type_u8 ErrorReply = 3"
| "message_type_u8 Signal = 4"

definition message_type_from_u8 :: "u8 \<Rightarrow> message_type core_result" where
  "message_type_from_u8 v =
     (if v = 1 then Inr MethodCall
      else if v = 2 then Inr MethodReturn
      else if v = 3 then Inr ErrorReply
      else if v = 4 then Inr Signal
      else Inl (InvalidSignature (show_nat (unat v)) ''unknown message type''))"

datatype header_field =
    HPath object_path
  | HInterface string
  | HMember string
  | HErrorName string
  | HReplySerial u32
  | HDestination string
  | HSender string
  | HSignature dsignature
  | HUnixFds u32

fun field_code :: "header_field \<Rightarrow> u8" where
  "field_code (HPath _) = 1"
| "field_code (HInterface _) = 2"
| "field_code (HMember _) = 3"
| "field_code (HErrorName _) = 4"
| "field_code (HReplySerial _) = 5"
| "field_code (HDestination _) = 6"
| "field_code (HSender _) = 7"
| "field_code (HSignature _) = 8"
| "field_code (HUnixFds _) = 9"

fun field_to_value :: "header_field \<Rightarrow> dvalue" where
  "field_to_value (HPath p) = VObjectPath p"
| "field_to_value (HInterface s) = VString s"
| "field_to_value (HMember s) = VString s"
| "field_to_value (HErrorName s) = VString s"
| "field_to_value (HReplySerial v) = VUInt32 v"
| "field_to_value (HUnixFds v) = VUInt32 v"
| "field_to_value (HDestination s) = VString s"
| "field_to_value (HSender s) = VString s"
| "field_to_value (HSignature sig) = VSignature sig"

definition bad_field :: "string \<Rightarrow> core_error" where
  "bad_field name = TypeMismatch (''header field '' @ name @ '' has wrong variant type'')"

fun expect_string :: "dvalue \<Rightarrow> string \<Rightarrow> string core_result" where
  "expect_string (VString s) name = Inr s"
| "expect_string (VObjectPath p) name = Inr (path_str p)"
| "expect_string _ name = Inl (bad_field name)"

definition field_from_code_and_value :: "u8 \<Rightarrow> dvalue \<Rightarrow> header_field option core_result" where
  "field_from_code_and_value code v =
     (if code = 1 then (case v of VObjectPath p \<Rightarrow> Inr (Some (HPath p)) | _ \<Rightarrow> Inl (bad_field ''PATH''))
      else if code = 2 then and_then (expect_string v ''INTERFACE'') (\<lambda>s. Inr (Some (HInterface s)))
      else if code = 3 then and_then (expect_string v ''MEMBER'') (\<lambda>s. Inr (Some (HMember s)))
      else if code = 4 then and_then (expect_string v ''ERROR_NAME'') (\<lambda>s. Inr (Some (HErrorName s)))
      else if code = 5 then
        (case v of VUInt32 w \<Rightarrow> Inr (Some (HReplySerial w)) | _ \<Rightarrow> Inl (bad_field ''REPLY_SERIAL''))
      else if code = 6 then and_then (expect_string v ''DESTINATION'') (\<lambda>s. Inr (Some (HDestination s)))
      else if code = 7 then and_then (expect_string v ''SENDER'') (\<lambda>s. Inr (Some (HSender s)))
      else if code = 8 then
        (case v of VSignature s \<Rightarrow> Inr (Some (HSignature s)) | _ \<Rightarrow> Inl (bad_field ''SIGNATURE''))
      else if code = 9 then
        (case v of VUInt32 w \<Rightarrow> Inr (Some (HUnixFds w)) | _ \<Rightarrow> Inl (bad_field ''UNIX_FDS''))
      else Inr None)"

record message_header =
  h_big_endian :: bool
  h_type :: message_type
  h_flags :: u8
  h_version :: u8
  body_length :: u32
  h_serial :: u32
  h_fields :: "header_field list"

section \<open>Accessors\<close>

fun find_map :: "('a \<Rightarrow> 'b option) \<Rightarrow> 'a list \<Rightarrow> 'b option" where
  "find_map f [] = None"
| "find_map f (x # xs) = (case f x of Some y \<Rightarrow> Some y | None \<Rightarrow> find_map f xs)"

definition header_field_of :: "message_header \<Rightarrow> u8 \<Rightarrow> header_field option" where
  "header_field_of h code = find (\<lambda>f. field_code f = code) (h_fields h)"

definition header_path :: "message_header \<Rightarrow> object_path option" where
  "header_path h = find_map (\<lambda>f. case f of HPath p \<Rightarrow> Some p | _ \<Rightarrow> None) (h_fields h)"

definition header_interface :: "message_header \<Rightarrow> string option" where
  "header_interface h = find_map (\<lambda>f. case f of HInterface s \<Rightarrow> Some s | _ \<Rightarrow> None) (h_fields h)"

definition header_member :: "message_header \<Rightarrow> string option" where
  "header_member h = find_map (\<lambda>f. case f of HMember s \<Rightarrow> Some s | _ \<Rightarrow> None) (h_fields h)"

definition header_error_name :: "message_header \<Rightarrow> string option" where
  "header_error_name h = find_map (\<lambda>f. case f of HErrorName s \<Rightarrow> Some s | _ \<Rightarrow> None) (h_fields h)"

definition header_reply_serial :: "message_header \<Rightarrow> u32 option" where
  "header_reply_serial h = find_map (\<lambda>f. case f of HReplySerial v \<Rightarrow> Some v | _ \<Rightarrow> None) (h_fields h)"

definition header_destination :: "message_header \<Rightarrow> string option" where
  "header_destination h = find_map (\<lambda>f. case f of HDestination s \<Rightarrow> Some s | _ \<Rightarrow> None) (h_fields h)"

definition header_sender :: "message_header \<Rightarrow> string option" where
  "header_sender h = find_map (\<lambda>f. case f of HSender s \<Rightarrow> Some s | _ \<Rightarrow> None) (h_fields h)"

definition header_signature :: "message_header \<Rightarrow> string" where
  "header_signature h =
     (case find_map (\<lambda>f. case f of HSignature s \<Rightarrow> Some (sig_str s) | _ \<Rightarrow> None) (h_fields h) of
        Some s \<Rightarrow> s | None \<Rightarrow> [])"

definition header_unix_fds :: "message_header \<Rightarrow> u32" where
  "header_unix_fds h =
     (case find_map (\<lambda>f. case f of HUnixFds v \<Rightarrow> Some v | _ \<Rightarrow> None) (h_fields h) of
        Some v \<Rightarrow> v | None \<Rightarrow> 0)"

fun is_sender :: "header_field \<Rightarrow> bool" where
  "is_sender (HSender _) = True"
| "is_sender _ = False"

definition header_set_sender :: "string \<Rightarrow> message_header \<Rightarrow> message_header" where
  "header_set_sender s h =
     h\<lparr>h_fields := filter (\<lambda>f. \<not> is_sender f) (h_fields h) @ [HSender s]\<rparr>"

definition header_validate :: "message_header \<Rightarrow> unit core_result" where
  "header_validate h =
     (case h_type h of
        MethodCall \<Rightarrow>
          if header_path h = None then Inl (MissingHeaderField ''PATH'')
          else if header_member h = None then Inl (MissingHeaderField ''MEMBER'')
          else Inr ()
      | Signal \<Rightarrow>
          if header_path h = None then Inl (MissingHeaderField ''PATH'')
          else if header_interface h = None then Inl (MissingHeaderField ''INTERFACE'')
          else if header_member h = None then Inl (MissingHeaderField ''MEMBER'')
          else Inr ()
      | ErrorReply \<Rightarrow>
          if header_error_name h = None then Inl (MissingHeaderField ''ERROR_NAME'')
          else if header_reply_serial h = None then Inl (MissingHeaderField ''REPLY_SERIAL'')
          else Inr ()
      | MethodReturn \<Rightarrow>
          if header_reply_serial h = None then Inl (MissingHeaderField ''REPLY_SERIAL'')
          else Inr ())"

section \<open>Writing and reading\<close>

definition endian_byte :: "bool \<Rightarrow> u8" where
  "endian_byte be = (if be then byte_of CHR ''B'' else byte_of CHR ''l'')"

definition field_struct :: "header_field \<Rightarrow> dvalue" where
  "field_struct f = VStruct [VByte (field_code f), VVariant (field_to_value f)]"

definition field_type :: dtype where
  "field_type = TStruct [TByte, TVariant]"

definition header_write :: "message_header \<Rightarrow> marshaler \<Rightarrow> marshaler core_result" where
  "header_write h m =
     (let m = write_u8 (endian_byte (h_big_endian h)) m;
          m = write_u8 (message_type_u8 (h_type h)) m;
          m = write_u8 (h_flags h) m;
          m = write_u8 (h_version h) m;
          m = write_u32 (body_length h) m;
          m = write_u32 (h_serial h) m
      in and_then (write_value (VArray field_type (map field_struct (h_fields h))) m)
           (\<lambda>m. Inr (m_align 8 m)))"

definition byte_order :: "u8 \<Rightarrow> bool core_result" where
  "byte_order b =
     (if b = byte_of CHR ''l'' then Inr False
      else if b = byte_of CHR ''B'' then Inr True
      else Inl (BadByteOrder b))"

definition read_prefix ::
  "u8 list \<Rightarrow> (bool \<times> message_type \<times> u8 \<times> u8 \<times> u32 \<times> u32 \<times> u32) core_result" where
  "read_prefix bs =
     (if length bs < 16 then Inl (UnexpectedEof 16 (length bs))
      else and_then (byte_order (bs ! 0)) (\<lambda>be.
        and_then (message_type_from_u8 (bs ! 1)) (\<lambda>mt.
        if bs ! 3 \<noteq> PROTOCOL_VERSION then Inl (BadProtocolVersion (bs ! 3))
        else
          and_then (read_u32 (unmarshaler_new (drop 4 bs) be)) (\<lambda>(body_len, u).
          and_then (read_u32 u) (\<lambda>(serial, u).
          and_then (read_u32 u) (\<lambda>(fields_len, _).
            Inr (be, mt, bs ! 2, bs ! 3, body_len, serial, fields_len)))))))"

definition div_ceil :: "nat \<Rightarrow> nat \<Rightarrow> nat" where
  "div_ceil a b = (if a mod b = 0 then a div b else a div b + 1)"

definition peek_frame_len :: "u8 list \<Rightarrow> nat option core_result" where
  "peek_frame_len bs =
     (if length bs < 16 then Inr None
      else and_then (read_prefix bs) (\<lambda>(_, _, _, _, body_len, _, fields_len).
        let header_len_before_pad = 16 + unat fields_len;
            header_len = div_ceil header_len_before_pad 8 * 8
        in Inr (Some (header_len + unat body_len))))"

text \<open>The loop over the elements of the field array; elements of another shape are skipped.\<close>

fun collect_fields :: "dvalue list \<Rightarrow> header_field list core_result" where
  "collect_fields [] = Inr []"
| "collect_fields (VStruct [VByte code, variant] # els) =
     and_then (field_from_code_and_value code (case variant of VVariant v \<Rightarrow> v | other \<Rightarrow> other))
       (\<lambda>hf. and_then (collect_fields els) (\<lambda>hfs.
          Inr (case hf of Some f \<Rightarrow> f # hfs | None \<Rightarrow> hfs)))"
| "collect_fields (_ # els) = collect_fields els"

definition header_read :: "u8 list \<Rightarrow> (message_header \<times> nat) core_result option" where
  "header_read bs =
     fuel_then (Some (read_prefix bs)) (\<lambda>(be, mt, fl, ver, body_len, serial, _).
     let u0 = (unmarshaler_new bs be)\<lparr>u_pos := 4\<rparr> in
     fuel_then (Some (read_u32 u0)) (\<lambda>(_, u1).
     fuel_then (Some (read_u32 u1)) (\<lambda>(_, u2).
     fuel_then (read_value (length bs) (TArray field_type) u2) (\<lambda>(fv, u3).
     fuel_then (Some (case fv of VArray _ els \<Rightarrow> collect_fields els | _ \<Rightarrow> Inr [])) (\<lambda>hfs.
     fuel_then (Some (u_align 8 u3)) (\<lambda>u4.
       Some (Inr (\<lparr>h_big_endian = be, h_type = mt, h_flags = fl, h_version = ver,
                   body_length = body_len, h_serial = serial, h_fields = hfs\<rparr>, u_pos u4))))))))"


section \<open>Fields\<close>

lemma find_map_append:
  "find_map f (xs @ ys) = (case find_map f xs of Some y \<Rightarrow> Some y | None \<Rightarrow> find_map f ys)"
  by (induction xs) (auto split: option.splits)

lemma find_map_filter:
  "(\<And>x. \<not> P x \<Longrightarrow> f x = None) \<Longrightarrow> find_map f (filter P xs) = find_map f xs"
  by (induction xs) (auto split: option.splits)

lemma find_map_None: "find_map f xs = None \<longleftrightarrow> (\<forall>x \<in> set xs. f x = None)"
  by (induction xs) (auto split: option.splits)

lemma header_set_sender_sender: "header_sender (header_set_sender s h) = Some s"
proof -
  have "find_map (\<lambda>f. case f of HSender s \<Rightarrow> Some s | _ \<Rightarrow> None)
      (filter (\<lambda>f. \<not> is_sender f) (h_fields h)) = None"
    by (auto simp: find_map_None split: header_field.splits)
  then show ?thesis
    by (simp add: header_sender_def header_set_sender_def find_map_append)
qed

lemma header_set_sender_unique:
  "filter is_sender (h_fields (header_set_sender s h)) = [HSender s]"
  by (simp add: header_set_sender_def)

lemmas header_accessor_defs = header_path_def header_interface_def header_member_def
  header_error_name_def header_reply_serial_def header_destination_def header_signature_def
  header_unix_fds_def

lemma find_map_set_sender:
  assumes "\<And>s. f (HSender s) = None"
  shows "find_map f (h_fields (header_set_sender s h)) = find_map f (h_fields h)"
proof -
  have "find_map f (filter (\<lambda>x. \<not> is_sender x) (h_fields h)) = find_map f (h_fields h)"
    using assms by (intro find_map_filter) (metis is_sender.elims(2))
  then show ?thesis
    using assms by (simp add: header_set_sender_def find_map_append split: option.splits)
qed

lemma header_set_sender_others [simp]:
  "header_path (header_set_sender s h) = header_path h"
  "header_interface (header_set_sender s h) = header_interface h"
  "header_member (header_set_sender s h) = header_member h"
  "header_error_name (header_set_sender s h) = header_error_name h"
  "header_reply_serial (header_set_sender s h) = header_reply_serial h"
  "header_destination (header_set_sender s h) = header_destination h"
  "header_signature (header_set_sender s h) = header_signature h"
  "header_unix_fds (header_set_sender s h) = header_unix_fds h"
  by (simp_all add: header_accessor_defs find_map_set_sender)

lemma header_set_sender_type [simp]:
  "h_type (header_set_sender s h) = h_type h" "h_serial (header_set_sender s h) = h_serial h"
  "h_flags (header_set_sender s h) = h_flags h"
  "h_big_endian (header_set_sender s h) = h_big_endian h"
  by (simp_all add: header_set_sender_def)

lemma field_from_code_and_value_inverse [simp]:
  "field_from_code_and_value (field_code f) (field_to_value f) = Inr (Some f)"
  by (cases f) (simp_all add: field_from_code_and_value_def)

lemma collect_fields_inverse [simp]: "collect_fields (map field_struct fs) = Inr fs"
proof (induction fs)
  case (Cons f fs)
  then show ?case
    by (simp add: field_struct_def)
qed simp

lemma message_type_inverse [simp]: "message_type_from_u8 (message_type_u8 t) = Inr t"
  by (cases t) (simp_all add: message_type_from_u8_def)

definition wf_field :: "header_field \<Rightarrow> bool" where
  "wf_field f \<longleftrightarrow> wf_value (field_to_value f)"

lemma field_value_basic: "is_basic (value_type (field_to_value f))"
  by (cases f) simp_all

lemma field_struct_wf:
  "wf_field f \<Longrightarrow> wf_value (field_struct f)" "value_type (field_struct f) = field_type"
proof -
  have "wf_type False 0 0 (value_type (field_to_value f))"
    by (cases f) simp_all
  then show "wf_field f \<Longrightarrow> wf_value (field_struct f)"
    by (simp add: field_struct_def wf_field_def)
qed (simp add: field_struct_def field_type_def)

lemma field_type_solid [simp]: "solid field_type" "alignment field_type = 8"
  by (simp_all add: field_type_def)

section \<open>The bytes of a header\<close>

definition fields_value :: "message_header \<Rightarrow> dvalue" where
  "fields_value h = VArray field_type (map field_struct (h_fields h))"

definition fixed_part :: "message_header \<Rightarrow> u8 list" where
  "fixed_part h =
     [endian_byte (h_big_endian h), message_type_u8 (h_type h), h_flags h, h_version h] @
     word_bytes (h_big_endian h) (body_length h) @ word_bytes (h_big_endian h) (h_serial h)"

lemma length_fixed_part [simp]: "length (fixed_part h) = 12"
  by (simp add: fixed_part_def)

lemma header_write_bytes:
  assumes "header_write h (marshaler_new (h_big_endian h)) = Inr m"
  obtains es where "enc (h_big_endian h) 12 (fields_value h) = Inr es"
    "buf m = fixed_part h @ es @ pad 8 (12 + length es)"
proof -
  define m0 where "m0 = push_bytes (fixed_part h) (marshaler_new (h_big_endian h))"
  have m0: "length (buf m0) = 12" "buf m0 = fixed_part h" "big_endian m0 = h_big_endian h"
    by (simp_all add: m0_def marshaler_new_def)
  have "header_write h (marshaler_new (h_big_endian h)) =
      and_then (write_value (fields_value h) m0) (\<lambda>m. Inr (m_align 8 m))"
    by (simp add: header_write_def Let_def m0_def fixed_part_def marshaler_new_def fields_value_def
        enc_word_def pad_def padding_def)
  with assms obtain m1 where "write_value (fields_value h) m0 = Inr m1" "m = m_align 8 m1"
    by (auto simp: result_simps)
  then obtain es where "enc (h_big_endian h) 12 (fields_value h) = Inr es"
    "m = m_align 8 (push_bytes es m0)"
    by (auto simp: write_value_enc m0 result_simps)
  then show thesis
    using m0 by (intro that [of es]) (simp_all add: m_align_push)
qed

lemma header_array_length:
  assumes "enc be 12 (VArray field_type vs) = Inr es"
  obtains body where "es = word_bytes be (word_of_nat (length body) :: u32) @ body"
    "length body \<le> MAX_ARRAY_LEN"
  using assms by (auto simp: result_simps enc_array_def array_start_def pad_def padding_def
      enc_word_def split: if_splits)

lemma consumes_at:
  assumes "drop (u_pos u) (u_buf u) = s @ t" "u_pos u \<le> length (u_buf u)"
  shows "consumes u s (u_skip (length s) u)"
proof -
  have "length (u_buf u) - u_pos u = length s + length t"
    using arg_cong [OF assms(1), of length] by simp
  then have "u_pos u + length s \<le> length (u_buf u)"
    using assms(2) by linarith
  then show ?thesis
    using assms by (simp add: consumes_def u_slice_def)
qed

lemma read_u32_at:
  fixes w :: u32
  assumes "drop (u_pos u) (u_buf u) = word_bytes (u_big_endian u) w @ t" "u_pos u mod 4 = 0"
  shows "read_u32 u = Inr (w, u_skip 4 u)"
proof -
  have "length (drop (u_pos u) (u_buf u)) > 0"
    unfolding assms by simp
  then have "u_pos u \<le> length (u_buf u)"
    by simp
  moreover have "enc_word (u_big_endian u) (u_pos u) w = word_bytes (u_big_endian u) w"
    using assms by (simp add: enc_word_def pad_def padding_def)
  ultimately show ?thesis
    using read_word_enc(2) [of u w] consumes_at [OF assms(1)] by simp
qed

text \<open>What stands at a position that is a concatenation before it.\<close>

definition header_bytes :: "message_header \<Rightarrow> u8 list \<Rightarrow> u8 list" where
  "header_bytes h es = fixed_part h @ es @ pad 8 (12 + length es)"

lemma fixed_part_nth:
  "(fixed_part h @ xs) ! 0 = endian_byte (h_big_endian h)"
  "(fixed_part h @ xs) ! Suc 0 = message_type_u8 (h_type h)"
  "(fixed_part h @ xs) ! 2 = h_flags h" "(fixed_part h @ xs) ! 3 = h_version h"
  by (simp_all add: fixed_part_def)

lemma fixed_part_drop:
  "drop 4 (fixed_part h @ xs) =
     word_bytes (h_big_endian h) (body_length h) @ word_bytes (h_big_endian h) (h_serial h) @ xs"
  "drop 8 (fixed_part h @ xs) = word_bytes (h_big_endian h) (h_serial h) @ xs"
  "drop 12 (fixed_part h @ xs) = xs"
  by (simp_all add: fixed_part_def)

lemma read_prefix_written:
  fixes n :: u32
  assumes "h_version h = PROTOCOL_VERSION"
  shows "read_prefix (fixed_part h @ word_bytes (h_big_endian h) n @ xs) =
     Inr (h_big_endian h, h_type h, h_flags h, PROTOCOL_VERSION, body_length h, h_serial h, n)"
proof -
  define u where "u = unmarshaler_new (drop 4 (fixed_part h @ word_bytes (h_big_endian h) n @ xs)) (h_big_endian h)"
  then have u: "u = unmarshaler_new (word_bytes (h_big_endian h) (body_length h) @
      word_bytes (h_big_endian h) (h_serial h) @ word_bytes (h_big_endian h) n @ xs) (h_big_endian h)"
    by (simp only: fixed_part_drop)
  have "read_u32 u = Inr (body_length h, u_skip 4 u)"
    by (rule read_u32_at) (simp_all add: u unmarshaler_new_def)
  moreover have "read_u32 (u_skip 4 u) = Inr (h_serial h, u_skip 8 u)"
    by (subst read_u32_at) (simp_all add: u unmarshaler_new_def)
  moreover have "read_u32 (u_skip 8 u) = Inr (n, u_skip 12 u)"
    by (subst read_u32_at) (simp_all add: u unmarshaler_new_def)
  moreover have "byte_order (endian_byte (h_big_endian h)) = Inr (h_big_endian h)"
    by (simp add: byte_order_def endian_byte_def)
  ultimately show ?thesis
    using assms by (simp add: read_prefix_def fixed_part_nth del: drop_append flip: u_def)
qed

lemma header_read_written:
  assumes es: "enc (h_big_endian h) 12 (fields_value h) = Inr es"
    and ver: "h_version h = PROTOCOL_VERSION" and wf: "\<forall>f \<in> set (h_fields h). wf_field f"
  shows "header_read (header_bytes h es @ rest) = Some (Inr (h, length (header_bytes h es)))"
proof -
  let ?bs = "header_bytes h es @ rest"
  define u0 where "u0 = (unmarshaler_new ?bs (h_big_endian h))\<lparr>u_pos := 4\<rparr>"
  define u3 where "u3 = u_skip (length es) (u_skip 8 u0)"
  obtain body where body: "es = word_bytes (h_big_endian h) (word_of_nat (length body) :: u32) @ body"
    using es header_array_length unfolding fields_value_def by blast
  have u0: "u_buf u0 = ?bs" "u_pos u0 = 4" "u_big_endian u0 = h_big_endian h"
    by (simp_all add: u0_def unmarshaler_new_def)
  have "read_u32 u0 = Inr (body_length h, u_skip 4 u0)"
    by (rule read_u32_at) (simp_all add: u0 header_bytes_def fixed_part_drop del: drop_append)
  moreover have "read_u32 (u_skip 4 u0) = Inr (h_serial h, u_skip 8 u0)"
    by (subst read_u32_at) (simp_all add: u0 header_bytes_def fixed_part_drop del: drop_append)
  moreover have "read_value (length ?bs) (TArray field_type) (u_skip 8 u0) = Some (Inr (fields_value h, u3))"
  proof -
    have "consumes (u_skip 8 u0) es u3"
      unfolding u3_def by (rule consumes_at) (simp_all add: u0 header_bytes_def fixed_part_drop del: drop_append)
    moreover have "wf_value (fields_value h)"
      using wf field_struct_wf by (auto simp: fields_value_def)
    ultimately have "fuel_le (read_value (length ?bs) (value_type (fields_value h)) (u_skip 8 u0))
        (Some (Inr (fields_value h, u3)))"
      using es by (intro read_enc(1)) (auto simp: u0)
    moreover have "read_value (length ?bs) (TArray field_type) (u_skip 8 u0) \<noteq> None"
      by (rule read_value_total) (simp_all add: u0 u_remaining_def header_bytes_def)
    ultimately show ?thesis
      by (auto simp: fuel_le_def fields_value_def)
  qed
  moreover have "u_align 8 u3 = Inr (u_skip (padding 8 (12 + length es)) u3)"
  proof (rule u_align_pad)
    have "consumes u3 (pad 8 (u_pos u3)) (u_skip (length (pad 8 (u_pos u3))) u3)"
      by (rule consumes_at) (simp_all add: u3_def u0 header_bytes_def)
    then show "consumes u3 (pad 8 (u_pos u3)) (u_skip (padding 8 (12 + length es)) u3)"
      by (simp add: u3_def u0 add.commute)
  qed
  moreover have "read_prefix ?bs =
      Inr (h_big_endian h, h_type h, h_flags h, PROTOCOL_VERSION, body_length h, h_serial h, word_of_nat (length body))"
    using read_prefix_written [OF ver, of "word_of_nat (length body)"]
    by (simp add: header_bytes_def body)
  ultimately show ?thesis
    using ver by (simp add: header_read_def flip: u0_def)
      (simp add: fields_value_def u3_def u0 header_bytes_def)
qed

lemma div_ceil_padding: "0 < b \<Longrightarrow> div_ceil a b * b = a + padding b a"
proof -
  assume "0 < b"
  then have "a mod b < b" "a div b * b + a mod b = a"
    by simp_all
  then show ?thesis
    by (auto simp: div_ceil_def padding_def; linarith)
qed

lemma peek_frame_len_written:
  assumes es: "enc (h_big_endian h) 12 (fields_value h) = Inr es"
    and ver: "h_version h = PROTOCOL_VERSION"
  shows "peek_frame_len (header_bytes h es @ rest) =
     Inr (Some (length (header_bytes h es) + unat (body_length h)))"
proof -
  obtain body where body: "es = word_bytes (h_big_endian h) (word_of_nat (length body) :: u32) @ body"
    and len: "length body \<le> MAX_ARRAY_LEN"
    using es header_array_length unfolding fields_value_def by blast
  have "unat (word_of_nat (length body) :: u32) = length body"
    using len by (simp add: unat_of_nat MAX_ARRAY_LEN_def)
  then show ?thesis
    using read_prefix_written [OF ver, of "word_of_nat (length body)"]
    by (simp add: peek_frame_len_def header_bytes_def body div_ceil_padding Let_def)
qed

end
