(* ===== verification/Message.thy ===== *)
theory Message
  imports Header
begin

text \<open>
  \<open>oxibus-core/src/message.rs\<close>: whole messages, the serial generator and the builder.
  \<open>from_bytes\<close> slices the body out of the buffer with a panicking index; \<open>None\<close> stands for
  that panic (it is shown not to happen on a complete frame).  File descriptors are \<open>int\<close>.
\<close>

section \<open>Serials\<close>

text \<open>The counter wraps around; the loop of \<open>next\<close> skips zero.\<close>

definition serial_generator_new :: u32 where
  "serial_generator_new = 1"

function serial_next :: "u32 \<Rightarrow> u32 \<times> u32" where
  "serial_next g = (let v = g; g' = g + 1 in if v \<noteq> 0 then (v, g') else serial_next g')"
  by pat_completeness auto

termination
  by (relation "measure (\<lambda>g. if g = 0 then 1 else 0)") auto

declare serial_next.simps [simp del]

lemma serial_next_eq: "serial_next g = (if g = 0 then (1, 2) else (g, g + 1))"
  by (simp add: serial_next.simps [of g] serial_next.simps [of 1])

section \<open>Messages\<close>

record message =
  header :: message_header
  body :: "dvalue list"
  fds :: "int list"

definition message_no_reply_expected :: "message \<Rightarrow> bool" where
  "message_no_reply_expected m \<longleftrightarrow> and (h_flags (header m)) NO_REPLY_EXPECTED \<noteq> 0"

definition message_no_auto_start :: "message \<Rightarrow> bool" where
  "message_no_auto_start m \<longleftrightarrow> and (h_flags (header m)) NO_AUTO_START \<noteq> 0"

definition set_sender :: "string \<Rightarrow> message \<Rightarrow> message" where
  "set_sender s m = m\<lparr>header := header_set_sender s (header m)\<rparr>"

abbreviation "m_type m \<equiv> h_type (header m)"
abbreviation "m_serial m \<equiv> h_serial (header m)"
abbreviation "m_path m \<equiv> header_path (header m)"
abbreviation "m_interface m \<equiv> header_interface (header m)"
abbreviation "m_member m \<equiv> header_member (header m)"
abbreviation "m_destination m \<equiv> header_destination (header m)"
abbreviation "m_sender m \<equiv> header_sender (header m)"
abbreviation "m_reply_serial m \<equiv> header_reply_serial (header m)"

fun is_body_field :: "header_field \<Rightarrow> bool" where
  "is_body_field (HSignature _) = True"
| "is_body_field (HUnixFds _) = True"
| "is_body_field _ = False"

text \<open>The header as it is sent: body length, signature and descriptor count from the body.\<close>

definition sent_header :: "message \<Rightarrow> u8 list \<Rightarrow> dsignature option \<Rightarrow> message_header" where
  "sent_header m body_bytes sig =
     (header m)\<lparr>body_length := word_of_nat (length body_bytes),
        h_fields := filter (\<lambda>f. \<not> is_body_field f) (h_fields (header m)) @
          (case sig of Some s \<Rightarrow> [HSignature s] | None \<Rightarrow> []) @
          (if fds m \<noteq> [] then [HUnixFds (word_of_nat (length (fds m)))] else [])\<rparr>"

definition to_bytes :: "message \<Rightarrow> u8 list core_result" where
  "to_bytes m =
     and_then (marshal_body (body m) (h_big_endian (header m))) (\<lambda>(body_bytes, sig).
     and_then (if sig \<noteq> [] then and_then (signature_new sig) (\<lambda>s. Inr (Some s)) else Inr None) (\<lambda>s.
     let h = sent_header m body_bytes s in
     and_then (header_validate h) (\<lambda>_.
     and_then (header_write h (marshaler_new (h_big_endian h))) (\<lambda>w.
       Inr (buf w @ body_bytes)))))"

definition byte_slice :: "'a list \<Rightarrow> nat \<Rightarrow> nat \<Rightarrow> 'a list option" where
  "byte_slice xs i j = (if i \<le> j \<and> j \<le> length xs then Some (take (j - i) (drop i xs)) else None)"

definition from_bytes :: "u8 list \<Rightarrow> int list \<Rightarrow> message core_result option" where
  "from_bytes bs descriptors =
     fuel_then (header_read bs) (\<lambda>(h, body_offset).
     case byte_slice bs body_offset (body_offset + unat (body_length h)) of
       None \<Rightarrow> None
     | Some body_buf \<Rightarrow>
         fuel_then
           (if header_signature h = [] then Some (Inr [])
            else unmarshal_body body_buf (header_signature h) (h_big_endian h)) (\<lambda>vs.
         if length descriptors < unat (header_unix_fds h) then
           Some (Inl (FdIndexOutOfRange (unat (header_unix_fds h)) (length descriptors)))
         else Some (Inr \<lparr>header = h, body = vs, fds = descriptors\<rparr>)))"

section \<open>The builder\<close>

record message_builder =
  b_type :: message_type
  b_flags :: u8
  b_fields :: "header_field list"
  b_body :: "dvalue list"
  b_fds :: "int list"
  b_big_endian :: bool

text \<open>\<open>cfg!(target_endian)\<close> is fixed when the crate is compiled: a little-endian target.\<close>

definition builder_new :: "message_type \<Rightarrow> message_builder" where
  "builder_new t =
     \<lparr>b_type = t, b_flags = 0, b_fields = [], b_body = [], b_fds = [], b_big_endian = False\<rparr>"

definition push_field :: "header_field \<Rightarrow> message_builder \<Rightarrow> message_builder" where
  "push_field f b = b\<lparr>b_fields := b_fields b @ [f]\<rparr>"

definition build_method_call :: "object_path \<Rightarrow> string \<Rightarrow> message_builder" where
  "build_method_call path member =
     push_field (HMember member) (push_field (HPath path) (builder_new MethodCall))"

definition build_signal :: "object_path \<Rightarrow> string \<Rightarrow> string \<Rightarrow> message_builder" where
  "build_signal path interface member =
     push_field (HMember member)
       (push_field (HInterface interface) (push_field (HPath path) (builder_new Signal)))"

definition build_method_return :: "u32 \<Rightarrow> message_builder" where
  "build_method_return reply_to_serial =
     push_field (HReplySerial reply_to_serial) (builder_new MethodReturn)"

definition build_error :: "u32 \<Rightarrow> string \<Rightarrow> message_builder" where
  "build_error reply_to_serial error_name =
     push_field (HErrorName error_name)
       (push_field (HReplySerial reply_to_serial) (builder_new ErrorReply))"

definition with_interface :: "string \<Rightarrow> message_builder \<Rightarrow> message_builder" where
  "with_interface s b = push_field (HInterface s) b"

definition with_destination :: "string \<Rightarrow> message_builder \<Rightarrow> message_builder" where
  "with_destination s b = push_field (HDestination s) b"

definition with_sender :: "string \<Rightarrow> message_builder \<Rightarrow> message_builder" where
  "with_sender s b = push_field (HSender s) b"

definition with_flag :: "u8 \<Rightarrow> message_builder \<Rightarrow> message_builder" where
  "with_flag f b = b\<lparr>b_flags := or (b_flags b) f\<rparr>"

definition with_arg :: "dvalue \<Rightarrow> message_builder \<Rightarrow> message_builder" where
  "with_arg v b = b\<lparr>b_body := b_body b @ [v]\<rparr>"

definition with_args :: "dvalue list \<Rightarrow> message_builder \<Rightarrow> message_builder" where
  "with_args vs b = b\<lparr>b_body := b_body b @ vs\<rparr>"

definition with_fd :: "int \<Rightarrow> message_builder \<Rightarrow> message_builder" where
  "with_fd fd b = b\<lparr>b_fds := b_fds b @ [fd]\<rparr>"

definition build :: "u32 \<Rightarrow> message_builder \<Rightarrow> message" where
  "build serial b =
     \<lparr>header = \<lparr>h_big_endian = b_big_endian b, h_type = b_type b, h_flags = b_flags b,
                h_version = PROTOCOL_VERSION, body_length = 0, h_serial = serial,
                h_fields = b_fields b\<rparr>,
      body = b_body b, fds = b_fds b\<rparr>"

definition reply_to :: "message \<Rightarrow> string option \<Rightarrow> message_builder" where
  "reply_to call error_name =
     (let b = (case error_name of
                 None \<Rightarrow> build_method_return (m_serial call)
               | Some name \<Rightarrow> build_error (m_serial call) name)
      in case m_sender call of Some sender \<Rightarrow> with_destination sender b | None \<Rightarrow> b)"


section \<open>Sending and receiving\<close>

lemma find_map_body_fields:
  assumes "\<And>x. \<not> is_body_field x \<Longrightarrow> f x = None"
  shows "find_map f (filter (\<lambda>x. \<not> is_body_field x) fs) = None"
  using assms by (simp add: find_map_None)

lemma sent_header_signature:
  "header_signature (sent_header m bb s) = (case s of Some g \<Rightarrow> sig_str g | None \<Rightarrow> [])"
proof -
  have "find_map (\<lambda>f. case f of HSignature s \<Rightarrow> Some (sig_str s) | _ \<Rightarrow> None)
      (filter (\<lambda>x. \<not> is_body_field x) (h_fields (header m))) = None"
    by (rule find_map_body_fields) (auto split: header_field.splits)
  then show ?thesis
    by (simp add: header_signature_def sent_header_def find_map_append split: option.splits)
qed

lemma sent_header_unix_fds:
  "header_unix_fds (sent_header m bb s) = (if fds m = [] then 0 else word_of_nat (length (fds m)))"
proof -
  have "find_map (\<lambda>f. case f of HUnixFds v \<Rightarrow> Some v | _ \<Rightarrow> None)
      (filter (\<lambda>x. \<not> is_body_field x) (h_fields (header m))) = None"
    by (rule find_map_body_fields) (auto split: header_field.splits)
  then show ?thesis
    by (simp add: header_unix_fds_def sent_header_def find_map_append split: option.splits)
qed

lemma sent_header_simps [simp]:
  "body_length (sent_header m bb s) = word_of_nat (length bb)"
  "h_version (sent_header m bb s) = h_version (header m)"
  "h_big_endian (sent_header m bb s) = h_big_endian (header m)"
  "h_type (sent_header m bb s) = h_type (header m)"
  "h_serial (sent_header m bb s) = h_serial (header m)"
  by (simp_all add: sent_header_def)

lemma sent_header_find:
  assumes "\<And>x. f (HSignature x) = None" "\<And>x. f (HUnixFds x) = None"
  shows "find_map f (h_fields (sent_header m bb s)) = find_map f (h_fields (header m))"
proof -
  have "find_map f (filter (\<lambda>x. \<not> is_body_field x) (h_fields (header m))) =
      find_map f (h_fields (header m))"
    using assms by (intro find_map_filter) (metis is_body_field.elims(2))
  then show ?thesis
    using assms by (simp add: sent_header_def find_map_append split: option.splits)
qed

lemma sent_header_keeps [simp]:
  "header_path (sent_header m bb s) = header_path (header m)"
  "header_interface (sent_header m bb s) = header_interface (header m)"
  "header_member (sent_header m bb s) = header_member (header m)"
  "header_error_name (sent_header m bb s) = header_error_name (header m)"
  "header_reply_serial (sent_header m bb s) = header_reply_serial (header m)"
  "header_destination (sent_header m bb s) = header_destination (header m)"
  "header_sender (sent_header m bb s) = header_sender (header m)"
  by (simp_all add: header_accessor_defs header_sender_def sent_header_find)

lemma sent_header_sender_fields [simp]:
  "filter is_sender (h_fields (sent_header m bb s)) = filter is_sender (h_fields (header m))"
proof -
  have "is_sender f \<Longrightarrow> \<not> is_body_field f" for f
    by (cases f) auto
  then have "filter is_sender (filter (\<lambda>f. \<not> is_body_field f) fs) = filter is_sender fs" for fs
    by (induction fs) auto
  then show ?thesis
    by (simp add: sent_header_def split: option.splits)
qed

lemma sent_header_wf:
  assumes "\<forall>f \<in> set (h_fields (header m)). wf_field f"
    and "\<And>g. s = Some g \<Longrightarrow> parse_signature (sig_str g) \<in> range Inr"
  shows "\<forall>f \<in> set (h_fields (sent_header m bb s)). wf_field f"
  using assms by (auto simp: sent_header_def wf_field_def split: option.splits)

lemma to_bytes_cases:
  assumes "to_bytes m = Inr bs"
  obtains bb s es where
    "write_values (body m) (marshaler_new (h_big_endian (header m))) =
       Inr \<lparr>buf = bb, big_endian = h_big_endian (header m)\<rparr>"
    "s = (if body m = [] then None else Some (Signature (signatures_of (map value_type (body m)))))"
    "body m \<noteq> [] \<Longrightarrow>
       parse_signature (signatures_of (map value_type (body m))) = Inr (map value_type (body m))"
    "enc (h_big_endian (header m)) 12 (fields_value (sent_header m bb s)) = Inr es"
    "header_validate (sent_header m bb s) = Inr ()"
    "bs = header_bytes (sent_header m bb s) es @ bb"
proof -
  define sig where "sig = signatures_of (map value_type (body m))"
  have sig: "concat (map (\<lambda>v. to_signature_string (value_type v)) (body m)) = sig"
    by (simp add: sig_def signatures_of_eq comp_def)
  have Nil: "sig = [] \<longleftrightarrow> body m = []"
    by (cases "body m") (simp_all add: sig_def to_signature_string_eq [symmetric])
  from assms obtain m1 s w where
    body: "write_values (body m) (marshaler_new (h_big_endian (header m))) = Inr m1"
    and s: "(if sig \<noteq> [] then and_then (signature_new sig) (\<lambda>s. Inr (Some s)) else Inr None) = Inr s"
    and val: "header_validate (sent_header m (buf m1) s) = Inr ()"
    and w: "header_write (sent_header m (buf m1) s) (marshaler_new (h_big_endian (header m))) = Inr w"
    and bs: "bs = buf w @ buf m1"
    by (auto simp: to_bytes_def marshal_body_def result_simps Let_def sig)
  have m1: "m1 = \<lparr>buf = buf m1, big_endian = h_big_endian (header m)\<rparr>"
    using body by (auto simp: write_value_enc result_simps marshaler_new_def push_bytes_def)
  have s': "s = (if body m = [] then None else Some (Signature sig))"
    using s by (auto simp: Nil result_simps signature_new_eq split: if_splits)
  have "parse_signature sig = Inr (map value_type (body m))" if ne: "body m \<noteq> []"
  proof -
    obtain ts where ts: "parse_signature sig = Inr ts"
      using s ne by (auto simp: Nil result_simps signature_new_eq split: if_splits)
    then have "signatures_of ts = sig"
      by (simp add: parse_signature_eq signatures_of_eq)
    then have "ts = map value_type (body m)"
      by (simp add: sig_def signatures_of_inject)
    with ts show ?thesis by simp
  qed
  moreover obtain es where "enc (h_big_endian (header m)) 12 (fields_value (sent_header m (buf m1) s)) = Inr es"
    "buf w = header_bytes (sent_header m (buf m1) s) es"
    using header_write_bytes [of "sent_header m (buf m1) s" w] w by (auto simp: header_bytes_def)
  ultimately show thesis
    using body m1 s' val bs by (intro that [of "buf m1" s es]) (auto simp: sig_def)
qed


text \<open>
  What a message is after a trip over the wire: the header as sent.  The frame length that the
  receiver computes from the prefix is the length of the bytes.
\<close>

definition wf_message :: "message \<Rightarrow> bool" where
  "wf_message m \<longleftrightarrow>
     h_version (header m) = PROTOCOL_VERSION \<and> (\<forall>f \<in> set (h_fields (header m)). wf_field f) \<and>
     (\<forall>v \<in> set (body m). wf_value v) \<and> length (fds m) < 2 ^ 32"

definition received :: "message \<Rightarrow> message" where
  "received m =
     (case marshal_body (body m) (h_big_endian (header m)) of
        Inr (bb, sig) \<Rightarrow>
          m\<lparr>header := sent_header m bb (if body m = [] then None else Some (Signature sig))\<rparr>
      | Inl _ \<Rightarrow> m)"

lemma from_to_bytes:
  assumes "to_bytes m = Inr bs" "wf_message m" "length bs < 2 ^ 32"
  shows "from_bytes bs (fds m) = Some (Inr (received m)) \<and> peek_frame_len bs = Inr (Some (length bs))"
proof -
  from assms(1) obtain bb s es where
    body: "write_values (body m) (marshaler_new (h_big_endian (header m))) =
       Inr \<lparr>buf = bb, big_endian = h_big_endian (header m)\<rparr>"
    and s: "s = (if body m = [] then None else Some (Signature (signatures_of (map value_type (body m)))))"
    and sig: "body m \<noteq> [] \<Longrightarrow>
       parse_signature (signatures_of (map value_type (body m))) = Inr (map value_type (body m))"
    and es: "enc (h_big_endian (header m)) 12 (fields_value (sent_header m bb s)) = Inr es"
    and bs: "bs = header_bytes (sent_header m bb s) es @ bb"
    by (rule to_bytes_cases) blast
  note wf = assms(2) [unfolded wf_message_def]
  have len: "unat (word_of_nat (length bb) :: u32) = length bb"
    using assms(3) bs by (simp add: unat_of_nat)
  have fds: "unat (header_unix_fds (sent_header m bb s)) = length (fds m)"
    using wf by (simp add: sent_header_unix_fds unat_of_nat)
  have "\<forall>f \<in> set (h_fields (sent_header m bb s)). wf_field f"
    using wf sig by (intro sent_header_wf) (auto simp: s split: if_splits)
  then have h: "header_read bs = Some (Inr (sent_header m bb s, length (header_bytes (sent_header m bb s) es)))"
    using header_read_written [of "sent_header m bb s" es bb] es wf by (simp add: bs)
  have solid: "\<forall>v \<in> set (body m). wf_value v \<and> solid (value_type v)"
    using wf sig by (cases "body m = []") (auto simp: parse_signature_eq wf_signature_def intro: wf_type_solid)
  have "unmarshal_body bb (header_signature (sent_header m bb s)) (h_big_endian (header m)) = Some (Inr (body m))"
    if ne: "body m \<noteq> []"
    using sig [OF ne] ne s
      read_values_written [OF body solid, of "unmarshaler_new bb (h_big_endian (header m))" "length bb"]
    by (simp add: unmarshal_body_def sent_header_signature unmarshaler_new_def marshaler_new_def u_remaining_def)
  moreover have "header_signature (sent_header m bb s) = [] \<longleftrightarrow> body m = []"
    by (cases "body m") (simp_all add: sent_header_signature s to_signature_string_eq [symmetric])
  moreover have "byte_slice bs (length (header_bytes (sent_header m bb s) es))
      (length (header_bytes (sent_header m bb s) es) + length bb) = Some bb"
    by (simp add: byte_slice_def bs)
  moreover have "received m = m\<lparr>header := sent_header m bb s\<rparr>"
    using body by (simp add: received_def marshal_body_def s signatures_of_eq comp_def)
  ultimately have "from_bytes bs (fds m) = Some (Inr (received m))"
    using h len fds by (cases "body m = []") (simp_all add: from_bytes_def)
  moreover have "peek_frame_len bs = Inr (Some (length bs))"
    using peek_frame_len_written [of "sent_header m bb s" es bb] es wf len by (simp add: bs)
  ultimately show ?thesis
    by blast
qed


section \<open>A complete frame is read without a panic\<close>

lemma read_u32_aligned:
  assumes "u_pos u mod 4 = 0"
  shows "read_u32 u =
     (if u_pos u + 4 > length (u_buf u) then Inl (UnexpectedEof 4 (length (u_buf u) - u_pos u))
      else Inr (word_of_bytes (u_big_endian u) (take 4 (drop (u_pos u) (u_buf u))), u_skip 4 u))"
  using assms by (simp add: read_u32_def u_align_def need_def u_slice_def)

lemma read_prefix_fields_len:
  assumes "read_prefix bs = Inr (be, mt, fl, ver, bl, ser, n)"
  shows "16 \<le> length bs" "n = word_of_bytes be (take 4 (drop 12 bs))"
  using assms by (auto simp: read_prefix_def result_simps unmarshaler_new_def read_u32_aligned
      split: if_splits)

lemma u_align_pos: "u_align a u = Inr u' \<Longrightarrow> u_pos u' = u_pos u + padding a (u_pos u)"
  by (auto simp: u_align_def padding_def Let_def result_simps split: if_splits)

lemma header_read_cases:
  assumes "header_read bs = Some (Inr (h, off))"
  obtains be mt fl ver bl ser n where "read_prefix bs = Inr (be, mt, fl, ver, bl, ser, n)"
    "body_length h = bl" "off = 16 + unat n + padding 8 (16 + unat n)" "off \<le> length bs"
proof -
  define v where "v be = (unmarshaler_new bs be)\<lparr>u_pos := 12\<rparr>" for be
  from assms obtain be mt fl ver bl ser n u1 w1 u2 w2 fv u3 u4 where
    pre: "read_prefix bs = Inr (be, mt, fl, ver, bl, ser, n)"
    and r1: "read_u32 ((unmarshaler_new bs be)\<lparr>u_pos := 4\<rparr>) = Inr (w1, u1)"
    and r2: "read_u32 u1 = Inr (w2, u2)"
    and rv: "read_value (length bs) (TArray field_type) u2 = Some (Inr (fv, u3))"
    and al: "u_align 8 u3 = Inr u4" and bl: "body_length h = bl" and off: "off = u_pos u4"
    by (auto simp: header_read_def result_simps Let_def)
  have u2: "u2 = v be"
    using r1 r2 by (auto simp: read_u32_aligned unmarshaler_new_def v_def u_skip_def split: if_splits)
  have len: "16 \<le> length bs"
    by (rule read_prefix_fields_len(1) [OF pre])
  have r3: "read_u32 u2 = Inr (n, u_skip 4 u2)"
    using len read_prefix_fields_len(2) [OF pre]
    by (simp add: u2 read_u32_aligned v_def unmarshaler_new_def)
  from rv obtain vs where "read_array_head field_type u2 = Inr (u_pos u3, u_skip 4 u2)
      \<and> read_elems (length bs) field_type (u_pos u3) [] (u_skip 4 u2) = Some (Inr (vs, u3))
      \<and> u_pos u3 = 16 + unat n"
    using r3 by (auto simp: result_simps read_array_head_def Let_def u_align_def u2 v_def unmarshaler_new_def
        split: if_splits)
  then have stop: "u_pos u3 = 16 + unat n"
    by blast
  have "moved 1 u2 u3"
    using rv by (rule read_value_moved) simp
  then have "moved 1 u2 u4"
    using u_align_moved [OF al] by (auto elim: moved_trans_le)
  then have "u_pos u4 \<le> length bs"
    using len by (auto simp: moved_def u2 v_def unmarshaler_new_def)
  then show thesis
    using pre bl off u_align_pos [OF al] stop by (intro that) auto
qed

lemma header_read_total: "header_read bs \<noteq> None"
proof -
  have "read_value (length bs) (TArray field_type) u2 \<noteq> None"
    if "read_prefix bs = Inr p" "read_u32 ((unmarshaler_new bs be)\<lparr>u_pos := 4\<rparr>) = Inr (w1, u1)"
      "read_u32 u1 = Inr (w2, u2)" for be p w1 u1 w2 u2
  proof -
    have "moved 4 ((unmarshaler_new bs be)\<lparr>u_pos := 4\<rparr>) u2"
      using moved_trans_le [OF read_word_moved(3) [OF that(2)] read_word_moved(3) [OF that(3)]] by simp
    moreover have "4 \<le> length bs"
      using that(1) by (auto simp: read_prefix_def split: if_splits)
    ultimately show ?thesis
      by (intro read_value_total) (auto simp: moved_def unmarshaler_new_def u_remaining_def
          dest: arg_cong [where f = u_buf])
  qed
  then show ?thesis
    by (auto simp: header_read_def fuel_then_eq_None Let_def)
qed

lemma unmarshal_body_total: "unmarshal_body bs sig be \<noteq> None"
proof -
  have "read_values (length bs) ts (unmarshaler_new bs be) \<noteq> None" if "parse_signature sig = Inr ts" for ts
    using that by (intro read_value_total)
      (auto simp: parse_signature_eq wf_signature_def unmarshaler_new_def u_remaining_def wf_type_solid)
  then show ?thesis
    by (auto simp: unmarshal_body_def fuel_then_eq_None)
qed

lemma fuel_then_total: "r \<noteq> None \<Longrightarrow> (\<And>a. r = Some (Inr a) \<Longrightarrow> f a \<noteq> None) \<Longrightarrow> fuel_then r f \<noteq> None"
  by (auto simp: fuel_then_def split: option.splits sum.splits)

lemma from_bytes_complete_frame:
  assumes "peek_frame_len bs = Inr (Some n)" "n \<le> length bs"
  shows "from_bytes bs descriptors \<noteq> None"
proof -
  have "byte_slice bs off (off + unat (body_length h)) \<noteq> None"
    if "header_read bs = Some (Inr (h, off))" for h off
    using that assms
    by (auto elim!: header_read_cases simp: peek_frame_len_def div_ceil_padding byte_slice_def result_simps
        Let_def split: if_splits)
  then have "\<exists>bb. byte_slice bs off (off + unat (body_length h)) = Some bb"
    if "header_read bs = Some (Inr (h, off))" for h off
    using that by auto
  moreover have "fuel_then (if c then Some (Inr []) else unmarshal_body bb sig be)
      (\<lambda>vs. if d then Some (Inl e) else Some (Inr (g vs))) \<noteq> None"
    for c d bb sig be and e :: core_error and g :: "dvalue list \<Rightarrow> message"
    by (intro fuel_then_total) (simp_all add: unmarshal_body_total del: not_None_eq)
  ultimately show ?thesis
    unfolding from_bytes_def
    by (intro fuel_then_total header_read_total) (fastforce simp del: not_None_eq)
qed

end
