(* ===== verification/Wire_Properties.thy ===== *)
theory Wire_Properties
  imports Message "HOL-Library.Code_Target_Nat"
begin

text \<open>
  The properties of the wire format (\<open>oxibus-core\<close>): messages, values, signatures, headers,
  serials and object paths, each with a concrete instance where it has hypotheses.
\<close>

section \<open>Messages\<close>

definition sample_message :: message where
  "sample_message =
     build 7 (with_arg (VArray TUInt16 [VUInt16 258, VUInt16 3])
       (with_arg (VString ''hi'')
         (build_signal (ObjectPath ''/a'') ''a.b'' ''M'')))"

definition sample_bytes :: "u8 list" where
  "sample_bytes = (case to_bytes sample_message of Inr bs \<Rightarrow> bs | Inl _ \<Rightarrow> [])"

lemma sample_message_sent:
  "to_bytes sample_message = Inr sample_bytes" "wf_message sample_message"
  "length sample_bytes < 2 ^ 32" "fds sample_message = []"
  by code_simp+

text \<open>C1. A message that \<open>to_bytes\<close> accepts is read back by \<open>from_bytes\<close> as it was sent (with
  body length, signature and descriptor count filled in), and \<open>peek_frame_len\<close> computes
  exactly the number of bytes from the prefix.\<close>

theorem message_round_trip:
  assumes "to_bytes m = Inr bs" "wf_message m" "length bs < 2 ^ 32"
  shows "from_bytes bs (fds m) = Some (Inr (received m)) \<and> peek_frame_len bs = Inr (Some (length bs))"
  using assms by (rule from_to_bytes)

lemma message_round_trip_witness:
  "from_bytes sample_bytes [] = Some (Inr (received sample_message)) \<and>
   peek_frame_len sample_bytes = Inr (Some (length sample_bytes))"
  using message_round_trip [OF sample_message_sent(1,2)] sample_message_sent(3,4) by simp

text \<open>C18. The sender that the bus stamps on a message is the one the receiver reads, whatever
  sender the message claimed: after the trip over the wire the header carries exactly one
  sender field, and the destination and member are those of the original.\<close>

theorem stamped_sender_is_received:
  assumes "to_bytes (set_sender s m) = Inr bs" "wf_message (set_sender s m)" "length bs < 2 ^ 32"
  shows "\<exists>m'. from_bytes bs (fds m) = Some (Inr m') \<and> m_sender m' = Some s \<and>
     filter is_sender (h_fields (header m')) = [HSender s] \<and>
     m_destination m' = m_destination m \<and> m_member m' = m_member m \<and> body m' = body m"
proof -
  have "from_bytes bs (fds m) = Some (Inr (received (set_sender s m)))"
    using from_to_bytes [OF assms] by (simp add: set_sender_def)
  moreover obtain bb sg where "marshal_body (body m) (h_big_endian (header m)) = Inr (bb, sg)"
    using assms(1) by (auto simp: to_bytes_def set_sender_def result_simps)
  ultimately show ?thesis
    by (auto simp: received_def set_sender_def header_set_sender_sender
        header_set_sender_unique)
qed

definition forged_message :: message where
  "forged_message = build 3 (with_sender ''org.root'' (build_method_return 9))"

definition stamped_bytes :: "u8 list" where
  "stamped_bytes = (case to_bytes (set_sender '':1.7'' forged_message) of Inr bs \<Rightarrow> bs | Inl _ \<Rightarrow> [])"

lemma stamped_sample:
  "to_bytes (set_sender '':1.7'' forged_message) = Inr stamped_bytes"
  "wf_message (set_sender '':1.7'' forged_message)" "length stamped_bytes < 2 ^ 32"
  "fds forged_message = []"
  by code_simp+

lemma stamped_sender_is_received_witness:
  "\<exists>m'. from_bytes stamped_bytes [] = Some (Inr m') \<and> m_sender m' = Some '':1.7'' \<and> body m' = []"
proof -
  have "body forged_message = []"
    by code_simp
  then show ?thesis
    using stamped_sender_is_received [OF stamped_sample(1-3)] by (auto simp: stamped_sample(4))
qed

section \<open>Values\<close>

text \<open>C17. Reading at the type of a value what the writer appended for it gives the value back and
  leaves the reader right behind it, at every offset, in both byte orders and whatever
  follows in the buffer.\<close>

theorem value_round_trip:
  assumes "write_value v m = Inr m'" "wf_value v" "solid (value_type v)"
    "u_big_endian u = big_endian m" "u_pos u = length (buf m)"
    "take (length (buf m')) (u_buf u) = buf m'" "u_remaining u \<le> fuel"
  shows "read_value fuel (value_type v) u = Some (Inr (v, u\<lparr>u_pos := length (buf m')\<rparr>))"
  using assms by (rule read_value_written)

definition sample_value :: dvalue where
  "sample_value = VStruct [VByte 1, VVariant (VArray TUInt32 [VUInt32 70000])]"

definition sample_marshaler :: marshaler where
  "sample_marshaler =
     (case write_value sample_value (marshaler_new True) of Inr m \<Rightarrow> m | Inl _ \<Rightarrow> marshaler_new True)"

lemma sample_value_written:
  "write_value sample_value (marshaler_new True) = Inr sample_marshaler" "wf_value sample_value"
  "length (buf sample_marshaler) = 16"
  by code_simp+

lemma value_round_trip_witness:
  "read_value 16 (TStruct [TByte, TVariant]) (unmarshaler_new (buf sample_marshaler) True) =
     Some (Inr (sample_value, \<lparr>u_buf = buf sample_marshaler, u_pos = 16, u_big_endian = True\<rparr>))"
  using value_round_trip [OF sample_value_written(1,2),
      of "unmarshaler_new (buf sample_marshaler) True" 16]
  by (simp add: sample_value_written(3) unmarshaler_new_def marshaler_new_def u_remaining_def,
      simp add: sample_value_def)

text \<open>C32. The writer, which patches the length of an array after its elements are written, appends
  exactly the bytes of the reference encoding of the value at the current offset, and fails
  with the error the encoding has.\<close>

theorem writer_meets_reference:
  "write_value v m =
     and_then (enc (big_endian m) (length (buf m)) v) (\<lambda>bs. Inr (push_bytes bs m))"
  by (rule write_value_enc(1))

lemma sample_body:
  "unmarshal_body [5, 0, 0, 0, 6, 0, 0, 0, 1, 0, 0, 0, 120, 0] ''yas'' False =
     Some (Inr [VByte 5, VArray TString [VString ''x'']])"
  "parse_signature ''yas'' = Inr [TByte, TArray TString]"
  by code_simp+

text \<open>C33. A body is decoded to values of exactly the types its signature denotes, and every value
  is well formed (valid UTF-8 strings, valid paths and signatures, homogeneous arrays).\<close>

theorem decoded_body_typed:
  assumes "unmarshal_body bs sig be = Some (Inr vs)"
  shows "parse_signature sig = Inr (map value_type vs) \<and> (\<forall>v \<in> set vs. wf_value v)"
proof -
  obtain ts u' where ts: "parse_signature sig = Inr ts"
    and r: "read_values (length bs) ts (unmarshaler_new bs be) = Some (Inr (vs, u'))"
    using assms by (auto simp: unmarshal_body_def result_simps)
  have "\<forall>t \<in> set ts. solid t"
    using ts by (auto simp: parse_signature_eq wf_signature_def wf_type_solid)
  then show ?thesis
    using read_value_wf(3) [OF r] ts by auto
qed

lemma decoded_body_typed_witness:
  "parse_signature ''yas'' = Inr (map value_type [VByte 5, VArray TString [VString ''x'']]) \<and>
   wf_value (VArray TString [VString ''x''])"
  using decoded_body_typed
    [of "[5, 0, 0, 0, 6, 0, 0, 0, 1, 0, 0, 0, 120, 0]" "''yas''" False
        "[VByte 5, VArray TString [VString ''x'']]"]
  by (simp add: sample_body)

text \<open>C34. Decoding a body always ends: with as much fuel as the body has bytes the reader returns,
  and more fuel never changes what it returns.\<close>

theorem body_decoding_terminates:
  assumes "parse_signature sig = Inr ts" "length bs \<le> fuel"
  shows "\<exists>r. read_values (length bs) ts (unmarshaler_new bs be) = Some r \<and>
     read_values fuel ts (unmarshaler_new bs be) = Some r"
proof -
  have "read_values (length bs) ts (unmarshaler_new bs be) \<noteq> None"
    using assms(1) by (intro read_value_total)
      (auto simp: parse_signature_eq wf_signature_def unmarshaler_new_def u_remaining_def wf_type_solid)
  then show ?thesis
    using read_value_mono(2) [OF _ assms(2)] by auto
qed

lemma body_decoding_terminates_witness:
  "\<exists>r. read_values 100 [TByte, TArray TString] (unmarshaler_new [5, 0, 0, 0] True) = Some r"
  using body_decoding_terminates [OF sample_body(2), of "[5, 0, 0, 0]" 100 True] by auto

text \<open>C12. A frame whose announced length is in the buffer is decoded or refused with an error: the
  slice of the body is always in range and every loop of the decoder ends. The stack is taken to
  hold the nesting of its variants, on which the code puts no limit.\<close>

theorem complete_frame_never_panics:
  assumes "peek_frame_len bs = Inr (Some n)" "n \<le> length bs"
  shows "from_bytes bs descriptors \<noteq> None"
  using assms by (rule from_bytes_complete_frame)

lemma complete_frame_never_panics_witness:
  "from_bytes (map word_of_nat [108, 1, 0, 1, 0, 0, 0, 0, 1, 0, 0, 0, 0, 0, 0, 0]) [] \<noteq> None"
  by (rule complete_frame_never_panics [where n = 16], code_simp, code_simp)

text \<open>A truncated frame is another matter: slicing the body out of a buffer that is shorter
  than the header announces is the panic of the index, not an error value.\<close>

theorem truncated_frame_panics:
  "from_bytes (map word_of_nat [108, 1, 0, 1, 4, 0, 0, 0, 1, 0, 0, 0, 0, 0, 0, 0]) [] = None"
  by code_simp

text \<open>C20. The signature parser accepts exactly the strings of at most 255 bytes that print a list of
  well-formed types (both nesting limits kept, no empty struct, dict entries only as array
  elements and with a basic key), and returns that list.\<close>

theorem signature_parser_exact:
  "parse_signature s = Inr ts \<longleftrightarrow>
     length s \<le> 255 \<and> s = concat (map to_signature_string ts) \<and> wf_signature ts"
  by (rule parse_signature_eq)

text \<open>Two different lists of types never have the same signature.\<close>

theorem signature_decodes_uniquely:
  "concat (map to_signature_string ts) = concat (map to_signature_string ts') \<longleftrightarrow> ts = ts'"
  by (simp add: signatures_of_eq [symmetric] signatures_of_inject)

text \<open>A NUL byte inside a string is read without complaint but cannot be written: a peer can
  send a message that the bus, which re-encodes what it forwards, fails to deliver.\<close>

theorem embedded_nul_read_not_written:
  "unmarshal_body [3, 0, 0, 0, 97, 0, 98, 0] ''s'' False = Some (Inr [VString [CHR ''a'', CHR 0x00, CHR ''b'']]) \<and>
   marshal_body [VString [CHR ''a'', CHR 0x00, CHR ''b'']] False = Inl EmbeddedNul"
  by (rule conjI; code_simp)

section \<open>Serials\<close>

text \<open>The serials that a generator hands out, in order.\<close>

fun serials :: "nat \<Rightarrow> u32 \<Rightarrow> u32 list" where
  "serials 0 g = []"
| "serials (Suc n) g = (let (v, g') = serial_next g in v # serials n g')"

lemma serials_zero: "serials n 0 = serials n 1"
  by (cases n) (simp_all add: serial_next_eq)

lemma length_serials: "length (serials n g) = n"
  by (induction n arbitrary: g) (auto split: prod.splits)

lemma serials_nth:
  "g \<noteq> 0 \<Longrightarrow> i < n \<Longrightarrow> unat (serials n g ! i) = (unat g - 1 + i) mod (2 ^ 32 - 1) + 1"
proof (induction n arbitrary: g i)
  case (Suc n)
  have g: "1 \<le> unat g" "unat g < 2 ^ 32"
    using Suc.prems(1) unsigned_less [of g] by (auto simp: Suc_le_eq unat_gt_0)
  show ?case
  proof (cases i)
    case 0
    then show ?thesis
      using g Suc.prems(1) by (simp add: serial_next_eq)
  next
    case (Suc j)
    show ?thesis
    proof (cases "g + 1 = 0")
      case True
      then have "g = - 1"
        by (simp add: eq_neg_iff_add_eq_0)
      then have "unat g = 2 ^ 32 - 1"
        by (simp add: unsigned_minus_1_eq_mask mask_eq_exp_minus_1)
      then show ?thesis
        using Suc.IH [of 1 j] Suc.prems True \<open>i = Suc j\<close>
        by (simp add: serial_next_eq serials_zero)
    next
      case False
      then have "unat (g + 1) = unat g + 1"
        by (simp add: add.commute unatSuc)
      then show ?thesis
        using Suc.IH [of "g + 1" j] Suc.prems False g \<open>i = Suc j\<close> by (simp add: serial_next_eq)
    qed
  qed
qed simp

text \<open>A serial generator never hands out 0, and any \<open>2\<^sup>3\<^sup>2 - 1\<close> consecutive serials are
  pairwise different, the wrap-around of the counter included.\<close>

theorem serials_distinct:
  assumes "n < 2 ^ 32"
  shows "0 \<notin> set (serials n g) \<and> distinct (serials n g)"
proof -
  have "0 \<notin> set (serials n g) \<and> distinct (serials n g)" if g: "g \<noteq> 0" for g
  proof
    have nth: "unat (serials n g ! i) = (unat g - 1 + i) mod (2 ^ 32 - 1) + 1" if "i < n" for i
      using g that by (rule serials_nth)
    show "0 \<notin> set (serials n g)"
    proof
      assume "0 \<in> set (serials n g)"
      then obtain i where i: "i < n" "serials n g ! i = 0"
        by (auto simp: in_set_conv_nth length_serials)
      then show False
        using nth [of i] by simp
    qed
    have "serials n g ! i \<noteq> serials n g ! j" if ij: "i < j" "j < n" for i j
    proof
      assume "serials n g ! i = serials n g ! j"
      then have "(unat g - 1 + j) mod (2 ^ 32 - 1) = (unat g - 1 + i) mod (2 ^ 32 - 1)"
        using nth [of i] nth [of j] ij by simp
      then have "2 ^ 32 - 1 dvd j - i"
        using ij by (subst (asm) mod_eq_dvd_iff_nat) simp_all
      then have "2 ^ 32 - 1 \<le> j - i"
        using ij by (intro dvd_imp_le) simp_all
      then show False
        using ij assms by simp
    qed
    then have "serials n g ! i \<noteq> serials n g ! j" if "i \<noteq> j" "i < n" "j < n" for i j
      using that by (metis linorder_neqE_nat)
    then show "distinct (serials n g)"
      by (auto simp: distinct_conv_nth length_serials)
  qed
  then show ?thesis
    using serials_zero [of n] by (cases "g = 0") auto
qed

lemma serials_distinct_witness: "distinct (serials 1000 0xFFFFFFFE)"
  using serials_distinct [of 1000 "0xFFFFFFFE"] by simp

section \<open>Object paths\<close>

text \<open>A string is a valid object path exactly when it is a slash-separated list of non-empty
  segments of ASCII letters, digits and underscores (the root being the empty list).\<close>

theorem object_path_syntax:
  "is_valid_object_path s \<longleftrightarrow> (\<exists>segs. s = path_of_segments segs \<and> list_all valid_segment segs)"
  by (rule is_valid_object_path_iff)

text \<open>On valid paths the namespace test is the prefix relation on segments: the textual test
  never takes a path for a child of a sibling with a longer name.\<close>

theorem namespace_is_segment_prefix:
  assumes "list_all valid_segment ps" "list_all valid_segment ns"
  shows "is_within_namespace (ObjectPath (path_of_segments ps)) (path_of_segments ns) \<longleftrightarrow> prefix ns ps"
  using assms by (rule within_namespace_segments)

lemma sample_segments:
  "list_all valid_segment [''org'', ''a'', ''b'']" "list_all valid_segment [''org'', ''a'']"
  "path_of_segments [''org'', ''a'', ''b''] = ''/org/a/b''" "path_of_segments [''org'', ''a''] = ''/org/a''"
  by code_simp+

lemma namespace_is_segment_prefix_witness:
  "is_within_namespace (ObjectPath ''/org/a/b'') ''/org/a''"
  using namespace_is_segment_prefix [OF sample_segments(1,2)] by (simp add: sample_segments(3,4))

end
