(* ===== verification/Utf8_Whitespace.thy ===== *)
theory Utf8_Whitespace
  imports Rust_Strings
begin

text \<open>
  White space in UTF-8 strings, as \<open>char::is_whitespace\<close> defines it, and the string methods of
  Rust that look for it: \<open>trim_start\<close>, \<open>trim_end\<close>, \<open>trim\<close>, \<open>split_whitespace\<close>, and \<open>lines\<close>.
\<close>

definition whitespace_chars :: "string list" where
  "whitespace_chars =
     map (map char_of)
       ([[9], [10], [11], [12], [13], [32], [0xC2, 0x85], [0xC2, 0xA0], [0xE1, 0x9A, 0x80]] @
        map (\<lambda>c. [0xE2, 0x80, c]) ([0x80..<0x8B] @ [0xA8, 0xA9, 0xAF]) @
        [[0xE2, 0x81, 0x9F], [0xE3, 0x80, 0x80 :: nat]])"

definition leading_whitespace :: "string \<Rightarrow> string option" where
  "leading_whitespace s = find (\<lambda>w. prefix w s) whitespace_chars"

lemma whitespace_not_Nil: "w \<in> set whitespace_chars \<Longrightarrow> w \<noteq> []"
  by (auto simp: whitespace_chars_def)

lemma leading_whitespace_Some: "leading_whitespace s = Some w \<Longrightarrow> prefix w s \<and> w \<noteq> []"
  unfolding leading_whitespace_def find_Some_iff by (metis nth_mem whitespace_not_Nil)

function trim_start :: "string \<Rightarrow> string" where
  "trim_start s =
     (case leading_whitespace s of Some w \<Rightarrow> trim_start (drop (length w) s) | None \<Rightarrow> s)"
  by pat_completeness auto

termination
  by (relation "measure length") (auto dest!: leading_whitespace_Some simp: prefix_def)

declare trim_start.simps [simp del]

definition trailing_whitespace :: "string \<Rightarrow> string option" where
  "trailing_whitespace s = find (\<lambda>w. suffix w s) whitespace_chars"

lemma trailing_whitespace_Some: "trailing_whitespace s = Some w \<Longrightarrow> suffix w s \<and> w \<noteq> []"
  unfolding trailing_whitespace_def find_Some_iff by (metis nth_mem whitespace_not_Nil)

function trim_end :: "string \<Rightarrow> string" where
  "trim_end s =
     (case trailing_whitespace s of
        Some w \<Rightarrow> trim_end (take (length s - length w) s)
      | None \<Rightarrow> s)"
  by pat_completeness auto

termination
  by (relation "measure length") (auto dest!: trailing_whitespace_Some simp: suffix_def)

declare trim_end.simps [simp del]

definition trim :: "string \<Rightarrow> string" where
  "trim s = trim_end (trim_start s)"

text \<open>A maximal run without white space, and the iterator over these runs.\<close>

fun take_word :: "string \<Rightarrow> string \<times> string" where
  "take_word [] = ([], [])"
| "take_word (c # r) =
     (if leading_whitespace (c # r) \<noteq> None then ([], c # r)
      else (case take_word r of (w, r') \<Rightarrow> (c # w, r')))"

lemma take_word_length: "length (snd (take_word s)) \<le> length s"
  by (induction s) (auto split: prod.splits)

lemma trim_start_length: "length (trim_start s) \<le> length s"
proof (induction s rule: trim_start.induct)
  case (1 s)
  show ?case
  proof (cases "leading_whitespace s")
    case (Some w)
    then have "length (trim_start s) \<le> length (drop (length w) s)"
      using "1.IH" by (simp add: trim_start.simps [of s])
    also have "\<dots> \<le> length s"
      by simp
    finally show ?thesis .
  qed (simp add: trim_start.simps [of s])
qed

lemma trim_start_leads: "leading_whitespace (trim_start s) = None"
proof (induction s rule: trim_start.induct)
  case (1 s)
  then show ?case
    by (cases "leading_whitespace s") (simp_all add: trim_start.simps [of s])
qed

function split_whitespace :: "string \<Rightarrow> string list" where
  "split_whitespace s =
     (if trim_start s = [] then []
      else fst (take_word (trim_start s)) # split_whitespace (snd (take_word (trim_start s))))"
  by pat_completeness auto

termination
proof (relation "measure length")
  fix s assume ne: "trim_start s \<noteq> []"
  then obtain c r where t: "trim_start s = c # r"
    by (cases "trim_start s") auto
  then have "leading_whitespace (c # r) = None"
    using trim_start_leads [of s] by simp
  then have "length (snd (take_word (trim_start s))) < length (trim_start s)"
    using take_word_length [of r] by (simp add: t case_prod_unfold)
  then show "(snd (take_word (trim_start s)), s) \<in> measure length"
    using trim_start_length [of s] by simp
qed simp

declare split_whitespace.simps [simp del]

text \<open>\<open>str::lines\<close>: split at line feeds, a final empty line dropped, a carriage return before
  a line feed dropped.\<close>

definition strip_cr :: "string \<Rightarrow> string" where
  "strip_cr s = (case strip_suffix [CHR 0x0D] s of Some r \<Rightarrow> r | None \<Rightarrow> s)"

definition lines_of :: "string \<Rightarrow> string list" where
  "lines_of s =
     (let parts = split_on CHR 0x0A s
      in map strip_cr (butlast parts) @ (if last parts = [] then [] else [last parts]))"

section \<open>ASCII text without white space\<close>

definition graphic :: "char \<Rightarrow> bool" where
  "graphic c \<longleftrightarrow> 32 < code_of c \<and> code_of c < 127"

lemma whitespace_head: "w \<in> set whitespace_chars \<Longrightarrow> \<not> graphic (hd w)"
  by (auto simp: whitespace_chars_def graphic_def)

lemma whitespace_last: "w \<in> set whitespace_chars \<Longrightarrow> \<not> graphic (last w)"
  by (auto simp: whitespace_chars_def graphic_def)

lemma trim_start_graphic: "graphic c \<Longrightarrow> trim_start (c # s) = c # s"
proof -
  assume g: "graphic c"
  have "\<not> prefix w (c # s)" if "w \<in> set whitespace_chars" for w
    using g whitespace_head [OF that] whitespace_not_Nil [OF that] by (cases w) auto
  then have "leading_whitespace (c # s) = None"
    by (auto simp: leading_whitespace_def find_None_iff)
  then show ?thesis by (simp add: trim_start.simps [of "c # s"])
qed

lemma trim_start_Nil [simp]: "trim_start [] = []"
proof -
  have "leading_whitespace [] = None"
    using whitespace_not_Nil by (auto simp: leading_whitespace_def find_None_iff)
  then show ?thesis by (simp add: trim_start.simps [of "[]"])
qed

lemma trim_end_Nil [simp]: "trim_end [] = []"
proof -
  have "trailing_whitespace [] = None"
    using whitespace_not_Nil by (auto simp: trailing_whitespace_def find_None_iff)
  then show ?thesis by (simp add: trim_end.simps [of "[]"])
qed

lemma trim_end_graphic: "graphic c \<Longrightarrow> trim_end (s @ [c]) = s @ [c]"
proof -
  assume g: "graphic c"
  have "\<not> suffix w (s @ [c])" if "w \<in> set whitespace_chars" for w
  proof
    assume "suffix w (s @ [c])"
    then have "last w = c"
      using whitespace_not_Nil [OF that] by (metis last_appendR last_snoc suffix_def)
    then show False
      using g whitespace_last [OF that] by simp
  qed
  then have "trailing_whitespace (s @ [c]) = None"
    by (auto simp: trailing_whitespace_def find_None_iff)
  then show ?thesis by (simp add: trim_end.simps [of "s @ [c]"])
qed

lemma trim_graphic:
  assumes "s \<noteq> []" "graphic (hd s)" "graphic (last s)"
  shows "trim s = s" "trim_start s = s"
proof -
  show "trim_start s = s"
    using assms trim_start_graphic [of "hd s" "tl s"] by simp
  then show "trim s = s"
    using assms trim_end_graphic [of "last s" "butlast s"] by (simp add: trim_def)
qed

end
