(* ===== verification/Keyring.thy ===== *)
theory Keyring
  imports Utf8_Whitespace "HOL-Library.Word"
begin

text \<open>
  \<open>oxibus-auth/src/keyring.rs\<close>: the keys of the \<open>DBUS_COOKIE_SHA1\<close> mechanism, the file format,
  and the choice of a key.  The file system, the clock and the random generator are not part
  of the crate: what they answer during one call is the record \<open>keyring_io\<close>.  Times are \<open>i64\<close>
  values, kept as integers; the subtraction of two of them wraps around.
\<close>

datatype auth_error =
    AuthIo | NoHomeDir | KeyringCorrupt string | NoUsableKey | HexDecode | AuthProtocol string

type_synonym 'a auth_result = "auth_error + 'a"

definition DEFAULT_CONTEXT :: string where "DEFAULT_CONTEXT = ''org_freedesktop_general''"
definition KEY_LENGTH_BYTES :: nat where "KEY_LENGTH_BYTES = 24"
definition NEW_KEY_TIMEOUT_SECONDS :: int where "NEW_KEY_TIMEOUT_SECONDS = 60 * 5"
definition EXPIRE_KEYS_TIMEOUT_SECONDS :: int where
  "EXPIRE_KEYS_TIMEOUT_SECONDS = NEW_KEY_TIMEOUT_SECONDS + 60 * 2"

record cookie_key =
  key_id :: u32
  key_created :: int
  key_secret :: "u8 list"

type_synonym keyring = "cookie_key list"

section \<open>The file\<close>

text \<open>\<open>i64::from_str\<close> and the printing of an \<open>i64\<close>.\<close>

definition parse_i64 :: "string \<Rightarrow> int option" where
  "parse_i64 s =
     (case s of
        c # r \<Rightarrow>
          if c = CHR ''-'' then
            (case parse_uint (2 ^ 63 + 1) (if r \<noteq> [] \<and> hd r = CHR ''+'' then [] else r) of
               Some n \<Rightarrow> Some (- int n) | None \<Rightarrow> None)
          else map_option int (parse_uint (2 ^ 63) s)
      | [] \<Rightarrow> None)"

definition show_int :: "int \<Rightarrow> string" where
  "show_int i = (if i < 0 then CHR ''-'' # show_nat (nat (- i)) else show_nat (nat i))"

text \<open>\<open>splitn(3, ' ')\<close>: the third part is all that is left.\<close>

definition splitn3 :: "string \<Rightarrow> string list" where
  "splitn3 s =
     (case split_once CHR '' '' s of
        None \<Rightarrow> [s]
      | Some (a, r) \<Rightarrow>
          (case split_once CHR '' '' r of None \<Rightarrow> [a, r] | Some (b, c) \<Rightarrow> [a, b, c]))"

definition U32_BOUND :: nat where "U32_BOUND = 2 ^ 32"

definition parse_key :: "string \<Rightarrow> cookie_key auth_result" where
  "parse_key line =
     (let parts = splitn3 line in
      case parse_uint U32_BOUND (parts ! 0) of
        None \<Rightarrow> Inl (KeyringCorrupt ''bad id'')
      | Some n \<Rightarrow>
          if length parts < 2 then Inl (KeyringCorrupt ''missing timestamp'')
          else case parse_i64 (parts ! 1) of
            None \<Rightarrow> Inl (KeyringCorrupt ''bad timestamp'')
          | Some t \<Rightarrow>
              if length parts < 3 then Inl (KeyringCorrupt ''missing secret'')
              else case hex_decode (parts ! 2) of
                None \<Rightarrow> Inl HexDecode
              | Some secret \<Rightarrow>
                  Inr \<lparr>key_id = word_of_nat n, key_created = t, key_secret = secret\<rparr>)"

definition parse_keyring :: "string \<Rightarrow> keyring auth_result" where
  "parse_keyring contents =
     try_map parse_key (filter (\<lambda>l. l \<noteq> []) (map trim (lines_of contents)))"

definition key_line :: "cookie_key \<Rightarrow> string" where
  "key_line k =
     show_nat (unat (key_id k)) @ '' '' @ show_int (key_created k) @ '' '' @ hex_encode (key_secret k)"

definition save_contents :: "keyring \<Rightarrow> string" where
  "save_contents keys = concat (map (\<lambda>k. key_line k @ [CHR 0x0A]) keys)"

section \<open>Choosing a key\<close>

datatype file_state = NoFile | Unreadable | FileText string

record keyring_io =
  time_find :: int
  time_refind :: int
  time_prune :: int
  time_create :: int
  lock_ok :: bool
  key_file :: file_state
  random_ids :: "u32 list"
  random_secret :: "u8 list"
  save_ok :: bool

definition i64_sub :: "int \<Rightarrow> int \<Rightarrow> int" where
  "i64_sub a b = sint (word_of_int (a - b) :: 64 word)"

definition prune_expired :: "int \<Rightarrow> keyring \<Rightarrow> keyring" where
  "prune_expired now keys =
     filter (\<lambda>k. i64_sub now (key_created k) < EXPIRE_KEYS_TIMEOUT_SECONDS) keys"

text \<open>\<open>max_by_key\<close> returns the last of the maximal elements.\<close>

fun max_created :: "keyring \<Rightarrow> cookie_key option" where
  "max_created [] = None"
| "max_created (k # ks) =
     (case max_created ks of
        None \<Rightarrow> Some k
      | Some m \<Rightarrow> if key_created m \<ge> key_created k then Some m else Some k)"

definition find_recent :: "int \<Rightarrow> keyring \<Rightarrow> cookie_key option" where
  "find_recent now keys =
     max_created (filter (\<lambda>k. i64_sub now (key_created k) < NEW_KEY_TIMEOUT_SECONDS) keys)"

text \<open>The loop draws candidates until one is free; \<open>None\<close> when the given draws are used up.\<close>

definition free_id :: "u32 list \<Rightarrow> keyring \<Rightarrow> u32 option" where
  "free_id draws keys =
     find (\<lambda>c. \<not> list_ex (\<lambda>k. key_id k = c) keys) (map (\<lambda>d. and d 0x7fffffff) draws)"

definition add_new_key :: "keyring_io \<Rightarrow> keyring \<Rightarrow> (u32 \<times> keyring) option" where
  "add_new_key io keys =
     (case free_id (random_ids io) keys of
        None \<Rightarrow> None
      | Some n \<Rightarrow>
          Some (n, keys @ [\<lparr>key_id = n, key_created = time_create io, key_secret = random_secret io\<rparr>]))"

definition reread :: "keyring_io \<Rightarrow> keyring \<Rightarrow> keyring auth_result" where
  "reread io keys =
     (case key_file io of
        NoFile \<Rightarrow> Inr keys
      | Unreadable \<Rightarrow> Inl AuthIo
      | FileText s \<Rightarrow> parse_keyring s)"

text \<open>The result of \<open>best_key\<close>, the keys in memory afterwards and the file it wrote, if any.\<close>

definition best_key :: "keyring_io \<Rightarrow> keyring \<Rightarrow> (u32 auth_result \<times> keyring \<times> string option) option" where
  "best_key io keys =
     (case find_recent (time_find io) keys of
        Some k \<Rightarrow> Some (Inr (key_id k), keys, None)
      | None \<Rightarrow>
          if \<not> lock_ok io then Some (Inl AuthIo, keys, None)
          else case reread io keys of
            Inl e \<Rightarrow> Some (Inl e, keys, None)
          | Inr keys \<Rightarrow>
              (case find_recent (time_refind io) keys of
                 Some k \<Rightarrow> Some (Inr (key_id k), keys, None)
               | None \<Rightarrow>
                   (case add_new_key io (prune_expired (time_prune io) keys) of
                      None \<Rightarrow> None
                    | Some (n, keys) \<Rightarrow>
                        if save_ok io then Some (Inr n, keys, Some (save_contents keys))
                        else Some (Inl AuthIo, keys, None))))"

text \<open>\<open>load\<close>, given whether the directory could be made and what the file holds.\<close>

definition load_keyring :: "bool \<Rightarrow> file_state \<Rightarrow> keyring auth_result" where
  "load_keyring dir_ok f =
     (if \<not> dir_ok then Inl AuthIo
      else case f of NoFile \<Rightarrow> Inr [] | Unreadable \<Rightarrow> Inl AuthIo | FileText s \<Rightarrow> parse_keyring s)"

definition hex_key :: "keyring \<Rightarrow> u32 \<Rightarrow> string option" where
  "hex_key keys n = map_option (\<lambda>k. hex_encode (key_secret k)) (find (\<lambda>k. key_id k = n) keys)"

section \<open>Reading back what was saved\<close>

definition wf_key :: "cookie_key \<Rightarrow> bool" where
  "wf_key k \<longleftrightarrow> - (2 ^ 63) \<le> key_created k \<and> key_created k < 2 ^ 63 \<and> key_secret k \<noteq> []"

lemma parse_i64_show_int:
  assumes "- (2 ^ 63) \<le> i" "i < 2 ^ 63"
  shows "parse_i64 (show_int i) = Some i"
proof (cases "i < 0")
  case True
  have "nat (- i) < 2 ^ 63 + 1"
    using assms True by simp
  moreover have "\<not> (show_nat (nat (- i)) \<noteq> [] \<and> hd (show_nat (nat (- i))) = CHR ''+'')"
    using show_nat_no_special(1) [of "nat (- i)"] by (cases "show_nat (nat (- i))") auto
  ultimately show ?thesis
    using True parse_uint_show_nat [of "nat (- i)" "2 ^ 63 + 1"] by (simp add: parse_i64_def show_int_def)
next
  case False
  then have "nat i < 2 ^ 63"
    using assms by simp
  moreover obtain c r where s: "show_nat (nat i) = c # r"
    by (cases "show_nat (nat i)") auto
  moreover have "is_ascii_digit c"
    using show_nat_digits [of "nat i"] s by simp
  then have "c \<noteq> CHR ''-''"
    by (auto simp: is_ascii_digit_def)
  ultimately show ?thesis
    using False parse_uint_show_nat [of "nat i" "2 ^ 63"] by (simp add: parse_i64_def show_int_def)
qed

lemma show_int_no_space: "CHR '' '' \<notin> set (show_int i)"
  by (simp add: show_int_def show_nat_no_special)

lemma parse_key_line:
  assumes "wf_key k"
  shows "parse_key (key_line k) = Inr k"
proof -
  have "unat (key_id k) < U32_BOUND"
    using unsigned_less [of "key_id k", where ?'a = nat] by (simp add: U32_BOUND_def)
  moreover have "splitn3 (key_line k) =
      [show_nat (unat (key_id k)), show_int (key_created k), hex_encode (key_secret k)]"
    by (simp add: splitn3_def key_line_def split_once_append show_nat_no_special show_int_no_space)
  ultimately show ?thesis
    using assms parse_i64_show_int [of "key_created k"]
    by (simp add: parse_key_def wf_key_def hex_decode_encode parse_uint_show_nat)
qed


lemma lines_of_saved:
  assumes "\<forall>l \<in> set ls. CHR 0x0A \<notin> set l \<and> \<not> suffix [CHR 0x0D] l"
  shows "lines_of (concat (map (\<lambda>l. l @ [CHR 0x0A]) ls)) = ls"
proof -
  have "split_on CHR 0x0A (concat (map (\<lambda>l. l @ [CHR 0x0A]) ls)) = ls @ [[]]"
    using assms by (induction ls) (simp_all add: split_on_append)
  moreover have "map strip_cr ls = ls"
    using assms by (induction ls) (auto simp: strip_cr_def strip_suffix_Some suffix_def split: option.splits)
  ultimately show ?thesis
    by (simp add: lines_of_def)
qed

lemma digit_graphic: "is_ascii_digit c \<Longrightarrow> graphic c"
  by (auto simp: is_ascii_digit_def graphic_def)

lemma hex_digit_graphic: "d < 16 \<Longrightarrow> graphic (hex_digit d)"
  by (auto simp: hex_digit_def graphic_def)

lemma hex_encode_graphic: "c \<in> set (hex_encode bs) \<Longrightarrow> graphic c"
  using hex_encode_chars hex_digit_graphic by blast

lemma hex_encode_Nil_iff [simp]: "hex_encode bs = [] \<longleftrightarrow> bs = []"
  by (cases bs) simp_all

lemma key_line_shape:
  assumes "wf_key k"
  shows "key_line k \<noteq> []" "graphic (hd (key_line k))" "graphic (last (key_line k))"
    "CHR 0x0A \<notin> set (key_line k)" "\<not> suffix [CHR 0x0D] (key_line k)"
proof -
  show "key_line k \<noteq> []"
    by (simp add: key_line_def)
  have "is_ascii_digit (hd (show_nat (unat (key_id k))))"
    using show_nat_hd [of _ "unat (key_id k)"] show_nat_not_Nil hd_in_set by blast
  then show "graphic (hd (key_line k))"
    by (simp add: key_line_def digit_graphic)
  have ne: "hex_encode (key_secret k) \<noteq> []"
    using assms by (simp add: wf_key_def)
  have "graphic (last (hex_encode (key_secret k)))"
    using ne by (intro hex_encode_graphic [of _ "key_secret k"] last_in_set)
  then show last: "graphic (last (key_line k))"
    using ne by (simp add: key_line_def)
  have "\<forall>c \<in> set (show_int i). graphic c" for i
    using show_nat_hd digit_graphic by (auto simp: show_int_def) (simp add: graphic_def)
  then have "\<forall>c \<in> set (key_line k). graphic c \<or> c = CHR '' ''"
    using show_nat_hd [of _ "unat (key_id k)"] digit_graphic hex_encode_graphic
    by (auto simp: key_line_def)
  then show "CHR 0x0A \<notin> set (key_line k)"
    by (auto simp: graphic_def)
  show "\<not> suffix [CHR 0x0D] (key_line k)"
    using last by (auto simp: suffix_def graphic_def)
qed

lemma parse_save:
  assumes "\<forall>k \<in> set keys. wf_key k"
  shows "parse_keyring (save_contents keys) = Inr keys"
proof -
  have "save_contents keys = concat (map (\<lambda>l. l @ [CHR 0x0A]) (map key_line keys))"
    by (simp add: save_contents_def comp_def)
  then have "lines_of (save_contents keys) = map key_line keys"
    using assms key_line_shape lines_of_saved [of "map key_line keys"] by simp
  moreover have "map trim (map key_line keys) = map key_line keys"
    using assms key_line_shape trim_graphic(1) by auto
  moreover have "filter (\<lambda>l. l \<noteq> []) (map key_line keys) = map key_line keys"
    using assms key_line_shape by (auto simp: filter_id_conv)
  ultimately have "parse_keyring (save_contents keys) = try_map parse_key (map key_line keys)"
    by (simp only: parse_keyring_def)
  moreover have "try_map parse_key (map key_line keys) = Inr keys"
    using assms by (induction keys) (simp_all add: parse_key_line)
  ultimately show ?thesis
    by simp
qed

lemma max_created_in: "max_created ks = Some k \<Longrightarrow> k \<in> set ks"
  by (induction ks arbitrary: k) (auto split: option.splits if_splits)

lemma find_recent_in:
  "find_recent now ks = Some k \<Longrightarrow>
     k \<in> set ks \<and> i64_sub now (key_created k) < NEW_KEY_TIMEOUT_SECONDS"
  by (auto simp: find_recent_def dest!: max_created_in)

lemma find_recent_None:
  "find_recent now ks = None \<longleftrightarrow>
     (\<forall>k \<in> set ks. \<not> i64_sub now (key_created k) < NEW_KEY_TIMEOUT_SECONDS)"
proof -
  have "max_created xs = None \<longleftrightarrow> xs = []" for xs
    by (cases xs) (auto split: option.splits)
  then show ?thesis by (auto simp: find_recent_def filter_empty_conv)
qed

lemma free_id_fresh: "free_id draws keys = Some n \<Longrightarrow> n \<notin> key_id ` set keys"
  by (auto simp: free_id_def find_Some_iff list_ex_iff)

text \<open>The key that \<open>best_key\<close> names is in memory afterwards, and no id is given out twice.\<close>

lemma best_key_present:
  assumes "best_key io keys = Some (Inr n, keys', saved)"
  shows "n \<in> key_id ` set keys' \<and> (distinct (map key_id keys) \<and> key_file io = NoFile \<longrightarrow> distinct (map key_id keys')) \<and>
    (\<forall>s. saved = Some s \<longrightarrow> s = save_contents keys' \<and> n \<notin> key_id ` set (butlast keys'))"
proof -
  have prune: "distinct (map key_id ks) \<Longrightarrow> distinct (map key_id (prune_expired t ks))" for t ks
    by (simp add: prune_expired_def distinct_map_filter)
  show ?thesis
    using assms
    by (auto simp: best_key_def reread_def add_new_key_def split: option.splits if_splits sum.splits
        file_state.splits dest!: find_recent_in free_id_fresh simp del: distinct_map intro!: prune)
qed

end
