(* ===== verification/Match_Rules.thy ===== *)
theory Match_Rules
  imports Message
begin

text \<open>
  \<open>oxibus-daemon/src/match_rules.rs\<close>: the tokenizer and parser of match rules, and the test
  whether a message matches a rule.  The owner lookup of the caller is the parameter
  \<open>resolve_owner\<close>.  The tokenizer pushes each byte of a value \<open>as char\<close>, that is as the
  Latin-1 character of that code, which is the identity on ASCII only.
\<close>

record match_rule =
  mr_message_type :: "message_type option"
  mr_sender :: "string option"
  mr_interface :: "string option"
  mr_member :: "string option"
  mr_path :: "string option"
  mr_path_namespace :: "string option"
  mr_destination :: "string option"
  mr_args :: "(nat \<times> string) list"
  mr_arg_paths :: "(nat \<times> string) list"
  mr_arg0namespace :: "string option"
  mr_eavesdrop :: bool
  mr_raw :: string

definition match_rule_default :: "string \<Rightarrow> match_rule" where
  "match_rule_default s =
     \<lparr>mr_message_type = None, mr_sender = None, mr_interface = None, mr_member = None,
      mr_path = None, mr_path_namespace = None, mr_destination = None, mr_args = [],
      mr_arg_paths = [], mr_arg0namespace = None, mr_eavesdrop = False, mr_raw = s\<rparr>"

section \<open>Tokens\<close>

abbreviation "quote_char \<equiv> CHR 0x27"
abbreviation "backslash \<equiv> CHR 0x5C"

definition push_latin1 :: "char \<Rightarrow> string" where
  "push_latin1 c =
     (if code_of c < 128 then [c]
      else [char_of (0xC0 + code_of c div 64), char_of (0x80 + code_of c mod 64)])"

text \<open>The loop over a quoted value: the value, and the input behind the closing quote.\<close>

fun scan_value :: "string \<Rightarrow> string + (string \<times> string)" where
  "scan_value [] = Inl ''unterminated quoted value in match rule''"
| "scan_value (c # s) =
     (if c = quote_char then
        (case s of
           b # q # s' \<Rightarrow>
             if b = backslash \<and> q = quote_char then
               (case s' of
                  q2 # s'' \<Rightarrow>
                    if q2 = quote_char then
                      and_then (scan_value s'') (\<lambda>(v, r). Inr (quote_char # v, r))
                    else Inl ''malformed escaped quote in match rule''
                | [] \<Rightarrow> Inl ''malformed escaped quote in match rule'')
             else Inr ([], s)
         | _ \<Rightarrow> Inr ([], s))
      else and_then (scan_value s) (\<lambda>(v, r). Inr (push_latin1 c @ v, r)))"

lemma scan_value_length: "scan_value s = Inr (v, r) \<Longrightarrow> length r < length s"
proof (induction s arbitrary: v r rule: scan_value.induct)
  case (2 c s)
  show ?case
  proof (cases "c = quote_char")
    case True
    show ?thesis
    proof (cases "\<exists>s''. s = backslash # quote_char # quote_char # s''")
      case True
      then obtain s'' where s: "s = backslash # quote_char # quote_char # s''" by blast
      with \<open>c = quote_char\<close> "2.prems" obtain v' where "scan_value s'' = Inr (v', r)"
        by (auto simp: result_simps)
      with "2.IH"(1) [OF \<open>c = quote_char\<close> s refl _ refl refl] show ?thesis
        by (simp add: s)
    next
      case False
      with \<open>c = quote_char\<close> "2.prems" show ?thesis
        by (auto simp: result_simps split: list.splits if_splits)
    qed
  next
    case False
    with "2.prems" obtain v' where "scan_value s = Inr (v', r)"
      by (auto simp: result_simps)
    with "2.IH"(2) [OF False] show ?thesis
      by (simp add: less_SucI)
  qed
qed simp

definition skip_comma :: "string \<Rightarrow> string" where
  "skip_comma s = (case s of c # s' \<Rightarrow> if c = CHR '','' then s' else s | [] \<Rightarrow> [])"

definition skip_quote :: "string \<Rightarrow> string + string" where
  "skip_quote s =
     (case s of
        c # s' \<Rightarrow> if c = quote_char then Inr s' else Inl ''match rule value must be single-quoted''
      | [] \<Rightarrow> Inl ''match rule value must be single-quoted'')"

function tokenize :: "string \<Rightarrow> string + (string \<times> string) list" where
  "tokenize s =
     (if s = [] then Inr []
      else case split_once CHR ''='' s of
        None \<Rightarrow> Inl (''match rule missing '' @ single_quoted ''='' @ '' after key'')
      | Some (key, rest) \<Rightarrow>
          and_then (skip_quote rest) (\<lambda>quoted.
          and_then (scan_value quoted) (\<lambda>(val, r).
          and_then (tokenize (skip_comma r)) (\<lambda>ts. Inr ((key, val) # ts)))))"
  by pat_completeness auto

lemma skip_comma_length: "length (skip_comma r) \<le> length r"
  by (simp add: skip_comma_def split: list.splits)

lemma skip_quote_Inr: "skip_quote s = Inr r \<longleftrightarrow> s = quote_char # r"
  by (auto simp: skip_quote_def split: list.splits)

termination tokenize
proof (relation "measure length")
  fix s p key rest quoted q v r
  assume "split_once CHR ''='' s = Some p" "(key, rest) = p" "skip_quote rest = Inr quoted"
    "scan_value quoted = Inr q" "(v, r) = q"
  then show "(skip_comma r, s) \<in> measure length"
    using scan_value_length [of quoted v r] skip_comma_length [of r]
    by (auto simp: split_once_Some skip_quote_Inr)
qed simp

declare tokenize.simps [simp del]

section \<open>Rules\<close>

definition USIZE_BOUND :: nat where "USIZE_BOUND = 2 ^ 64"

definition parse_arg_index :: "string \<Rightarrow> string \<Rightarrow> string + nat" where
  "parse_arg_index key idx_str =
     (case parse_uint USIZE_BOUND idx_str of
        None \<Rightarrow> Inl (''invalid match rule key '' @ single_quoted key)
      | Some idx \<Rightarrow> if idx > 63 then Inl ''arg index must be 0..63'' else Inr idx)"

definition rule_type :: "string \<Rightarrow> string + message_type" where
  "rule_type val =
     (if val = ''signal'' then Inr Signal
      else if val = ''method_call'' then Inr MethodCall
      else if val = ''method_return'' then Inr MethodReturn
      else if val = ''error'' then Inr ErrorReply
      else Inl (''invalid match rule type '' @ single_quoted val))"

definition apply_token :: "match_rule \<Rightarrow> string \<times> string \<Rightarrow> string + match_rule" where
  "apply_token rule kv =
     (case kv of (key, val) \<Rightarrow>
       if key = ''type'' then and_then (rule_type val) (\<lambda>t. Inr (rule\<lparr>mr_message_type := Some t\<rparr>))
       else if key = ''sender'' then Inr (rule\<lparr>mr_sender := Some val\<rparr>)
       else if key = ''interface'' then Inr (rule\<lparr>mr_interface := Some val\<rparr>)
       else if key = ''member'' then Inr (rule\<lparr>mr_member := Some val\<rparr>)
       else if key = ''path'' then Inr (rule\<lparr>mr_path := Some val\<rparr>)
       else if key = ''path_namespace'' then Inr (rule\<lparr>mr_path_namespace := Some val\<rparr>)
       else if key = ''destination'' then Inr (rule\<lparr>mr_destination := Some val\<rparr>)
       else if key = ''eavesdrop'' then Inr (rule\<lparr>mr_eavesdrop := (val = ''true'')\<rparr>)
       else if key = ''arg0namespace'' then Inr (rule\<lparr>mr_arg0namespace := Some val\<rparr>)
       else if prefix ''arg'' key then
         if suffix ''path'' key then
           and_then (parse_arg_index key (trim_end_matches ''path'' (trim_start_matches ''arg'' key)))
             (\<lambda>idx. Inr (rule\<lparr>mr_arg_paths := mr_arg_paths rule @ [(idx, val)]\<rparr>))
         else
           and_then (parse_arg_index key (trim_start_matches ''arg'' key))
             (\<lambda>idx. Inr (rule\<lparr>mr_args := mr_args rule @ [(idx, val)]\<rparr>))
       else Inl (''unknown match rule key '' @ single_quoted key))"

fun apply_tokens :: "match_rule \<Rightarrow> (string \<times> string) list \<Rightarrow> string + match_rule" where
  "apply_tokens rule [] = Inr rule"
| "apply_tokens rule (t # ts) = and_then (apply_token rule t) (\<lambda>rule'. apply_tokens rule' ts)"

definition parse_match_rule :: "string \<Rightarrow> string + match_rule" where
  "parse_match_rule s = and_then (tokenize s) (apply_tokens (match_rule_default s))"

definition validate_rule_string :: "string \<Rightarrow> string + unit" where
  "validate_rule_string s = (if length s > 4096 then Inl ERR_MATCH_RULE_INVALID else Inr ())"

section \<open>Matching\<close>

definition is_path_parent_or_child :: "string \<Rightarrow> string \<Rightarrow> bool" where
  "is_path_parent_or_child p1 p2 \<longleftrightarrow>
     p1 = p2 \<or> p1 = ''/'' \<or> p2 = ''/'' \<or> prefix (p2 @ ''/'') p1 \<or> prefix (p1 @ ''/'') p2"

definition message_arg_str :: "message \<Rightarrow> nat \<Rightarrow> string option" where
  "message_arg_str msg idx =
     (if idx < length (body msg) then value_as_str (unwrap_variant (body msg ! idx)) else None)"

definition sender_matches :: "string \<Rightarrow> string option \<Rightarrow> (string \<Rightarrow> string option) \<Rightarrow> bool" where
  "sender_matches sender actual_opt resolve_owner =
     (let actual = (case actual_opt of Some a \<Rightarrow> a | None \<Rightarrow> []);
          matches_directly = (actual = sender);
          matches_via_owner =
            (if prefix '':'' sender then False else resolve_owner sender = Some actual)
      in matches_directly \<or> matches_via_owner)"

definition rule_matches :: "match_rule \<Rightarrow> message \<Rightarrow> (string \<Rightarrow> string option) \<Rightarrow> bool" where
  "rule_matches rule msg resolve_owner =
     (if (case mr_message_type rule of Some t \<Rightarrow> m_type msg \<noteq> t | None \<Rightarrow> False) then False
      else if (case mr_sender rule of
                 Some s \<Rightarrow> \<not> sender_matches s (m_sender msg) resolve_owner | None \<Rightarrow> False) then False
      else if (case mr_interface rule of Some i \<Rightarrow> m_interface msg \<noteq> Some i | None \<Rightarrow> False) then False
      else if (case mr_member rule of Some m \<Rightarrow> m_member msg \<noteq> Some m | None \<Rightarrow> False) then False
      else if (case mr_path rule of
                 Some p \<Rightarrow> map_option path_str (m_path msg) \<noteq> Some p | None \<Rightarrow> False) then False
      else if (case mr_path_namespace rule of
                 Some ns \<Rightarrow> (case m_path msg of Some p \<Rightarrow> \<not> is_within_namespace p ns | None \<Rightarrow> True)
               | None \<Rightarrow> False) then False
      else if (case mr_destination rule of Some d \<Rightarrow> m_destination msg \<noteq> Some d | None \<Rightarrow> False) then False
      else if list_ex (\<lambda>(idx, expected). message_arg_str msg idx \<noteq> Some expected) (mr_args rule) then False
      else if list_ex (\<lambda>(idx, expected).
                 case message_arg_str msg idx of
                   None \<Rightarrow> True
                 | Some val \<Rightarrow> \<not> is_path_parent_or_child val expected) (mr_arg_paths rule) then False
      else (case mr_arg0namespace rule of
              None \<Rightarrow> True
            | Some ns \<Rightarrow>
                (case message_arg_str msg 0 of
                   None \<Rightarrow> False
                 | Some val \<Rightarrow> val = ns \<or> prefix (ns @ ''.'') val)))"

section \<open>The rule as a conjunction of its parts\<close>

text \<open>What a rule of the match language promises, one conjunct for each part that is given.\<close>

definition given :: "'a option \<Rightarrow> ('a \<Rightarrow> bool) \<Rightarrow> bool" where
  "given x P \<longleftrightarrow> (\<forall>a \<in> set_option x. P a)"

lemma given_simps [simp]: "given None P" "given (Some a) P \<longleftrightarrow> P a"
  by (simp_all add: given_def)

definition rule_holds :: "match_rule \<Rightarrow> message \<Rightarrow> (string \<Rightarrow> string option) \<Rightarrow> bool" where
  "rule_holds rule msg owner \<longleftrightarrow>
     given (mr_message_type rule) (\<lambda>t. m_type msg = t) \<and>
     given (mr_sender rule) (\<lambda>s. sender_matches s (m_sender msg) owner) \<and>
     given (mr_interface rule) (\<lambda>i. m_interface msg = Some i) \<and>
     given (mr_member rule) (\<lambda>m. m_member msg = Some m) \<and>
     given (mr_path rule) (\<lambda>p. m_path msg = Some (ObjectPath p)) \<and>
     given (mr_path_namespace rule) (\<lambda>ns. \<exists>p. m_path msg = Some p \<and> is_within_namespace p ns) \<and>
     given (mr_destination rule) (\<lambda>d. m_destination msg = Some d) \<and>
     (\<forall>(idx, s) \<in> set (mr_args rule). message_arg_str msg idx = Some s) \<and>
     (\<forall>(idx, s) \<in> set (mr_arg_paths rule).
        \<exists>v. message_arg_str msg idx = Some v \<and> is_path_parent_or_child v s) \<and>
     given (mr_arg0namespace rule)
       (\<lambda>ns. \<exists>v. message_arg_str msg 0 = Some v \<and> (v = ns \<or> prefix (ns @ ''.'') v))"

lemma map_path_str: "map_option path_str x = Some p \<longleftrightarrow> x = Some (ObjectPath p)"
  by (metis (no_types) map_option_eq_Some object_path.collapse object_path.sel)

lemma rule_matches_holds: "rule_matches rule msg owner = rule_holds rule msg owner"
proof -
  have guard: "(if g then False else b) = (\<not> g \<and> b)" for g b
    by simp
  have part: "(\<not> (case x of Some a \<Rightarrow> \<not> P a | None \<Rightarrow> False)) = given x P" for x :: "'a option" and P
    by (cases x) simp_all
  have path_ns: "(\<not> (case mr_path_namespace rule of
        Some ns \<Rightarrow> (case m_path msg of Some p \<Rightarrow> \<not> is_within_namespace p ns | None \<Rightarrow> True)
      | None \<Rightarrow> False)) =
      given (mr_path_namespace rule) (\<lambda>ns. \<exists>p. m_path msg = Some p \<and> is_within_namespace p ns)"
    by (cases "mr_path_namespace rule"; cases "m_path msg") simp_all
  have args: "(\<not> list_ex (\<lambda>(idx, s). message_arg_str msg idx \<noteq> Some s) xs) =
      (\<forall>(idx, s) \<in> set xs. message_arg_str msg idx = Some s)" for xs
    by (auto simp: list_ex_iff)
  have arg_paths: "(\<not> list_ex (\<lambda>(idx, s). case message_arg_str msg idx of
        None \<Rightarrow> True | Some v \<Rightarrow> \<not> is_path_parent_or_child v s) xs) =
      (\<forall>(idx, s) \<in> set xs. \<exists>v. message_arg_str msg idx = Some v \<and> is_path_parent_or_child v s)" for xs
    by (auto simp: list_ex_iff split: option.splits)
  have arg0: "(case mr_arg0namespace rule of None \<Rightarrow> True
      | Some ns \<Rightarrow> (case message_arg_str msg 0 of None \<Rightarrow> False
          | Some v \<Rightarrow> v = ns \<or> prefix (ns @ ''.'') v)) =
      given (mr_arg0namespace rule)
        (\<lambda>ns. \<exists>v. message_arg_str msg 0 = Some v \<and> (v = ns \<or> prefix (ns @ ''.'') v))"
    by (cases "mr_arg0namespace rule"; cases "message_arg_str msg 0") simp_all
  show ?thesis
    unfolding rule_matches_def rule_holds_def guard path_ns args arg_paths arg0 part map_path_str ..
qed


section \<open>Writing rules\<close>

text \<open>The quoting the D-Bus match language prescribes, and what the tokenizer makes of it.\<close>

fun escape_quotes :: "string \<Rightarrow> string" where
  "escape_quotes [] = []"
| "escape_quotes (c # s) =
     (if c = quote_char then [quote_char, backslash, quote_char, quote_char] else [c]) @ escape_quotes s"

definition render_token :: "string \<times> string \<Rightarrow> string" where
  "render_token kv = fst kv @ CHR ''='' # quote_char # escape_quotes (snd kv) @ [quote_char]"

definition render_rule :: "(string \<times> string) list \<Rightarrow> string" where
  "render_rule ts = join_with CHR '','' (map render_token ts)"

definition latin1 :: "string \<Rightarrow> string" where
  "latin1 s = concat (map push_latin1 s)"

lemma latin1_ascii: "is_ascii s \<Longrightarrow> latin1 s = s"
  by (induction s) (auto simp: latin1_def push_latin1_def is_ascii_def)

lemma scan_value_escape:
  assumes "\<not> prefix [backslash, quote_char] rest"
  shows "scan_value (escape_quotes v @ quote_char # rest) = Inr (latin1 v, rest)"
proof (induction v)
  case Nil
  then show ?case
    using assms by (auto simp: latin1_def split: list.splits)
next
  case (Cons c v)
  then show ?case
    by (auto simp: latin1_def push_latin1_def)
qed

lemma tokenize_Cons:
  assumes "CHR ''='' \<notin> set k" "\<not> prefix [backslash, quote_char] rest"
  shows "tokenize (render_token (k, v) @ rest) =
     and_then (tokenize (skip_comma rest)) (\<lambda>ts. Inr ((k, latin1 v) # ts))"
  using assms
  by (subst tokenize.simps)
    (simp add: render_token_def split_once_append skip_quote_def scan_value_escape)

lemma tokenize_render:
  assumes "\<forall>(k, v) \<in> set ts. CHR ''='' \<notin> set k"
  shows "tokenize (render_rule ts) = Inr (map (\<lambda>(k, v). (k, latin1 v)) ts)"
  using assms
proof (induction ts)
  case Nil
  then show ?case by (simp add: render_rule_def tokenize.simps)
next
  case (Cons t ts)
  obtain k v where t: "t = (k, v)"
    by (cases t)
  show ?case
  proof (cases "ts = []")
    case True
    then show ?thesis
      using Cons.prems tokenize_Cons [of k "[]" v]
      by (simp add: render_rule_def t skip_comma_def tokenize.simps [of "[]"])
  next
    case False
    then have "render_rule (t # ts) = render_token (k, v) @ CHR '','' # render_rule ts"
      by (cases ts) (simp_all add: render_rule_def t)
    then show ?thesis
      using Cons tokenize_Cons [of k "CHR '','' # render_rule ts" v] by (simp add: t skip_comma_def)
  qed
qed

end
