(* ===== verification/Registry.thy ===== *)
theory Registry
  imports Match_Rules
begin

text \<open>
  \<open>oxibus-daemon/src/registry.rs\<close>: the connections, the ownership queues of the well-known
  names and the counters.  A method that takes the locks is one atomic step of the state
  \<open>registry\<close>, except that \<open>remove_connection\<close> is the sequence of its steps.  The writer of a
  connection is its identity here; what is sent to it is the outbox of the dispatcher.
\<close>

definition FLAG_ALLOW_REPLACEMENT :: u32 where "FLAG_ALLOW_REPLACEMENT = 1"
definition FLAG_REPLACE_EXISTING :: u32 where "FLAG_REPLACE_EXISTING = 2"
definition FLAG_DO_NOT_QUEUE :: u32 where "FLAG_DO_NOT_QUEUE = 4"

definition REQUEST_REPLY_PRIMARY_OWNER :: u32 where "REQUEST_REPLY_PRIMARY_OWNER = 1"
definition REQUEST_REPLY_IN_QUEUE :: u32 where "REQUEST_REPLY_IN_QUEUE = 2"
definition REQUEST_REPLY_EXISTS :: u32 where "REQUEST_REPLY_EXISTS = 3"
definition REQUEST_REPLY_ALREADY_OWNER :: u32 where "REQUEST_REPLY_ALREADY_OWNER = 4"

definition RELEASE_REPLY_RELEASED :: u32 where "RELEASE_REPLY_RELEASED = 1"
definition RELEASE_REPLY_NON_EXISTENT :: u32 where "RELEASE_REPLY_NON_EXISTENT = 2"
definition RELEASE_REPLY_NOT_OWNER :: u32 where "RELEASE_REPLY_NOT_OWNER = 3"

lemmas reply_codes =
  REQUEST_REPLY_PRIMARY_OWNER_def REQUEST_REPLY_IN_QUEUE_def REQUEST_REPLY_EXISTS_def
  REQUEST_REPLY_ALREADY_OWNER_def RELEASE_REPLY_RELEASED_def RELEASE_REPLY_NON_EXISTENT_def
  RELEASE_REPLY_NOT_OWNER_def

record peer_credentials =
  uid :: u32
  gid :: u32
  pid :: int

record connection_entry =
  unique_name :: string
  credentials :: peer_credentials
  security_label :: "string option"
  match_rules :: "match_rule list"
  is_monitor :: bool
  is_registered :: bool

record queue_entry =
  q_unique_name :: string
  q_allow_replacement :: bool
  q_do_not_queue :: bool

record name_owner_change =
  noc_name :: string
  noc_old_owner :: "string option"
  noc_new_owner :: "string option"

record registry =
  connections :: "(string \<times> connection_entry) list"
  names :: "(string \<times> queue_entry list) list"
  next_id :: u64
  incomplete :: u32

definition registry_new :: registry where
  "registry_new = \<lparr>connections = [], names = [], next_id = 1, incomplete = 0\<rparr>"

section \<open>Connections\<close>

definition try_begin_incomplete :: "u32 \<Rightarrow> registry \<Rightarrow> bool \<times> registry" where
  "try_begin_incomplete max_incomplete r =
     (let current = incomplete r
      in if current \<ge> max_incomplete then (False, r)
         else (True, r\<lparr>incomplete := current + 1\<rparr>))"

definition end_incomplete :: "registry \<Rightarrow> registry" where
  "end_incomplete r = r\<lparr>incomplete := incomplete r - 1\<rparr>"

definition allocate_unique_name :: "registry \<Rightarrow> string \<times> registry" where
  "allocate_unique_name r =
     ('':1.'' @ show_nat (unat (next_id r)), r\<lparr>next_id := next_id r + 1\<rparr>)"

definition add_connection :: "connection_entry \<Rightarrow> registry \<Rightarrow> registry" where
  "add_connection e r = r\<lparr>connections := AList.update (unique_name e) e (connections r)\<rparr>"

definition get_connection :: "registry \<Rightarrow> string \<Rightarrow> connection_entry option" where
  "get_connection r n = map_of (connections r) n"

definition all_connections :: "registry \<Rightarrow> connection_entry list" where
  "all_connections r = map snd (connections r)"

definition connection_count :: "registry \<Rightarrow> nat" where
  "connection_count r = length (connections r)"

definition connection_count_for_uid :: "registry \<Rightarrow> u32 \<Rightarrow> nat" where
  "connection_count_for_uid r u =
     length (filter (\<lambda>c. uid (credentials c) = u) (map snd (connections r)))"

text \<open>
  The entries are shared (\<open>Arc\<close>) and hold their mutable fields behind locks and atomics: an
  update through any reference is an update of the entry in the table.
\<close>

definition update_connection ::
  "string \<Rightarrow> (connection_entry \<Rightarrow> connection_entry) \<Rightarrow> registry \<Rightarrow> registry" where
  "update_connection n f r =
     (case map_of (connections r) n of
        Some e \<Rightarrow> r\<lparr>connections := AList.update n (f e) (connections r)\<rparr>
      | None \<Rightarrow> r)"

section \<open>Names\<close>

definition queue_of :: "registry \<Rightarrow> string \<Rightarrow> queue_entry list" where
  "queue_of r n = (case map_of (names r) n of Some q \<Rightarrow> q | None \<Rightarrow> [])"

definition first_owner :: "queue_entry list \<Rightarrow> string option" where
  "first_owner q = (case q of e # _ \<Rightarrow> Some (q_unique_name e) | [] \<Rightarrow> None)"

definition list_names :: "registry \<Rightarrow> string list" where
  "list_names r = map fst (connections r) @ map fst (filter (\<lambda>(_, q). q \<noteq> []) (names r))"

definition get_name_owner :: "registry \<Rightarrow> string \<Rightarrow> string option" where
  "get_name_owner r n =
     (if prefix '':'' n then
        (if map_of (connections r) n \<noteq> None then Some n else None)
      else Option.bind (map_of (names r) n) first_owner)"

definition name_has_owner :: "registry \<Rightarrow> string \<Rightarrow> bool" where
  "name_has_owner r n \<longleftrightarrow> get_name_owner r n \<noteq> None"

definition names_held_by :: "registry \<Rightarrow> string \<Rightarrow> nat" where
  "names_held_by r u =
     length (filter (\<lambda>(_, q). list_ex (\<lambda>e. q_unique_name e = u) q) (names r))"

definition list_queued_owners :: "registry \<Rightarrow> string \<Rightarrow> string list" where
  "list_queued_owners r n =
     (case map_of (names r) n of Some q \<Rightarrow> map q_unique_name q | None \<Rightarrow> [])"

definition set_queue :: "string \<Rightarrow> queue_entry list \<Rightarrow> registry \<Rightarrow> registry" where
  "set_queue n q r = r\<lparr>names := AList.update n q (names r)\<rparr>"

definition drop_name :: "string \<Rightarrow> registry \<Rightarrow> registry" where
  "drop_name n r = r\<lparr>names := AList.delete n (names r)\<rparr>"

definition new_entry :: "string \<Rightarrow> u32 \<Rightarrow> queue_entry" where
  "new_entry u flags =
     \<lparr>q_unique_name = u,
      q_allow_replacement = (and flags FLAG_ALLOW_REPLACEMENT \<noteq> 0),
      q_do_not_queue = (and flags FLAG_DO_NOT_QUEUE \<noteq> 0)\<rparr>"

definition without :: "string \<Rightarrow> queue_entry list \<Rightarrow> queue_entry list" where
  "without u q = filter (\<lambda>e. q_unique_name e \<noteq> u) q"

definition request_name ::
  "string \<Rightarrow> string \<Rightarrow> u32 \<Rightarrow> registry \<Rightarrow> (u32 \<times> name_owner_change list) \<times> registry" where
  "request_name u n flags r =
     (case queue_of r n of
        primary # rest \<Rightarrow>
          if q_unique_name primary = u then
            ((REQUEST_REPLY_ALREADY_OWNER, []), set_queue n (primary # rest) r)
          else if and flags FLAG_REPLACE_EXISTING \<noteq> 0 \<and> q_allow_replacement primary then
            let queue = without u (primary # rest);
                displaced = hd queue;
                queue = new_entry u flags # tl queue;
                queue = (if \<not> q_do_not_queue primary then queue @ [displaced] else queue)
            in ((REQUEST_REPLY_PRIMARY_OWNER,
                 [\<lparr>noc_name = n, noc_old_owner = Some (q_unique_name primary), noc_new_owner = Some u\<rparr>]),
                set_queue n queue r)
          else if and flags FLAG_DO_NOT_QUEUE \<noteq> 0 then
            ((REQUEST_REPLY_EXISTS, []), set_queue n (primary # rest) r)
          else
            ((REQUEST_REPLY_IN_QUEUE, []),
             set_queue n
               (if list_ex (\<lambda>e. q_unique_name e = u) (primary # rest) then primary # rest
                else primary # rest @
                  [\<lparr>q_unique_name = u,
                    q_allow_replacement = (and flags FLAG_ALLOW_REPLACEMENT \<noteq> 0),
                    q_do_not_queue = False\<rparr>]) r)
      | [] \<Rightarrow>
          ((REQUEST_REPLY_PRIMARY_OWNER,
            [\<lparr>noc_name = n, noc_old_owner = None, noc_new_owner = Some u\<rparr>]),
           set_queue n [new_entry u flags] r))"

definition release_name_internal ::
  "string \<Rightarrow> string \<Rightarrow> registry \<Rightarrow> name_owner_change option \<times> registry" where
  "release_name_internal u n r =
     (case map_of (names r) n of
        None \<Rightarrow> (None, r)
      | Some queue \<Rightarrow>
          let was_primary = (first_owner queue = Some u);
              had_entry = list_ex (\<lambda>e. q_unique_name e = u) queue
          in if \<not> had_entry then (None, r)
             else
               let queue = without u queue;
                   r = set_queue n queue r
               in if \<not> was_primary then (None, if queue = [] then drop_name n r else r)
                  else
                    (Some \<lparr>noc_name = n, noc_old_owner = Some u, noc_new_owner = first_owner queue\<rparr>,
                     if queue = [] then drop_name n r else r))"

definition release_name ::
  "string \<Rightarrow> string \<Rightarrow> registry \<Rightarrow> (u32 \<times> name_owner_change list) \<times> registry" where
  "release_name u n r =
     (case map_of (names r) n of
        None \<Rightarrow> ((RELEASE_REPLY_NON_EXISTENT, []), r)
      | Some queue \<Rightarrow>
          if \<not> list_ex (\<lambda>e. q_unique_name e = u) queue then ((RELEASE_REPLY_NOT_OWNER, []), r)
          else (case release_name_internal u n r of
                  (ev, r') \<Rightarrow>
                    ((RELEASE_REPLY_RELEASED, case ev of Some e \<Rightarrow> [e] | None \<Rightarrow> []), r')))"

fun release_all ::
  "string \<Rightarrow> string list \<Rightarrow> registry \<Rightarrow> name_owner_change list \<times> registry" where
  "release_all u [] r = ([], r)"
| "release_all u (n # ns) r =
     (case release_name_internal u n r of
        (ev, r') \<Rightarrow>
          (case release_all u ns r' of
             (evs, r'') \<Rightarrow> ((case ev of Some e \<Rightarrow> e # evs | None \<Rightarrow> evs), r'')))"

definition remove_connection :: "string \<Rightarrow> registry \<Rightarrow> name_owner_change list \<times> registry" where
  "remove_connection u r =
     (let r = r\<lparr>connections := AList.delete u (connections r)\<rparr>;
          names_snapshot = map fst (names r)
      in case release_all u names_snapshot r of
           (events, r') \<Rightarrow>
             (events @ [\<lparr>noc_name = u, noc_old_owner = Some u, noc_new_owner = None\<rparr>], r'))"


section \<open>Well-formed registries\<close>

text \<open>
  Queues are not empty, hold a connection at most once, and hold live connections only; unique
  names and well-known names are told apart by their first character.
\<close>

definition wf_queue :: "queue_entry list \<Rightarrow> bool" where
  "wf_queue q \<longleftrightarrow> q \<noteq> [] \<and> distinct (map q_unique_name q)"

definition wf_tables :: "registry \<Rightarrow> bool" where
  "wf_tables r \<longleftrightarrow>
     distinct (map fst (connections r)) \<and> distinct (map fst (names r)) \<and>
     (\<forall>n e. map_of (connections r) n = Some e \<longrightarrow> unique_name e = n \<and> prefix '':'' n) \<and>
     (\<forall>n q. map_of (names r) n = Some q \<longrightarrow> \<not> prefix '':'' n \<and> wf_queue q)"

definition queued :: "registry \<Rightarrow> string set" where
  "queued r = (\<Union>n. q_unique_name ` set (queue_of r n))"

definition wf_registry :: "registry \<Rightarrow> bool" where
  "wf_registry r \<longleftrightarrow> wf_tables r \<and> queued r \<subseteq> set (map fst (connections r))"

text \<open>Who owns which well-known name, and the effect of a \<open>NameOwnerChange\<close> on that map.\<close>

definition owners :: "registry \<Rightarrow> string \<Rightarrow> string option" where
  "owners r n = Option.bind (map_of (names r) n) first_owner"

definition apply_change :: "name_owner_change \<Rightarrow> (string \<Rightarrow> string option) \<Rightarrow> (string \<Rightarrow> string option)" where
  "apply_change ev m = m(noc_name ev := noc_new_owner ev)"

lemma get_name_owner_owners: "\<not> prefix '':'' n \<Longrightarrow> get_name_owner r n = owners r n"
  by (simp add: get_name_owner_def owners_def)

lemma first_owner_simps [simp]:
  "first_owner [] = None" "first_owner (e # q) = Some (q_unique_name e)"
  "first_owner q = None \<longleftrightarrow> q = []"
  by (simp_all add: first_owner_def split: list.splits)

lemma set_queue_simps [simp]:
  "connections (set_queue n q r) = connections r" "next_id (set_queue n q r) = next_id r"
  "map_of (names (set_queue n q r)) = (map_of (names r))(n \<mapsto> q)"
  "connections (drop_name n r) = connections r"
  "map_of (names (drop_name n r)) = (map_of (names r))(n := None)"
  by (simp_all add: set_queue_def drop_name_def update_conv' delete_conv')

lemma set_queue_distinct [simp]:
  "distinct (map fst (names r)) \<Longrightarrow> distinct (map fst (names (set_queue n q r)))"
  "distinct (map fst (names r)) \<Longrightarrow> distinct (map fst (names (drop_name n r)))"
  by (simp_all add: set_queue_def drop_name_def distinct_update distinct_delete)

lemma queue_of_set_queue [simp]:
  "queue_of (set_queue n q r) m = (if m = n then q else queue_of r m)"
  "queue_of (drop_name n r) m = (if m = n then [] else queue_of r m)"
  by (simp_all add: queue_of_def)

lemma owners_queue: "owners r n = first_owner (queue_of r n)"
  by (simp add: owners_def queue_of_def split: option.splits)

lemma queued_set_queue:
  "queued (set_queue n q r) \<subseteq> queued r \<union> q_unique_name ` set q"
  "queued (drop_name n r) \<subseteq> queued r"
  by (auto simp: queued_def split: if_splits)

lemma queue_queued: "e \<in> set (queue_of r n) \<Longrightarrow> q_unique_name e \<in> queued r"
  by (auto simp: queued_def)

lemma owners_simps [simp]:
  "owners (set_queue n q r) = (owners r)(n := first_owner q)"
  "owners (drop_name n r) = (owners r)(n := None)"
  by (auto simp: owners_def fun_eq_iff)

lemma wf_set_queue [wf_intros]:
  "wf_tables r \<Longrightarrow> \<not> prefix '':'' n \<Longrightarrow> wf_queue q \<Longrightarrow> wf_tables (set_queue n q r)"
  by (auto simp: wf_tables_def)

lemma wf_drop_name [wf_intros]: "wf_tables r \<Longrightarrow> wf_tables (drop_name n r)"
  by (auto simp: wf_tables_def split: if_splits)

lemma wf_drop_set_queue [wf_intros]: "wf_tables r \<Longrightarrow> wf_tables (drop_name n (set_queue n q r))"
  by (auto simp: wf_tables_def split: if_splits)

lemma wf_registry_set_queue [wf_intros]:
  "wf_registry r \<Longrightarrow> \<not> prefix '':'' n \<Longrightarrow> wf_queue q \<Longrightarrow>
     q_unique_name ` set q \<subseteq> insert u (queued r) \<Longrightarrow> u \<in> set (map fst (connections r)) \<Longrightarrow>
     wf_registry (set_queue n q r)"
proof -
  assume r: "wf_registry r" "\<not> prefix '':'' n" "wf_queue q"
    and q: "q_unique_name ` set q \<subseteq> insert u (queued r)" "u \<in> set (map fst (connections r))"
  have "queued (set_queue n q r) \<subseteq> insert u (queued r)"
    using queued_set_queue(1) [of n q r] q(1) by blast
  also have "\<dots> \<subseteq> set (map fst (connections r))"
    using r(1) q(2) by (simp add: wf_registry_def)
  finally show ?thesis
    using r by (simp add: wf_registry_def wf_intros)
qed

lemma wf_queue_of:
  assumes "wf_tables r" "queue_of r n = e # q"
  shows "map_of (names r) n = Some (e # q)" "wf_queue (e # q)" "owners r n = Some (q_unique_name e)"
    "\<not> prefix '':'' n" "q_unique_name ` set (e # q) \<subseteq> queued r"
  using assms queue_queued [of _ r n]
  by (auto simp: queue_of_def wf_tables_def owners_def split: option.splits)

lemma wf_queue_of_Nil: "wf_tables r \<Longrightarrow> queue_of r n = [] \<longleftrightarrow> map_of (names r) n = None"
  by (fastforce simp: queue_of_def wf_tables_def wf_queue_def split: option.splits)

lemma without_simps [simp]:
  "without u [] = []" "without u (e # q) = (if q_unique_name e = u then without u q else e # without u q)"
  "set (without u q) = {e \<in> set q. q_unique_name e \<noteq> u}"
  by (auto simp: without_def)

lemma distinct_without: "distinct (map q_unique_name q) \<Longrightarrow> distinct (map q_unique_name (without u q))"
  by (simp add: without_def distinct_map_filter)

lemma new_entry_name [simp]: "q_unique_name (new_entry u flags) = u"
  by (simp add: new_entry_def)

lemma wf_queue_without: "wf_queue q \<Longrightarrow> without u q \<noteq> [] \<Longrightarrow> wf_queue (without u q)"
  by (simp add: wf_queue_def distinct_without)

section \<open>Requesting a name\<close>

text \<open>The specification of \<open>RequestName\<close>: reply code and queue, from the queue before.\<close>

definition can_replace :: "u32 \<Rightarrow> queue_entry \<Rightarrow> bool" where
  "can_replace flags primary \<longleftrightarrow> and flags FLAG_REPLACE_EXISTING \<noteq> 0 \<and> q_allow_replacement primary"

definition changes_to :: "registry \<Rightarrow> name_owner_change list \<Rightarrow> registry \<Rightarrow> bool" where
  "changes_to r evs r' \<longleftrightarrow> owners r' = fold apply_change evs (owners r)"

lemma request_name_cases:
  assumes "wf_tables r" "request_name u n flags r = ((code, evs), r')"
  obtains
    (unowned) "queue_of r n = []" "code = REQUEST_REPLY_PRIMARY_OWNER"
      "evs = [\<lparr>noc_name = n, noc_old_owner = None, noc_new_owner = Some u\<rparr>]"
      "r' = set_queue n [new_entry u flags] r"
  | (already) e q where "queue_of r n = e # q" "q_unique_name e = u"
      "code = REQUEST_REPLY_ALREADY_OWNER" "evs = []" "r' = set_queue n (e # q) r"
  | (replace) e q where "queue_of r n = e # q" "q_unique_name e \<noteq> u" "can_replace flags e"
      "code = REQUEST_REPLY_PRIMARY_OWNER"
      "evs = [\<lparr>noc_name = n, noc_old_owner = Some (q_unique_name e), noc_new_owner = Some u\<rparr>]"
      "r' = set_queue n (new_entry u flags # without u q @ (if q_do_not_queue e then [] else [e])) r"
  | (exists) e q where "queue_of r n = e # q" "q_unique_name e \<noteq> u" "\<not> can_replace flags e"
      "and flags FLAG_DO_NOT_QUEUE \<noteq> 0"
      "code = REQUEST_REPLY_EXISTS" "evs = []" "r' = set_queue n (e # q) r"
  | (queued) e q where "queue_of r n = e # q" "q_unique_name e \<noteq> u" "\<not> can_replace flags e"
      "and flags FLAG_DO_NOT_QUEUE = 0" "u \<in> q_unique_name ` set q"
      "code = REQUEST_REPLY_IN_QUEUE" "evs = []" "r' = set_queue n (e # q) r"
  | (appended) e q w where "queue_of r n = e # q" "q_unique_name e \<noteq> u" "\<not> can_replace flags e"
      "and flags FLAG_DO_NOT_QUEUE = 0" "u \<notin> q_unique_name ` set q" "q_unique_name w = u"
      "code = REQUEST_REPLY_IN_QUEUE" "evs = []" "r' = set_queue n (e # q @ [w]) r"
proof (cases "queue_of r n")
  case Nil
  then show thesis
    using assms(2) by (intro unowned) (auto simp: request_name_def)
next
  case (Cons e q)
  consider "q_unique_name e = u" | "q_unique_name e \<noteq> u" "can_replace flags e"
    | "q_unique_name e \<noteq> u" "\<not> can_replace flags e" "and flags FLAG_DO_NOT_QUEUE \<noteq> 0"
    | "q_unique_name e \<noteq> u" "\<not> can_replace flags e" "and flags FLAG_DO_NOT_QUEUE = 0"
      "list_ex (\<lambda>e. q_unique_name e = u) q"
    | "q_unique_name e \<noteq> u" "\<not> can_replace flags e" "and flags FLAG_DO_NOT_QUEUE = 0"
      "\<not> list_ex (\<lambda>e. q_unique_name e = u) q"
    by blast
  then show thesis
  proof cases
    case 1
    then show thesis
      using assms(2) Cons by (intro already) (auto simp: request_name_def)
  next
    case 2
    then show thesis
      using assms(2) Cons by (intro replace [of e q]) (auto simp: request_name_def can_replace_def Let_def)
  next
    case 3
    then show thesis
      using assms(2) Cons by (intro exists [of e q]) (auto simp: request_name_def can_replace_def)
  next
    case 4
    then have "u \<in> q_unique_name ` set q"
      by (auto simp: list_ex_iff)
    with 4 show thesis
      using assms(2) Cons by (intro queued [of e q]) (auto simp: request_name_def can_replace_def)
  next
    case 5
    let ?w = "\<lparr>q_unique_name = u, q_allow_replacement = (and flags FLAG_ALLOW_REPLACEMENT \<noteq> 0),
        q_do_not_queue = False\<rparr>"
    have "u \<notin> q_unique_name ` set q"
      using 5 by (auto simp: list_ex_iff)
    with 5 show thesis
      using assms(2) Cons by (intro appended [of e q ?w]) (auto simp: request_name_def can_replace_def)
  qed
qed

definition change_ok :: "(string \<Rightarrow> string option) \<Rightarrow> name_owner_change \<Rightarrow> bool" where
  "change_ok m ev \<longleftrightarrow> noc_old_owner ev = m (noc_name ev) \<and> noc_new_owner ev \<noteq> noc_old_owner ev"

lemma request_name_owners:
  assumes "wf_tables r" "request_name u n flags r = ((code, evs), r')"
  shows "owners r' = fold apply_change evs (owners r) \<and> (\<forall>ev \<in> set evs. change_ok (owners r) ev)"
  using assms
proof (cases rule: request_name_cases)
  case unowned
  then show ?thesis by (simp add: apply_change_def change_ok_def owners_queue)
next
  case (replace e q)
  then show ?thesis by (simp add: apply_change_def change_ok_def owners_queue)
qed (simp_all add: fun_eq_iff owners_queue)

lemma request_name_wf:
  assumes "wf_registry r" "\<not> prefix '':'' n" "u \<in> set (map fst (connections r))"
    and "request_name u n flags r = ((code, evs), r')"
  shows "wf_registry r'"
proof -
  have t: "wf_tables r"
    using assms(1) by (simp add: wf_registry_def)
  note wf = wf_queue_of [OF t]
  have "\<exists>q. r' = set_queue n q r \<and> wf_queue q \<and> q_unique_name ` set q \<subseteq> insert u (queued r)"
    using t assms(4)
  proof (cases rule: request_name_cases)
    case unowned
    then show ?thesis by (intro exI [of _ "[new_entry u flags]"]) (simp add: wf_queue_def)
  next
    case (already e q)
    with wf [OF already(1)] show ?thesis by (intro exI [of _ "e # q"]) auto
  next
    case (replace e q)
    with wf [OF replace(1)] show ?thesis
      by (intro exI [of _ "new_entry u flags # without u q @ (if q_do_not_queue e then [] else [e])"])
        (auto simp: wf_queue_def distinct_without)
  next
    case (exists e q)
    with wf [OF exists(1)] show ?thesis by (intro exI [of _ "e # q"]) auto
  next
    case (queued e q)
    with wf [OF queued(1)] show ?thesis by (intro exI [of _ "e # q"]) auto
  next
    case (appended e q w)
    with wf [OF appended(1)] show ?thesis
      by (intro exI [of _ "e # q @ [w]"]) (auto simp: wf_queue_def)
  qed
  then obtain q where "r' = set_queue n q r" "wf_queue q" "q_unique_name ` set q \<subseteq> insert u (queued r)"
    by blast
  with assms(1-3) show ?thesis
    by (simp add: wf_registry_set_queue del: set_map)
qed

lemma request_name_code:
  assumes "wf_tables r" "request_name u n flags r = ((code, evs), r')"
  shows "(code = REQUEST_REPLY_ALREADY_OWNER \<longleftrightarrow> owners r n = Some u) \<and>
    (code = REQUEST_REPLY_PRIMARY_OWNER \<longleftrightarrow> owners r n \<noteq> Some u \<and> owners r' n = Some u) \<and>
    (code = REQUEST_REPLY_IN_QUEUE \<longrightarrow> u \<in> set (tl (list_queued_owners r' n))) \<and>
    (code = REQUEST_REPLY_EXISTS \<longrightarrow> list_queued_owners r' = list_queued_owners r)"
  using assms
proof (cases rule: request_name_cases)
  case unowned
  then show ?thesis by (simp add: reply_codes owners_queue)
next
  case (already e q)
  then show ?thesis by (simp add: reply_codes owners_queue)
next
  case (replace e q)
  then show ?thesis by (simp add: reply_codes owners_queue)
next
  case (exists e q)
  with wf_queue_of(1) [OF assms(1) exists(1)] show ?thesis
    by (simp add: reply_codes owners_queue list_queued_owners_def fun_eq_iff)
next
  case (queued e q)
  then show ?thesis by (simp add: reply_codes owners_queue list_queued_owners_def)
next
  case (appended e q w)
  then show ?thesis by (simp add: reply_codes owners_queue list_queued_owners_def)
qed

section \<open>Releasing names\<close>

definition ev_list :: "'a option \<Rightarrow> 'a list" where
  "ev_list ev = (case ev of Some e \<Rightarrow> [e] | None \<Rightarrow> [])"

lemma list_ex_name: "list_ex (\<lambda>e. q_unique_name e = u) q \<longleftrightarrow> u \<in> q_unique_name ` set q"
  by (auto simp: list_ex_iff)

lemma without_absent: "u \<notin> q_unique_name ` set q \<Longrightarrow> without u q = q"
  by (induction q) auto

lemma first_owner_without: "first_owner q \<noteq> Some u \<Longrightarrow> first_owner (without u q) = first_owner q"
  by (cases q) auto

lemma first_owner_without_other: "first_owner (without u q) \<noteq> Some u"
  by (induction q) auto

lemma release_internal_step:
  assumes "wf_tables r" "release_name_internal u n r = (ev, r')"
  shows "wf_tables r' \<and> connections r' = connections r \<and>
    queue_of r' = (queue_of r)(n := without u (queue_of r n)) \<and>
    owners r' = fold apply_change (ev_list ev) (owners r) \<and>
    (\<forall>e \<in> set (ev_list ev). change_ok (owners r) e)"
proof (cases "map_of (names r) n")
  case None
  then show ?thesis
    using assms by (simp add: release_name_internal_def ev_list_def queue_of_def fun_eq_iff)
next
  case (Some q)
  have qn: "queue_of r n = q" "wf_queue q" "\<not> prefix '':'' n"
    using Some assms(1) by (auto simp: queue_of_def wf_tables_def)
  show ?thesis
  proof (cases "u \<in> q_unique_name ` set q")
    case False
    then show ?thesis
      using assms Some qn by (simp add: release_name_internal_def ev_list_def list_ex_name
          without_absent fun_eq_iff)
  next
    case True
    define r2 where "r2 = (if without u q = [] then drop_name n (set_queue n (without u q) r)
      else set_queue n (without u q) r)"
    have r2: "wf_tables r2" "connections r2 = connections r"
      "queue_of r2 = (queue_of r)(n := without u q)"
      using assms(1) qn wf_queue_without [of q u]
      by (auto simp: r2_def fun_eq_iff intro: wf_intros)
    show ?thesis
    proof (cases "first_owner q = Some u")
      case own: True
      have "first_owner (without u q) \<noteq> Some u"
        by (rule first_owner_without_other)
      then show ?thesis
        using assms(2) Some True own r2 qn
        by (auto simp: release_name_internal_def list_ex_name Let_def ev_list_def r2_def [symmetric]
            apply_change_def change_ok_def owners_queue fun_eq_iff)
    next
      case False
      then show ?thesis
        using assms(2) Some True r2 qn
        by (auto simp: release_name_internal_def list_ex_name Let_def ev_list_def r2_def [symmetric]
            owners_queue fun_eq_iff first_owner_without)
    qed
  qed
qed


lemma release_name_step:
  assumes "wf_tables r" "release_name u n r = ((code, evs), r')"
  shows "wf_tables r' \<and> connections r' = connections r \<and>
    queue_of r' = (queue_of r)(n := without u (queue_of r n)) \<and>
    owners r' = fold apply_change evs (owners r) \<and> (\<forall>e \<in> set evs. change_ok (owners r) e) \<and>
    (code = RELEASE_REPLY_NON_EXISTENT \<longleftrightarrow> queue_of r n = []) \<and>
    (code = RELEASE_REPLY_RELEASED \<longleftrightarrow> u \<in> set (list_queued_owners r n))"
proof (cases "map_of (names r) n")
  case None
  then show ?thesis
    using assms by (auto simp: release_name_def reply_codes queue_of_def list_queued_owners_def fun_eq_iff)
next
  case (Some q)
  then have q: "queue_of r n = q" "q \<noteq> []"
    using assms(1) by (auto simp: queue_of_def wf_tables_def wf_queue_def)
  obtain ev r2 where step: "release_name_internal u n r = (ev, r2)"
    by (cases "release_name_internal u n r")
  show ?thesis
  proof (cases "u \<in> q_unique_name ` set q")
    case True
    then show ?thesis
      using assms(2) Some q release_internal_step [OF assms(1) step] step
      by (simp add: release_name_def list_ex_name list_queued_owners_def reply_codes ev_list_def)
  next
    case False
    then show ?thesis
      using assms Some q without_absent [OF False]
      by (auto simp: release_name_def list_ex_name list_queued_owners_def reply_codes fun_eq_iff)
  qed
qed

lemma release_all_step:
  assumes "wf_tables r" "release_all u ns r = (evs, r')"
  shows "wf_tables r' \<and> connections r' = connections r \<and>
    queue_of r' = (\<lambda>m. if m \<in> set ns then without u (queue_of r m) else queue_of r m) \<and>
    owners r' = fold apply_change evs (owners r)"
  using assms
proof (induction ns arbitrary: r evs)
  case (Cons n ns)
  obtain ev r1 where one: "release_name_internal u n r = (ev, r1)"
    by (cases "release_name_internal u n r")
  obtain evs' where rest: "release_all u ns r1 = (evs', r')" and evs: "evs = ev_list ev @ evs'"
    using Cons.prems(2) one by (auto simp: ev_list_def split: prod.splits option.splits)
  have "without u (without u q) = without u q" for q
    by (simp add: without_def)
  then show ?case
    using release_internal_step [OF Cons.prems(1) one] Cons.IH [OF _ rest] evs
    by (auto simp: fun_eq_iff)
qed auto

lemma names_of_queue: "queue_of r n \<noteq> [] \<Longrightarrow> n \<in> set (map fst (names r))"
  by (auto simp: queue_of_def split: option.splits dest!: map_of_SomeD intro: rev_image_eqI)

text \<open>Nothing of a connection is left when it has been removed, and every change is announced.\<close>

lemma remove_connection_step:
  assumes "wf_registry r" "remove_connection u r = (evs, r')"
  shows "wf_registry r' \<and> queued r' \<subseteq> queued r - {u} \<and>
    map_of (connections r') = (map_of (connections r))(u := None) \<and>
    (prefix '':'' u \<longrightarrow> owners r' = fold apply_change evs (owners r))"
proof -
  define r0 where "r0 = r\<lparr>connections := AList.delete u (connections r)\<rparr>"
  have r0: "wf_tables r0" "queue_of r0 = queue_of r" "names r0 = names r" "owners r0 = owners r"
    using assms(1)
    by (auto simp: r0_def wf_registry_def wf_tables_def distinct_delete delete_conv' queue_of_def
        owners_def fun_eq_iff split: if_splits)
  obtain evs' where all: "release_all u (map fst (names r)) r0 = (evs', r')"
    and evs: "evs = evs' @ [\<lparr>noc_name = u, noc_old_owner = Some u, noc_new_owner = None\<rparr>]"
    using assms(2) by (auto simp: remove_connection_def r0_def [symmetric] r0(3) split: prod.splits)
  note step = release_all_step [OF r0(1) all]
  have q: "queue_of r' m = without u (queue_of r m)" for m
    using step names_of_queue [of r m] r0(2) by (cases "queue_of r m = []") auto
  have sub: "queued r' \<subseteq> queued r - {u}"
    by (auto simp: queued_def q)
  have conns: "map_of (connections r') = (map_of (connections r))(u := None)"
    using step by (simp add: r0_def delete_conv')
  have "set (map fst (connections r')) = set (map fst (connections r)) - {u}"
  proof -
    have "map fst (connections r') = removeAll u (map fst (connections r))"
      using step by (simp add: r0_def delete_keys)
    then show ?thesis
      by (simp only: set_removeAll)
  qed
  then have "wf_registry r'"
    using sub step assms(1) by (auto simp: wf_registry_def)
  moreover have "owners r' = fold apply_change evs (owners r)" if "prefix '':'' u"
  proof -
    have "map_of (names r') u = None"
      using step that by (cases "map_of (names r') u") (auto simp: wf_tables_def)
    then have "owners r' u = None"
      by (simp add: owners_def)
    then show ?thesis
      using step r0(4) by (auto simp: evs apply_change_def fun_eq_iff)
  qed
  ultimately show ?thesis
    using sub conns by blast
qed


section \<open>Announced changes\<close>

text \<open>
  The contract of a service whose state changes are announced: every step keeps the invariant,
  and replaying the announced events on the old view gives the new view.  A client that has
  seen the initial view and every event therefore knows the current view (\<open>view_runs\<close>).
\<close>

inductive runs :: "('op \<Rightarrow> 's \<Rightarrow> 'ev list \<times> 's) \<Rightarrow> ('op \<Rightarrow> 's \<Rightarrow> bool) \<Rightarrow> 's \<Rightarrow> 'ev list \<Rightarrow> 's \<Rightarrow> bool"
  for step :: "'op \<Rightarrow> 's \<Rightarrow> 'ev list \<times> 's" and ok :: "'op \<Rightarrow> 's \<Rightarrow> bool" and s :: 's where
  runs_refl: "runs step ok s [] s"
| runs_step: "runs step ok s evs s1 \<Longrightarrow> ok op s1 \<Longrightarrow> step op s1 = (new, s2) \<Longrightarrow>
     runs step ok s (evs @ new) s2"

locale announcer =
  fixes step :: "'op \<Rightarrow> 's \<Rightarrow> 'ev list \<times> 's"
    and ok :: "'op \<Rightarrow> 's \<Rightarrow> bool"
    and inv :: "'s \<Rightarrow> bool"
    and view :: "'s \<Rightarrow> 'v"
    and replay :: "'ev \<Rightarrow> 'v \<Rightarrow> 'v"
  assumes inv_step: "inv s \<Longrightarrow> ok op s \<Longrightarrow> step op s = (evs, s') \<Longrightarrow> inv s'"
    and view_step: "inv s \<Longrightarrow> ok op s \<Longrightarrow> step op s = (evs, s') \<Longrightarrow> view s' = fold replay evs (view s)"
begin

lemma inv_runs: "runs step ok s evs s' \<Longrightarrow> inv s \<Longrightarrow> inv s'"
  by (induction rule: runs.induct) (auto intro: inv_step)

lemma view_runs: "runs step ok s evs s' \<Longrightarrow> inv s \<Longrightarrow> view s' = fold replay evs (view s)"
proof (induction rule: runs.induct)
  case (runs_step evs s1 op new s2)
  then show ?case
    using view_step [of s1 op new s2] inv_runs [of s evs s1] by simp
qed simp

end

text \<open>The operations of the registry that change connections or names.\<close>

datatype registry_op =
    Connect connection_entry
  | RequestName string string u32
  | ReleaseName string string
  | Disconnect string

fun registry_step :: "registry_op \<Rightarrow> registry \<Rightarrow> name_owner_change list \<times> registry" where
  "registry_step (Connect e) r = ([], add_connection e r)"
| "registry_step (RequestName u n flags) r = (case request_name u n flags r of ((_, evs), r') \<Rightarrow> (evs, r'))"
| "registry_step (ReleaseName u n) r = (case release_name u n r of ((_, evs), r') \<Rightarrow> (evs, r'))"
| "registry_step (Disconnect u) r = remove_connection u r"

text \<open>What the callers make sure of: unique names start with a colon, requested names do not.\<close>

fun registry_ok :: "registry_op \<Rightarrow> registry \<Rightarrow> bool" where
  "registry_ok (Connect e) r \<longleftrightarrow> prefix '':'' (unique_name e)"
| "registry_ok (RequestName u n flags) r \<longleftrightarrow> \<not> prefix '':'' n \<and> u \<in> set (map fst (connections r))"
| "registry_ok (ReleaseName u n) r \<longleftrightarrow> True"
| "registry_ok (Disconnect u) r \<longleftrightarrow> prefix '':'' u"

lemma add_connection_step:
  assumes "wf_registry r" "prefix '':'' (unique_name e)"
  shows "wf_registry (add_connection e r) \<and> owners (add_connection e r) = owners r \<and>
    queue_of (add_connection e r) = queue_of r"
proof -
  have "set (map fst (connections r)) \<subseteq> set (map fst (connections (add_connection e r)))"
    by (auto simp: add_connection_def dom_update)
  moreover have "queue_of (add_connection e r) = queue_of r"
    by (simp add: queue_of_def add_connection_def fun_eq_iff)
  moreover have "wf_tables (add_connection e r)"
    using assms by (auto simp: wf_registry_def wf_tables_def add_connection_def update_conv' distinct_update
        split: if_splits)
  ultimately show ?thesis
    using assms(1) unfolding wf_registry_def queued_def by (simp add: owners_queue fun_eq_iff) blast
qed

lemma registry_step_view:
  assumes "wf_registry r" "registry_ok op r" "registry_step op r = (evs, r')"
  shows "wf_registry r' \<and> owners r' = fold apply_change evs (owners r)"
proof (cases op)
  case (Connect e)
  then show ?thesis
    using assms add_connection_step by auto
next
  case (RequestName u n flags)
  with assms(3) obtain code where req: "request_name u n flags r = ((code, evs), r')"
    by (auto split: prod.splits)
  then show ?thesis
    using assms(1,2) RequestName request_name_wf [OF assms(1) _ _ req] request_name_owners [OF _ req]
    by (simp add: wf_registry_def)
next
  case (ReleaseName u n)
  with assms(3) obtain code where rel: "release_name u n r = ((code, evs), r')"
    by (auto split: prod.splits)
  have t: "wf_tables r"
    using assms(1) by (simp add: wf_registry_def)
  note step = release_name_step [OF t rel]
  then have "queued r' \<subseteq> queued r"
    by (auto simp: queued_def split: if_splits)
  then show ?thesis
    using step assms(1) by (auto simp: wf_registry_def)
next
  case (Disconnect u)
  then show ?thesis
    using assms remove_connection_step [of r u evs r'] by auto
qed

interpretation registry: announcer registry_step registry_ok wf_registry owners apply_change
  by unfold_locales (auto dest: registry_step_view)

lemma wf_registry_new: "wf_registry registry_new"
  by (simp add: wf_registry_def wf_tables_def registry_new_def queued_def queue_of_def)

lemma owner_connected:
  assumes "wf_registry r" "get_name_owner r n = Some u"
  shows "get_connection r u \<noteq> None \<and> distinct (list_queued_owners r n)"
proof (cases "prefix '':'' n")
  case True
  then have "map_of (names r) n = None"
    using assms(1) by (cases "map_of (names r) n") (auto simp: wf_registry_def wf_tables_def)
  then show ?thesis
    using assms(2) True
    by (auto simp: get_name_owner_def get_connection_def list_queued_owners_def split: if_splits)
next
  case False
  with assms(2) obtain qs where qs: "map_of (names r) n = Some qs" "first_owner qs = Some u"
    by (auto simp: get_name_owner_def bind_eq_Some_conv)
  then obtain e q where q: "map_of (names r) n = Some (e # q)" "u = q_unique_name e"
    by (cases qs) auto
  then have "u \<in> queued r"
    using queue_queued [of e r n] by (simp add: queue_of_def)
  then have "u \<in> set (map fst (connections r))"
    using assms(1) unfolding wf_registry_def by blast
  moreover have "wf_queue (e # q)"
    using assms(1) q by (auto simp: wf_registry_def wf_tables_def)
  ultimately show ?thesis
    using q by (auto simp: get_connection_def list_queued_owners_def wf_queue_def map_of_eq_None_iff
        simp del: not_None_eq)
qed

end
