(* ===== verification/Policy.thy ===== *)
theory Policy
  imports Match_Rules
begin

text \<open>
  \<open>oxibus-daemon/src/policy.rs\<close>: the rules of the security policy, their patterns, the rules
  that apply to an identity, and the three verdicts.  A rule file in TOML is parsed by the
  \<open>toml\<close> and \<open>serde\<close> crates, so its parser is a parameter of \<open>load_dirs\<close>; the parser of the
  XML files is in \<open>Policy_Xml\<close>, and a parameter here as well.
\<close>

datatype policy_context = CtxDefault | CtxUser | CtxGroup | CtxMandatory

record full_pattern =
  p_destination :: "string option"
  p_interface :: "string option"
  p_member :: "string option"
  p_path :: "string option"
  p_type :: "string option"

datatype send_receive_pattern = PDestination string | PFull full_pattern

record policy_rule =
  pr_context :: policy_context
  pr_user :: "string option"
  pr_group :: "string option"
  allow_own :: "string list"
  deny_own :: "string list"
  allow_send :: "send_receive_pattern list"
  deny_send :: "send_receive_pattern list"
  allow_receive :: "send_receive_pattern list"
  deny_receive :: "send_receive_pattern list"

record policy_identity =
  id_uid :: u32
  id_user_name :: "string option"
  id_group_names :: "string list"

type_synonym policy = "policy_rule list"

section \<open>Patterns\<close>

definition glob_match :: "string \<Rightarrow> string \<Rightarrow> bool" where
  "glob_match pattern s =
     (if pattern = ''*'' then True
      else case strip_suffix ''*'' pattern of
             Some pre \<Rightarrow> prefix pre s
           | None \<Rightarrow> pattern = s)"

definition or_empty :: "string option \<Rightarrow> string" where
  "or_empty x = (case x of Some s \<Rightarrow> s | None \<Rightarrow> [])"

definition type_matches :: "string \<Rightarrow> message_type \<Rightarrow> bool" where
  "type_matches t mt =
     (if t = ''method_call'' then mt = MethodCall
      else if t = ''method_return'' then mt = MethodReturn
      else if t = ''signal'' then mt = Signal
      else if t = ''error'' then mt = ErrorReply
      else True)"

fun pattern_matches :: "send_receive_pattern \<Rightarrow> message \<Rightarrow> string option \<Rightarrow> bool" where
  "pattern_matches (PDestination pat) msg other_party = glob_match pat (or_empty other_party)"
| "pattern_matches (PFull f) msg other_party =
     (if (case p_destination f of Some d \<Rightarrow> \<not> glob_match d (or_empty other_party) | None \<Rightarrow> False) then False
      else if (case p_interface f of Some i \<Rightarrow> m_interface msg \<noteq> Some i | None \<Rightarrow> False) then False
      else if (case p_member f of Some m \<Rightarrow> m_member msg \<noteq> Some m | None \<Rightarrow> False) then False
      else if (case p_path f of
                 Some p \<Rightarrow> map_option path_str (m_path msg) \<noteq> Some p | None \<Rightarrow> False) then False
      else if (case p_type f of Some t \<Rightarrow> \<not> type_matches t (m_type msg) | None \<Rightarrow> False) then False
      else True)"

section \<open>The rules that apply\<close>

text \<open>One pass over the rules fills four vectors, which are then chained.\<close>

definition rule_applies :: "policy_identity \<Rightarrow> policy_rule \<Rightarrow> bool" where
  "rule_applies ident rule =
     (case pr_context rule of
        CtxDefault \<Rightarrow> True
      | CtxUser \<Rightarrow>
          pr_user rule = id_user_name ident \<or> pr_user rule = Some (show_nat (unat (id_uid ident)))
      | CtxGroup \<Rightarrow> (case pr_group rule of Some g \<Rightarrow> g \<in> set (id_group_names ident) | None \<Rightarrow> False)
      | CtxMandatory \<Rightarrow> True)"

definition rules_in :: "policy_context \<Rightarrow> policy_identity \<Rightarrow> policy \<Rightarrow> policy_rule list" where
  "rules_in c ident rules = filter (\<lambda>r. pr_context r = c \<and> rule_applies ident r) rules"

definition applicable :: "policy_identity \<Rightarrow> policy \<Rightarrow> policy_rule list" where
  "applicable ident rules =
     rules_in CtxDefault ident rules @ rules_in CtxUser ident rules @
     rules_in CtxGroup ident rules @ rules_in CtxMandatory ident rules"

section \<open>Verdicts\<close>

fun verdict :: "('r \<Rightarrow> bool) \<Rightarrow> ('r \<Rightarrow> bool) \<Rightarrow> bool \<Rightarrow> 'r list \<Rightarrow> bool" where
  "verdict allows denies v [] = v"
| "verdict allows denies v (r # rs) =
     (let v = (if allows r then True else v);
          v = (if denies r then False else v)
      in verdict allows denies v rs)"

definition can_own :: "policy \<Rightarrow> policy_identity \<Rightarrow> string \<Rightarrow> bool" where
  "can_own rules ident n =
     (if rules = [] then True
      else verdict (\<lambda>r. list_ex (\<lambda>p. glob_match p n) (allow_own r))
             (\<lambda>r. list_ex (\<lambda>p. glob_match p n) (deny_own r)) False (applicable ident rules))"

definition can_send :: "policy \<Rightarrow> policy_identity \<Rightarrow> message \<Rightarrow> string option \<Rightarrow> bool" where
  "can_send rules ident msg destination =
     (if rules = [] then True
      else verdict (\<lambda>r. list_ex (\<lambda>p. pattern_matches p msg destination) (allow_send r))
             (\<lambda>r. list_ex (\<lambda>p. pattern_matches p msg destination) (deny_send r))
             False (applicable ident rules))"

definition can_receive :: "policy \<Rightarrow> policy_identity \<Rightarrow> message \<Rightarrow> string option \<Rightarrow> bool" where
  "can_receive rules ident msg sender =
     (if rules = [] then True
      else verdict (\<lambda>r. list_ex (\<lambda>p. pattern_matches p msg sender) (allow_receive r))
             (\<lambda>r. list_ex (\<lambda>p. pattern_matches p msg sender) (deny_receive r))
             False (applicable ident rules))"

section \<open>Loading\<close>

text \<open>
  \<open>Path::extension\<close> of a file name: what follows the last dot, none if there is no dot or
  nothing before it.
\<close>

definition path_extension :: "string \<Rightarrow> string option" where
  "path_extension f =
     (case split_once CHR ''.'' (rev f) of
        Some (ext, before) \<Rightarrow> if before = [] then None else Some (rev ext)
      | None \<Rightarrow> None)"

text \<open>
  A directory as \<open>load_dirs\<close> sees it: not a directory, one that \<open>read_dir\<close> fails on, or its
  entries with the text \<open>read_to_string\<close> gives for them (\<open>None\<close> when reading fails).  The paths
  of one directory differ in their file names, by which they are sorted.
\<close>

datatype policy_dir = NotADirectory | Unlistable | Listed "(string \<times> string option) list"

definition load_file ::
  "(string \<Rightarrow> policy option) \<Rightarrow> (string \<Rightarrow> policy) \<Rightarrow> string \<times> string option \<Rightarrow> policy core_result" where
  "load_file parse_toml parse_xml entry =
     (case entry of (f, contents) \<Rightarrow>
        (case contents of
           None \<Rightarrow> Inl (IoError f)
         | Some s \<Rightarrow>
             if path_extension f = Some ''toml'' then
               Inr (case parse_toml s of Some rules \<Rightarrow> rules | None \<Rightarrow> [])
             else if path_extension f = Some ''conf'' then Inr (parse_xml s)
             else Inr []))"

definition is_policy_file :: "string \<Rightarrow> bool" where
  "is_policy_file f \<longleftrightarrow> path_extension f = Some ''toml'' \<or> path_extension f = Some ''conf''"

definition load_dir ::
  "(string \<Rightarrow> policy option) \<Rightarrow> (string \<Rightarrow> policy) \<Rightarrow> policy_dir \<Rightarrow> policy core_result" where
  "load_dir parse_toml parse_xml d =
     (case d of
        NotADirectory \<Rightarrow> Inr []
      | Unlistable \<Rightarrow> Inl (IoError ''read_dir'')
      | Listed entries \<Rightarrow>
          let paths = sort_key fst (filter (\<lambda>e. is_policy_file (fst e)) entries)
          in and_then (try_map (load_file parse_toml parse_xml) paths) (\<lambda>rules. Inr (concat rules)))"

definition load_dirs ::
  "(string \<Rightarrow> policy option) \<Rightarrow> (string \<Rightarrow> policy) \<Rightarrow> policy_dir list \<Rightarrow> policy core_result" where
  "load_dirs parse_toml parse_xml dirs =
     and_then (try_map (load_dir parse_toml parse_xml) dirs) (\<lambda>rules. Inr (concat rules))"

section \<open>The last rule that speaks decides\<close>

text \<open>
  The contract of a verdict: it is that of the last rule that allows or denies, deny before
  allow within one rule, and the start value when no rule speaks.
\<close>

definition speaks :: "('r \<Rightarrow> bool) \<Rightarrow> ('r \<Rightarrow> bool) \<Rightarrow> 'r \<Rightarrow> bool" where
  "speaks allows denies r \<longleftrightarrow> allows r \<or> denies r"

lemma verdict_append:
  "verdict a d v (rs @ rs') = verdict a d (verdict a d v rs) rs'"
  by (induction rs arbitrary: v) (simp_all add: Let_def)

lemma verdict_silent: "\<forall>r \<in> set rs. \<not> speaks a d r \<Longrightarrow> verdict a d v rs = v"
  by (induction rs arbitrary: v) (simp_all add: speaks_def)

lemma verdict_last:
  "verdict a d v rs =
     (case filter (speaks a d) rs of [] \<Rightarrow> v | _ \<Rightarrow> \<not> d (last (filter (speaks a d) rs)))"
proof (induction rs rule: rev_induct)
  case (snoc r rs)
  show ?case
  proof (cases "speaks a d r")
    case True
    then have "verdict a d w [r] = (\<not> d r)" for w
      by (auto simp: speaks_def)
    then show ?thesis
      using True by (cases "filter (speaks a d) rs") (simp_all add: verdict_append)
  next
    case False
    then have "verdict a d w [r] = w" for w
      by (intro verdict_silent) simp
    then show ?thesis
      using snoc False by (cases "filter (speaks a d) rs") (simp_all add: verdict_append)
  qed
qed simp

lemma verdict_denied:
  assumes "r \<in> set rs" "d r" "\<forall>r' \<in> set rs. \<not> a r'"
  shows "\<not> verdict a d v rs"
proof -
  have "filter (speaks a d) rs \<noteq> []"
    using assms by (auto simp: filter_empty_conv speaks_def)
  moreover from this have "last (filter (speaks a d) rs) \<in> set (filter (speaks a d) rs)"
    by (rule last_in_set)
  ultimately show ?thesis
    using assms(3) by (auto simp: verdict_last speaks_def split: list.splits)
qed

lemma verdict_iff:
  "verdict a d False rs \<longleftrightarrow>
     (\<exists>before r after. rs = before @ r # after \<and> a r \<and> \<not> d r \<and>
        (\<forall>r' \<in> set after. \<not> d r'))"
proof (induction rs rule: rev_induct)
  case (snoc r rs)
  show ?case
  proof
    assume "verdict a d False (rs @ [r])"
    then consider "a r" "\<not> d r" | "\<not> a r" "\<not> d r" "verdict a d False rs"
      by (auto simp: verdict_append Let_def split: if_splits)
    then show "\<exists>before r' after. rs @ [r] = before @ r' # after \<and> a r' \<and> \<not> d r' \<and> (\<forall>r' \<in> set after. \<not> d r')"
    proof cases
      case 1
      then show ?thesis
        by (intro exI [of _ rs] exI [of _ r] exI [of _ "[]"]) simp
    next
      case 2
      with snoc.IH obtain before r' after where "rs = before @ r' # after" "a r'" "\<not> d r'"
        "\<forall>r' \<in> set after. \<not> d r'" by blast
      with 2 show ?thesis
        by (intro exI [of _ before] exI [of _ r'] exI [of _ "after @ [r]"]) auto
    qed
  next
    assume "\<exists>before r' after. rs @ [r] = before @ r' # after \<and> a r' \<and> \<not> d r' \<and> (\<forall>r' \<in> set after. \<not> d r')"
    then obtain before r' after where eq: "rs @ [r] = before @ r' # after" and r': "a r'" "\<not> d r'"
      "\<forall>r' \<in> set after. \<not> d r'" by blast
    show "verdict a d False (rs @ [r])"
    proof (cases after rule: rev_cases)
      case Nil
      with eq r' show ?thesis by (simp add: verdict_append)
    next
      case (snoc after' x)
      with eq have "rs = before @ r' # after'" "x = r"
        by auto
      with snoc.IH r' snoc have "verdict a d False rs" "\<not> d r"
        by auto
      then show ?thesis by (simp add: verdict_append)
    qed
  qed
qed simp

end
