(* ===== verification/Auth_Server.thy ===== *)
theory Auth_Server
  imports Keyring Registry Policy
begin

text \<open>
  \<open>oxibus-auth/src/mechanism.rs\<close> and \<open>server.rs\<close>: the mechanisms and the server side of the SASL
  exchange, one line at a time.  SHA-1 is the parameter \<open>sha1\<close>; what the system answers while
  one line is handled (own uid, key ring, clock, random bytes) is the record \<open>auth_io\<close>.  A line
  has no result (\<open>None\<close>) only if the search for a free cookie id used up the given draws.
\<close>

section \<open>Mechanisms\<close>

datatype mechanism = External | DbusCookieSha1 | Anonymous

fun mechanism_name :: "mechanism \<Rightarrow> string" where
  "mechanism_name External = ''EXTERNAL''"
| "mechanism_name DbusCookieSha1 = ''DBUS_COOKIE_SHA1''"
| "mechanism_name Anonymous = ''ANONYMOUS''"

definition mechanism_parse :: "string \<Rightarrow> mechanism option" where
  "mechanism_parse s =
     (if s = ''EXTERNAL'' then Some External
      else if s = ''DBUS_COOKIE_SHA1'' then Some DbusCookieSha1
      else if s = ''ANONYMOUS'' then Some Anonymous
      else None)"

definition mechanism_list_string :: "mechanism list \<Rightarrow> string" where
  "mechanism_list_string ms = join_with CHR '' '' (map mechanism_name ms)"

section \<open>State\<close>

definition MAX_FAILURES :: u32 where "MAX_FAILURES = 6"

record cookie_state =
  cookie_id :: "u32 option"
  server_challenge_hex :: "string option"

definition cookie_default :: cookie_state where
  "cookie_default = \<lparr>cookie_id = None, server_challenge_hex = None\<rparr>"

datatype server_state =
    WaitingForAuth
  | WaitingForData mechanism cookie_state
  | WaitingForBegin "u32 option"

datatype server_action = Send "string list" | Begin "u32 option" | Disconnect_Peer string

record server_auth =
  peer :: peer_credentials
  allowed_mechanisms :: "mechanism list"
  allow_anonymous :: bool
  guid_hex :: string
  s_state :: server_state
  failures :: u32
  unix_fd_negotiated :: bool
  home_dir :: "string option"

record auth_io =
  our_uid :: u32
  io_load :: "keyring auth_result"
  io_keyring :: keyring_io
  io_challenge :: "u8 list"

definition server_new ::
  "peer_credentials \<Rightarrow> mechanism list \<Rightarrow> bool \<Rightarrow> string \<Rightarrow> string option \<Rightarrow> server_auth" where
  "server_new p ms anon guid home =
     \<lparr>peer = p, allowed_mechanisms = ms, allow_anonymous = anon, guid_hex = guid,
      s_state = WaitingForAuth, failures = 0, unix_fd_negotiated = False, home_dir = home\<rparr>"

section \<open>Replies\<close>

definition rejected :: "server_auth \<Rightarrow> server_action \<times> server_auth" where
  "rejected s =
     (let s = s\<lparr>failures := failures s + 1, s_state := WaitingForAuth\<rparr>
      in if failures s \<ge> MAX_FAILURES then (Disconnect_Peer ''too many authentication failures'', s)
         else (Send [''REJECTED '' @ mechanism_list_string (allowed_mechanisms s)], s))"

definition auth_ok :: "u32 option \<Rightarrow> server_auth \<Rightarrow> server_action \<times> server_auth" where
  "auth_ok u s = (Send [''OK '' @ guid_hex s], s\<lparr>s_state := WaitingForBegin u\<rparr>)"

definition reply_error :: "string \<Rightarrow> server_auth \<Rightarrow> server_action \<times> server_auth" where
  "reply_error msg s = (Send [''ERROR '' @ [CHR 0x22] @ msg @ [CHR 0x22]], s)"

definition split_command :: "string \<Rightarrow> string \<times> string" where
  "split_command line =
     (case split_once CHR '' '' line of
        Some (cmd, rest) \<Rightarrow> (cmd, trim_start rest)
      | None \<Rightarrow> (line, []))"

section \<open>Mechanisms at work\<close>

definition parse_uid :: "u8 list \<Rightarrow> u32 option" where
  "parse_uid data =
     (let s = str_of_bytes data in
      if valid_utf8 s then map_option word_of_nat (parse_uint U32_BOUND s) else None)"

definition desired_uid :: "u8 list \<Rightarrow> server_auth \<Rightarrow> u32 option" where
  "desired_uid data s = (if data = [] then Some (uid (peer s)) else parse_uid data)"

definition handle_external :: "u8 list \<Rightarrow> server_auth \<Rightarrow> server_action \<times> server_auth" where
  "handle_external data s =
     (case desired_uid data s of
        Some u \<Rightarrow> if u = uid (peer s) then auth_ok (Some u) s else rejected s
      | None \<Rightarrow> rejected s)"

definition handle_anonymous :: "server_auth \<Rightarrow> server_action \<times> server_auth" where
  "handle_anonymous s = auth_ok None s"

definition cookie_challenge :: "u32 \<Rightarrow> string \<Rightarrow> string" where
  "cookie_challenge cookie challenge_hex =
     DEFAULT_CONTEXT @ '' '' @ show_nat (unat cookie) @ '' '' @ challenge_hex"

definition cookie_sha1_first_response ::
  "auth_io \<Rightarrow> u8 list \<Rightarrow> server_auth \<Rightarrow> (server_action \<times> server_auth) option" where
  "cookie_sha1_first_response io data s =
     (if desired_uid data s \<noteq> Some (uid (peer s)) \<or> uid (peer s) \<noteq> our_uid io then Some (rejected s)
      else case home_dir s of
        None \<Rightarrow> Some (rejected s)
      | Some home \<Rightarrow>
          (case io_load io of
             Inl _ \<Rightarrow> Some (rejected s)
           | Inr keys \<Rightarrow>
               (case best_key (io_keyring io) keys of
                  None \<Rightarrow> None
                | Some (Inl _, _, _) \<Rightarrow> Some (rejected s)
                | Some (Inr cookie, _, _) \<Rightarrow>
                    let challenge_hex = hex_encode (io_challenge io);
                        reply = cookie_challenge cookie challenge_hex
                    in Some
                      (Send [''DATA '' @ hex_encode (as_bytes reply)],
                       s\<lparr>s_state := WaitingForData DbusCookieSha1
                           \<lparr>cookie_id = Some cookie, server_challenge_hex = Some challenge_hex\<rparr>\<rparr>))))"

definition cookie_hash ::
  "(u8 list \<Rightarrow> u8 list) \<Rightarrow> string \<Rightarrow> string \<Rightarrow> string \<Rightarrow> string" where
  "cookie_hash sha1 server_challenge client_challenge cookie_hex =
     hex_encode (sha1 (as_bytes (server_challenge @ '':'' @ client_challenge @ '':'' @ cookie_hex)))"

definition cookie_sha1_second_response ::
  "(u8 list \<Rightarrow> u8 list) \<Rightarrow> auth_io \<Rightarrow> u32 \<Rightarrow> cookie_state \<Rightarrow> u8 list \<Rightarrow> server_auth \<Rightarrow>
     server_action \<times> server_auth" where
  "cookie_sha1_second_response sha1 io cookie ck data s =
     (let t = str_of_bytes data in
      if \<not> valid_utf8 t then rejected s
      else case split_once CHR '' '' t of
        None \<Rightarrow> rejected s
      | Some (client_challenge_hex, client_hash_hex) \<Rightarrow>
          if client_challenge_hex = [] \<or> client_hash_hex = [] then rejected s
          else case home_dir s of
            None \<Rightarrow> rejected s
          | Some home \<Rightarrow>
              (case io_load io of
                 Inl _ \<Rightarrow> rejected s
               | Inr keys \<Rightarrow>
                   (case hex_key keys cookie of
                      None \<Rightarrow> rejected s
                    | Some cookie_hex \<Rightarrow>
                        let server_challenge = (case server_challenge_hex ck of Some c \<Rightarrow> c | None \<Rightarrow> []);
                            expected_hash = cookie_hash sha1 server_challenge client_challenge_hex cookie_hex
                        in if expected_hash \<noteq> client_hash_hex then rejected s
                           else auth_ok (Some (uid (peer s))) s)))"

definition handle_cookie_sha1 ::
  "(u8 list \<Rightarrow> u8 list) \<Rightarrow> auth_io \<Rightarrow> u8 list \<Rightarrow> server_auth \<Rightarrow> (server_action \<times> server_auth) option" where
  "handle_cookie_sha1 sha1 io data s =
     (case s_state s of
        WaitingForData _ ck \<Rightarrow>
          (case cookie_id ck of
             None \<Rightarrow> cookie_sha1_first_response io data s
           | Some cookie \<Rightarrow> Some (cookie_sha1_second_response sha1 io cookie ck data s))
      | _ \<Rightarrow> None)"

definition dispatch_mechanism_data ::
  "(u8 list \<Rightarrow> u8 list) \<Rightarrow> auth_io \<Rightarrow> mechanism \<Rightarrow> u8 list \<Rightarrow> server_auth \<Rightarrow>
     (server_action \<times> server_auth) option" where
  "dispatch_mechanism_data sha1 io m data s =
     (case m of
        External \<Rightarrow> Some (handle_external data s)
      | Anonymous \<Rightarrow> Some (handle_anonymous s)
      | DbusCookieSha1 \<Rightarrow> handle_cookie_sha1 sha1 io data s)"

section \<open>Lines\<close>

definition handle_waiting_for_auth ::
  "(u8 list \<Rightarrow> u8 list) \<Rightarrow> auth_io \<Rightarrow> string \<Rightarrow> string \<Rightarrow> server_auth \<Rightarrow>
     (server_action \<times> server_auth) option" where
  "handle_waiting_for_auth sha1 io command rest s =
     (if command = ''AUTH'' then
        if rest = [] then Some (rejected s)
        else
          let (mech_name, initial_hex) =
                (case split_once CHR '' '' rest of Some (a, b) \<Rightarrow> (a, Some b) | None \<Rightarrow> (rest, None)) in
          case mechanism_parse mech_name of
            None \<Rightarrow> Some (rejected s)
          | Some m \<Rightarrow>
              if m \<notin> set (allowed_mechanisms s) then Some (rejected s)
              else if m = Anonymous \<and> \<not> allow_anonymous s then Some (rejected s)
              else case initial_hex of
                Some hex_data \<Rightarrow>
                  (case hex_decode hex_data of
                     None \<Rightarrow> Some (rejected s)
                   | Some data \<Rightarrow>
                       dispatch_mechanism_data sha1 io m data
                         (s\<lparr>s_state := WaitingForData m cookie_default\<rparr>))
              | None \<Rightarrow>
                  Some (Send [''DATA ''], s\<lparr>s_state := WaitingForData m cookie_default\<rparr>)
      else if command = ''ERROR'' then Some (rejected s)
      else Some (reply_error ''Sent unexpected command while expecting AUTH'' s))"

definition handle_waiting_for_data ::
  "(u8 list \<Rightarrow> u8 list) \<Rightarrow> auth_io \<Rightarrow> mechanism \<Rightarrow> string \<Rightarrow> string \<Rightarrow> server_auth \<Rightarrow>
     (server_action \<times> server_auth) option" where
  "handle_waiting_for_data sha1 io m command rest s =
     (if command = ''DATA'' then
        (case hex_decode rest of
           None \<Rightarrow> Some (rejected s)
         | Some data \<Rightarrow> dispatch_mechanism_data sha1 io m data s)
      else if command = ''CANCEL'' then Some (rejected s)
      else if command = ''ERROR'' then Some (rejected s)
      else if command = ''BEGIN'' then Some (reply_error ''Sent BEGIN while expecting DATA'' s)
      else if command = ''AUTH'' then Some (reply_error ''Sent AUTH while expecting DATA'' s)
      else Some (reply_error ''Unknown command while expecting DATA'' s))"

definition handle_waiting_for_begin ::
  "u32 option \<Rightarrow> string \<Rightarrow> server_auth \<Rightarrow> server_action \<times> server_auth" where
  "handle_waiting_for_begin u command s =
     (if command = ''BEGIN'' then (Begin u, s)
      else if command = ''NEGOTIATE_UNIX_FD'' then
        (Send [''AGREE_UNIX_FD''], s\<lparr>unix_fd_negotiated := True\<rparr>)
      else if command = ''CANCEL'' then rejected s
      else if command = ''ERROR'' then rejected s
      else reply_error ''Unknown command while expecting BEGIN'' s)"

definition server_feed_line ::
  "(u8 list \<Rightarrow> u8 list) \<Rightarrow> auth_io \<Rightarrow> string \<Rightarrow> server_auth \<Rightarrow> (server_action \<times> server_auth) option" where
  "server_feed_line sha1 io line s =
     (case split_command line of
        (command, rest) \<Rightarrow>
          (case s_state s of
             WaitingForAuth \<Rightarrow> handle_waiting_for_auth sha1 io command rest s
           | WaitingForData m _ \<Rightarrow> handle_waiting_for_data sha1 io m command rest s
           | WaitingForBegin u \<Rightarrow> Some (handle_waiting_for_begin u command s)))"

section \<open>Reachable states\<close>

text \<open>The lines of one client, each with what the system answers meanwhile.\<close>

inductive server_reaches ::
  "(u8 list \<Rightarrow> u8 list) \<Rightarrow> server_auth \<Rightarrow> server_auth \<Rightarrow> bool" for sha1 s0 where
  reach_start: "server_reaches sha1 s0 s0"
| reach_line: "server_reaches sha1 s0 s \<Longrightarrow> server_feed_line sha1 io line s = Some (act, s') \<Longrightarrow>
     server_reaches sha1 s0 s'"

inductive_cases server_reaches_elim: "server_reaches sha1 s0 s"

definition mechanism_permitted :: "server_auth \<Rightarrow> mechanism \<Rightarrow> bool" where
  "mechanism_permitted s m \<longleftrightarrow>
     m \<in> set (allowed_mechanisms s) \<and> (m = Anonymous \<longrightarrow> allow_anonymous s)"

text \<open>
  The invariant: a mechanism at work is permitted; a client that may begin is the peer itself,
  or anonymous where that is permitted; the failures count the rejections up to the limit.
\<close>

definition auth_inv :: "server_auth \<Rightarrow> bool" where
  "auth_inv s \<longleftrightarrow>
     (case s_state s of
        WaitingForAuth \<Rightarrow> True
      | WaitingForData m _ \<Rightarrow> mechanism_permitted s m
      | WaitingForBegin None \<Rightarrow> mechanism_permitted s Anonymous
      | WaitingForBegin (Some u) \<Rightarrow>
          u = uid (peer s) \<and> (mechanism_permitted s External \<or> mechanism_permitted s DbusCookieSha1))"

definition same_config :: "server_auth \<Rightarrow> server_auth \<Rightarrow> bool" where
  "same_config s s' \<longleftrightarrow>
     peer s' = peer s \<and> allowed_mechanisms s' = allowed_mechanisms s \<and>
     allow_anonymous s' = allow_anonymous s \<and> guid_hex s' = guid_hex s \<and> home_dir s' = home_dir s"

lemma same_config_refl [simp]: "same_config s s"
  by (simp add: same_config_def)

lemma same_config_trans: "same_config s s' \<Longrightarrow> same_config s' s'' \<Longrightarrow> same_config s s''"
  by (simp add: same_config_def)

lemma rejected_inv: "rejected s = (act, s') \<Longrightarrow> auth_inv s' \<and> same_config s s'"
  by (auto simp: rejected_def Let_def auth_inv_def same_config_def split: if_splits)

lemma auth_ok_inv:
  "auth_ok u s = (act, s') \<Longrightarrow> mechanism_permitted s m \<Longrightarrow>
     (u = None \<and> m = Anonymous) \<or> (u = Some (uid (peer s)) \<and> m \<noteq> Anonymous) \<Longrightarrow>
     auth_inv s' \<and> same_config s s'"
  by (cases m) (auto simp: auth_ok_def auth_inv_def same_config_def mechanism_permitted_def)

lemma reply_error_inv: "reply_error msg s = (act, s') \<Longrightarrow> s' = s"
  by (simp add: reply_error_def)

lemma waiting_inv [simp]:
  "mechanism_permitted s m \<Longrightarrow> auth_inv (s\<lparr>s_state := WaitingForData m ck\<rparr>)"
  "same_config s (s\<lparr>s_state := st\<rparr>)" "same_config s (s\<lparr>unix_fd_negotiated := b\<rparr>)"
  "mechanism_permitted (s\<lparr>s_state := st\<rparr>) m = mechanism_permitted s m"
  by (simp_all add: auth_inv_def same_config_def mechanism_permitted_def)

lemma dispatch_inv:
  assumes "dispatch_mechanism_data sha1 io m data s = Some (act, s')"
    and "s_state s = WaitingForData m ck" "mechanism_permitted s m"
  shows "auth_inv s' \<and> same_config s s'"
proof (cases m)
  case External
  then show ?thesis
    using assms
    by (auto simp: dispatch_mechanism_data_def handle_external_def split: option.splits if_splits
        dest: rejected_inv auth_ok_inv)
next
  case Anonymous
  then show ?thesis
    using assms
    by (auto simp: dispatch_mechanism_data_def handle_anonymous_def dest: auth_ok_inv)
next
  case DbusCookieSha1
  have first: "auth_inv s' \<and> same_config s s'" if "cookie_sha1_first_response io data s = Some (act, s')"
    using that assms(3) DbusCookieSha1
    by (auto simp: cookie_sha1_first_response_def Let_def
        split: option.splits if_splits sum.splits prod.splits dest: rejected_inv)
  have second: "auth_inv s' \<and> same_config s s'"
    if "cookie_sha1_second_response sha1 io cookie ck data s = (act, s')" for cookie
    using that assms(3) DbusCookieSha1
    by (auto simp: cookie_sha1_second_response_def Let_def split: option.splits if_splits sum.splits
        prod.splits dest: rejected_inv auth_ok_inv)
  show ?thesis
    using assms DbusCookieSha1 first second
    by (auto simp: dispatch_mechanism_data_def handle_cookie_sha1_def split: option.splits)
qed


lemma server_feed_line_inv:
  assumes "server_feed_line sha1 io line s = Some (act, s')" "auth_inv s"
  shows "auth_inv s' \<and> same_config s s'"
proof -
  obtain command rest where cmd: "split_command line = (command, rest)"
    by (cases "split_command line")
  show ?thesis
  proof (cases "s_state s")
    case WaitingForAuth
    have disp: "auth_inv s' \<and> same_config s s'"
      if "dispatch_mechanism_data sha1 io m data (s\<lparr>s_state := WaitingForData m cookie_default\<rparr>) = Some (act, s')"
        "m \<in> set (allowed_mechanisms s)" "\<not> (m = Anonymous \<and> \<not> allow_anonymous s)" for m data
    proof -
      have "mechanism_permitted s m"
        using that(2,3) by (auto simp: mechanism_permitted_def)
      then show ?thesis
        using dispatch_inv [OF that(1), of cookie_default] same_config_trans [of s "s\<lparr>s_state := WaitingForData m cookie_default\<rparr>" s']
        by simp
    qed
    show ?thesis
      using assms(1) WaitingForAuth cmd
      by (auto simp: server_feed_line_def handle_waiting_for_auth_def mechanism_permitted_def
          split: if_splits option.splits prod.splits
          dest!: rejected_inv disp dest: reply_error_inv intro: assms(2))
  next
    case (WaitingForData m ck)
    then have "mechanism_permitted s m"
      using assms(2) by (simp add: auth_inv_def)
    then show ?thesis
      using assms WaitingForData cmd
      by (auto simp: server_feed_line_def handle_waiting_for_data_def
          split: if_splits option.splits dest: rejected_inv dispatch_inv reply_error_inv)
  next
    case (WaitingForBegin u)
    have "auth_inv (s\<lparr>unix_fd_negotiated := True\<rparr>)"
      using assms(2) WaitingForBegin
      by (auto simp: auth_inv_def mechanism_permitted_def split: option.splits)
    then show ?thesis
      using assms WaitingForBegin cmd
      by (auto simp: server_feed_line_def handle_waiting_for_begin_def
          split: if_splits dest: rejected_inv reply_error_inv)
  qed
qed

lemma server_reaches_inv: "server_reaches sha1 s0 s \<Longrightarrow> auth_inv s0 \<Longrightarrow> auth_inv s \<and> same_config s0 s"
  by (induction rule: server_reaches.induct) (auto dest: server_feed_line_inv same_config_trans)

lemma auth_inv_new [simp]: "auth_inv (server_new p ms anon guid home)"
  by (simp add: auth_inv_def server_new_def)

lemma not_begin [simp]:
  "rejected s \<noteq> (Begin u, s')" "auth_ok v s \<noteq> (Begin u, s')" "reply_error msg s \<noteq> (Begin u, s')"
  by (auto simp: rejected_def auth_ok_def reply_error_def Let_def)

lemma dispatch_not_begin: "dispatch_mechanism_data sha1 io m data s \<noteq> Some (Begin u, s')"
  by (auto simp: dispatch_mechanism_data_def handle_external_def handle_anonymous_def
      handle_cookie_sha1_def cookie_sha1_first_response_def cookie_sha1_second_response_def Let_def
      split: mechanism.splits option.splits if_splits server_state.splits sum.splits prod.splits)

lemma begin_from_waiting:
  "server_feed_line sha1 io line s = Some (Begin u, s') \<Longrightarrow> s_state s = WaitingForBegin u"
  by (auto simp: server_feed_line_def handle_waiting_for_auth_def handle_waiting_for_data_def
      handle_waiting_for_begin_def dispatch_not_begin
      split: prod.splits server_state.splits if_splits option.splits)

section \<open>Failures\<close>

lemma rejected_failures: "failures (snd (rejected s)) = failures s + 1"
  by (simp add: rejected_def Let_def)

text \<open>A line either leaves the count alone or is a rejection.\<close>

definition counts :: "server_auth \<Rightarrow> server_action \<times> server_auth \<Rightarrow> bool" where
  "counts s res \<longleftrightarrow> failures (snd res) = failures s \<or>
     (failures (snd res) = failures s + 1 \<and>
      (failures (snd res) \<ge> MAX_FAILURES \<longrightarrow> fst res = Disconnect_Peer ''too many authentication failures'') \<and>
      s_state (snd res) = WaitingForAuth)"

lemma counts_rejected [simp]: "failures s' = failures s \<Longrightarrow> counts s (rejected s')"
  by (simp add: counts_def rejected_def Let_def)

lemma counts_others [simp]:
  "failures s' = failures s \<Longrightarrow> counts s (auth_ok u s')"
  "failures s' = failures s \<Longrightarrow> counts s (reply_error msg s')"
  "failures s' = failures s \<Longrightarrow> counts s (act, s')"
  by (simp_all add: counts_def auth_ok_def reply_error_def)

lemma dispatch_counts:
  "dispatch_mechanism_data sha1 io m data s' = Some res \<Longrightarrow> failures s' = failures s \<Longrightarrow> counts s res"
  by (auto simp: dispatch_mechanism_data_def handle_external_def handle_anonymous_def
      handle_cookie_sha1_def cookie_sha1_first_response_def cookie_sha1_second_response_def Let_def
      split: mechanism.splits option.splits if_splits server_state.splits sum.splits prod.splits)

lemma server_feed_line_counts: "server_feed_line sha1 io line s = Some res \<Longrightarrow> counts s res"
  by (auto simp: server_feed_line_def handle_waiting_for_auth_def handle_waiting_for_data_def
      handle_waiting_for_begin_def Let_def
      split: prod.splits server_state.splits if_splits option.splits dest: dispatch_counts)


text \<open>The lines of a client that is not disconnected.\<close>

inductive server_alive :: "(u8 list \<Rightarrow> u8 list) \<Rightarrow> server_auth \<Rightarrow> server_auth \<Rightarrow> bool" for sha1 s0 where
  alive_start: "server_alive sha1 s0 s0"
| alive_line: "server_alive sha1 s0 s \<Longrightarrow> server_feed_line sha1 io line s = Some (act, s') \<Longrightarrow>
     (\<forall>why. act \<noteq> Disconnect_Peer why) \<Longrightarrow> server_alive sha1 s0 s'"

lemma server_alive_failures:
  "server_alive sha1 s0 s \<Longrightarrow> failures s0 < MAX_FAILURES \<Longrightarrow> failures s < MAX_FAILURES"
proof (induction rule: server_alive.induct)
  case (alive_line s io line act s')
  then show ?case
    using server_feed_line_counts [OF alive_line.hyps(2)]
    by (auto simp: counts_def MAX_FAILURES_def not_le)
qed

section \<open>The cookie exchange\<close>

text \<open>What a client must present to be let in by its cookie.\<close>

definition cookie_response_ok ::
  "(u8 list \<Rightarrow> u8 list) \<Rightarrow> auth_io \<Rightarrow> u32 \<Rightarrow> cookie_state \<Rightarrow> string \<Rightarrow> bool" where
  "cookie_response_ok sha1 io cookie ck t \<longleftrightarrow>
     (\<exists>keys secret client_challenge.
        io_load io = Inr keys \<and> hex_key keys cookie = Some secret \<and> client_challenge \<noteq> [] \<and>
        CHR '' '' \<notin> set client_challenge \<and>
        t = client_challenge @ '' '' @ cookie_hash sha1 (or_empty (server_challenge_hex ck)) client_challenge secret)"

lemma cookie_accepts:
  assumes "cookie_sha1_second_response sha1 io cookie ck data s = (act, s')"
    and "s_state s = WaitingForData m ck" "s_state s' = WaitingForBegin u"
  shows "u = Some (uid (peer s)) \<and> cookie_response_ok sha1 io cookie ck (str_of_bytes data)"
  using assms
  by (auto simp: cookie_sha1_second_response_def Let_def rejected_def auth_ok_def or_empty_def
      cookie_response_ok_def split_once_Some split: if_splits option.splits sum.splits prod.splits)

end
