(* ===== verification/Auth_Client.thy ===== *)
theory Auth_Client
  imports Auth_Server
begin

text \<open>
  \<open>oxibus-auth/src/client.rs\<close>: the client side of the SASL exchange, and the exchange of the
  two sides.  The record \<open>client_io\<close> is what the system answers while one line is handled.
  \<open>begin_mechanism\<close> indexes the list of mechanisms; \<open>None\<close> is its panic.
\<close>

datatype client_action =
    CSend string | CAuthenticated | MechanismRejected "string list" | ProtocolError string

datatype client_state =
    CInit | WaitingForDataOrOk mechanism "u32 option" | WaitingForAgreeUnixFd | CDone

record client_auth =
  c_mechanisms :: "mechanism list"
  tried :: nat
  c_state :: client_state
  want_unix_fd :: bool
  c_home_dir :: "string option"

record client_io =
  c_uid :: u32
  c_load :: "string \<Rightarrow> keyring auth_result"
  c_challenge :: "u8 list"
  c_error_text :: "auth_error \<Rightarrow> string"

definition client_new :: "mechanism list \<Rightarrow> bool \<Rightarrow> string option \<Rightarrow> client_auth" where
  "client_new ms fd home =
     \<lparr>c_mechanisms = ms, tried = 0, c_state = CInit, want_unix_fd = fd, c_home_dir = home\<rparr>"

definition begin_mechanism :: "client_io \<Rightarrow> nat \<Rightarrow> client_auth \<Rightarrow> (string \<times> client_auth) option" where
  "begin_mechanism io index c =
     (if index < length (c_mechanisms c) then
        let m = c_mechanisms c ! index;
            c = c\<lparr>tried := index, c_state := WaitingForDataOrOk m None\<rparr>;
            own_uid = hex_encode (as_bytes (show_nat (unat (c_uid io))))
        in Some
          ((case m of
              External \<Rightarrow> ''AUTH EXTERNAL '' @ own_uid
            | Anonymous \<Rightarrow> ''AUTH ANONYMOUS '' @ hex_encode (as_bytes ''oxibus'')
            | DbusCookieSha1 \<Rightarrow> ''AUTH DBUS_COOKIE_SHA1 '' @ own_uid), c)
      else None)"

definition client_start :: "client_io \<Rightarrow> client_auth \<Rightarrow> (string \<times> client_auth) option" where
  "client_start io c = begin_mechanism io 0 c"

definition has_more_mechanisms :: "client_auth \<Rightarrow> bool" where
  "has_more_mechanisms c \<longleftrightarrow> tried c + 1 < length (c_mechanisms c)"

definition try_next_mechanism :: "client_io \<Rightarrow> client_auth \<Rightarrow> (string \<times> client_auth) option" where
  "try_next_mechanism io c =
     (if has_more_mechanisms c then begin_mechanism io (tried c + 1) c else None)"

definition respond_to_cookie_challenge ::
  "(u8 list \<Rightarrow> u8 list) \<Rightarrow> client_io \<Rightarrow> u8 list \<Rightarrow> client_auth \<Rightarrow> client_action \<times> client_auth" where
  "respond_to_cookie_challenge sha1 io data c =
     (let t = str_of_bytes data; parts = splitn3 t in
      if \<not> valid_utf8 t then (ProtocolError ''non-UTF8 cookie challenge'', c)
      else if length parts < 3 then (ProtocolError ''malformed cookie challenge'', c)
      else
        let ctx = parts ! 0; server_challenge = parts ! 2 in
        case parse_uint U32_BOUND (parts ! 1) of
          None \<Rightarrow> (ProtocolError ''bad cookie id'', c)
        | Some n \<Rightarrow>
            (case c_home_dir c of
               None \<Rightarrow> (ProtocolError ''no HOME for keyring'', c)
             | Some home \<Rightarrow>
                 (case c_load io ctx of
                    Inl e \<Rightarrow> (ProtocolError (c_error_text io e), c)
                  | Inr keys \<Rightarrow>
                      let cookie = word_of_nat n in
                      (case hex_key keys cookie of
                         None \<Rightarrow> (ProtocolError (''unknown cookie id '' @ show_nat n), c)
                       | Some cookie_hex \<Rightarrow>
                           let client_challenge = hex_encode (c_challenge io);
                               hash_hex = cookie_hash sha1 server_challenge client_challenge cookie_hex;
                               response = client_challenge @ '' '' @ hash_hex
                           in (CSend (''DATA '' @ hex_encode (as_bytes response)),
                               c\<lparr>c_state := WaitingForDataOrOk DbusCookieSha1 (Some cookie)\<rparr>)))))"

definition client_handle_data ::
  "(u8 list \<Rightarrow> u8 list) \<Rightarrow> client_io \<Rightarrow> string \<Rightarrow> client_auth \<Rightarrow> (client_action \<times> client_auth) option" where
  "client_handle_data sha1 io payload c =
     (case c_state c of
        WaitingForDataOrOk m pending \<Rightarrow>
          (case hex_decode payload of
             None \<Rightarrow> Some (ProtocolError ''bad hex in DATA'', c)
           | Some data \<Rightarrow>
               if m = DbusCookieSha1 then
                 if pending \<noteq> None then
                   Some (ProtocolError ''unexpected second DATA challenge for DBUS_COOKIE_SHA1'', c)
                 else Some (respond_to_cookie_challenge sha1 io data c)
               else map_option (\<lambda>(line, c). (CSend line, c)) (begin_mechanism io (tried c) c))
      | _ \<Rightarrow> Some (ProtocolError ''DATA received in wrong state'', c))"

definition client_feed_line ::
  "(u8 list \<Rightarrow> u8 list) \<Rightarrow> client_io \<Rightarrow> string \<Rightarrow> client_auth \<Rightarrow> (client_action \<times> client_auth) option" where
  "client_feed_line sha1 io line c =
     (let (command, rest) = (case split_once CHR '' '' line of Some p \<Rightarrow> p | None \<Rightarrow> (line, [])) in
      if command = ''OK'' then Some (CAuthenticated, c\<lparr>c_state := CDone\<rparr>)
      else if command = ''REJECTED'' then Some (MechanismRejected (split_whitespace rest), c)
      else if command = ''DATA'' then client_handle_data sha1 io (trim rest) c
      else if command = ''ERROR'' then Some (ProtocolError rest, c)
      else if command = ''AGREE_UNIX_FD'' then Some (CAuthenticated, c)
      else Some (ProtocolError (''unexpected server command: '' @ command), c))"

definition finish_lines :: "client_auth \<Rightarrow> (string list \<times> bool) \<times> client_auth" where
  "finish_lines c =
     (if want_unix_fd c then
        (([''NEGOTIATE_UNIX_FD'', ''BEGIN''], True), c\<lparr>c_state := WaitingForAgreeUnixFd\<rparr>)
      else (([''BEGIN''], False), c))"

section \<open>Lines that carry hexadecimal data\<close>

lemma trim_hex [simp]: "trim (hex_encode bs) = hex_encode bs" "trim_start (hex_encode bs) = hex_encode bs"
proof -
  have "trim (hex_encode bs) = hex_encode bs \<and> trim_start (hex_encode bs) = hex_encode bs"
  proof (cases "bs = []")
    case False
    then have "hex_encode bs \<noteq> []"
      by simp
    moreover from this have "graphic (hd (hex_encode bs))" "graphic (last (hex_encode bs))"
      by (auto intro!: hex_encode_graphic [of _ bs])
    ultimately show ?thesis
      using trim_graphic [of "hex_encode bs"] by simp
  qed (simp add: trim_def)
  then show "trim (hex_encode bs) = hex_encode bs" "trim_start (hex_encode bs) = hex_encode bs"
    by simp_all
qed

lemma split_command_data: "split_command (''DATA '' @ hex_encode bs) = (''DATA'', hex_encode bs)"
  using split_once_append [of "CHR '' ''" "''DATA''" "hex_encode bs"] by (simp add: split_command_def)

lemma parse_uid_own: "parse_uid (as_bytes (show_nat (unat (u :: u32)))) = Some u"
proof -
  have "unat u < U32_BOUND"
    using unsigned_less [of u, where ?'a = nat] by (simp add: U32_BOUND_def)
  then show ?thesis
    by (simp add: parse_uid_def is_ascii_valid_utf8 is_ascii_show_nat parse_uint_show_nat)
qed

lemma hex_encode_ascii: "is_ascii (hex_encode bs)"
  using hex_encode_graphic by (force simp: is_ascii_def list_all_iff graphic_def)

lemma auth_line:
  assumes "CHR '' '' \<notin> set m" "mechanism_parse m = Some mech" "mech \<in> set (allowed_mechanisms s)"
    "mech \<noteq> Anonymous" "s_state s = WaitingForAuth" "m \<noteq> []" "graphic (hd m)"
  shows "server_feed_line sha1 io (''AUTH '' @ m @ '' '' @ hex_encode bs) s =
     dispatch_mechanism_data sha1 io mech bs (s\<lparr>s_state := WaitingForData mech cookie_default\<rparr>)"
proof -
  have "trim_start (m @ '' '' @ hex_encode bs) = m @ '' '' @ hex_encode bs"
    using assms(6,7) trim_start_graphic [of "hd m" "tl m @ '' '' @ hex_encode bs"] by (cases m) auto
  then have "split_command (''AUTH '' @ m @ '' '' @ hex_encode bs) = (''AUTH'', m @ '' '' @ hex_encode bs)"
    using split_once_append [of "CHR '' ''" "''AUTH''" "m @ '' '' @ hex_encode bs"]
    by (simp add: split_command_def)
  then show ?thesis
    using assms split_once_append [of "CHR '' ''" m "hex_encode bs"]
    by (simp add: server_feed_line_def handle_waiting_for_auth_def hex_decode_encode)
qed

section \<open>Both sides together\<close>

lemma external_handshake:
  assumes "c_uid cio = u" "uid p = u" "External \<in> set ms"
  shows "\<exists>line c. client_start cio (client_new (External # others) fd home) = Some (line, c) \<and>
    (\<exists>s. server_feed_line sha1 io line (server_new p ms anon guid shome) = Some (Send [''OK '' @ guid], s) \<and>
         s_state s = WaitingForBegin (Some u) \<and>
         fst (the (client_feed_line sha1 cio (''OK '' @ guid) c)) = CAuthenticated)"
proof -
  have graphic: "graphic CHR ''E''"
    by (simp add: graphic_def)
  have "server_feed_line sha1 io (''AUTH '' @ ''EXTERNAL'' @ '' '' @ hex_encode (as_bytes (show_nat (unat u))))
      (server_new p ms anon guid shome) =
      dispatch_mechanism_data sha1 io External (as_bytes (show_nat (unat u)))
        ((server_new p ms anon guid shome)\<lparr>s_state := WaitingForData External cookie_default\<rparr>)"
    using assms graphic by (intro auth_line) (simp_all add: mechanism_parse_def server_new_def)
  moreover have "as_bytes (show_nat (unat u)) \<noteq> []"
    by (simp add: as_bytes_def)
  ultimately show ?thesis
    using assms split_once_append [of "CHR '' ''" "''OK''" guid]
    by (simp add: client_start_def begin_mechanism_def client_new_def dispatch_mechanism_data_def
        handle_external_def desired_uid_def parse_uid_own auth_ok_def server_new_def client_feed_line_def)
qed


text \<open>The steps of the cookie exchange.\<close>

lemma cookie_first_step:
  assumes "uid (peer s) = our_uid io" "home_dir s = Some home" "io_load io = Inr keys"
    "best_key (io_keyring io) keys = Some (Inr n, rest)" "data = as_bytes (show_nat (unat (uid (peer s))))"
  shows "cookie_sha1_first_response io data s =
     Some (Send [''DATA '' @ hex_encode (as_bytes (cookie_challenge n (hex_encode (io_challenge io))))],
       s\<lparr>s_state := WaitingForData DbusCookieSha1
         \<lparr>cookie_id = Some n, server_challenge_hex = Some (hex_encode (io_challenge io))\<rparr>\<rparr>)"
  using assms
  by (cases rest) (simp add: cookie_sha1_first_response_def desired_uid_def parse_uid_own Let_def)

lemma default_context_no_space: "CHR '' '' \<notin> set DEFAULT_CONTEXT"
  by (simp add: DEFAULT_CONTEXT_def)

lemma splitn3_challenge:
  "splitn3 (cookie_challenge n (hex_encode bs)) = [DEFAULT_CONTEXT, show_nat (unat n), hex_encode bs]"
  by (simp add: splitn3_def cookie_challenge_def split_once_append default_context_no_space
      show_nat_no_special)

lemma cookie_challenge_utf8: "valid_utf8 (cookie_challenge n (hex_encode bs))"
  by (intro is_ascii_valid_utf8)
    (simp add: cookie_challenge_def hex_encode_ascii is_ascii_show_nat DEFAULT_CONTEXT_def)

lemma cookie_client_step:
  assumes "c_home_dir c = Some home" "c_load cio DEFAULT_CONTEXT = Inr keys" "hex_key keys n = Some secret"
  shows "respond_to_cookie_challenge sha1 cio (as_bytes (cookie_challenge n (hex_encode bs))) c =
     (CSend (''DATA '' @ hex_encode (as_bytes (hex_encode (c_challenge cio) @ '' '' @
        cookie_hash sha1 (hex_encode bs) (hex_encode (c_challenge cio)) secret))),
      c\<lparr>c_state := WaitingForDataOrOk DbusCookieSha1 (Some n)\<rparr>)"
proof -
  have "unat n < U32_BOUND"
    using unsigned_less [of n, where ?'a = nat] by (simp add: U32_BOUND_def)
  then show ?thesis
    using assms
    by (simp add: respond_to_cookie_challenge_def splitn3_challenge cookie_challenge_utf8
        parse_uint_show_nat Let_def)
qed

lemma cookie_last_step:
  assumes "home_dir s = Some home" "io_load io = Inr keys" "hex_key keys n = Some secret"
    and "cookie_hash sha1 sc cc secret \<noteq> []" "cc = hex_encode cbs" "cbs \<noteq> []"
  shows "cookie_sha1_second_response sha1 io n \<lparr>cookie_id = Some n, server_challenge_hex = Some sc\<rparr>
       (as_bytes (cc @ '' '' @ cookie_hash sha1 sc cc secret)) s = auth_ok (Some (uid (peer s))) s"
proof -
  have "is_ascii (cc @ '' '' @ cookie_hash sha1 sc cc secret)"
    using hex_encode_ascii by (simp add: assms(5) cookie_hash_def)
  then have "valid_utf8 (cc @ '' '' @ cookie_hash sha1 sc cc secret)"
    by (rule is_ascii_valid_utf8)
  then show ?thesis
    using assms by (simp add: cookie_sha1_second_response_def split_once_append hex_encode_no_space Let_def
        del: as_bytes_simps)
qed

lemma cookie_handshake:
  assumes p: "uid p = u" "our_uid io1 = u" "c_uid cio1 = u"
    and allowed: "DbusCookieSha1 \<in> set ms"
    and key: "io_load io1 = Inr keys1" "best_key (io_keyring io1) keys1 = Some (Inr n, keys1', saved)"
      "c_load cio2 DEFAULT_CONTEXT = Inr keys2" "hex_key keys2 n = Some secret"
      "io_load io3 = Inr keys3" "hex_key keys3 n = Some secret"
    and challenge: "c_challenge cio2 \<noteq> []" and digest: "\<forall>bs. sha1 bs \<noteq> []"
    and c0: "c0 = client_new (DbusCookieSha1 # others) fd (Some chome)"
    and s0: "s0 = server_new p ms anon guid (Some shome)"
  shows "\<exists>l1 c1 l2 s1 l3 c2 s2.
    client_start cio1 c0 = Some (l1, c1) \<and>
    server_feed_line sha1 io1 l1 s0 = Some (Send [l2], s1) \<and>
    client_feed_line sha1 cio2 l2 c1 = Some (CSend l3, c2) \<and>
    server_feed_line sha1 io3 l3 s1 = Some (Send [''OK '' @ guid], s2) \<and>
    s_state s2 = WaitingForBegin (Some u)"
proof -
  define sc where "sc = hex_encode (io_challenge io1)"
  define cc where "cc = hex_encode (c_challenge cio2)"
  define ck where "ck = \<lparr>cookie_id = Some n, server_challenge_hex = Some sc\<rparr>"
  define l1 where "l1 = ''AUTH '' @ ''DBUS_COOKIE_SHA1'' @ '' '' @ hex_encode (as_bytes (show_nat (unat u)))"
  define c1 where "c1 = c0\<lparr>tried := 0, c_state := WaitingForDataOrOk DbusCookieSha1 None\<rparr>"
  define l2 where "l2 = ''DATA '' @ hex_encode (as_bytes (cookie_challenge n sc))"
  define s1 where "s1 = s0\<lparr>s_state := WaitingForData DbusCookieSha1 ck\<rparr>"
  define l3 where "l3 = ''DATA '' @ hex_encode (as_bytes (cc @ '' '' @ cookie_hash sha1 sc cc secret))"
  have start: "client_start cio1 c0 = Some (l1, c1)"
    using p by (simp add: client_start_def begin_mechanism_def c0 client_new_def l1_def c1_def)
  have "graphic CHR ''D''"
    by (simp add: graphic_def)
  then have "server_feed_line sha1 io1 l1 s0 =
      dispatch_mechanism_data sha1 io1 DbusCookieSha1 (as_bytes (show_nat (unat u)))
        (s0\<lparr>s_state := WaitingForData DbusCookieSha1 cookie_default\<rparr>)"
    unfolding l1_def using allowed
    by (intro auth_line) (simp_all add: mechanism_parse_def s0 server_new_def)
  also have "\<dots> = cookie_sha1_first_response io1 (as_bytes (show_nat (unat u)))
      (s0\<lparr>s_state := WaitingForData DbusCookieSha1 cookie_default\<rparr>)"
    by (simp add: dispatch_mechanism_data_def handle_cookie_sha1_def cookie_default_def)
  also have "\<dots> = Some (Send [l2], s1)"
    by (subst cookie_first_step) (use p key in \<open>simp_all add: s0 server_new_def l2_def s1_def sc_def ck_def\<close>)
  finally have server1: "server_feed_line sha1 io1 l1 s0 = Some (Send [l2], s1)" .
  have "client_feed_line sha1 cio2 l2 c1 = Some (respond_to_cookie_challenge sha1 cio2 (as_bytes (cookie_challenge n sc)) c1)"
    using split_once_append [of "CHR '' ''" "''DATA''" "hex_encode (as_bytes (cookie_challenge n sc))"]
    by (simp add: client_feed_line_def l2_def client_handle_data_def c1_def hex_decode_encode)
  also have "\<dots> = Some (CSend l3, c1\<lparr>c_state := WaitingForDataOrOk DbusCookieSha1 (Some n)\<rparr>)"
    unfolding sc_def l3_def cc_def
    by (subst cookie_client_step) (use key in \<open>simp_all add: c1_def c0 client_new_def\<close>)
  finally have client2: "client_feed_line sha1 cio2 l2 c1 =
      Some (CSend l3, c1\<lparr>c_state := WaitingForDataOrOk DbusCookieSha1 (Some n)\<rparr>)" .
  have "server_feed_line sha1 io3 l3 s1 =
      Some (cookie_sha1_second_response sha1 io3 n ck (as_bytes (cc @ '' '' @ cookie_hash sha1 sc cc secret)) s1)"
    using split_command_data
    by (simp add: server_feed_line_def l3_def s1_def handle_waiting_for_data_def hex_decode_encode
        dispatch_mechanism_data_def handle_cookie_sha1_def ck_def)
  also have "\<dots> = Some (auth_ok (Some u) s1)"
    unfolding ck_def
    by (subst cookie_last_step [where keys = keys3 and home = shome])
      (use p key challenge digest in \<open>simp_all add: s1_def s0 server_new_def cookie_hash_def cc_def\<close>)
  finally show ?thesis
    using start server1 client2 by (auto simp: auth_ok_def s1_def s0 server_new_def)
qed

end
