(* ===== verification/Auth_Properties.thy ===== *)
theory Auth_Properties
  imports Auth_Client "HOL-Library.Code_Target_Nat"
begin

text \<open>
  The properties of the authentication crate (\<open>oxibus-auth\<close>): who the server lets in, how many
  attempts a client has, the two complete exchanges, and the key ring file.  SHA-1 is an
  argument; the instances use the function that prefixes a zero byte.
\<close>

section \<open>The server\<close>

text \<open>C5. Whatever lines a client sends, the server lets it begin only as the user its socket
  belongs to (by a mechanism that is allowed and identifies the user), or without a user if
  the anonymous mechanism is both allowed and enabled.\<close>

theorem begin_only_authenticated:
  assumes "server_reaches sha1 (server_new p ms anon guid home) s"
    and "server_feed_line sha1 io line s = Some (Begin u, s')"
  shows "(u = Some (uid p) \<and> (External \<in> set ms \<or> DbusCookieSha1 \<in> set ms)) \<or>
    (u = None \<and> Anonymous \<in> set ms \<and> anon)"
proof -
  have inv: "auth_inv s \<and> same_config (server_new p ms anon guid home) s"
    using server_reaches_inv [OF assms(1)] by simp
  have "s_state s = WaitingForBegin u"
    by (rule begin_from_waiting [OF assms(2)])
  then show ?thesis
    using inv by (cases u) (auto simp: auth_inv_def same_config_def server_new_def mechanism_permitted_def)
qed

definition sample_io :: auth_io where
  "sample_io = \<lparr>our_uid = 7, io_load = Inr [\<lparr>key_id = 5, key_created = 990, key_secret = [1, 2]\<rparr>],
     io_keyring = \<lparr>time_find = 1000, time_refind = 1000, time_prune = 1000, time_create = 1000, lock_ok = True,
       key_file = NoFile, random_ids = [], random_secret = [], save_ok = True\<rparr>,
     io_challenge = [171, 205]\<rparr>"

definition sample_peer :: peer_credentials where
  "sample_peer = \<lparr>uid = 7, gid = 7, pid = 42\<rparr>"

definition zero_prefix :: "u8 list \<Rightarrow> u8 list" where
  "zero_prefix bs = 0 # bs"

abbreviation "sample_server \<equiv> server_new sample_peer [External, DbusCookieSha1] False ''ab'' (Some ''/root'')"

definition after_external :: server_auth where
  "after_external = sample_server\<lparr>s_state := WaitingForBegin (Some 7)\<rparr>"

lemma after_external:
  "server_feed_line zero_prefix sample_io ''AUTH EXTERNAL 37'' sample_server =
     Some (Send [''OK ab''], after_external)"
  "server_feed_line zero_prefix sample_io ''BEGIN'' after_external =
     Some (Begin (Some 7), after_external)"
  by code_simp+

lemma begin_only_authenticated_witness: "Some (7 :: u32) = Some (uid sample_peer)"
  using begin_only_authenticated [OF reach_line [OF reach_start after_external(1)] after_external(2)]
  by simp

text \<open>A client that is still connected has had fewer than six rejections: the sixth disconnects
  it, whichever mechanisms and states the attempts went through.\<close>

theorem attempts_are_bounded:
  assumes "server_alive sha1 (server_new p ms anon guid home) s"
  shows "failures s < 6"
  using server_alive_failures [OF assms] by (simp add: server_new_def MAX_FAILURES_def)

lemma attempts_are_bounded_witness: "failures after_external < 6"
  using attempts_are_bounded [OF alive_line [OF alive_start after_external(1)]] by simp

text \<open>The cookie mechanism lets a client in only if its line answers the server's own
  challenge with the hash over both challenges and the secret of the cookie it was given.\<close>

theorem cookie_needs_secret:
  assumes "s_state s = WaitingForData DbusCookieSha1 ck" "cookie_id ck = Some cookie"
    and "server_feed_line sha1 io line s = Some (act, s')" "s_state s' = WaitingForBegin u"
  shows "u = Some (uid (peer s)) \<and>
    (\<exists>data. hex_decode (snd (split_command line)) = Some data \<and>
       cookie_response_ok sha1 io cookie ck (str_of_bytes data))"
proof -
  obtain command rest where line: "split_command line = (command, rest)"
    by (cases "split_command line")
  then obtain data where "hex_decode rest = Some data"
    "cookie_sha1_second_response sha1 io cookie ck data s = (act, s')"
    using assms
    by (auto simp: server_feed_line_def handle_waiting_for_data_def dispatch_mechanism_data_def
        handle_cookie_sha1_def rejected_def reply_error_def Let_def split: if_splits option.splits)
  then show ?thesis
    using cookie_accepts assms(1,4) line by fastforce
qed

definition challenged_server :: server_auth where
  "challenged_server = sample_server\<lparr>s_state := WaitingForData DbusCookieSha1
     \<lparr>cookie_id = Some 5, server_challenge_hex = Some ''abcd''\<rparr>\<rparr>"

definition answer_line :: string where
  "answer_line = ''DATA '' @ hex_encode (as_bytes (''ee '' @ cookie_hash zero_prefix ''abcd'' ''ee'' ''0102''))"

lemma challenged_answer:
  "s_state challenged_server =
     WaitingForData DbusCookieSha1 \<lparr>cookie_id = Some 5, server_challenge_hex = Some ''abcd''\<rparr>"
  "server_feed_line zero_prefix sample_io answer_line challenged_server =
     Some (Send [''OK ab''], after_external)"
  "s_state after_external = WaitingForBegin (Some 7)" "uid (peer challenged_server) = 7"
  by code_simp+

lemma cookie_needs_secret_witness:
  "\<exists>data. hex_decode (snd (split_command answer_line)) = Some data \<and>
     cookie_response_ok zero_prefix sample_io 5
       \<lparr>cookie_id = Some 5, server_challenge_hex = Some ''abcd''\<rparr> (str_of_bytes data)"
  using cookie_needs_secret [OF challenged_answer(1) _ challenged_answer(2,3)] by simp

section \<open>Both sides\<close>

text \<open>The EXTERNAL exchange succeeds: the first line of a client of the peer's own user id is
  answered with OK, the server then waits for BEGIN as that user, and the client takes the
  answer as success.\<close>

theorem external_exchange_succeeds:
  assumes "c_uid cio = u" "uid p = u" "External \<in> set ms"
  shows "\<exists>line c. client_start cio (client_new (External # others) fd home) = Some (line, c) \<and>
    (\<exists>s. server_feed_line sha1 io line (server_new p ms anon guid shome) = Some (Send [''OK '' @ guid], s) \<and>
         s_state s = WaitingForBegin (Some u) \<and>
         fst (the (client_feed_line sha1 cio (''OK '' @ guid) c)) = CAuthenticated)"
  using assms by (rule external_handshake)

definition sample_client_io :: client_io where
  "sample_client_io = \<lparr>c_uid = 7, c_load = (\<lambda>_. Inr [\<lparr>key_id = 5, key_created = 990, key_secret = [1, 2]\<rparr>]),
     c_challenge = [9], c_error_text = (\<lambda>_. [])\<rparr>"

lemma external_exchange_succeeds_witness:
  "\<exists>line s. server_feed_line zero_prefix sample_io line (server_new sample_peer [External] False ''ab'' None) =
     Some (Send [''OK ab''], s) \<and> s_state s = WaitingForBegin (Some 7)"
proof -
  have "c_uid sample_client_io = 7" "uid sample_peer = 7"
    by (simp_all add: sample_client_io_def sample_peer_def)
  then show ?thesis
    using external_exchange_succeeds [of sample_client_io 7 sample_peer "[External]" "[]" True None
        zero_prefix sample_io False "''ab''" None] by auto
qed

text \<open>C27. The cookie exchange succeeds for a client of the server's own user that reads the same
  key ring: three lines of the client and two of the server lead to the state that waits for
  BEGIN as that user.\<close>

theorem cookie_exchange_succeeds:
  assumes "uid p = u" "our_uid io1 = u" "c_uid cio1 = u" "DbusCookieSha1 \<in> set ms"
    and "io_load io1 = Inr keys1" "best_key (io_keyring io1) keys1 = Some (Inr n, keys1', saved)"
      "c_load cio2 DEFAULT_CONTEXT = Inr keys2" "hex_key keys2 n = Some secret"
      "io_load io3 = Inr keys3" "hex_key keys3 n = Some secret"
    and "c_challenge cio2 \<noteq> []" "\<forall>bs. sha1 bs \<noteq> []"
    and "c0 = client_new (DbusCookieSha1 # others) fd (Some chome)"
    and "s0 = server_new p ms anon guid (Some shome)"
  shows "\<exists>l1 c1 l2 s1 l3 c2 s2.
    client_start cio1 c0 = Some (l1, c1) \<and>
    server_feed_line sha1 io1 l1 s0 = Some (Send [l2], s1) \<and>
    client_feed_line sha1 cio2 l2 c1 = Some (CSend l3, c2) \<and>
    server_feed_line sha1 io3 l3 s1 = Some (Send [''OK '' @ guid], s2) \<and>
    s_state s2 = WaitingForBegin (Some u)"
  using assms by (rule cookie_handshake)

lemma sample_keys:
  "best_key (io_keyring sample_io) [\<lparr>key_id = 5, key_created = 990, key_secret = [1, 2]\<rparr>] =
     Some (Inr 5, [\<lparr>key_id = 5, key_created = 990, key_secret = [1, 2]\<rparr>], None)"
  "hex_key [\<lparr>key_id = 5, key_created = 990, key_secret = [1, 2]\<rparr>] 5 = Some ''0102''"
  by code_simp+

lemma cookie_exchange_succeeds_witness:
  "\<exists>l1 l2 s1. server_feed_line zero_prefix sample_io l1 sample_server = Some (Send [l2], s1)"
  using cookie_exchange_succeeds [of sample_peer 7 sample_io sample_client_io "[External, DbusCookieSha1]"
      _ 5 _ None sample_client_io _ "''0102''" sample_io _ zero_prefix _ "[]" True "''/root''" sample_server
      False "''ab''" "''/root''", OF _ _ _ _ _ sample_keys(1) _ sample_keys(2) _ sample_keys(2)]
  by (auto simp: sample_io_def sample_client_io_def sample_peer_def zero_prefix_def)

section \<open>The key ring\<close>

text \<open>Loading the file that \<open>save\<close> writes gives the key ring back.\<close>

theorem keyring_round_trip:
  assumes "\<forall>k \<in> set keys. wf_key k"
  shows "parse_keyring (save_contents keys) = Inr keys"
  using assms by (rule parse_save)

lemma keyring_round_trip_witness:
  "parse_keyring (save_contents [\<lparr>key_id = 5, key_created = - 990, key_secret = [1, 255]\<rparr>]) =
     Inr [\<lparr>key_id = 5, key_created = - 990, key_secret = [1, 255]\<rparr>]"
  by (rule keyring_round_trip) (simp add: wf_key_def)

text \<open>The cookie that \<open>best_key\<close> hands out is in the key ring it leaves behind, and what is
  written to the file is that key ring; ids stay distinct.\<close>

theorem best_key_is_in_keyring:
  assumes "best_key io keys = Some (Inr n, keys', saved)"
  shows "n \<in> key_id ` set keys' \<and>
    (distinct (map key_id keys) \<and> key_file io = NoFile \<longrightarrow> distinct (map key_id keys')) \<and>
    (\<forall>s. saved = Some s \<longrightarrow> s = save_contents keys' \<and> n \<notin> key_id ` set (butlast keys'))"
  using assms by (rule best_key_present)

lemma best_key_is_in_keyring_witness:
  "(5 :: u32) \<in> key_id ` set [\<lparr>key_id = 5, key_created = 990, key_secret = [1, 2]\<rparr>]"
  using best_key_is_in_keyring [OF sample_keys(1)] by simp

end
