(* ===== verification/Policy_Xml.thy ===== *)
theory Policy_Xml
  imports Policy
begin

text \<open>
  The XML side of \<open>oxibus-daemon/src/policy.rs\<close>: the tokenizer and the reading of \<open>policy\<close>,
  \<open>allow\<close> and \<open>deny\<close> elements.  The tokenizer works on the characters of the file, so its
  input is the list of their code points (the white space of Rust is that of Unicode); what
  it puts into names and attribute values is encoded back into UTF-8.  The cursor is the list
  of characters that are left, every step of which consumes at least one, so the tokenizer
  stops on every input.
\<close>

type_synonym chars = "nat list"

definition code_points :: "string \<Rightarrow> chars" where
  "code_points s = map of_char s"

definition is_whitespace :: "nat \<Rightarrow> bool" where
  "is_whitespace c \<longleftrightarrow>
     9 \<le> c \<and> c \<le> 13 \<or> c = 32 \<or> c = 0x85 \<or> c = 0xA0 \<or> c = 0x1680 \<or> 0x2000 \<le> c \<and> c \<le> 0x200A \<or>
     c = 0x2028 \<or> c = 0x2029 \<or> c = 0x202F \<or> c = 0x205F \<or> c = 0x3000"

definition encode_utf8 :: "nat \<Rightarrow> string" where
  "encode_utf8 c =
     map char_of
       (if c < 0x80 then [c]
        else if c < 0x800 then [0xC0 + c div 0x40, 0x80 + c mod 0x40]
        else if c < 0x10000 then
          [0xE0 + c div 0x1000, 0x80 + c div 0x40 mod 0x40, 0x80 + c mod 0x40]
        else
          [0xF0 + c div 0x40000, 0x80 + c div 0x1000 mod 0x40, 0x80 + c div 0x40 mod 0x40,
           0x80 + c mod 0x40])"

definition string_of_chars :: "chars \<Rightarrow> string" where
  "string_of_chars cs = concat (map encode_utf8 cs)"

section \<open>Tokens\<close>

type_synonym attributes = "(string \<times> string) list"

datatype xml_token =
    StartTag string attributes
  | EndTag string
  | SelfClosingTag string attributes

definition LT :: nat where "LT = 60"
definition GT :: nat where "GT = 62"
definition SLASH :: nat where "SLASH = 47"
definition EQUALS :: nat where "EQUALS = 61"
definition BANG :: nat where "BANG = 33"
definition DASH :: nat where "DASH = 45"
definition DQUOTE :: nat where "DQUOTE = 34"
definition SQUOTE :: nat where "SQUOTE = 39"

lemmas xml_char_defs =
  LT_def GT_def SLASH_def EQUALS_def BANG_def DASH_def DQUOTE_def SQUOTE_def

definition skip_whitespace :: "chars \<Rightarrow> chars" where
  "skip_whitespace cs = dropWhile is_whitespace cs"

text \<open>\<open>for (_, ch) in chars.by_ref()\<close> up to and with the first \<open>c\<close>.\<close>

fun take_past :: "nat \<Rightarrow> chars \<Rightarrow> chars \<times> chars" where
  "take_past c [] = ([], [])"
| "take_past c (x # cs) =
     (if x = c then ([], cs) else (case take_past c cs of (v, r) \<Rightarrow> (x # v, r)))"

fun skip_comment :: "chars \<Rightarrow> chars" where
  "skip_comment [] = []"
| "skip_comment (c # cs) =
     (if c = DASH \<and> prefix [DASH, DASH, GT] (c # cs) then drop 2 cs else skip_comment cs)"

definition take_name :: "(nat \<Rightarrow> bool) \<Rightarrow> chars \<Rightarrow> chars \<times> chars" where
  "take_name stop cs = (takeWhile (\<lambda>c. \<not> stop c) cs, dropWhile (\<lambda>c. \<not> stop c) cs)"

definition tag_stop :: "nat \<Rightarrow> bool" where
  "tag_stop c \<longleftrightarrow> is_whitespace c \<or> c = GT \<or> c = SLASH"

definition attr_stop :: "nat \<Rightarrow> bool" where
  "attr_stop c \<longleftrightarrow> c = EQUALS \<or> is_whitespace c \<or> c = GT \<or> c = SLASH"

text \<open>The opening quote of a value; a value without one is read up to a double quote.\<close>

definition take_quote :: "chars \<Rightarrow> nat \<times> chars" where
  "take_quote cs =
     (case cs of
        q # r \<Rightarrow> if q = DQUOTE \<or> q = SQUOTE then (q, r) else (DQUOTE, cs)
      | [] \<Rightarrow> (DQUOTE, []))"

lemma take_past_length: "length (snd (take_past c cs)) \<le> length cs"
  by (induction c cs rule: take_past.induct) (auto split: prod.splits)

lemma skip_whitespace_length: "length (skip_whitespace cs) \<le> length cs"
  by (simp add: skip_whitespace_def length_dropWhile_le)

lemma skip_whitespace_Nil [simp]: "skip_whitespace [] = []"
  by (simp add: skip_whitespace_def)

lemma take_quote_length: "length (snd (take_quote cs)) \<le> length cs"
  by (auto simp: take_quote_def split: list.splits)

lemma skip_comment_length: "length (skip_comment cs) \<le> length cs"
  by (induction cs rule: skip_comment.induct) auto

lemma take_name_length: "length (snd (take_name stop cs)) \<le> length cs"
  by (simp add: take_name_def length_dropWhile_le)

lemma take_name_progress:
  "cs = c # r \<Longrightarrow> \<not> stop c \<Longrightarrow> length (snd (take_name stop cs)) < length cs"
  by (simp add: take_name_def length_dropWhile_le le_imp_less_Suc)

text \<open>
  The attribute loop.  A name that is not followed by an equals sign is dropped; the name is
  empty only in front of an equals sign, which is consumed.
\<close>

function parse_attrs :: "chars \<Rightarrow> attributes \<Rightarrow> attributes \<times> chars" where
  "parse_attrs cs0 attrs =
     (let cs = skip_whitespace cs0 in
      case cs of
        [] \<Rightarrow> (attrs, [])
      | c # _ \<Rightarrow>
          if c = GT \<or> c = SLASH then (attrs, cs)
          else
            let (attr_name, r) = take_name attr_stop cs;
                r = skip_whitespace r in
            case r of
              [] \<Rightarrow> parse_attrs [] attrs
            | e # r' \<Rightarrow>
                if e \<noteq> EQUALS then parse_attrs (e # r') attrs
                else
                  let (quote, r) = take_quote (skip_whitespace r');
                      (attr_val, r) = take_past quote r
                  in parse_attrs r
                       (if attr_name \<noteq> [] then
                          AList.update (string_of_chars attr_name) (string_of_chars attr_val) attrs
                        else attrs))"
  by pat_completeness auto


lemma skip_whitespace_Cons: "skip_whitespace cs = c # r \<Longrightarrow> \<not> is_whitespace c"
  by (auto simp: skip_whitespace_def dropWhile_eq_Cons_conv)

lemma attr_progress:
  assumes "skip_whitespace cs0 = c # cs" "\<not> (c = GT \<or> c = SLASH)"
    and "take_name attr_stop (c # cs) = (attr_name, r0)" "skip_whitespace r0 = e # r"
  shows "length r < length cs0" "e \<noteq> EQUALS \<Longrightarrow> Suc (length r) < length cs0"
proof -
  have le: "length r0 \<le> length (c # cs)" "length (c # cs) \<le> length cs0" "Suc (length r) \<le> length r0"
    using take_name_length [of attr_stop "c # cs"] skip_whitespace_length [of cs0]
      skip_whitespace_length [of r0] assms by simp_all
  then show "length r < length cs0"
    by simp
  assume e: "e \<noteq> EQUALS"
  have "\<not> attr_stop c"
  proof
    assume "attr_stop c"
    then have "r0 = c # cs" "c = EQUALS"
      using assms(2,3) skip_whitespace_Cons [OF assms(1)] by (auto simp: take_name_def attr_stop_def)
    then show False
      using assms(4) e skip_whitespace_Cons [OF assms(1)]
      by (simp add: skip_whitespace_def)
  qed
  then have "length r0 < length (c # cs)"
    using take_name_progress [of "c # cs" c cs attr_stop] assms(3) by simp
  with le show "Suc (length r) < length cs0"
    by simp
qed

termination parse_attrs
proof (relation "measure (\<lambda>(cs, attrs). length cs)", goal_cases)
  case (2 cs0 attrs x c cs xa attr_name r0 xc)
  then show ?case
    using skip_whitespace_length [of cs0] by auto
next
  case (3 cs0 attrs x c cs xa attr_name r0 xc e r)
  then have "Suc (length r) < length cs0"
    using attr_progress(2) [of cs0 c cs attr_name r0 e r] by metis
  then show ?case
    by simp
next
  case (4 cs0 attrs x c cs xa attr_name r0 xc e r q quote r1 v attr_val r2)
  have "length r1 \<le> length r" "length r2 \<le> length r1"
    using 4 take_quote_length [of "skip_whitespace r"] skip_whitespace_length [of r]
      take_past_length [of quote r1] by (metis le_trans snd_conv)+
  then show ?case
    using 4 attr_progress(1) [of cs0 c cs attr_name r0 e r] by auto
qed simp

declare parse_attrs.simps [simp del]

definition read_tag :: "chars \<Rightarrow> xml_token \<times> chars" where
  "read_tag cs0 =
     (let (is_end, cs) = (case cs0 of c # r \<Rightarrow> if c = SLASH then (True, r) else (False, cs0)
                                    | [] \<Rightarrow> (False, []));
          (tag_name, cs) = take_name tag_stop cs;
          (attrs, cs) = (if \<not> is_end then parse_attrs cs [] else ([], cs));
          (is_self_closing, cs) = (case cs of c # r \<Rightarrow> if c = SLASH then (True, r) else (False, cs)
                                            | [] \<Rightarrow> (False, []));
          cs = (case cs of c # r \<Rightarrow> if c = GT then r else cs | [] \<Rightarrow> []);
          n = string_of_chars tag_name
      in (if is_end then EndTag n else if is_self_closing then SelfClosingTag n attrs
          else StartTag n attrs, cs))"

text \<open>
  What follows an opening angle bracket: markup that is skipped, or a tag.  After an
  exclamation mark and a single dash the text is read as a tag.
\<close>

definition read_markup :: "chars \<Rightarrow> xml_token option \<times> chars" where
  "read_markup cs =
     (case cs of
        b # r \<Rightarrow>
          if b \<noteq> BANG then (case read_tag cs of (t, r) \<Rightarrow> (Some t, r))
          else
            (case r of
               d # r2 \<Rightarrow>
                 if d \<noteq> DASH then (None, snd (take_past GT r))
                 else
                   (case r2 of
                      d2 # r3 \<Rightarrow>
                        if d2 = DASH then (None, skip_comment r3)
                        else (case read_tag r2 of (t, r) \<Rightarrow> (Some t, r))
                    | [] \<Rightarrow> (case read_tag [] of (t, r) \<Rightarrow> (Some t, r)))
             | [] \<Rightarrow> (None, []))
      | [] \<Rightarrow> (case read_tag [] of (t, r) \<Rightarrow> (Some t, r)))"

lemma parse_attrs_length: "length (snd (parse_attrs cs attrs)) \<le> length cs"
proof (induction cs attrs rule: parse_attrs.induct)
  case (1 cs0 attrs)
  have sw: "length (skip_whitespace cs) \<le> length cs" for cs
    by (rule skip_whitespace_length)
  show ?case
  proof (cases "skip_whitespace cs0")
    case Nil
    then show ?thesis by (simp add: parse_attrs.simps [of cs0])
  next
    case (Cons c cs)
    show ?thesis
    proof (cases "c = GT \<or> c = SLASH")
      case True
      then show ?thesis
        using Cons sw [of cs0] by (auto simp: parse_attrs.simps [of cs0])
    next
      case False
      obtain attr_name r0 where n: "take_name attr_stop (c # cs) = (attr_name, r0)"
        by (cases "take_name attr_stop (c # cs)")
      show ?thesis
      proof (cases "skip_whitespace r0")
        case Nil
        then show ?thesis
          using Cons False n by (simp add: parse_attrs.simps [of cs0] parse_attrs.simps [of "[]"])
      next
        case r: (Cons e r)
        note progress = attr_progress [OF Cons False n r]
        show ?thesis
        proof (cases "e = EQUALS")
          case True
          obtain quote r1 where q: "take_quote (skip_whitespace r) = (quote, r1)"
            by (cases "take_quote (skip_whitespace r)")
          obtain attr_val r2 where v: "take_past quote r1 = (attr_val, r2)"
            by (cases "take_past quote r1")
          have "length r2 \<le> length r"
            using take_quote_length [of "skip_whitespace r"] sw [of r] take_past_length [of quote r1] q v
            by simp
          moreover have "length (snd (parse_attrs cs0 attrs)) \<le> length r2"
            using "1.IH"(3) [OF refl Cons False refl _ refl _ _ refl _ refl] Cons False n r True q v
            by (simp add: parse_attrs.simps [of cs0])
          ultimately show ?thesis
            using progress(1) by simp
        next
          case ne: False
          then show ?thesis
            using "1.IH"(2) [OF refl Cons False refl _ refl r ne] Cons n r False progress(2)
            by (simp add: parse_attrs.simps [of cs0])
        qed
      qed
    qed
  qed
qed


lemma slash_length:
  "length (snd (case cs of c # r \<Rightarrow> if c = SLASH then (True, r) else (False, cs) | [] \<Rightarrow> (False, [])))
     \<le> length cs"
  by (auto split: list.splits)

lemma read_tag_length: "length (snd (read_tag cs)) \<le> length cs"
proof -
  obtain is_end c1 where c1: "(case cs of c # r \<Rightarrow> if c = SLASH then (True, r) else (False, cs)
      | [] \<Rightarrow> (False, [])) = (is_end, c1)" "length c1 \<le> length cs"
    using slash_length [of cs] by (metis prod.collapse)
  obtain n c2 where c2: "take_name tag_stop c1 = (n, c2)" "length c2 \<le> length c1"
    using take_name_length [of tag_stop c1] by (cases "take_name tag_stop c1") auto
  obtain attrs c3 where c3: "(if \<not> is_end then parse_attrs c2 [] else ([], c2)) = (attrs, c3)"
    "length c3 \<le> length c2"
    using parse_attrs_length [of c2 "[]"] by (cases is_end; cases "parse_attrs c2 []") simp_all
  obtain sc c4 where c4: "(case c3 of c # r \<Rightarrow> if c = SLASH then (True, r) else (False, c3)
      | [] \<Rightarrow> (False, [])) = (sc, c4)" "length c4 \<le> length c3"
    using slash_length [of c3] by (metis prod.collapse)
  have "length (case c4 of c # r \<Rightarrow> if c = GT then r else c4 | [] \<Rightarrow> []) \<le> length c4"
    by (auto split: list.splits)
  then show ?thesis
    using c1(2) c2(2) c3(2) c4(2) by (simp add: read_tag_def c1(1) c2(1) c3(1) c4(1) Let_def)
qed

lemma read_markup_length: "length (snd (read_markup cs)) \<le> length cs"
proof -
  have tag: "length (snd (case read_tag r of (t, r') \<Rightarrow> (Some t, r'))) \<le> length r" for r
    using read_tag_length [of r] by (simp add: case_prod_unfold)
  show ?thesis
    unfolding read_markup_def
    using tag [of "[]"] tag [of cs] tag [of "tl (tl cs)"] tag [of "tl cs"]
      take_past_length [of GT "tl cs"] skip_comment_length [of "tl (tl (tl cs))"]
    by (auto split: list.splits simp del: length_0_conv)
qed

function tokenize_xml :: "chars \<Rightarrow> xml_token list" where
  "tokenize_xml [] = []"
| "tokenize_xml (c # cs) =
     (if c \<noteq> LT then tokenize_xml cs
      else case read_markup cs of
             (t, r) \<Rightarrow> (case t of Some t \<Rightarrow> [t] | None \<Rightarrow> []) @ tokenize_xml r)"
  by pat_completeness auto

lemma read_markup_smaller: "(t, r) = read_markup cs \<Longrightarrow> length r < Suc (length cs)"
  using read_markup_length [of cs] by (metis less_Suc_eq_le snd_conv)

termination tokenize_xml
  by (relation "measure length") (auto dest: read_markup_smaller)

section \<open>Rules\<close>

definition parse_context :: "attributes \<Rightarrow> policy_context \<times> string option \<times> string option" where
  "parse_context attrs =
     (case map_of attrs ''context'' of
        Some c \<Rightarrow> (if c = ''mandatory'' then CtxMandatory else CtxDefault, None, None)
      | None \<Rightarrow>
          (case map_of attrs ''user'' of
             Some u \<Rightarrow> (CtxUser, Some u, None)
           | None \<Rightarrow>
               (case map_of attrs ''group'' of
                  Some g \<Rightarrow> (CtxGroup, None, Some g)
                | None \<Rightarrow> (CtxDefault, None, None))))"

definition or_else :: "'a option \<Rightarrow> 'a option \<Rightarrow> 'a option" where
  "or_else x y = (case x of Some a \<Rightarrow> Some a | None \<Rightarrow> y)"

definition with_star :: "string \<Rightarrow> string" where
  "with_star p = p @ ''*''"

text \<open>The name pattern of an \<open>own\<close> or \<open>own_prefix\<close> attribute.\<close>

definition own_pattern :: "attributes \<Rightarrow> string option" where
  "own_pattern attrs =
     or_else (map_of attrs ''own'') (map_option with_star (map_of attrs ''own_prefix''))"

text \<open>The pattern of the \<open>send\<close> attributes, and with another prefix of the \<open>recv\<close> ones.\<close>

definition message_pattern ::
  "string \<Rightarrow> string \<Rightarrow> attributes \<Rightarrow> send_receive_pattern option" where
  "message_pattern pre party attrs =
     (let get = (\<lambda>a. map_of attrs (pre @ a));
          dest = get party; dest_prefix = get (party @ ''_prefix'');
          interface = get ''interface''; member = get ''member''; path = get ''path''; ty = get ''type''
      in if dest \<noteq> None \<or> dest_prefix \<noteq> None \<or> interface \<noteq> None \<or> member \<noteq> None \<or>
            path \<noteq> None \<or> ty \<noteq> None then
           Some (PFull \<lparr>p_destination = or_else dest (map_option with_star dest_prefix),
                        p_interface = interface, p_member = member, p_path = path, p_type = ty\<rparr>)
         else None)"

definition opt_list :: "'a option \<Rightarrow> 'a list" where
  "opt_list x = (case x of Some a \<Rightarrow> [a] | None \<Rightarrow> [])"

definition rule_of_element ::
  "policy_context \<times> string option \<times> string option \<Rightarrow> bool \<Rightarrow> attributes \<Rightarrow> policy_rule option" where
  "rule_of_element ctx is_allow attrs =
     (case ctx of (c, usr, grp) \<Rightarrow>
       let own = own_pattern attrs;
           send = message_pattern ''send_'' ''destination'' attrs;
           recv = message_pattern ''recv_'' ''sender'' attrs;
           has_applied = (own \<noteq> None \<or> send \<noteq> None \<or> recv \<noteq> None)
       in if has_applied then
            Some \<lparr>pr_context = c, pr_user = usr, pr_group = grp,
                  allow_own = opt_list (if is_allow then own else None),
                  deny_own = opt_list (if is_allow then None else own),
                  allow_send = opt_list (if is_allow then send else None),
                  deny_send = opt_list (if is_allow then None else send),
                  allow_receive = opt_list (if is_allow then recv else None),
                  deny_receive = opt_list (if is_allow then None else recv)\<rparr>
          else None)"

type_synonym xml_context = "(policy_context \<times> string option \<times> string option) option"

definition add_element :: "xml_context \<Rightarrow> string \<Rightarrow> attributes \<Rightarrow> policy \<Rightarrow> policy" where
  "add_element current n attrs rules =
     (if n = ''allow'' \<or> n = ''deny'' then
        (case current of
           Some ctx \<Rightarrow> rules @ opt_list (rule_of_element ctx (n = ''allow'') attrs)
         | None \<Rightarrow> rules)
      else rules)"

fun xml_step :: "xml_context \<times> policy \<Rightarrow> xml_token \<Rightarrow> xml_context \<times> policy" where
  "xml_step (current, rules) (StartTag n attrs) =
     (if n = ''policy'' then (Some (parse_context attrs), rules)
      else (current, add_element current n attrs rules))"
| "xml_step (current, rules) (EndTag n) = (if n = ''policy'' then None else current, rules)"
| "xml_step (current, rules) (SelfClosingTag n attrs) = (current, add_element current n attrs rules)"

definition parse_xml_policy :: "chars \<Rightarrow> policy" where
  "parse_xml_policy cs = snd (foldl xml_step (None, []) (tokenize_xml cs))"

end
