(* ===== verification/Policy_Precedence.thy ===== *)
theory Policy_Precedence
  imports Policy
begin

text \<open>
  The meaning of the rules' order: whom a rule concerns and which rule has the last word, stated
  by the places of the rules in the policy as it was loaded, and the proof that the vectors
  that the code fills and chains give the same verdict.
\<close>

section \<open>Who is concerned, and who speaks last\<close>

text \<open>Whom a rule is for, and the place of its context in the order of precedence.\<close>

fun concerns :: "policy_identity \<Rightarrow> policy_rule \<Rightarrow> bool" where
  "concerns ident r \<longleftrightarrow>
     pr_context r = CtxDefault \<or> pr_context r = CtxMandatory \<or>
     pr_context r = CtxUser \<and>
       (pr_user r = id_user_name ident \<or> pr_user r = Some (show_nat (unat (id_uid ident)))) \<or>
     pr_context r = CtxGroup \<and> (\<exists>g \<in> set (id_group_names ident). pr_group r = Some g)"

fun precedence :: "policy_context \<Rightarrow> nat" where
  "precedence CtxDefault = 0"
| "precedence CtxUser = 1"
| "precedence CtxGroup = 2"
| "precedence CtxMandatory = 3"

section \<open>Verdicts by place\<close>

lemma verdict_start:
  "verdict a d v rs \<longleftrightarrow> verdict a d False rs \<or> v \<and> (\<forall>r \<in> set rs. \<not> d r)"
proof (induction rs arbitrary: v)
  case (Cons r rs)
  show ?case
    using Cons [of "\<not> d r \<and> (a r \<or> v)"] Cons [of "\<not> d r \<and> a r"] by (auto simp: Let_def)
qed simp

lemma verdict_behind:
  "verdict a d False (rs @ rs') \<longleftrightarrow>
     verdict a d False rs' \<or> verdict a d False rs \<and> (\<forall>r \<in> set rs'. \<not> d r)"
  unfolding verdict_append by (rule verdict_start)

text \<open>The places of the rules that are selected.\<close>

definition places :: "('r \<Rightarrow> bool) \<Rightarrow> 'r list \<Rightarrow> nat set" where
  "places Q rs = {j. j < length rs \<and> Q (rs ! j)}"

lemma filtered_all: "(\<forall>x \<in> set (filter Q rs). \<not> d x) \<longleftrightarrow> (\<forall>j \<in> places Q rs. \<not> d (rs ! j))"
  using all_set_conv_all_nth [of rs "\<lambda>x. Q x \<longrightarrow> \<not> d x"] by (auto simp: places_def)

text \<open>The verdict of the rules that are selected, by their places in the whole list.\<close>

lemma verdict_filter:
  "verdict a d False (filter Q rs) \<longleftrightarrow>
     (\<exists>i \<in> places Q rs. a (rs ! i) \<and> (\<forall>j \<in> places Q rs. i \<le> j \<longrightarrow> \<not> d (rs ! j)))"
proof (induction rs)
  case (Cons r rs)
  have "verdict a d False (filter Q (r # rs)) \<longleftrightarrow>
      verdict a d False (filter Q rs) \<or> Q r \<and> a r \<and> \<not> d r \<and> (\<forall>j \<in> places Q rs. \<not> d (rs ! j))"
    using verdict_start [of a d "a r \<and> \<not> d r" "filter Q rs"] filtered_all [of Q rs d]
    by (auto simp: Let_def)
  then show ?case
    unfolding Cons by (auto simp: places_def Ex_less_Suc2 All_less_Suc2 Bex_def Ball_def imp_conjL)
qed (simp add: places_def)

text \<open>The places that have the last word over the place \<open>i\<close>, among those with the first \<open>n\<close> ranks.\<close>

definition from_on :: "('r \<Rightarrow> nat) \<Rightarrow> ('r \<Rightarrow> bool) \<Rightarrow> 'r list \<Rightarrow> nat \<Rightarrow> nat \<Rightarrow> nat set" where
  "from_on rank P rs n i =
     {j. j < length rs \<and> rank (rs ! j) < n \<and> P (rs ! j) \<and>
        (rank (rs ! i) < rank (rs ! j) \<or> rank (rs ! i) = rank (rs ! j) \<and> i \<le> j)}"

lemma from_on_Suc:
  "rank (rs ! i) < n \<Longrightarrow> from_on rank P rs (Suc n) i = from_on rank P rs n i \<union> places (\<lambda>r. rank r = n \<and> P r) rs"
  "rank (rs ! i) = n \<Longrightarrow> from_on rank P rs (Suc n) i = {j \<in> places (\<lambda>r. rank r = n \<and> P r) rs. i \<le> j}"
  by (auto simp: from_on_def places_def)

definition speaks_last ::
  "('r \<Rightarrow> bool) \<Rightarrow> ('r \<Rightarrow> bool) \<Rightarrow> ('r \<Rightarrow> nat) \<Rightarrow> ('r \<Rightarrow> bool) \<Rightarrow> 'r list \<Rightarrow> nat \<Rightarrow> nat \<Rightarrow> bool" where
  "speaks_last a d rank P rs n i \<longleftrightarrow>
     i < length rs \<and> rank (rs ! i) < n \<and> P (rs ! i) \<and> a (rs ! i) \<and>
     (\<forall>j \<in> from_on rank P rs n i. \<not> d (rs ! j))"

lemma speaks_last_Suc:
  "(\<exists>i. speaks_last a d rank P rs (Suc n) i) \<longleftrightarrow>
     (\<exists>i \<in> places (\<lambda>r. rank r = n \<and> P r) rs. a (rs ! i) \<and> (\<forall>j \<in> places (\<lambda>r. rank r = n \<and> P r) rs. i \<le> j \<longrightarrow> \<not> d (rs ! j))) \<or>
     (\<exists>i. speaks_last a d rank P rs n i) \<and> (\<forall>j \<in> places (\<lambda>r. rank r = n \<and> P r) rs. \<not> d (rs ! j))"
proof -
  have "speaks_last a d rank P rs (Suc n) i \<longleftrightarrow>
      i \<in> places (\<lambda>r. rank r = n \<and> P r) rs \<and> a (rs ! i) \<and> (\<forall>j \<in> places (\<lambda>r. rank r = n \<and> P r) rs. i \<le> j \<longrightarrow> \<not> d (rs ! j)) \<or>
      speaks_last a d rank P rs n i \<and> (\<forall>j \<in> places (\<lambda>r. rank r = n \<and> P r) rs. \<not> d (rs ! j))" for i
  proof (cases "rank (rs ! i)" n rule: linorder_cases)
    case less
    then show ?thesis
      by (auto simp: speaks_last_def from_on_Suc places_def)
  next
    case equal
    then show ?thesis
      by (auto simp: speaks_last_def from_on_Suc) (auto simp: places_def)
  next
    case greater
    then show ?thesis
      by (auto simp: speaks_last_def places_def)
  qed
  then show ?thesis by blast
qed

text \<open>Selections of growing rank one behind the other: a higher rank speaks after a lower one.\<close>

lemma verdict_ranks:
  "verdict a d False (concat (map (\<lambda>k. filter (\<lambda>r. rank r = k \<and> P r) rs) [0..<n])) \<longleftrightarrow>
     (\<exists>i. speaks_last a d rank P rs n i)"
proof (induction n)
  case (Suc n)
  let ?g = "filter (\<lambda>r. rank r = n \<and> P r) rs"
  have "concat (map (\<lambda>k. filter (\<lambda>r. rank r = k \<and> P r) rs) [0..<Suc n]) =
      concat (map (\<lambda>k. filter (\<lambda>r. rank r = k \<and> P r) rs) [0..<n]) @ ?g"
    by simp
  then show ?case
    by (simp only: verdict_behind Suc verdict_filter filtered_all speaks_last_Suc)
qed (simp add: speaks_last_def)

lemma applicable_ranks:
  "applicable ident rules =
     concat (map (\<lambda>k. filter (\<lambda>r. precedence (pr_context r) = k \<and> concerns ident r) rules) [0..<4])"
proof -
  have group: "rules_in c ident rules =
      filter (\<lambda>r. precedence (pr_context r) = precedence c \<and> concerns ident r) rules" for c
    unfolding rules_in_def
  proof (rule filter_cong [OF refl])
    fix r :: policy_rule
    have "pr_context r = c \<longleftrightarrow> precedence (pr_context r) = precedence c"
      by (cases "pr_context r"; cases c) simp_all
    moreover have "rule_applies ident r \<longleftrightarrow> concerns ident r"
      by (cases "pr_context r") (auto simp: rule_applies_def split: option.split)
    ultimately show "pr_context r = c \<and> rule_applies ident r \<longleftrightarrow>
        precedence (pr_context r) = precedence c \<and> concerns ident r"
      by simp
  qed
  have "[0..<4] = [0, 1, 2, Suc 2]"
    by (simp add: upt_rec)
  then show ?thesis
    by (simp add: applicable_def group)
qed

end
