(* ===== verification/Match_Language.thy ===== *)
theory Match_Language
  imports Match_Rules
begin

text \<open>
  The match language: the parts a rule is written with, their text, and what each of them says of
  a message. The parts' meaning is stated on the message itself, without the helpers of the code.
\<close>

section \<open>Parts of a rule\<close>

datatype match_part =
    OfType message_type
  | FromPeer string
  | OnInterface string
  | NamedMember string
  | AtPath string
  | BelowPath string
  | AddressedTo string
  | ArgIs nat string
  | ArgPath nat string
  | Arg0Below string
  | Eavesdrop bool

fun type_text :: "message_type \<Rightarrow> string" where
  "type_text MethodCall = ''method_call''"
| "type_text MethodReturn = ''method_return''"
| "type_text ErrorReply = ''error''"
| "type_text Signal = ''signal''"

fun part_text :: "match_part \<Rightarrow> string \<times> string" where
  "part_text (OfType t) = (''type'', type_text t)"
| "part_text (FromPeer s) = (''sender'', s)"
| "part_text (OnInterface s) = (''interface'', s)"
| "part_text (NamedMember s) = (''member'', s)"
| "part_text (AtPath s) = (''path'', s)"
| "part_text (BelowPath s) = (''path_namespace'', s)"
| "part_text (AddressedTo s) = (''destination'', s)"
| "part_text (ArgIs n s) = (''arg'' @ show_nat n, s)"
| "part_text (ArgPath n s) = (''arg'' @ show_nat n @ ''path'', s)"
| "part_text (Arg0Below s) = (''arg0namespace'', s)"
| "part_text (Eavesdrop b) = (''eavesdrop'', if b then ''true'' else ''false'')"

fun index_ok :: "match_part \<Rightarrow> bool" where
  "index_ok (ArgIs n s) \<longleftrightarrow> n \<le> 63"
| "index_ok (ArgPath n s) \<longleftrightarrow> n \<le> 63"
| "index_ok _ \<longleftrightarrow> True"

section \<open>What the parts say\<close>

text \<open>The text of an argument: a string, path or signature, under any number of variants.\<close>

inductive has_text :: "dvalue \<Rightarrow> string \<Rightarrow> bool" where
  text_string: "has_text (VString s) s"
| text_path: "has_text (VObjectPath (ObjectPath s)) s"
| text_signature: "has_text (VSignature (Signature s)) s"
| text_variant: "has_text v s \<Longrightarrow> has_text (VVariant v) s"

definition argument :: "message \<Rightarrow> nat \<Rightarrow> string \<Rightarrow> bool" where
  "argument msg n s \<longleftrightarrow> n < length (body msg) \<and> has_text (body msg ! n) s"

fun part_holds :: "message \<Rightarrow> (string \<Rightarrow> string option) \<Rightarrow> match_part \<Rightarrow> bool" where
  "part_holds msg owner (OfType t) \<longleftrightarrow> m_type msg = t"
| "part_holds msg owner (FromPeer s) \<longleftrightarrow>
     (\<exists>a. (m_sender msg = Some a \<or> m_sender msg = None \<and> a = []) \<and>
        (a = s \<or> (\<nexists>rest. s = '':'' @ rest) \<and> owner s = Some a))"
| "part_holds msg owner (OnInterface s) \<longleftrightarrow> m_interface msg = Some s"
| "part_holds msg owner (NamedMember s) \<longleftrightarrow> m_member msg = Some s"
| "part_holds msg owner (AtPath s) \<longleftrightarrow> m_path msg = Some (ObjectPath s)"
| "part_holds msg owner (BelowPath ns) \<longleftrightarrow>
     (\<exists>p. m_path msg = Some (ObjectPath p) \<and> (ns = ''/'' \<or> p = ns \<or> (\<exists>rest. p = ns @ ''/'' @ rest)))"
| "part_holds msg owner (AddressedTo s) \<longleftrightarrow> m_destination msg = Some s"
| "part_holds msg owner (ArgIs n s) \<longleftrightarrow> argument msg n s"
| "part_holds msg owner (ArgPath n p) \<longleftrightarrow>
     (\<exists>v. argument msg n v \<and>
        (v = p \<or> v = ''/'' \<or> p = ''/'' \<or> (\<exists>rest. v = p @ ''/'' @ rest) \<or> (\<exists>rest. p = v @ ''/'' @ rest)))"
| "part_holds msg owner (Arg0Below ns) \<longleftrightarrow>
     (\<exists>v. argument msg 0 v \<and> (v = ns \<or> (\<exists>rest. v = ns @ ''.'' @ rest)))"
| "part_holds msg owner (Eavesdrop b) \<longleftrightarrow> True"

section \<open>The helpers of the code\<close>

lemma has_text_parts: "has_text (VObjectPath p) (path_str p)" "has_text (VSignature g) (sig_str g)"
  using text_path [of "path_str p"] text_signature [of "sig_str g"] by simp_all

lemma has_text_iff: "has_text v s \<longleftrightarrow> value_as_str (unwrap_variant v) = Some s"
proof
  show "has_text v s \<Longrightarrow> value_as_str (unwrap_variant v) = Some s"
    by (induction rule: has_text.induct) simp_all
  show "value_as_str (unwrap_variant v) = Some s \<Longrightarrow> has_text v s"
  proof (induction v rule: unwrap_variant.induct)
    case (1 v)
    then show ?case by (simp add: text_variant)
  qed (auto intro: has_text.intros has_text_parts)
qed

lemma argument_iff: "argument msg n s \<longleftrightarrow> message_arg_str msg n = Some s"
  by (simp add: argument_def message_arg_str_def has_text_iff)

lemma sender_matches_iff:
  "sender_matches s x owner \<longleftrightarrow>
     (\<exists>a. (x = Some a \<or> x = None \<and> a = []) \<and> (a = s \<or> (\<nexists>rest. s = '':'' @ rest) \<and> owner s = Some a))"
  by (cases x) (auto simp: sender_matches_def prefix_def)

lemma within_iff:
  "is_within_namespace (ObjectPath p) ns \<longleftrightarrow> ns = ''/'' \<or> p = ns \<or> (\<exists>rest. p = ns @ ''/'' @ rest)"
  by (auto simp: is_within_namespace_def prefix_def)

lemma parent_or_child_iff:
  "is_path_parent_or_child v p \<longleftrightarrow>
     v = p \<or> v = ''/'' \<or> p = ''/'' \<or> (\<exists>rest. v = p @ ''/'' @ rest) \<or> (\<exists>rest. p = v @ ''/'' @ rest)"
  by (auto simp: is_path_parent_or_child_def prefix_def)

section \<open>Parsing a part\<close>

lemma trim_start_step: "p \<noteq> [] \<Longrightarrow> trim_start_matches p (p @ s) = trim_start_matches p s"
  by (subst trim_start_matches.simps) simp

lemma trim_start_stop: "\<not> prefix p s \<Longrightarrow> trim_start_matches p s = s"
  by (subst trim_start_matches.simps) simp

lemma show_nat_ends:
  obtains c r c' r' where "show_nat n = c # r" "is_ascii_digit c" "show_nat n = r' @ [c']" "is_ascii_digit c'"
proof -
  have "hd (show_nat n) \<in> set (show_nat n)" "last (show_nat n) \<in> set (show_nat n)"
    by simp_all
  then have "is_ascii_digit (hd (show_nat n))" "is_ascii_digit (last (show_nat n))"
    by (blast dest: show_nat_hd)+
  moreover have "show_nat n = hd (show_nat n) # tl (show_nat n)"
    "show_nat n = butlast (show_nat n) @ [last (show_nat n)]"
    by simp_all
  ultimately show thesis
    using that by blast
qed

lemma trim_arg: "trim_start_matches ''arg'' (''arg'' @ show_nat n @ t) = show_nat n @ t"
proof -
  have "\<not> prefix ''arg'' (show_nat n @ t)"
    by (rule show_nat_ends [of n]) (auto simp: is_ascii_digit_def)
  then show ?thesis
    using trim_start_step [of "''arg''" "show_nat n @ t"] by (simp add: trim_start_stop)
qed

lemma trim_path: "trim_end_matches ''path'' (show_nat n @ ''path'') = show_nat n"
proof -
  obtain r c where "show_nat n = r @ [c]" "is_ascii_digit c"
    by (rule show_nat_ends [of n])
  then have "\<not> prefix ''htap'' (rev (show_nat n))"
    by (auto simp: is_ascii_digit_def)
  then show ?thesis
    using trim_start_step [of "''htap''" "rev (show_nat n)"]
    by (simp add: trim_end_matches_def trim_start_stop)
qed

text \<open>The parts of which nothing is in the rule yet.\<close>

fun unset :: "match_rule \<Rightarrow> match_part \<Rightarrow> bool" where
  "unset rule (OfType t) \<longleftrightarrow> mr_message_type rule = None"
| "unset rule (FromPeer s) \<longleftrightarrow> mr_sender rule = None"
| "unset rule (OnInterface s) \<longleftrightarrow> mr_interface rule = None"
| "unset rule (NamedMember s) \<longleftrightarrow> mr_member rule = None"
| "unset rule (AtPath s) \<longleftrightarrow> mr_path rule = None"
| "unset rule (BelowPath s) \<longleftrightarrow> mr_path_namespace rule = None"
| "unset rule (AddressedTo s) \<longleftrightarrow> mr_destination rule = None"
| "unset rule (Arg0Below s) \<longleftrightarrow> mr_arg0namespace rule = None"
| "unset rule _ \<longleftrightarrow> True"

fun add_part :: "match_rule \<Rightarrow> match_part \<Rightarrow> match_rule" where
  "add_part rule (OfType t) = rule\<lparr>mr_message_type := Some t\<rparr>"
| "add_part rule (FromPeer s) = rule\<lparr>mr_sender := Some s\<rparr>"
| "add_part rule (OnInterface s) = rule\<lparr>mr_interface := Some s\<rparr>"
| "add_part rule (NamedMember s) = rule\<lparr>mr_member := Some s\<rparr>"
| "add_part rule (AtPath s) = rule\<lparr>mr_path := Some s\<rparr>"
| "add_part rule (BelowPath s) = rule\<lparr>mr_path_namespace := Some s\<rparr>"
| "add_part rule (AddressedTo s) = rule\<lparr>mr_destination := Some s\<rparr>"
| "add_part rule (ArgIs n s) = rule\<lparr>mr_args := mr_args rule @ [(n, s)]\<rparr>"
| "add_part rule (ArgPath n s) = rule\<lparr>mr_arg_paths := mr_arg_paths rule @ [(n, s)]\<rparr>"
| "add_part rule (Arg0Below s) = rule\<lparr>mr_arg0namespace := Some s\<rparr>"
| "add_part rule (Eavesdrop b) = rule\<lparr>mr_eavesdrop := b\<rparr>"

lemma arg_keys:
  "''arg'' @ show_nat n \<noteq> ''arg0namespace''" "''arg'' @ show_nat n @ ''path'' \<noteq> ''arg0namespace''"
  "\<not> suffix ''path'' (''arg'' @ show_nat n)"
proof -
  have "CHR ''e'' \<notin> set (show_nat n)"
    using show_nat_hd [of "CHR ''e''" n] by (auto simp: is_ascii_digit_def)
  then show "''arg'' @ show_nat n \<noteq> ''arg0namespace''"
    by (auto dest: arg_cong [where f = set])
  have "last (''arg'' @ show_nat n @ ''path'') \<noteq> last ''arg0namespace''"
    by simp
  then show "''arg'' @ show_nat n @ ''path'' \<noteq> ''arg0namespace''"
    by metis
  obtain r c where "show_nat n = r @ [c]" "is_ascii_digit c"
    by (rule show_nat_ends [of n])
  then show "\<not> suffix ''path'' (''arg'' @ show_nat n)"
    by (auto simp: suffix_def is_ascii_digit_def)
qed

lemma parse_index: "n \<le> 63 \<Longrightarrow> parse_arg_index key (show_nat n) = Inr n"
  by (simp add: parse_arg_index_def parse_uint_show_nat USIZE_BOUND_def)

lemma apply_part:
  assumes "index_ok p"
  shows "apply_token rule (part_text p) = Inr (add_part rule p)"
proof (cases p)
  case (OfType t)
  then show ?thesis
    by (cases t) (simp_all add: apply_token_def rule_type_def)
next
  case (ArgIs n s)
  then show ?thesis
    using assms arg_keys [of n] trim_arg [of n "[]"]
    by (simp add: apply_token_def parse_index)
next
  case (ArgPath n s)
  then show ?thesis
    using assms arg_keys(2) [of n] trim_arg [of n "''path''"] trim_path [of n]
    by (simp add: apply_token_def parse_index suffix_def)
qed (simp_all add: apply_token_def)

section \<open>Parsing a rule\<close>

lemma add_part_holds:
  assumes "unset rule p"
  shows "rule_holds (add_part rule p) msg owner \<longleftrightarrow> rule_holds rule msg owner \<and> part_holds msg owner p"
proof -
  have paths: "(\<exists>q. m_path msg = Some q \<and> is_within_namespace q ns) \<longleftrightarrow>
      (\<exists>q. m_path msg = Some (ObjectPath q) \<and> is_within_namespace (ObjectPath q) ns)" for ns
    by (metis object_path.collapse)
  show ?thesis
    using assms
    by (cases p) (auto simp: rule_holds_def paths sender_matches_iff within_iff argument_iff parent_or_child_iff
        prefix_def)
qed

lemma add_part_unset:
  "unset rule q \<Longrightarrow> fst (part_text p) \<noteq> fst (part_text q) \<Longrightarrow> unset (add_part rule p) q"
  by (cases p; cases q) simp_all

lemma apply_parts:
  assumes "distinct (map (\<lambda>p. fst (part_text p)) ps)" "\<forall>p \<in> set ps. index_ok p" "\<forall>p \<in> set ps. unset rule p"
  shows "\<exists>rule'. apply_tokens rule (map part_text ps) = Inr rule' \<and>
    (\<forall>msg owner. rule_holds rule' msg owner \<longleftrightarrow>
       rule_holds rule msg owner \<and> (\<forall>p \<in> set ps. part_holds msg owner p))"
  using assms
proof (induction ps arbitrary: rule)
  case (Cons p ps)
  have "\<forall>q \<in> set ps. unset (add_part rule p) q"
    using Cons.prems by (force intro: add_part_unset)
  then obtain rule' where "apply_tokens (add_part rule p) (map part_text ps) = Inr rule'"
    "\<forall>msg owner. rule_holds rule' msg owner \<longleftrightarrow>
       rule_holds (add_part rule p) msg owner \<and> (\<forall>p \<in> set ps. part_holds msg owner p)"
    using Cons.IH [of "add_part rule p"] Cons.prems by auto
  then show ?case
    using Cons.prems add_part_holds [of rule p] by (auto simp: apply_part)
qed simp

lemma default_rule: "rule_holds (match_rule_default s) msg owner" "unset (match_rule_default s) p"
  by (simp add: rule_holds_def match_rule_default_def, cases p) (simp_all add: match_rule_default_def)

text \<open>Keys have no equals sign, so a written rule is split into its parts again.\<close>

lemma tokenize_parts:
  assumes "\<forall>p \<in> set ps. is_ascii (snd (part_text p))"
  shows "tokenize (render_rule (map part_text ps)) = Inr (map part_text ps)"
proof -
  have "CHR ''='' \<notin> set (fst (part_text p))" for p
    by (cases p) (simp_all add: show_nat_no_special)
  moreover have "map (\<lambda>(k, v). (k, latin1 v)) (map part_text ps) = map part_text ps"
    using assms by (auto simp: latin1_ascii case_prod_beta)
  ultimately show ?thesis
    using tokenize_render [of "map part_text ps"] by (auto simp: case_prod_beta)
qed

end
