(* ===== verification/Bus_Properties.thy ===== *)
theory Bus_Properties
  imports Registry Policy_Xml Policy_Precedence Match_Language "HOL-Library.Code_Target_Nat"
begin

text \<open>
  The properties of the bus daemon's tables: the name registry and the events it announces, the
  match rules, and the policy.
\<close>

section \<open>The name registry\<close>

text \<open>C7. Whoever replays the \<open>NameOwnerChanged\<close> events from the start of the bus knows the owner
  of every well-known name, after any sequence of connections, requests, releases and
  disconnections.\<close>

theorem name_events_tell_owners:
  assumes "runs registry_step registry_ok registry_new evs r"
  shows "owners r = fold apply_change evs (owners registry_new)"
  using assms wf_registry_new by (rule registry.view_runs)

abbreviation sample_entry :: "string \<Rightarrow> connection_entry" where
  "sample_entry u \<equiv> \<lparr>unique_name = u, credentials = \<lparr>uid = 0, gid = 0, pid = 1\<rparr>,
     security_label = None, match_rules = [], is_monitor = False, is_registered = True\<rparr>"

definition sample_registry :: registry where
  "sample_registry =
     snd (request_name '':1.2'' ''a.b'' 2 (snd (request_name '':1.1'' ''a.b'' 1
       (add_connection (sample_entry '':1.2'') (add_connection (sample_entry '':1.1'') registry_new)))))"

definition sample_events :: "name_owner_change list" where
  "sample_events =
     [\<lparr>noc_name = ''a.b'', noc_old_owner = None, noc_new_owner = Some '':1.1''\<rparr>,
      \<lparr>noc_name = ''a.b'', noc_old_owner = Some '':1.1'', noc_new_owner = Some '':1.2''\<rparr>]"

lemma sample_run: "runs registry_step registry_ok registry_new sample_events sample_registry"
proof -
  define r1 where "r1 = add_connection (sample_entry '':1.1'') registry_new"
  define r2 where "r2 = add_connection (sample_entry '':1.2'') r1"
  define r3 where "r3 = snd (request_name '':1.1'' ''a.b'' 1 r2)"
  have "registry_step (RequestName '':1.1'' ''a.b'' 1) r2 = (take 1 sample_events, r3)"
    "registry_step (RequestName '':1.2'' ''a.b'' 2) r3 = (drop 1 sample_events, sample_registry)"
    "registry_ok (RequestName '':1.1'' ''a.b'' 1) r2" "registry_ok (RequestName '':1.2'' ''a.b'' 2) r3"
    unfolding r3_def r2_def r1_def by code_simp+
  moreover have "runs registry_step registry_ok registry_new [] r2"
    using runs_step [OF runs_step [OF runs_refl, of registry_ok "Connect (sample_entry '':1.1'')"
        registry_new registry_step "[]" r1], of "Connect (sample_entry '':1.2'')" "[]" r2]
    by (simp add: r1_def r2_def)
  ultimately have "runs registry_step registry_ok registry_new
      (([] @ take 1 sample_events) @ drop 1 sample_events) sample_registry"
    by (intro runs_step)
  then show ?thesis by (simp only: append_Nil append_take_drop_id)
qed

lemma name_events_tell_owners_witness: "owners sample_registry ''a.b'' = Some '':1.2''"
  using name_events_tell_owners [OF sample_run]
  by (simp add: sample_events_def apply_change_def)

text \<open>In every reachable registry a name is owned by a live connection, and no queue is empty or
  holds a connection twice.\<close>

theorem owners_are_connected:
  assumes "runs registry_step registry_ok registry_new evs r" "get_name_owner r n = Some u"
  shows "get_connection r u \<noteq> None \<and> distinct (list_queued_owners r n)"
proof -
  have "wf_registry r"
    using assms(1) wf_registry_new by (rule registry.inv_runs)
  then show ?thesis
    using assms(2) owner_connected by blast
qed

lemma owners_are_connected_witness: "get_connection sample_registry '':1.2'' \<noteq> None"
proof -
  have "get_name_owner sample_registry ''a.b'' = Some '':1.2''"
    by code_simp
  then show ?thesis
    using owners_are_connected [OF sample_run] by blast
qed

text \<open>The reply code of \<open>RequestName\<close> tells the outcome: already owner before, primary owner
  afterwards, waiting behind the owner, or refused with every queue as it was.\<close>

theorem request_name_reply:
  assumes "wf_registry r" "request_name u n flags r = ((code, evs), r')"
  shows "(code = REQUEST_REPLY_ALREADY_OWNER \<longleftrightarrow> owners r n = Some u) \<and>
    (code = REQUEST_REPLY_PRIMARY_OWNER \<longleftrightarrow> owners r n \<noteq> Some u \<and> owners r' n = Some u) \<and>
    (code = REQUEST_REPLY_IN_QUEUE \<longrightarrow> u \<in> set (tl (list_queued_owners r' n))) \<and>
    (code = REQUEST_REPLY_EXISTS \<longrightarrow> list_queued_owners r' = list_queued_owners r)"
  using assms by (intro request_name_code) (simp_all add: wf_registry_def)

lemma request_name_reply_witness:
  "owners (snd (request_name '':1.1'' ''a.b'' 1 registry_new)) ''a.b'' = Some '':1.1''"
  using request_name_reply [OF wf_registry_new, of "'':1.1''" "''a.b''" 1 1
      "[\<lparr>noc_name = ''a.b'', noc_old_owner = None, noc_new_owner = Some '':1.1''\<rparr>]"
      "snd (request_name '':1.1'' ''a.b'' 1 registry_new)"]
  by (simp add: request_name_def registry_new_def queue_of_def reply_codes)

text \<open>\<open>ReleaseName\<close> takes the caller, and only the caller, out of the queue of that name alone;
  the next in the queue becomes the owner, the reply code tells whether the name existed and
  whether the caller was in its queue, and the announced change is the one that happened.\<close>

theorem release_name_effect:
  assumes "wf_registry r" "release_name u n r = ((code, evs), r')"
  shows "queue_of r' = (queue_of r)(n := filter (\<lambda>e. q_unique_name e \<noteq> u) (queue_of r n)) \<and>
    owners r' = fold apply_change evs (owners r) \<and> connections r' = connections r \<and>
    (code = RELEASE_REPLY_NON_EXISTENT \<longleftrightarrow> queue_of r n = []) \<and>
    (code = RELEASE_REPLY_RELEASED \<longleftrightarrow> u \<in> set (list_queued_owners r n))"
  using assms release_name_step [of r u n code evs r'] by (simp add: wf_registry_def without_def)

lemma release_name_effect_witness:
  "owners (snd (release_name '':1.2'' ''a.b'' sample_registry)) ''a.b'' = Some '':1.1''"
proof -
  have wf: "wf_registry sample_registry"
    using sample_run wf_registry_new by (rule registry.inv_runs)
  have "release_name '':1.2'' ''a.b'' sample_registry =
      ((1, [\<lparr>noc_name = ''a.b'', noc_old_owner = Some '':1.2'', noc_new_owner = Some '':1.1''\<rparr>]),
       snd (release_name '':1.2'' ''a.b'' sample_registry))"
    by code_simp
  then show ?thesis
    using release_name_effect [OF wf, of "'':1.2''" "''a.b''" 1] by (simp add: apply_change_def)
qed

text \<open>C23. When a connection goes away nothing of it is left: it is in no queue and no longer
  connected, the others stay connected, every name it owned passes on with an announcement,
  and its own unique name is announced as gone last.\<close>

theorem disconnection_is_complete:
  assumes "wf_registry r" "prefix '':'' u" "remove_connection u r = (evs, r')"
  shows "wf_registry r' \<and> queued r' \<subseteq> queued r - {u} \<and>
    get_connection r' = (get_connection r)(u := None) \<and>
    owners r' = fold apply_change evs (owners r) \<and>
    last evs = \<lparr>noc_name = u, noc_old_owner = Some u, noc_new_owner = None\<rparr>"
  using assms remove_connection_step [OF assms(1,3)]
  by (auto simp: get_connection_def fun_eq_iff remove_connection_def split: prod.splits)

lemma disconnection_is_complete_witness:
  "'':1.2'' \<notin> queued (snd (remove_connection '':1.2'' sample_registry))"
proof -
  have "wf_registry sample_registry"
    using sample_run wf_registry_new by (rule registry.inv_runs)
  moreover obtain evs r' where "remove_connection '':1.2'' sample_registry = (evs, r')"
    by (cases "remove_connection '':1.2'' sample_registry")
  ultimately show ?thesis
    using disconnection_is_complete [of sample_registry "'':1.2''" evs r'] by auto
qed

text \<open>The names that are allocated one after the other.\<close>

fun unique_names :: "nat \<Rightarrow> registry \<Rightarrow> string list" where
  "unique_names 0 r = []"
| "unique_names (Suc n) r = (let (u, r') = allocate_unique_name r in u # unique_names n r')"

lemma unique_names_eq:
  "unat (next_id r) + n < 2 ^ 64 \<Longrightarrow>
     unique_names n r = map (\<lambda>i. '':1.'' @ show_nat i) [unat (next_id r) ..< unat (next_id r) + n]"
proof (induction n arbitrary: r)
  case (Suc n)
  have "next_id r + 1 \<noteq> 0"
  proof
    assume "next_id r + 1 = 0"
    then have "next_id r = - 1"
      by (simp add: eq_neg_iff_add_eq_0)
    then show False
      using Suc.prems by (simp add: unsigned_minus_1_eq_mask mask_eq_exp_minus_1)
  qed
  then have "unat (next_id r + 1) = unat (next_id r) + 1"
    by (simp add: add.commute unatSuc)
  then show ?case
    using Suc by (simp add: allocate_unique_name_def upt_rec [of "unat (next_id r)"])
qed simp

text \<open>Unique names are never reused: the names allocated from one registry are pairwise
  different as long as the 64-bit counter does not wrap around.\<close>

theorem unique_names_are_fresh:
  assumes "unat (next_id r) + n < 2 ^ 64"
  shows "distinct (unique_names n r) \<and> list_all (prefix '':1.'') (unique_names n r)"
  using assms by (auto simp: unique_names_eq distinct_map inj_on_def list_all_iff show_nat_inject)

lemma unique_names_are_fresh_witness: "distinct (unique_names 500 registry_new)"
  using unique_names_are_fresh [of registry_new 500] by (simp add: registry_new_def)

section \<open>Match rules\<close>

text \<open>C35. A rule that is written in the match language, from parts with different keys, is parsed to a
  rule that matches exactly the messages of which every part holds: its type, sender (by unique
  name or as the owner of a well-known one), interface, member, path or path above, and
  destination, and the texts, paths and name spaces of its arguments, quotes and commas in the
  values included. The values are ASCII and the arguments' numbers at most 63.\<close>

theorem match_rule_meaning:
  assumes "distinct (map (\<lambda>p. fst (part_text p)) ps)"
    and "\<forall>p \<in> set ps. index_ok p \<and> is_ascii (snd (part_text p))"
  shows "\<exists>rule. parse_match_rule (render_rule (map part_text ps)) = Inr rule \<and>
    (\<forall>msg owner. rule_matches rule msg owner \<longleftrightarrow> (\<forall>p \<in> set ps. part_holds msg owner p))"
proof -
  let ?s = "render_rule (map part_text ps)"
  obtain rule where "apply_tokens (match_rule_default ?s) (map part_text ps) = Inr rule"
    "\<forall>msg owner. rule_holds rule msg owner \<longleftrightarrow> (\<forall>p \<in> set ps. part_holds msg owner p)"
    using apply_parts [OF assms(1), of "match_rule_default ?s"] assms(2) default_rule by auto
  moreover have "tokenize ?s = Inr (map part_text ps)"
    using assms(2) by (intro tokenize_parts) blast
  ultimately show ?thesis
    by (simp add: parse_match_rule_def rule_matches_holds)
qed

definition sample_parts :: "match_part list" where
  "sample_parts = [OfType Signal, FromPeer ''a.b'', ArgIs 0 [CHR 0x27, CHR '','']]"

definition sample_signal :: message where
  "sample_signal = build 1 (with_args [VVariant (VString [CHR 0x27, CHR '',''])]
     (with_sender '':1.5'' (build_signal (ObjectPath ''/o'') ''a.I'' ''S'')))"

lemma match_rule_meaning_witness:
  "\<exists>rule. parse_match_rule (render_rule (map part_text sample_parts)) = Inr rule \<and>
     rule_matches rule sample_signal [''a.b'' \<mapsto> '':1.5''] \<and>
     \<not> rule_matches rule sample_signal [''a.b'' \<mapsto> '':1.6'']"
proof -
  have parts: "m_type sample_signal = Signal" "m_sender sample_signal = Some '':1.5''"
    "body sample_signal = [VVariant (VString [CHR 0x27, CHR '',''])]"
    by code_simp+
  have "distinct (map (\<lambda>p. fst (part_text p)) sample_parts)"
    "\<forall>p \<in> set sample_parts. index_ok p \<and> is_ascii (snd (part_text p))"
    by (simp_all add: sample_parts_def is_ascii_def)
  then obtain rule where rule: "parse_match_rule (render_rule (map part_text sample_parts)) = Inr rule"
    "\<And>msg owner. rule_matches rule msg owner \<longleftrightarrow> (\<forall>p \<in> set sample_parts. part_holds msg owner p)"
    using match_rule_meaning by blast
  moreover have "argument sample_signal 0 [CHR 0x27, CHR '','']"
    by (simp add: argument_def parts text_string text_variant)
  ultimately show ?thesis
    by (intro exI [of _ rule]) (simp add: sample_parts_def parts)
qed

text \<open>Rules quoted as the D-Bus match language prescribes are split into the keys and values they
  were made of, apostrophes and commas in the values included (of the text that is ASCII).\<close>

theorem match_rule_quoting:
  assumes "\<forall>(k, v) \<in> set ts. CHR ''='' \<notin> set k \<and> is_ascii v"
  shows "tokenize (render_rule ts) = Inr ts"
proof -
  have "map (\<lambda>(k, v). (k, latin1 v)) ts = ts"
    using assms by (induction ts) (auto simp: latin1_ascii)
  then show ?thesis
    using assms tokenize_render [of ts] by fastforce
qed

lemma match_rule_quoting_witness:
  "tokenize (render_rule [(''arg0'', [CHR 0x27, CHR '','']), (''type'', ''signal'')]) =
     Inr [(''arg0'', [CHR 0x27, CHR '','']), (''type'', ''signal'')]"
  by (rule match_rule_quoting) (simp add: is_ascii_def)

text \<open>An \<open>argNpath\<close> pattern with a trailing slash does not match the paths below it, as the D-Bus
  specification wants it to, and one without a trailing slash does.\<close>

theorem arg_path_trailing_slash:
  "\<not> is_path_parent_or_child ''/aa/bb/cc'' ''/aa/bb/'' \<and> is_path_parent_or_child ''/aa/bb/cc'' ''/aa/bb''"
  by code_simp

section \<open>Policy\<close>

definition rule_none :: "policy_context \<Rightarrow> policy_rule" where
  "rule_none c = \<lparr>pr_context = c, pr_user = None, pr_group = None, allow_own = [], deny_own = [],
     allow_send = [], deny_send = [], allow_receive = [], deny_receive = []\<rparr>"

text \<open>C13. An identity may send a message exactly when there are no rules at all, or some rule that
  concerns it allows the message and no denial that concerns it comes later: one of a context
  of higher precedence, wherever it stands in the files, one of the same context that stands
  behind it, or one of that rule itself. The precedence of the contexts rises from default over
  user and group to mandatory; default and mandatory rules concern everybody, a user rule the
  user of its name or number, and a group rule the members of its group.\<close>

theorem send_policy_meaning:
  "can_send rules ident msg dest \<longleftrightarrow>
     rules = [] \<or>
     (\<exists>i < length rules. concerns ident (rules ! i) \<and>
        (\<exists>p \<in> set (allow_send (rules ! i)). pattern_matches p msg dest) \<and>
        (\<forall>j < length rules. concerns ident (rules ! j) \<and>
           (precedence (pr_context (rules ! i)) < precedence (pr_context (rules ! j)) \<or>
            pr_context (rules ! i) = pr_context (rules ! j) \<and> i \<le> j) \<longrightarrow>
           (\<forall>p \<in> set (deny_send (rules ! j)). \<not> pattern_matches p msg dest)))"
proof -
  have bound: "precedence c < 4" for c
    by (cases c) simp_all
  have same: "precedence c = precedence c' \<longleftrightarrow> c = c'" for c c'
    by (cases c; cases c') simp_all
  show ?thesis
    unfolding can_send_def applicable_ranks verdict_ranks [where rank = "\<lambda>r. precedence (pr_context r)"]
    speaks_last_def
    by (simp add: bound same list_ex_iff Ball_def from_on_def imp_conjL del: concerns.simps)
qed

definition sample_policy :: policy where
  "sample_policy =
     [(rule_none CtxUser)\<lparr>pr_user := Some ''root'', allow_send := [PDestination ''org.*'']\<rparr>,
      (rule_none CtxDefault)\<lparr>deny_send := [PDestination ''*'']\<rparr>]"

definition root_identity :: policy_identity where
  "root_identity = \<lparr>id_uid = 0, id_user_name = Some ''root'', id_group_names = []\<rparr>"

text \<open>The user's permission stands against the default's denial, although it comes first in the file.\<close>

lemma send_policy_meaning_witness:
  "can_send sample_policy root_identity (build 1 (build_method_return 1)) (Some ''org.a'')"
proof -
  have "glob_match ''org.*'' ''org.a''"
    by code_simp
  then show ?thesis
    by (intro send_policy_meaning [THEN iffD2] disjI2 exI [of _ 0])
      (auto simp: sample_policy_def root_identity_def rule_none_def or_empty_def less_Suc_eq)
qed

text \<open>A mandatory rule that denies a name cannot be overridden by the default, user or group
  rules, whatever they allow and wherever they stand in the files.\<close>

theorem mandatory_denial_stands:
  assumes "r \<in> set rules" "pr_context r = CtxMandatory" "p \<in> set (deny_own r)" "glob_match p n"
    and "\<forall>r' \<in> set rules. pr_context r' = CtxMandatory \<longrightarrow> (\<forall>p \<in> set (allow_own r'). \<not> glob_match p n)"
  shows "\<not> can_own rules ident n"
proof -
  let ?a = "\<lambda>r. list_ex (\<lambda>p. glob_match p n) (allow_own r)"
  let ?d = "\<lambda>r. list_ex (\<lambda>p. glob_match p n) (deny_own r)"
  have "r \<in> set (rules_in CtxMandatory ident rules)"
    using assms(1,2) by (simp add: rules_in_def rule_applies_def)
  moreover have "?d r"
    using assms(3,4) by (auto simp: list_ex_iff)
  moreover have "\<forall>r' \<in> set (rules_in CtxMandatory ident rules). \<not> ?a r'"
    using assms(5) by (auto simp: rules_in_def list_ex_iff)
  ultimately have "\<not> verdict ?a ?d v (rules_in CtxMandatory ident rules)" for v
    by (rule verdict_denied)
  then show ?thesis
    using assms(1) by (auto simp: can_own_def applicable_def verdict_append)
qed

lemma mandatory_denial_stands_witness:
  "\<not> can_own [(rule_none CtxMandatory)\<lparr>deny_own := [''org.*'']\<rparr>, (rule_none CtxDefault)\<lparr>allow_own := [''*'']\<rparr>]
     \<lparr>id_uid = 0, id_user_name = Some ''root'', id_group_names = []\<rparr> ''org.a''"
proof -
  have "glob_match ''org.*'' ''org.a''"
    by code_simp
  then show ?thesis
    by (intro mandatory_denial_stands
        [where r = "(rule_none CtxMandatory)\<lparr>deny_own := [''org.*'']\<rparr>" and p = "''org.*''"])
      (simp_all add: rule_none_def)
qed

text \<open>A user rule that names no user applies to every identity whose user name could not be
  looked up, and to no one else.\<close>

theorem nameless_user_rule:
  assumes "pr_context r = CtxUser" "pr_user r = None"
  shows "rule_applies ident r \<longleftrightarrow> id_user_name ident = None"
  using assms by (auto simp: rule_applies_def)

lemma nameless_user_rule_witness:
  "rule_applies \<lparr>id_uid = 12345, id_user_name = None, id_group_names = []\<rparr> (rule_none CtxUser)"
  using nameless_user_rule [of "rule_none CtxUser"] by (simp add: rule_none_def)

definition chars_of :: "string \<Rightarrow> chars" where
  "chars_of s = map of_char s"

definition prefix_policy :: string where
  "prefix_policy = ''<policy context=\"default\"><allow own_prefix=\"org.acme\"/></policy>''"

lemma prefix_policy_parsed:
  "parse_xml_policy (chars_of prefix_policy) = [(rule_none CtxDefault)\<lparr>allow_own := [''org.acme*'']\<rparr>]"
  by code_simp

text \<open>An \<open>own_prefix\<close> of an XML policy file reaches too far: it is meant for the name and the
  names below it, but it also lets another name be owned that continues its last element.\<close>

theorem own_prefix_overreach:
  "can_own (parse_xml_policy (chars_of prefix_policy)) ident ''org.acmeevil'' \<and>
   \<not> can_own (parse_xml_policy (chars_of prefix_policy)) ident ''org.other''"
proof -
  have "glob_match ''org.acme*'' ''org.acmeevil''" "\<not> glob_match ''org.acme*'' ''org.other''"
    by code_simp+
  then show ?thesis
    unfolding prefix_policy_parsed
    by (simp add: can_own_def applicable_def rules_in_def rule_applies_def rule_none_def)
qed

definition receive_policy :: string where
  "receive_policy =
     ''<policy context=\"mandatory\"><deny receive_sender=\"org.acme\" receive_interface=\"a.b\"/></policy>''"

text \<open>The \<open>receive_\<close> attributes of the standard policy files are not known to the parser of XML
  policy files, which looks for \<open>recv_\<close>: a denial written with them is dropped.\<close>

theorem receive_attributes_ignored:
  "parse_xml_policy (chars_of receive_policy) = []"
  by code_simp

end
