(* ===== verification/Config.thy ===== *)
theory Config
  imports Match_Rules
begin

text \<open>
  \<open>oxibus-config/src/lib.rs\<close>: the tables of \<open>oxibus.toml\<close> with the value each key has when it
  is absent, the paths computed from them, and the order in which files are tried.  The parser
  that \<open>serde\<close> and the \<open>toml\<close> crate make of these tables is a parameter, as are the
  environment and the file system.
\<close>

datatype config_error = ConfigIo string string | ConfigParse string string

section \<open>Project and features\<close>

record project_config =
  pj_name :: string
  pj_version :: string

definition project_config_default :: project_config where
  "project_config_default =
     \<lparr>pj_name = ''oxibus'',
      pj_version = ''0.1.0''\<rparr>"

record features_config =
  ft_message_bus :: bool
  ft_tools :: bool
  ft_traditional_activation :: bool
  ft_stats :: bool
  ft_cookie_sha1 :: bool
  ft_unix_fd_passing :: bool
  ft_systemd :: bool
  ft_selinux :: bool
  ft_apparmor :: bool
  ft_libaudit :: bool
  ft_launchd :: bool
  ft_x11_autolaunch :: bool

definition features_config_default :: features_config where
  "features_config_default =
     \<lparr>ft_message_bus = True,
      ft_tools = True,
      ft_traditional_activation = True,
      ft_stats = True,
      ft_cookie_sha1 = True,
      ft_unix_fd_passing = True,
      ft_systemd = False,
      ft_selinux = False,
      ft_apparmor = False,
      ft_libaudit = False,
      ft_launchd = False,
      ft_x11_autolaunch = False\<rparr>"

section \<open>Paths\<close>

record paths_config =
  pc_prefix :: string
  pc_bindir :: string
  pc_sbindir :: string
  pc_libdir :: string
  pc_includedir :: string
  pc_conf_dir :: string
  pc_policy_dir :: string
  pc_services_dir :: string
  pc_vendor_services_dir :: string
  pc_share_dir :: string
  pc_runtime_dir :: string
  pc_system_socket :: string
  pc_system_pid_file :: string
  pc_session_socket_dir :: string
  pc_state_dir :: string
  pc_machine_id_file :: string
  pc_launch_helper :: string
  pc_legacy_system_socket :: string

definition paths_config_default :: paths_config where
  "paths_config_default =
     \<lparr>pc_prefix = ''/overlayer/syshub'',
      pc_bindir = ''/bin'',
      pc_sbindir = ''/sbin'',
      pc_libdir = ''/lib'',
      pc_includedir = ''/include'',
      pc_conf_dir = ''/etc/oxibus'',
      pc_policy_dir = ''/etc/oxibus/policy.d'',
      pc_services_dir = ''/etc/oxibus/services'',
      pc_vendor_services_dir = ''/lib/oxibus/services'',
      pc_share_dir = ''/share/oxibus'',
      pc_runtime_dir = ''/run'',
      pc_system_socket = ''/run/oxibus/system_bus_socket'',
      pc_system_pid_file = ''/run/oxibus/pid'',
      pc_session_socket_dir = ''/tmp'',
      pc_state_dir = ''/var/lib/oxibus'',
      pc_machine_id_file = ''/var/lib/oxibus/machine-id'',
      pc_launch_helper = ''/libexec/dbus-daemon-launch-helper'',
      pc_legacy_system_socket = ''/run/dbus/system_bus_socket''\<rparr>"

definition joined :: "string \<Rightarrow> string \<Rightarrow> string" where
  "joined base sub = path_join base (trim_start_matches ''/'' sub)"

definition bin_dir :: "paths_config \<Rightarrow> string" where
  "bin_dir p = joined (pc_prefix p) (pc_bindir p)"

definition sbin_dir :: "paths_config \<Rightarrow> string" where
  "sbin_dir p = joined (pc_prefix p) (pc_sbindir p)"

definition lib_dir :: "paths_config \<Rightarrow> string" where
  "lib_dir p = joined (pc_prefix p) (pc_libdir p)"

definition include_dir :: "paths_config \<Rightarrow> string" where
  "include_dir p = joined (pc_prefix p) (pc_includedir p)"

definition share_dir :: "paths_config \<Rightarrow> string" where
  "share_dir p = joined (pc_prefix p) (pc_share_dir p)"

definition launch_helper_path :: "paths_config \<Rightarrow> string" where
  "launch_helper_path p = joined (pc_prefix p) (pc_launch_helper p)"

text \<open>The other accessors give their field as a path (\<open>as_path\<close>); their fields are used here.\<close>

section \<open>Buses, limits, logging\<close>

record bus_system_config =
  bs_user :: string
  bs_listen :: string
  bs_pidfile :: string
  bs_auth_mechanisms :: "string list"
  bs_allow_anonymous :: bool

definition bus_system_config_default :: bus_system_config where
  "bus_system_config_default =
     \<lparr>bs_user = ''messagebus'',
      bs_listen = ''unix:path=/run/oxibus/system_bus_socket'',
      bs_pidfile = ''/run/oxibus/pid'',
      bs_auth_mechanisms = [''EXTERNAL'', ''DBUS_COOKIE_SHA1'', ''ANONYMOUS''],
      bs_allow_anonymous = False\<rparr>"

record bus_session_config =
  bn_listen :: string
  bn_auth_mechanisms :: "string list"
  bn_allow_anonymous :: bool

definition bus_session_config_default :: bus_session_config where
  "bus_session_config_default =
     \<lparr>bn_listen = ''unix:tmpdir=/tmp'',
      bn_auth_mechanisms = [''EXTERNAL'', ''DBUS_COOKIE_SHA1''],
      bn_allow_anonymous = False\<rparr>"

record bus_config =
  bc_system :: bus_system_config
  bc_session :: bus_session_config

definition bus_config_default :: bus_config where
  "bus_config_default =
     \<lparr>bc_system = bus_system_config_default,
      bc_session = bus_session_config_default\<rparr>"

record limits_config =
  lim_max_incoming_bytes :: u64
  lim_max_outgoing_bytes :: u64
  lim_max_message_size :: u32
  lim_max_message_unix_fds :: u32
  lim_max_completed_connections :: u32
  lim_max_incomplete_connections :: u32
  lim_max_connections_per_user :: u32
  lim_max_pending_service_starts :: u32
  lim_max_names_per_connection :: u32
  lim_max_match_rules_per_connection :: u32
  lim_activation_timeout_ms :: u64
  lim_auth_timeout_ms :: u64

definition limits_config_default :: limits_config where
  "limits_config_default =
     \<lparr>lim_max_incoming_bytes = 1000000000,
      lim_max_outgoing_bytes = 1000000000,
      lim_max_message_size = 134217728,
      lim_max_message_unix_fds = 1024,
      lim_max_completed_connections = 100000,
      lim_max_incomplete_connections = 64,
      lim_max_connections_per_user = 512,
      lim_max_pending_service_starts = 512,
      lim_max_names_per_connection = 50000,
      lim_max_match_rules_per_connection = 50000,
      lim_activation_timeout_ms = 25000,
      lim_auth_timeout_ms = 30000\<rparr>"

record logging_config =
  log_level :: string
  log_ident :: string
  log_target :: string

definition logging_config_default :: logging_config where
  "logging_config_default =
     \<lparr>log_level = ''info'',
      log_ident = ''dbus-daemon'',
      log_target = ''stderr''\<rparr>"

section \<open>The configuration file\<close>

record global_config =
  cfg_project :: project_config
  cfg_features :: features_config
  cfg_paths :: paths_config
  cfg_bus :: bus_config
  cfg_limits :: limits_config
  cfg_logging :: logging_config

definition global_config_default :: global_config where
  "global_config_default =
     \<lparr>cfg_project = project_config_default,
      cfg_features = features_config_default,
      cfg_paths = paths_config_default,
      cfg_bus = bus_config_default,
      cfg_limits = limits_config_default,
      cfg_logging = logging_config_default\<rparr>"

record config_io =
  cf_read :: "string \<Rightarrow> string + string"
  cf_parse :: "string \<Rightarrow> string + global_config"
  cf_env :: "string option"

definition config_parse :: "config_io \<Rightarrow> string \<Rightarrow> config_error + global_config" where
  "config_parse io txt =
     (case cf_parse io txt of
        Inl e \<Rightarrow> Inl (ConfigParse ''<inline>'' e)
      | Inr cfg \<Rightarrow> Inr cfg)"

definition load_path :: "config_io \<Rightarrow> string \<Rightarrow> config_error + global_config" where
  "load_path io path =
     (case cf_read io path of
        Inl e \<Rightarrow> Inl (ConfigIo path e)
      | Inr txt \<Rightarrow>
          (case cf_parse io txt of
             Inl e \<Rightarrow> Inl (ConfigParse path e)
           | Inr cfg \<Rightarrow> Inr cfg))"

fun first_loadable :: "config_io \<Rightarrow> string list \<Rightarrow> global_config" where
  "first_loadable io [] = global_config_default"
| "first_loadable io (c # cs) =
     (case load_path io c of Inr cfg \<Rightarrow> cfg | Inl _ \<Rightarrow> first_loadable io cs)"

definition load_default :: "config_io \<Rightarrow> global_config" where
  "load_default io =
     (let candidates = [''/etc/oxibus/oxibus.toml'', ''/etc/oxibus.toml'', ''oxibus.toml'']
      in case cf_env io of
           Some explicit \<Rightarrow>
             (case load_path io explicit of
                Inr cfg \<Rightarrow> cfg
              | Inl _ \<Rightarrow> first_loadable io candidates)
         | None \<Rightarrow> first_loadable io candidates)"

text \<open>The result is the first of the candidates that loads, and the defaults when none does.\<close>

lemma first_loadable_eq:
  "first_loadable io cs =
     (case filter (\<lambda>c. \<exists>cfg. load_path io c = Inr cfg) cs of
        [] \<Rightarrow> global_config_default
      | c # _ \<Rightarrow> projr (load_path io c))"
  by (induction cs) (auto split: sum.splits)

lemma load_default_eq:
  "load_default io =
     first_loadable io ((case cf_env io of Some e \<Rightarrow> [e] | None \<Rightarrow> []) @
       [''/etc/oxibus/oxibus.toml'', ''/etc/oxibus.toml'', ''oxibus.toml''])"
  by (auto simp: load_default_def Let_def split: option.splits)

end
