(* ===== verification/Activation.thy ===== *)
theory Activation
  imports Utf8_Whitespace Policy "HOL-Library.Code_Target_Nat"
begin

text \<open>
  \<open>oxibus-daemon/src/activation.rs\<close> and \<open>launch_helper.rs\<close>: the table of activatable services,
  the parser of legacy service files, what is started for a service, and the checks of the
  setuid helper.  The directories come as lists of entries with their texts; the parser of
  TOML files, the user database and the start of a process are parameters.
\<close>

section \<open>Services\<close>

record service_def =
  sv_name :: string
  sv_exec :: string
  sv_args :: "string list"
  sv_user :: "string option"
  sv_environment :: "(string \<times> string) list"

datatype activation_error = ServiceUnknown string | ExecFailed string | TimedOut string

definition activation_error_text :: "activation_error \<Rightarrow> string" where
  "activation_error_text e =
     (case e of
        ServiceUnknown n \<Rightarrow> ''service unknown: '' @ n
      | ExecFailed m \<Rightarrow> ''exec failed: '' @ m
      | TimedOut n \<Rightarrow>
          ''activation timed out waiting for '' @ single_quoted n @ '' to appear on the bus'')"

type_synonym services = "(string \<times> service_def) list"

definition to_ascii_lowercase :: "char \<Rightarrow> char" where
  "to_ascii_lowercase c =
     (if 65 \<le> code_of c \<and> code_of c \<le> 90 then char_of (code_of c + 32) else c)"

definition eq_ignore_ascii_case :: "string \<Rightarrow> string \<Rightarrow> bool" where
  "eq_ignore_ascii_case s t \<longleftrightarrow> map to_ascii_lowercase s = map to_ascii_lowercase t"

text \<open>One line of a service file; the state is the section flag and the three values.\<close>

record ini_state =
  ini_name :: "string option"
  ini_exec :: "string option"
  ini_user :: "string option"
  in_section :: bool

definition ini_line :: "ini_state \<Rightarrow> string \<Rightarrow> ini_state" where
  "ini_line st line0 =
     (let line = trim line0 in
      if line = [] \<or> prefix ''#'' line \<or> prefix '';'' line then st
      else if prefix ''['' line \<and> suffix '']'' line then
        let sec = trim (take (length line - 2) (drop 1 line))
        in st\<lparr>in_section := eq_ignore_ascii_case sec ''D-BUS Service''\<rparr>
      else if in_section st then
        (case split_once CHR ''='' line of
           None \<Rightarrow> st
         | Some (k, v) \<Rightarrow>
             let key = trim k; val = trim v in
             if eq_ignore_ascii_case key ''Name'' then st\<lparr>ini_name := Some val\<rparr>
             else if eq_ignore_ascii_case key ''Exec'' then st\<lparr>ini_exec := Some val\<rparr>
             else if eq_ignore_ascii_case key ''User'' then st\<lparr>ini_user := Some val\<rparr>
             else st)
      else st)"

text \<open>
  The loop that splits the command line: \<open>current\<close> is the word being read.  A white space
  character may be several bytes long; it cannot start inside another character.
\<close>

function exec_words :: "bool \<Rightarrow> string \<Rightarrow> string \<Rightarrow> string list" where
  "exec_words in_quotes current s =
     (case s of
        [] \<Rightarrow> (if current \<noteq> [] then [current] else [])
      | c # r \<Rightarrow>
          if c = CHR 0x22 then exec_words (\<not> in_quotes) current r
          else (case if in_quotes then None else leading_whitespace s of
                  Some w \<Rightarrow>
                    (if current \<noteq> [] then [current] else []) @ exec_words in_quotes [] (drop (length w) s)
                | None \<Rightarrow> exec_words in_quotes (current @ [c]) r))"
  by pat_completeness auto

termination exec_words
  by (relation "measure (\<lambda>(q, cur, s). length s)")
    (auto dest!: leading_whitespace_Some simp: prefix_def split: if_splits)

declare exec_words.simps [simp del]

definition parse_ini_service :: "string \<Rightarrow> service_def option" where
  "parse_ini_service content =
     (let st = foldl ini_line \<lparr>ini_name = None, ini_exec = None, ini_user = None, in_section = False\<rparr>
                 (lines_of content)
      in case (ini_name st, ini_exec st) of
           (Some n, Some e) \<Rightarrow>
             (case exec_words False [] e of
                [] \<Rightarrow> None
              | bin # rest \<Rightarrow>
                  Some \<lparr>sv_name = n, sv_exec = bin, sv_args = rest, sv_user = ini_user st,
                        sv_environment = []\<rparr>)
         | _ \<Rightarrow> None)"

section \<open>The table\<close>

text \<open>An entry that cannot be read or parsed is skipped; a later one of a name replaces an earlier.\<close>

definition parse_service_file ::
  "(string \<Rightarrow> service_def option) \<Rightarrow> string \<times> string option \<Rightarrow> service_def option" where
  "parse_service_file parse_toml entry =
     (case entry of (f, contents) \<Rightarrow>
        if path_extension f = Some ''toml'' then Option.bind contents parse_toml
        else if path_extension f = Some ''service'' then Option.bind contents parse_ini_service
        else None)"

definition load_service ::
  "(string \<Rightarrow> service_def option) \<Rightarrow> string \<times> string option \<Rightarrow> services \<Rightarrow> services" where
  "load_service parse_toml entry sv =
     (case parse_service_file parse_toml entry of
        Some def \<Rightarrow> AList.update (sv_name def) def sv
      | None \<Rightarrow> sv)"

definition load_services ::
  "(string \<Rightarrow> service_def option) \<Rightarrow> (string \<times> string option) list option list \<Rightarrow> services" where
  "load_services parse_toml dirs =
     fold (load_service parse_toml) (concat (map (\<lambda>d. case d of Some es \<Rightarrow> es | None \<Rightarrow> []) dirs)) []"

definition is_activatable :: "services \<Rightarrow> string \<Rightarrow> bool" where
  "is_activatable sv n \<longleftrightarrow> map_of sv n \<noteq> None"

definition list_activatable_names :: "services \<Rightarrow> string list" where
  "list_activatable_names sv = map fst sv"

definition lookup_service :: "services \<Rightarrow> string \<Rightarrow> service_def option" where
  "lookup_service sv n = map_of sv n"

section \<open>Starting a service\<close>

datatype spawn_strategy = Direct | ViaLaunchHelper string

record spawn_command =
  cmd_program :: string
  cmd_args :: "string list"
  cmd_env :: "(string \<times> string) list"

record spawn_io =
  getpwnam :: "string \<Rightarrow> u32 option"
  current_uid :: u32
  start_process :: "spawn_command \<Rightarrow> string option"

definition resolve_uid :: "(string \<Rightarrow> u32 option) \<Rightarrow> string \<Rightarrow> u32 option" where
  "resolve_uid getpw usr =
     (case parse_uint (2 ^ 32) usr of
        Some n \<Rightarrow> Some (word_of_nat n)
      | None \<Rightarrow> if CHR 0x00 \<in> set usr then None else getpw usr)"

text \<open>The result of \<open>Command::spawn\<close>: an error text, or the command that now runs.\<close>

definition start :: "spawn_io \<Rightarrow> spawn_command \<Rightarrow> activation_error + spawn_command" where
  "start io cmd = (case start_process io cmd of Some e \<Rightarrow> Inl (ExecFailed e) | None \<Rightarrow> Inr cmd)"

definition spawn_env :: "(string \<times> string) list \<Rightarrow> service_def \<Rightarrow> (string \<times> string) list" where
  "spawn_env extra_env def =
     fold (\<lambda>(k, v). AList.update k v) (sv_environment def)
       (fold (\<lambda>(k, v). AList.update k v) extra_env [])"

definition spawn ::
  "spawn_io \<Rightarrow> services \<Rightarrow> string \<Rightarrow> (string \<times> string) list \<Rightarrow> spawn_strategy \<Rightarrow>
     activation_error + spawn_command" where
  "spawn io sv n extra_env strategy =
     (case lookup_service sv n of
        None \<Rightarrow> Inl (ServiceUnknown n)
      | Some def \<Rightarrow>
          (case strategy of
             ViaLaunchHelper helper \<Rightarrow>
               if sv_user def = None then
                 Inl (ExecFailed (''service '' @ single_quoted n @ '' has no `user =` set '' @
                   [CHR 0xE2, CHR 0x80, CHR 0x94] @ '' required for system-bus activation''))
               else start io \<lparr>cmd_program = helper, cmd_args = [n], cmd_env = []\<rparr>
           | Direct \<Rightarrow>
               let cmd = \<lparr>cmd_program = sv_exec def, cmd_args = sv_args def,
                          cmd_env = spawn_env extra_env def\<rparr> in
               (case sv_user def of
                  None \<Rightarrow> start io cmd
                | Some usr \<Rightarrow>
                    (case resolve_uid (getpwnam io) usr of
                       None \<Rightarrow> Inl (ExecFailed (''unknown user '' @ single_quoted usr))
                     | Some target_uid \<Rightarrow>
                         if target_uid \<noteq> current_uid io then
                           Inl (ExecFailed (''cannot activate '' @ single_quoted n @ '' as user '' @
                             single_quoted usr @
                             '': not running as that user and no launch helper configured for this bus''))
                         else start io cmd))))"

section \<open>The setuid helper\<close>

datatype helper_error =
    InvalidArgs | InvalidBusName string | ConfigInvalid string string | PermissionsInvalid string
  | ServiceNotFound string | NoUserConfigured string | UnknownUser string | SetupFailed string
  | HelperExecFailed string

fun exit_code :: "helper_error \<Rightarrow> int" where
  "exit_code InvalidArgs = 2"
| "exit_code (InvalidBusName _) = 3"
| "exit_code (ConfigInvalid _ _) = 4"
| "exit_code (PermissionsInvalid _) = 5"
| "exit_code (ServiceNotFound _) = 6"
| "exit_code (NoUserConfigured _) = 7"
| "exit_code (UnknownUser _) = 8"
| "exit_code (SetupFailed _) = 9"
| "exit_code (HelperExecFailed _) = 10"

definition parse_args :: "string list \<Rightarrow> helper_error + string" where
  "parse_args args =
     (case args of
        [n] \<Rightarrow> if n \<noteq> ''--help'' \<and> n \<noteq> ''-h'' \<and> n \<noteq> ''-?'' then Inr n else Inl InvalidArgs
      | _ \<Rightarrow> Inl InvalidArgs)"

definition check_permissions ::
  "string \<Rightarrow> u32 \<Rightarrow> u32 \<Rightarrow> (string \<Rightarrow> u32 option) \<Rightarrow> helper_error + unit" where
  "check_permissions dbus_user real_uid effective_uid resolve =
     (case resolve dbus_user of
        None \<Rightarrow> Inl (PermissionsInvalid (''cannot find user '' @ single_quoted dbus_user))
      | Some expected_uid \<Rightarrow>
          if real_uid \<noteq> expected_uid then
            Inl (PermissionsInvalid (''not invoked from user '' @ single_quoted dbus_user))
          else if effective_uid \<noteq> 0 then Inl (PermissionsInvalid ''not setuid root'')
          else Inr ())"

definition find_service :: "services \<Rightarrow> string \<Rightarrow> helper_error + service_def" where
  "find_service sv n =
     (case lookup_service sv n of
        None \<Rightarrow> Inl (ServiceNotFound n)
      | Some def \<Rightarrow>
          if sv_name def \<noteq> n then Inl (ServiceNotFound n)
          else if sv_user def = None then Inl (NoUserConfigured n)
          else Inr def)"

definition helper_service_dirs :: "string \<Rightarrow> string \<Rightarrow> string \<Rightarrow> string list" where
  "helper_service_dirs services_dir vendor_services_dir base =
     [services_dir, vendor_services_dir,
      path_join base ''share/dbus-1/system-services'', path_join base ''etc/dbus-1/system-services'',
      path_join base ''lib/dbus-1/system-services'', ''/etc/dbus-1/system-services'',
      ''/usr/share/dbus-1/system-services'', ''/usr/lib/dbus-1/system-services'']"

section \<open>Facts\<close>

text \<open>Every service of a loaded table is stored under its own name.\<close>

definition wf_services :: "services \<Rightarrow> bool" where
  "wf_services sv \<longleftrightarrow> distinct (map fst sv) \<and> (\<forall>n def. map_of sv n = Some def \<longrightarrow> sv_name def = n)"

lemma wf_services_update [wf_intros]:
  assumes "wf_services sv"
  shows "wf_services (AList.update (sv_name def) def sv)"
proof -
  have "sv_name d = n" if "map_of (AList.update (sv_name def) def sv) n = Some d" for n d
    using that assms unfolding wf_services_def by (cases "n = sv_name def") (simp_all add: update_conv')
  then show ?thesis
    using assms unfolding wf_services_def by (blast intro: distinct_update)
qed

lemma load_service_wf [wf_intros]: "wf_services sv \<Longrightarrow> wf_services (load_service parse_toml entry sv)"
  by (simp add: load_service_def wf_services_update split: option.split)

lemma load_services_wf: "wf_services (load_services parse_toml dirs)"
proof -
  have "wf_services sv \<Longrightarrow> wf_services (fold (load_service parse_toml) es sv)" for es sv
    by (induction es arbitrary: sv) (simp_all add: load_service_wf)
  moreover have "wf_services []"
    by (simp add: wf_services_def)
  ultimately show ?thesis
    unfolding load_services_def by blast
qed

lemma find_service_loaded:
  "wf_services sv \<Longrightarrow> find_service sv n = Inr def \<longleftrightarrow> map_of sv n = Some def \<and> sv_user def \<noteq> None"
  unfolding find_service_def lookup_service_def wf_services_def
  by (cases "map_of sv n") (auto simp del: map_of_eq_Some_iff)

text \<open>What \<open>spawn\<close> may run.\<close>

lemma start_Inr: "start io cmd = Inr c \<longleftrightarrow> c = cmd \<and> start_process io cmd = None"
  by (auto simp: start_def split: option.splits)

lemma spawn_Inr:
  "spawn io sv n env strategy = Inr cmd \<longleftrightarrow>
     (\<exists>def. map_of sv n = Some def \<and> start_process io cmd = None \<and>
        (case strategy of
           ViaLaunchHelper helper \<Rightarrow>
             sv_user def \<noteq> None \<and> cmd = \<lparr>cmd_program = helper, cmd_args = [n], cmd_env = []\<rparr>
         | Direct \<Rightarrow>
             (\<forall>usr. sv_user def = Some usr \<longrightarrow> resolve_uid (getpwnam io) usr = Some (current_uid io)) \<and>
             cmd = \<lparr>cmd_program = sv_exec def, cmd_args = sv_args def, cmd_env = spawn_env env def\<rparr>))"
  by (auto simp: spawn_def lookup_service_def start_Inr Let_def
      split: option.splits spawn_strategy.splits if_splits)

section \<open>Quoted command lines\<close>

definition quote_word :: "string \<Rightarrow> string" where
  "quote_word w = CHR 0x22 # w @ [CHR 0x22]"

lemma quote_not_whitespace [simp]: "leading_whitespace (CHR 0x22 # s) = None"
proof -
  have "\<not> prefix w (CHR 0x22 # s)" if "w \<in> set whitespace_chars" for w
    using whitespace_head [OF that] whitespace_not_Nil [OF that]
    by (cases w) (auto simp: graphic_def)
  then show ?thesis
    by (simp add: leading_whitespace_def find_None_iff)
qed

lemma leading_space [simp]: "leading_whitespace (CHR '' '' # r) = Some '' ''"
proof -
  have ws: "take 5 whitespace_chars = [[CHR 0x09], [CHR 0x0A], [CHR 0x0B], [CHR 0x0C], [CHR 0x0D]]"
    "drop 5 whitespace_chars = '' '' # drop 6 whitespace_chars"
    by code_simp+
  have "leading_whitespace (CHR '' '' # r) =
      find (\<lambda>w. prefix w (CHR '' '' # r)) (take 5 whitespace_chars @ drop 5 whitespace_chars)"
    by (simp add: leading_whitespace_def)
  then show ?thesis
    unfolding ws by simp
qed

lemma exec_words_quoted:
  "CHR 0x22 \<notin> set w \<Longrightarrow>
     exec_words True cur (w @ CHR 0x22 # r) = exec_words False (cur @ w) r"
proof (induction w arbitrary: cur)
  case Nil
  then show ?case by (subst exec_words.simps) simp
next
  case (Cons c w)
  then show ?case by (subst exec_words.simps) auto
qed

lemma exec_words_word:
  assumes "CHR 0x22 \<notin> set w" "w \<noteq> []"
  shows "exec_words False [] (quote_word w @ CHR '' '' # r) = w # exec_words False [] r"
    "exec_words False [] (quote_word w) = [w]"
proof -
  have "exec_words False w (CHR '' '' # r) = w # exec_words False [] r"
    using assms(2) by (subst exec_words.simps) simp
  moreover have "exec_words False w [] = [w]"
    using assms(2) by (subst exec_words.simps) simp
  ultimately show "exec_words False [] (quote_word w @ CHR '' '' # r) = w # exec_words False [] r"
    "exec_words False [] (quote_word w) = [w]"
    using assms(1) exec_words_quoted [of w "[]"]
    by (subst exec_words.simps, simp add: quote_word_def)+
qed

lemma exec_words_render:
  "\<forall>w \<in> set ws. CHR 0x22 \<notin> set w \<and> w \<noteq> [] \<Longrightarrow>
     exec_words False [] (join_with CHR '' '' (map quote_word ws)) = ws"
proof (induction ws rule: induct_list012)
  case 1
  then show ?case by (subst exec_words.simps) simp
qed (simp_all add: exec_words_word)

end
