(* ===== verification/Apparmor.thy ===== *)
theory Apparmor
  imports Utf8_Whitespace
begin

text \<open>
  \<open>oxibus-daemon/src/apparmor.rs\<close>: the mediation hook.  The kernel interface is the parameter
  \<open>apparmor\<close>: \<open>None\<close> when the library or the kernel support is missing, otherwise what
  \<open>aa_query_label\<close> answers for a perm and a query (\<open>None\<close> when the call fails).
  \<open>get_apparmor_lib\<close> makes it from what \<open>dlopen\<close>, \<open>dlsym\<close> and the functions of the library answer.
\<close>

type_synonym apparmor = "(u32 \<Rightarrow> u8 list \<Rightarrow> (bool \<times> bool) option) option"

definition AA_CLASS_DBUS :: u8 where "AA_CLASS_DBUS = 32"
definition AA_DBUS_SEND :: u32 where "AA_DBUS_SEND = 2"
definition AA_DBUS_RECEIVE :: u32 where "AA_DBUS_RECEIVE = 4"
definition AA_DBUS_BIND :: u32 where "AA_DBUS_BIND = 64"

text \<open>The functions of the library give a result, and what they wrote to \<open>allowed\<close> and \<open>audited\<close>.\<close>

record apparmor_io =
  aa_dlopen :: "string \<Rightarrow> bool"
  aa_dlsym :: "string \<Rightarrow> bool"
  aa_is_enabled :: int
  aa_query_label :: "u32 \<Rightarrow> u8 list \<Rightarrow> int \<times> int \<times> int"

definition query_answer :: "apparmor_io \<Rightarrow> u32 \<Rightarrow> u8 list \<Rightarrow> (bool \<times> bool) option" where
  "query_answer io perm query =
     (case aa_query_label io perm query of
        (rc, allowed, audited) \<Rightarrow> if rc = -1 then None else Some (allowed \<noteq> 0, audited \<noteq> 0))"

definition get_apparmor_lib :: "apparmor_io \<Rightarrow> apparmor" where
  "get_apparmor_lib io =
     (if \<not> (aa_dlopen io ''libapparmor.so.1'' \<or> aa_dlopen io ''libapparmor.so'') then None
      else if \<not> aa_dlsym io ''aa_is_enabled'' \<or> \<not> aa_dlsym io ''aa_query_label'' then None
      else if aa_is_enabled io = 0 then None
      else Some (query_answer io))"

definition get_self_label :: "string option \<Rightarrow> string" where
  "get_self_label current = (case current of Some s \<Rightarrow> trim s | None \<Rightarrow> ''unconfined'')"

definition query_label :: "apparmor \<Rightarrow> u32 \<Rightarrow> u8 list \<Rightarrow> (bool \<times> bool) option" where
  "query_label aa perm query = (case aa of None \<Rightarrow> Some (True, False) | Some q \<Rightarrow> q perm query)"

text \<open>The parts up to the last one that is given.\<close>

definition given_parts :: "string option list \<Rightarrow> string option list" where
  "given_parts parts = rev (dropWhile (\<lambda>p. p = None) (rev parts))"

definition part_bytes :: "string option \<Rightarrow> u8 list" where
  "part_bytes p = 0 # (case p of Some s \<Rightarrow> as_bytes s | None \<Rightarrow> [])"

definition build_query ::
  "string \<Rightarrow> string \<Rightarrow> string option \<Rightarrow> string option \<Rightarrow> string option \<Rightarrow> string option \<Rightarrow>
     string option \<Rightarrow> u8 list" where
  "build_query con bustype n dst_con path interface member =
     replicate 6 0 @ as_bytes con @ [0, AA_CLASS_DBUS] @ as_bytes bustype @
     concat (map part_bytes (given_parts [n, dst_con, path, interface, member]))"

text \<open>A query that fails lets the operation pass, as the code does.\<close>

definition check_permission ::
  "apparmor \<Rightarrow> u32 \<Rightarrow> string option \<Rightarrow> string option \<Rightarrow> string \<Rightarrow> string option \<Rightarrow> string option \<Rightarrow>
     string option \<Rightarrow> string option \<Rightarrow> bool" where
  "check_permission aa perm con dst_con bustype n path interface member =
     (if aa = None then True
      else
        let con = (case con of Some c \<Rightarrow> c | None \<Rightarrow> ''unconfined'') in
        if con = ''unconfined'' then True
        else case query_label aa perm (build_query con bustype n dst_con path interface member) of
               Some (allowed, _) \<Rightarrow> allowed
             | None \<Rightarrow> True)"

definition double_quoted :: "string \<Rightarrow> string" where
  "double_quoted s = CHR 0x22 # s @ [CHR 0x22]"

text \<open>
  What a denial hands to the audit log (\<open>log_avc\<close>), with the uid of the connection that was
  refused; nothing else is logged there.
\<close>

definition optional_field :: "string \<Rightarrow> string option \<Rightarrow> string" where
  "optional_field key x =
     (case x of Some s \<Rightarrow> CHR '' '' # key @ ''='' @ double_quoted s | None \<Rightarrow> [])"

definition avc_message ::
  "u32 \<Rightarrow> string option \<Rightarrow> string \<Rightarrow> string option \<Rightarrow> string option \<Rightarrow> string option \<Rightarrow>
     string option \<Rightarrow> string" where
  "avc_message perm dst_con bustype n path interface member =
     (let op = (if perm = AA_DBUS_BIND then ''dbus_bind'' else ''dbus_method_call'');
          info = (if perm = AA_DBUS_BIND then ''bind''
                  else if perm = AA_DBUS_SEND then ''send'' else ''receive'')
      in ''apparmor='' @ double_quoted ''DENIED'' @ '' operation='' @ double_quoted op @
         '' info='' @ double_quoted info @ '' bus='' @ double_quoted bustype @
         optional_field ''name'' n @ optional_field ''path'' path @
         optional_field ''interface'' interface @ optional_field ''member'' member @
         optional_field ''peer_label'' dst_con)"

definition audited_denial ::
  "apparmor \<Rightarrow> u32 \<Rightarrow> string option \<Rightarrow> string option \<Rightarrow> string \<Rightarrow> string option \<Rightarrow> string option \<Rightarrow>
     string option \<Rightarrow> string option \<Rightarrow> u32 \<Rightarrow> (u32 \<times> string) option" where
  "audited_denial aa perm con dst_con bustype n path interface member uid =
     (if check_permission aa perm con dst_con bustype n path interface member then None
      else Some (uid, avc_message perm dst_con bustype n path interface member))"

lemma check_permission_disabled [simp]: "check_permission None perm con dst bus n p i m"
  by (simp add: check_permission_def)

text \<open>
  A confined connection passes exactly when the kernel allows the query, or cannot answer it.
\<close>

lemma check_permission_confined:
  "con \<noteq> ''unconfined'' \<Longrightarrow>
     check_permission (Some q) perm (Some con) dst bus n p i m \<longleftrightarrow>
       (case q perm (build_query con bus n dst p i m) of Some (allowed, _) \<Rightarrow> allowed | None \<Rightarrow> True)"
  by (simp add: check_permission_def query_label_def)

text \<open>
  An operation is refused only if the library is there, enabled in the kernel, and says so of a
  confined connection.
\<close>

lemma refused_by_the_kernel:
  "\<not> check_permission (get_apparmor_lib io) perm con dst bus n p i m \<longleftrightarrow>
     (aa_dlopen io ''libapparmor.so.1'' \<or> aa_dlopen io ''libapparmor.so'') \<and>
     aa_dlsym io ''aa_is_enabled'' \<and> aa_dlsym io ''aa_query_label'' \<and> aa_is_enabled io \<noteq> 0 \<and>
     (\<exists>c rc audited. con = Some c \<and> c \<noteq> ''unconfined'' \<and> rc \<noteq> -1 \<and>
        aa_query_label io perm (build_query c bus n dst p i m) = (rc, 0, audited))"
  by (cases con; cases "aa_query_label io perm (build_query (the con) bus n dst p i m)")
     (auto simp: check_permission_def get_apparmor_lib_def query_label_def query_answer_def)

lemma check_permission_unconfined: "check_permission aa perm None dst bus n p i m"
  by (simp add: check_permission_def)

end
