(* ===== verification/Bus.thy ===== *)
theory Bus
  imports Config Activation Apparmor Policy_Xml Auth_Server
begin

text \<open>
  \<open>oxibus-daemon/src/bus.rs\<close> and \<open>stats.rs\<close>: the state that the handlers of all connections
  share, and the primitive effects of a handler on it.

  A handler runs to its end as one step, except where it waits for an activated service: what
  the other connections do meanwhile is in the parts \<open>polls\<close> and \<open>resumed\<close> of \<open>bus_io\<close>, the
  states that the handler finds at its checks and after the wait.  Three parts of the state
  are the running handler's own: what it has written to connections, in order (\<open>outbox\<close>), what
  it has handed to tasks spawned for monitors (\<open>tasks\<close>), and the processes it has started
  (\<open>started\<close>).  \<open>bu_pending\<close> holds the peers of the handlers still in their handshake.
  A write either goes out whole or fails (\<open>write_io\<close>); \<open>Transport\<close> looks into it.
\<close>

section \<open>Statistics\<close>

record stats =
  messages_routed :: u64
  bytes_routed :: u64
  signals_delivered :: u64
  activations_started :: u64
  policy_denials :: u64

definition stats_default :: stats where
  "stats_default =
     \<lparr>messages_routed = 0, bytes_routed = 0, signals_delivered = 0, activations_started = 0,
      policy_denials = 0\<rparr>"

definition record_routed :: "u64 \<Rightarrow> stats \<Rightarrow> stats" where
  "record_routed bytes s =
     s\<lparr>messages_routed := messages_routed s + 1, bytes_routed := bytes_routed s + bytes\<rparr>"

definition record_signal :: "stats \<Rightarrow> stats" where
  "record_signal s = s\<lparr>signals_delivered := signals_delivered s + 1\<rparr>"

definition record_activation :: "stats \<Rightarrow> stats" where
  "record_activation s = s\<lparr>activations_started := activations_started s + 1\<rparr>"

definition record_denial :: "stats \<Rightarrow> stats" where
  "record_denial s = s\<lparr>policy_denials := policy_denials s + 1\<rparr>"

section \<open>The bus\<close>

datatype bus_kind = System | Session

record bus =
  bu_kind :: bus_kind
  bu_config :: global_config
  bu_registry :: registry
  bu_policy :: policy
  bu_activation :: services
  bu_stats :: stats
  bu_guid :: string
  bu_env :: "(string \<times> string) list"
  bu_serial :: u32
  bu_pending :: "peer_credentials list"
  outbox :: "(string \<times> message) list"
  tasks :: "(string \<times> message) list"
  started :: "spawn_command list"

text \<open>
  The environment of a handler: the user database, the kernel's access control, whether a
  write of these bytes to that connection succeeds, processes, the clock, and the states of
  the bus that a waiting handler sees.
\<close>

record bus_io =
  identity_of :: "u32 \<Rightarrow> policy_identity"
  kernel_mac :: apparmor
  write_io :: "string \<Rightarrow> u8 list \<Rightarrow> bool"
  processes :: spawn_io
  helper_exists :: bool
  uptime_secs :: u64
  polls :: "bus list"
  resumed :: bus

section \<open>Setting it up\<close>

definition policy_dirs :: "bus_kind \<Rightarrow> global_config \<Rightarrow> string list" where
  "policy_dirs k cfg =
     (let base = pc_prefix (cfg_paths cfg) in
      [pc_policy_dir (cfg_paths cfg)] @
      (if k = System then
         [path_join base ''share/dbus-1/system.d'', path_join base ''etc/dbus-1/system.d'',
          ''/etc/dbus-1/system.d'', ''/usr/share/dbus-1/system.d'']
       else []))"

definition service_dirs :: "bus_kind \<Rightarrow> global_config \<Rightarrow> string list" where
  "service_dirs k cfg =
     (let base = pc_prefix (cfg_paths cfg) in
      [pc_services_dir (cfg_paths cfg), pc_vendor_services_dir (cfg_paths cfg)] @
      (case k of
         System \<Rightarrow>
           [path_join base ''share/dbus-1/system-services'',
            path_join base ''etc/dbus-1/system-services'',
            path_join base ''lib/dbus-1/system-services'',
            ''/etc/dbus-1/system-services'', ''/usr/share/dbus-1/system-services'',
            ''/usr/lib/dbus-1/system-services'']
       | Session \<Rightarrow>
           [path_join base ''share/dbus-1/services'',
            path_join base ''etc/dbus-1/services'',
            path_join base ''lib/dbus-1/services'',
            ''/etc/dbus-1/services'', ''/usr/share/dbus-1/services'',
            ''/usr/lib/dbus-1/services'']))"

text \<open>The characters of a text, for the XML parser (\<open>str::chars\<close> on valid UTF-8).\<close>

fun decode_codes :: "nat list \<Rightarrow> chars" where
  "decode_codes [] = []"
| "decode_codes (a # s) =
     (if a < 0x80 then a # decode_codes s
      else if a < 0xE0 then
        (case s of b # s' \<Rightarrow> ((a mod 0x20) * 0x40 + b mod 0x40) # decode_codes s' | _ \<Rightarrow> [])
      else if a < 0xF0 then
        (case s of b # c # s' \<Rightarrow>
           ((a mod 0x10) * 0x1000 + (b mod 0x40) * 0x40 + c mod 0x40) # decode_codes s' | _ \<Rightarrow> [])
      else
        (case s of b # c # d # s' \<Rightarrow>
           ((a mod 8) * 0x40000 + (b mod 0x40) * 0x1000 + (c mod 0x40) * 0x40 + d mod 0x40) #
             decode_codes s' | _ \<Rightarrow> []))"

definition chars_of_str :: "string \<Rightarrow> chars" where
  "chars_of_str s = decode_codes (map of_char s)"

text \<open>What the daemon reads when it starts or reloads; the TOML parsers are parameters.\<close>

record load_io =
  toml_policy :: "string \<Rightarrow> policy option"
  toml_service :: "string \<Rightarrow> service_def option"
  list_policy_dir :: "string \<Rightarrow> policy_dir"
  list_service_dir :: "string \<Rightarrow> (string \<times> string option) list option"

definition load_policy :: "load_io \<Rightarrow> bus_kind \<Rightarrow> global_config \<Rightarrow> policy core_result" where
  "load_policy io k cfg =
     load_dirs (toml_policy io) (\<lambda>s. parse_xml_policy (chars_of_str s))
       (map (list_policy_dir io) (policy_dirs k cfg))"

definition bus_new :: "load_io \<Rightarrow> string \<Rightarrow> bus_kind \<Rightarrow> global_config \<Rightarrow> bus" where
  "bus_new io new_guid k cfg =
     \<lparr>bu_kind = k, bu_config = cfg, bu_registry = registry_new,
      bu_policy = (case load_policy io k cfg of Inr p \<Rightarrow> p | Inl _ \<Rightarrow> []),
      bu_activation =
        load_services (toml_service io) (map (list_service_dir io) (service_dirs k cfg)),
      bu_stats = stats_default, bu_guid = new_guid, bu_env = [], bu_serial = 1, bu_pending = [],
      outbox = [], tasks = [], started = []\<rparr>"

definition set_guid :: "string \<Rightarrow> bus \<Rightarrow> bus" where
  "set_guid g b = b\<lparr>bu_guid := g\<rparr>"

definition bus_allow_anonymous :: "bus \<Rightarrow> bool" where
  "bus_allow_anonymous b =
     (case bu_kind b of
        System \<Rightarrow> bs_allow_anonymous (bc_system (cfg_bus (bu_config b)))
      | Session \<Rightarrow> bn_allow_anonymous (bc_session (cfg_bus (bu_config b))))"

definition auth_mechanisms :: "bus \<Rightarrow> mechanism list" where
  "auth_mechanisms b =
     List.map_filter mechanism_parse
       (case bu_kind b of
          System \<Rightarrow> bs_auth_mechanisms (bc_system (cfg_bus (bu_config b)))
        | Session \<Rightarrow> bn_auth_mechanisms (bc_session (cfg_bus (bu_config b))))"

text \<open>A reload that fails keeps the old policy.\<close>

definition reload_policy :: "load_io \<Rightarrow> bus \<Rightarrow> bus" where
  "reload_policy io b =
     (case load_policy io (bu_kind b) (bu_config b) of
        Inr p \<Rightarrow> b\<lparr>bu_policy := p\<rparr>
      | Inl _ \<Rightarrow> b)"

section \<open>Effects\<close>

definition map_registry :: "(registry \<Rightarrow> registry) \<Rightarrow> bus \<Rightarrow> bus" where
  "map_registry f b = b\<lparr>bu_registry := f (bu_registry b)\<rparr>"

definition map_stats :: "(stats \<Rightarrow> stats) \<Rightarrow> bus \<Rightarrow> bus" where
  "map_stats f b = b\<lparr>bu_stats := f (bu_stats b)\<rparr>"

text \<open>\<open>writer.write_message\<close>: a message that has no encoding is an error of the write.\<close>

definition write_message :: "bus_io \<Rightarrow> string \<Rightarrow> message \<Rightarrow> bus \<Rightarrow> bool \<times> bus" where
  "write_message io n msg b =
     (case to_bytes msg of
        Inr bs \<Rightarrow> if write_io io n bs then (True, b\<lparr>outbox := outbox b @ [(n, msg)]\<rparr>) else (False, b)
      | Inl _ \<Rightarrow> (False, b))"

definition routed_bytes :: "message \<Rightarrow> u64" where
  "routed_bytes msg = (case to_bytes msg of Inr bs \<Rightarrow> word_of_nat (length bs) | Inl _ \<Rightarrow> 0)"

definition driver_serial :: "bus \<Rightarrow> u32 \<times> bus" where
  "driver_serial b = (case serial_next (bu_serial b) of (s, g) \<Rightarrow> (s, b\<lparr>bu_serial := g\<rparr>))"

text \<open>The state the others have made of the bus, with what this handler has written so far.\<close>

definition take_snapshot :: "bus \<Rightarrow> bus \<Rightarrow> bus" where
  "take_snapshot b s = s\<lparr>outbox := outbox b, tasks := tasks b, started := started b\<rparr>"

definition bustype :: "bus \<Rightarrow> string" where
  "bustype b = (case bu_kind b of System \<Rightarrow> ''system'' | Session \<Rightarrow> ''session'')"

end
