(* ===== verification/Driver.thy ===== *)
theory Driver
  imports Bus
begin

text \<open>
  \<open>oxibus-daemon/src/driver.rs\<close>: the methods of the bus itself.  A handler gets the entry of the
  caller as it was when the message arrived; its locked fields are only ever changed by the
  caller's own handler, so reading them there or in the table is the same.  Changes go to the
  table.
\<close>

section \<open>Results and arguments\<close>

record driver_error =
  de_name :: string
  de_message :: string

type_synonym driver_result = "driver_error + dvalue list"

record driver_outcome =
  do_result :: driver_result
  name_owner_changes :: "name_owner_change list"

definition ok_outcome :: "dvalue list \<Rightarrow> name_owner_change list \<Rightarrow> driver_outcome" where
  "ok_outcome vs changes = \<lparr>do_result = Inr vs, name_owner_changes = changes\<rparr>"

definition err_outcome :: "driver_error \<Rightarrow> driver_outcome" where
  "err_outcome e = \<lparr>do_result = Inl e, name_owner_changes = []\<rparr>"

definition driver_error_new :: "string \<Rightarrow> string \<Rightarrow> driver_error" where
  "driver_error_new n m = \<lparr>de_name = n, de_message = m\<rparr>"

definition invalid_args :: "string \<Rightarrow> driver_error" where
  "invalid_args m = driver_error_new ERR_INVALID_ARGS m"

definition arg :: "dvalue list \<Rightarrow> nat \<Rightarrow> dvalue option" where
  "arg args i = (if i < length args then Some (args ! i) else None)"

definition arg_str :: "dvalue list \<Rightarrow> nat \<Rightarrow> driver_error + string" where
  "arg_str args i =
     (case Option.bind (arg args i) (\<lambda>v. value_as_str (unwrap_variant v)) of
        Some s \<Rightarrow> Inr s
      | None \<Rightarrow> Inl (invalid_args (''expected string argument '' @ show_nat i)))"

definition arg_u32 :: "dvalue list \<Rightarrow> nat \<Rightarrow> driver_error + u32" where
  "arg_u32 args i =
     (case map_option unwrap_variant (arg args i) of
        Some (VUInt32 v) \<Rightarrow> Inr v
      | _ \<Rightarrow> Inl (invalid_args (''expected uint32 argument '' @ show_nat i)))"

definition validate_bus_name :: "string \<Rightarrow> bool \<Rightarrow> driver_error + unit" where
  "validate_bus_name n allow_unique =
     (let valid = (if prefix '':'' n then allow_unique \<and> is_valid_bus_name n
                   else is_valid_bus_name n)
      in if valid then Inr () else Inl (invalid_args (''invalid bus name '' @ single_quoted n)))"

definition string_array :: "string list \<Rightarrow> dvalue" where
  "string_array items = VArray TString (map VString items)"

text \<open>\<open>Err(e) => return err(e)\<close>: the handler goes on with the argument, or ends with the error.\<close>

definition with_checked ::
  "driver_error + 'a \<Rightarrow> bus \<Rightarrow> ('a \<Rightarrow> driver_outcome \<times> bus) \<Rightarrow> driver_outcome \<times> bus" where
  "with_checked r b f = (case r of Inl e \<Rightarrow> (err_outcome e, b) | Inr a \<Rightarrow> f a)"

section \<open>Names\<close>

definition handle_hello :: "connection_entry \<Rightarrow> bus \<Rightarrow> driver_outcome \<times> bus" where
  "handle_hello caller b =
     (let b' = map_registry (update_connection (unique_name caller)
                 (\<lambda>c. c\<lparr>is_registered := True\<rparr>)) b
      in if is_registered caller then
           (err_outcome (driver_error_new ERR_FAILED ''Already handled an Hello message''), b')
         else
           (ok_outcome [VString (unique_name caller)]
              [\<lparr>noc_name = unique_name caller, noc_old_owner = None,
                noc_new_owner = Some (unique_name caller)\<rparr>], b'))"

text \<open>What \<open>RequestName\<close> checks before it touches the registry.\<close>

definition denied :: "bus \<Rightarrow> string \<Rightarrow> driver_outcome \<times> bus" where
  "denied b m =
     (err_outcome (driver_error_new ERR_ACCESS_DENIED m), map_stats record_denial b)"

definition handle_request_name ::
  "bus_io \<Rightarrow> connection_entry \<Rightarrow> dvalue list \<Rightarrow> bus \<Rightarrow> driver_outcome \<times> bus" where
  "handle_request_name io caller args b =
     with_checked (arg_str args 0) b (\<lambda>n.
     with_checked (validate_bus_name n False) b (\<lambda>_.
     with_checked (arg_u32 args 1) b (\<lambda>flags.
       if \<not> can_own (bu_policy b) (identity_of io (uid (credentials caller))) n then
         denied b (''Connection is not allowed to own the name '' @ double_quoted n)
       else if \<not> check_permission (kernel_mac io) AA_DBUS_BIND (security_label caller) None
                   (bustype b) (Some n) None None None then
         denied b (''AppArmor mediation denied owning the name '' @ double_quoted n)
       else
         let max_names = unat (lim_max_names_per_connection (cfg_limits (bu_config b))) in
         if names_held_by (bu_registry b) (unique_name caller) \<ge> max_names then
           (err_outcome (driver_error_new ERR_LIMITS_EXCEEDED
              (''Connection has reached the maximum of '' @ show_nat max_names @
               '' owned/queued names'')), b)
         else
           (case request_name (unique_name caller) n flags (bu_registry b) of
              ((code, changes), r) \<Rightarrow>
                (ok_outcome [VUInt32 code] changes, b\<lparr>bu_registry := r\<rparr>)))))"

definition handle_release_name ::
  "connection_entry \<Rightarrow> dvalue list \<Rightarrow> bus \<Rightarrow> driver_outcome \<times> bus" where
  "handle_release_name caller args b =
     with_checked (arg_str args 0) b (\<lambda>n.
       case release_name (unique_name caller) n (bu_registry b) of
         ((code, changes), r) \<Rightarrow> (ok_outcome [VUInt32 code] changes, b\<lparr>bu_registry := r\<rparr>))"

definition handle_name_has_owner :: "dvalue list \<Rightarrow> bus \<Rightarrow> driver_outcome \<times> bus" where
  "handle_name_has_owner args b =
     (case Option.bind (arg args 0) value_as_str of
        Some n \<Rightarrow> (ok_outcome [VBoolean (name_has_owner (bu_registry b) n)] [], b)
      | None \<Rightarrow> (err_outcome (invalid_args ''NameHasOwner needs a name''), b))"

definition handle_get_name_owner :: "dvalue list \<Rightarrow> bus \<Rightarrow> driver_outcome \<times> bus" where
  "handle_get_name_owner args b =
     with_checked (arg_str args 0) b (\<lambda>n.
       case get_name_owner (bu_registry b) n of
         Some owner \<Rightarrow> (ok_outcome [VString owner] [], b)
       | None \<Rightarrow>
           (err_outcome (driver_error_new ERR_NAME_HAS_NO_OWNER
              (''Could not get owner of name '' @ single_quoted n @ '': no such name'')), b))"

definition handle_list_queued_owners :: "dvalue list \<Rightarrow> bus \<Rightarrow> driver_outcome \<times> bus" where
  "handle_list_queued_owners args b =
     with_checked (arg_str args 0) b (\<lambda>n.
       (ok_outcome [string_array (list_queued_owners (bu_registry b) n)] [], b))"

section \<open>Activation\<close>

text \<open>
  The loop that polls until the deadline: \<open>polls\<close> are the states found at its checks, none if
  the deadline has passed before the first.
\<close>

fun wait_for :: "string \<Rightarrow> bus list \<Rightarrow> bus \<Rightarrow> (activation_error + unit) \<times> bus" where
  "wait_for n [] b = (Inl (TimedOut n), b)"
| "wait_for n (s # ss) b =
     (let b' = take_snapshot b s
      in if name_has_owner (bu_registry b') n then (Inr (), b') else wait_for n ss b')"

definition activate_and_wait ::
  "bus_io \<Rightarrow> string \<Rightarrow> bus \<Rightarrow> (activation_error + unit) \<times> bus" where
  "activate_and_wait io n b =
     (let helper_path = launch_helper_path (cfg_paths (bu_config b));
          strategy = (if bu_kind b = System \<and> helper_exists io then ViaLaunchHelper helper_path
                      else Direct)
      in case spawn (processes io) (bu_activation b) n (bu_env b) strategy of
           Inl e \<Rightarrow> (Inl e, b)
         | Inr cmd \<Rightarrow>
             wait_for n (polls io) (map_stats record_activation (b\<lparr>started := started b @ [cmd]\<rparr>)))"

definition START_REPLY_SUCCESS :: u32 where "START_REPLY_SUCCESS = 1"
definition START_REPLY_ALREADY_RUNNING :: u32 where "START_REPLY_ALREADY_RUNNING = 2"

definition handle_start_service :: "bus_io \<Rightarrow> dvalue list \<Rightarrow> bus \<Rightarrow> driver_outcome \<times> bus" where
  "handle_start_service io args b =
     with_checked (arg_str args 0) b (\<lambda>n.
       if name_has_owner (bu_registry b) n then
         (ok_outcome [VUInt32 START_REPLY_ALREADY_RUNNING] [], b)
       else if \<not> is_activatable (bu_activation b) n then
         (err_outcome (driver_error_new ERR_SERVICE_UNKNOWN
            (''The name '' @ n @ '' was not provided by any .service files'')), b)
       else (case activate_and_wait io n b of
               (Inr _, b') \<Rightarrow> (ok_outcome [VUInt32 START_REPLY_SUCCESS] [], b')
             | (Inl e, b') \<Rightarrow>
                 (err_outcome (driver_error_new ERR_SPAWN_EXEC_FAILED (activation_error_text e)), b')))"

section \<open>Match rules\<close>

definition set_match_rules :: "string \<Rightarrow> match_rule list \<Rightarrow> bus \<Rightarrow> bus" where
  "set_match_rules n rules b =
     map_registry (update_connection n (\<lambda>c. c\<lparr>match_rules := rules\<rparr>)) b"

definition handle_add_match ::
  "connection_entry \<Rightarrow> dvalue list \<Rightarrow> bus \<Rightarrow> driver_outcome \<times> bus" where
  "handle_add_match caller args b =
     with_checked (arg_str args 0) b (\<lambda>rule_str.
       let max_rules = unat (lim_max_match_rules_per_connection (cfg_limits (bu_config b))) in
       if length (match_rules caller) \<ge> max_rules then
         (err_outcome (driver_error_new ERR_LIMITS_EXCEEDED
            (''Connection has reached the maximum of '' @ show_nat max_rules @ '' match rules'')), b)
       else (case parse_match_rule rule_str of
               Inr rule \<Rightarrow>
                 (ok_outcome [] [], set_match_rules (unique_name caller) (match_rules caller @ [rule]) b)
             | Inl m \<Rightarrow> (err_outcome (driver_error_new ERR_MATCH_RULE_INVALID m), b)))"

definition handle_remove_match ::
  "connection_entry \<Rightarrow> dvalue list \<Rightarrow> bus \<Rightarrow> driver_outcome \<times> bus" where
  "handle_remove_match caller args b =
     with_checked (arg_str args 0) b (\<lambda>rule_str.
       let before = length (match_rules caller);
           rules = filter (\<lambda>r. mr_raw r \<noteq> rule_str) (match_rules caller);
           b' = set_match_rules (unique_name caller) rules b
       in if length rules = before then
            (err_outcome (driver_error_new ERR_MATCH_RULE_NOT_FOUND
               (''The given match rule wasn'' @ [CHR 0x27] @ ''t found and can'' @ [CHR 0x27] @
                ''t be removed'')), b')
          else (ok_outcome [] [], b'))"

section \<open>Questions about connections\<close>

definition resolve_connection :: "bus \<Rightarrow> string \<Rightarrow> connection_entry option" where
  "resolve_connection b n =
     Option.bind (get_name_owner (bu_registry b) n) (get_connection (bu_registry b))"

definition no_owner_error :: "string \<Rightarrow> driver_outcome" where
  "no_owner_error n =
     err_outcome (driver_error_new ERR_NAME_HAS_NO_OWNER
       (''Could not get UID of name '' @ single_quoted n @ '': no such name''))"

definition pid_u32 :: "connection_entry \<Rightarrow> u32" where
  "pid_u32 c = word_of_int (max (pid (credentials c)) 0)"

definition about_connection ::
  "(connection_entry \<Rightarrow> dvalue) \<Rightarrow> dvalue list \<Rightarrow> bus \<Rightarrow> driver_outcome \<times> bus" where
  "about_connection f args b =
     with_checked (arg_str args 0) b (\<lambda>n.
       case resolve_connection b n of
         Some c \<Rightarrow> (ok_outcome [f c] [], b)
       | None \<Rightarrow> (no_owner_error n, b))"

definition handle_get_conn_uid :: "dvalue list \<Rightarrow> bus \<Rightarrow> driver_outcome \<times> bus" where
  "handle_get_conn_uid = about_connection (\<lambda>c. VUInt32 (uid (credentials c)))"

definition handle_get_conn_pid :: "dvalue list \<Rightarrow> bus \<Rightarrow> driver_outcome \<times> bus" where
  "handle_get_conn_pid = about_connection (\<lambda>c. VUInt32 (pid_u32 c))"

definition credentials_dict :: "connection_entry \<Rightarrow> dvalue" where
  "credentials_dict c =
     VArray (TDictEntry TString TVariant)
       [VDictEntry (VString ''UnixUserID'') (VVariant (VUInt32 (uid (credentials c)))),
        VDictEntry (VString ''ProcessID'') (VVariant (VUInt32 (pid_u32 c)))]"

definition handle_get_conn_credentials :: "dvalue list \<Rightarrow> bus \<Rightarrow> driver_outcome \<times> bus" where
  "handle_get_conn_credentials = about_connection credentials_dict"

section \<open>The activation environment\<close>

fun env_insert :: "dvalue \<Rightarrow> (string \<times> string) list \<Rightarrow> (string \<times> string) list" where
  "env_insert (VDictEntry k v) env =
     (case (value_as_str k, value_as_str v) of
        (Some key, Some val) \<Rightarrow> AList.update key val env
      | _ \<Rightarrow> env)"
| "env_insert _ env = env"

definition handle_update_activation_env :: "dvalue list \<Rightarrow> bus \<Rightarrow> driver_outcome \<times> bus" where
  "handle_update_activation_env args b =
     (if bu_kind b = System then
        (err_outcome (driver_error_new ERR_ACCESS_DENIED
           ''Cannot change activation environment on a system bus.''), b)
      else (case map_option unwrap_variant (arg args 0) of
              Some (VArray _ elements) \<Rightarrow>
                (ok_outcome [] [], b\<lparr>bu_env := fold env_insert elements (bu_env b)\<rparr>)
            | _ \<Rightarrow> (err_outcome (invalid_args ''expected a{ss} environment map''), b)))"

section \<open>The method table\<close>

definition handle ::
  "bus_io \<Rightarrow> connection_entry \<Rightarrow> string \<Rightarrow> dvalue list \<Rightarrow> bus \<Rightarrow> driver_outcome \<times> bus" where
  "handle io caller member args b =
     (if member = ''Hello'' then handle_hello caller b
      else if member = ''RequestName'' then handle_request_name io caller args b
      else if member = ''ReleaseName'' then handle_release_name caller args b
      else if member = ''ListNames'' then
        (ok_outcome [string_array (list_names (bu_registry b))] [], b)
      else if member = ''ListActivatableNames'' then
        (ok_outcome [string_array (list_activatable_names (bu_activation b))] [], b)
      else if member = ''NameHasOwner'' then handle_name_has_owner args b
      else if member = ''GetNameOwner'' then handle_get_name_owner args b
      else if member = ''ListQueuedOwners'' then handle_list_queued_owners args b
      else if member = ''StartServiceByName'' then handle_start_service io args b
      else if member = ''AddMatch'' then handle_add_match caller args b
      else if member = ''RemoveMatch'' then handle_remove_match caller args b
      else if member = ''GetConnectionUnixUser'' then handle_get_conn_uid args b
      else if member = ''GetConnectionUnixProcessID'' then handle_get_conn_pid args b
      else if member = ''GetConnectionCredentials'' then handle_get_conn_credentials args b
      else if member = ''GetId'' then (ok_outcome [VString (bu_guid b)] [], b)
      else if member = ''UpdateActivationEnvironment'' then handle_update_activation_env args b
      else if member = ''ReloadConfig'' then (ok_outcome [] [], b)
      else
        (err_outcome (driver_error_new ERR_UNKNOWN_METHOD
           (''org.freedesktop.DBus has no method '' @ double_quoted member)), b))"

end
