(* ===== verification/Dispatch.thy ===== *)
theory Dispatch
  imports Driver
begin

text \<open>
  \<open>oxibus-daemon/src/dispatch.rs\<close>: what the bus does with a message that a connection has sent.
  Signals are broadcast by match rules or passed to their destination, replies are passed on,
  method calls go to the driver or to the owner of their destination, which is started first
  if it is activatable.
\<close>

section \<open>Messages of the bus\<close>

definition bus_path :: object_path where
  "bus_path = projr (object_path_new BUS_PATH)"

definition bus_signal :: "string \<Rightarrow> dvalue list \<Rightarrow> message_builder" where
  "bus_signal member args =
     with_args args (with_sender BUS_NAME (build_signal bus_path BUS_INTERFACE member))"

text \<open>\<open>reply_error\<close> of the code.\<close>

definition send_error ::
  "bus_io \<Rightarrow> connection_entry \<Rightarrow> message \<Rightarrow> string \<Rightarrow> string \<Rightarrow> bus \<Rightarrow> bus" where
  "send_error io sender call error_name m b =
     (if message_no_reply_expected call then b
      else case driver_serial b of
        (s, b) \<Rightarrow>
          let out = build s (with_arg (VString m) (with_sender BUS_NAME (reply_to call (Some error_name))))
          in snd (write_message io (unique_name sender) out b))"

definition send_unicast_driver_signal ::
  "bus_io \<Rightarrow> string \<Rightarrow> string \<Rightarrow> string \<Rightarrow> bus \<Rightarrow> bus" where
  "send_unicast_driver_signal io dest member n b =
     (case get_connection (bu_registry b) dest of
        None \<Rightarrow> b
      | Some conn \<Rightarrow>
          (case driver_serial b of
             (s, b) \<Rightarrow>
               let signal = build s (with_args [VString n]
                     (with_destination dest (with_sender BUS_NAME
                       (build_signal bus_path BUS_INTERFACE member))))
               in snd (write_message io (unique_name conn) signal b)))"

section \<open>Access\<close>

definition identity :: "bus_io \<Rightarrow> connection_entry \<Rightarrow> policy_identity" where
  "identity io c = identity_of io (uid (credentials c))"

text \<open>The mediation query about a message: whose permission, the peer's label, the named party.\<close>

definition mac_allows ::
  "bus_io \<Rightarrow> bus \<Rightarrow> u32 \<Rightarrow> connection_entry \<Rightarrow> string option \<Rightarrow> message \<Rightarrow> bool" where
  "mac_allows io b perm c peer_label msg =
     check_permission (kernel_mac io) perm (security_label c) peer_label (bustype b)
       (m_destination msg) (map_option path_str (m_path msg)) (m_interface msg) (m_member msg)"

definition label_of :: "connection_entry option \<Rightarrow> string option" where
  "label_of c = Option.bind c security_label"

section \<open>Broadcasts\<close>

definition wants :: "bus \<Rightarrow> message \<Rightarrow> connection_entry \<Rightarrow> bool" where
  "wants b msg c \<longleftrightarrow>
     \<not> is_monitor c \<and> match_rules c \<noteq> [] \<and>
     list_ex (\<lambda>r. rule_matches r msg (get_name_owner (bu_registry b))) (match_rules c)"

definition may_receive :: "bus_io \<Rightarrow> bus \<Rightarrow> message \<Rightarrow> connection_entry \<Rightarrow> bool" where
  "may_receive io b msg c \<longleftrightarrow>
     can_receive (bu_policy b) (identity io c) msg (m_sender msg) \<and>
     mac_allows io b AA_DBUS_RECEIVE c
       (label_of (Option.bind (m_sender msg) (get_connection (bu_registry b)))) msg"

fun broadcast_loop ::
  "bus_io \<Rightarrow> message \<Rightarrow> bool \<Rightarrow> connection_entry list \<Rightarrow> bus \<Rightarrow> bus" where
  "broadcast_loop io msg enforce_policy [] b = b"
| "broadcast_loop io msg enforce_policy (c # cs) b =
     (if \<not> wants b msg c then broadcast_loop io msg enforce_policy cs b
      else if enforce_policy \<and> \<not> may_receive io b msg c then
        broadcast_loop io msg enforce_policy cs b
      else
        broadcast_loop io msg enforce_policy cs
          (map_stats record_signal (snd (write_message io (unique_name c) msg b))))"

definition broadcast_signal :: "bus_io \<Rightarrow> message \<Rightarrow> bool \<Rightarrow> bus \<Rightarrow> bus" where
  "broadcast_signal io msg enforce_policy b =
     broadcast_loop io msg enforce_policy (all_connections (bu_registry b)) b"

definition announce :: "bus_io \<Rightarrow> name_owner_change \<Rightarrow> bus \<Rightarrow> bus" where
  "announce io change b =
     (case driver_serial b of
        (s, b) \<Rightarrow>
          let signal = build s (bus_signal NAME_OWNER_CHANGED
                [VString (noc_name change), VString (or_empty (noc_old_owner change)),
                 VString (or_empty (noc_new_owner change))]);
              b = broadcast_signal io signal False b;
              b = (case noc_new_owner change of
                     Some new_owner \<Rightarrow> send_unicast_driver_signal io new_owner NAME_ACQUIRED (noc_name change) b
                   | None \<Rightarrow> b)
          in case noc_old_owner change of
               Some old_owner \<Rightarrow> send_unicast_driver_signal io old_owner NAME_LOST (noc_name change) b
             | None \<Rightarrow> b)"

definition broadcast_name_owner_changes :: "bus_io \<Rightarrow> name_owner_change list \<Rightarrow> bus \<Rightarrow> bus" where
  "broadcast_name_owner_changes io changes b = fold (announce io) changes b"

section \<open>Signals and replies\<close>

definition count_denial :: "bus \<Rightarrow> bus" where
  "count_denial b = map_stats record_denial b"

definition dispatch_signal :: "bus_io \<Rightarrow> connection_entry \<Rightarrow> message \<Rightarrow> bus \<Rightarrow> bus" where
  "dispatch_signal io sender msg b =
     (if \<not> can_send (bu_policy b) (identity io sender) msg (m_destination msg) then count_denial b
      else if \<not> mac_allows io b AA_DBUS_SEND sender None msg then count_denial b
      else case m_destination msg of
        Some dest \<Rightarrow>
          (case resolve_connection b dest of
             Some conn \<Rightarrow>
               map_stats record_signal (snd (write_message io (unique_name conn) msg b))
           | None \<Rightarrow> b)
      | None \<Rightarrow> broadcast_signal io msg True b)"

definition dispatch_reply :: "bus_io \<Rightarrow> message \<Rightarrow> bus \<Rightarrow> bus" where
  "dispatch_reply io msg b =
     (case m_destination msg of
        None \<Rightarrow> b
      | Some dest \<Rightarrow>
          (case resolve_connection b dest of
             Some conn \<Rightarrow>
               map_stats (record_routed (routed_bytes msg))
                 (snd (write_message io (unique_name conn) msg b))
           | None \<Rightarrow> b))"

section \<open>The bus's other interfaces\<close>

definition driver_ok :: "dvalue list \<Rightarrow> driver_outcome" where
  "driver_ok vs = \<lparr>do_result = Inr vs, name_owner_changes = []\<rparr>"

definition driver_err :: "string \<Rightarrow> string \<Rightarrow> driver_outcome" where
  "driver_err n m = \<lparr>do_result = Inl \<lparr>de_name = n, de_message = m\<rparr>, name_owner_changes = []\<rparr>"

definition no_method :: "string \<Rightarrow> string \<Rightarrow> driver_outcome" where
  "no_method iface other =
     driver_err ERR_UNKNOWN_METHOD (iface @ '' has no method '' @ double_quoted other)"

definition dict_of_u32 :: "(string \<times> u32) list \<Rightarrow> dvalue" where
  "dict_of_u32 entries =
     VArray (TDictEntry TString TVariant)
       (map (\<lambda>(k, v). VDictEntry (VString k) (VVariant (VUInt32 v))) entries)"

definition stats_dict :: "bus_io \<Rightarrow> bus \<Rightarrow> dvalue" where
  "stats_dict io b =
     dict_of_u32
       [(''BusNames'', word_of_nat (length (list_names (bu_registry b)))),
        (''ActiveConnections'', word_of_nat (connection_count (bu_registry b))),
        (''MessagesRouted'', ucast (messages_routed (bu_stats b))),
        (''BytesRouted'', ucast (bytes_routed (bu_stats b))),
        (''SignalsDelivered'', ucast (signals_delivered (bu_stats b))),
        (''ActivationsStarted'', ucast (activations_started (bu_stats b))),
        (''PolicyDenials'', ucast (policy_denials (bu_stats b))),
        (''UptimeSeconds'', ucast (uptime_secs io))]"

definition connection_stats_dict :: "connection_entry \<Rightarrow> dvalue" where
  "connection_stats_dict c =
     dict_of_u32
       [(''UnixUserID'', uid (credentials c)), (''ProcessID'', pid_u32 c),
        (''MatchRules'', word_of_nat (length (match_rules c)))]"

definition get_connection_stats :: "dvalue list \<Rightarrow> bus \<Rightarrow> driver_outcome" where
  "get_connection_stats args b =
     (case Option.bind (arg args 0) value_as_str of
        Some n \<Rightarrow>
          (case resolve_connection b n of
             Some conn \<Rightarrow> driver_ok [connection_stats_dict conn]
           | None \<Rightarrow>
               driver_err ERR_NAME_HAS_NO_OWNER
                 (''Could not get stats for '' @ single_quoted n @ '': no such name''))
      | None \<Rightarrow> driver_err ERR_INVALID_ARGS ''GetConnectionStats needs a connection name'')"

text \<open>The rules a monitor asks for; those that do not parse are dropped, none means all.\<close>

definition monitor_rules :: "dvalue list \<Rightarrow> match_rule list" where
  "monitor_rules args =
     (let rules = (case map_option unwrap_variant (arg args 0) of
                     Some (VArray _ elements) \<Rightarrow> List.map_filter value_as_str elements
                   | _ \<Rightarrow> []);
          parsed = List.map_filter
            (\<lambda>r. case parse_match_rule r of Inr rule \<Rightarrow> Some rule | Inl _ \<Rightarrow> None) rules
      in if parsed = [] then
           [case parse_match_rule [] of Inr rule \<Rightarrow> rule | Inl _ \<Rightarrow> match_rule_default []]
         else parsed)"

definition become_monitor :: "connection_entry \<Rightarrow> dvalue list \<Rightarrow> bus \<Rightarrow> bus" where
  "become_monitor sender args b =
     map_registry
       (update_connection (unique_name sender)
          (\<lambda>c. c\<lparr>match_rules := monitor_rules args, is_monitor := True\<rparr>)) b"

definition xml_arg :: "string \<Rightarrow> string \<Rightarrow> string" where
  "xml_arg dir t =
     ''<arg '' @ (if dir = [] then [] else ''direction='' @ double_quoted dir @ '' '') @
     ''type='' @ double_quoted t @ ''/>''"

definition xml_member :: "string \<Rightarrow> string \<times> (string \<times> string) list \<Rightarrow> string" where
  "xml_member kind m =
     (case m of (n, args) \<Rightarrow>
        ''    <'' @ kind @ '' name='' @ double_quoted n @
        (if args = [] then ''/>''
         else ''>'' @ concat (map (\<lambda>(d, t). xml_arg d t) args) @ ''</'' @ kind @ ''>'') @ [CHR 0x0A])"

definition xml_interface ::
  "string \<Rightarrow> (string \<times> (string \<times> string) list) list \<Rightarrow> (string \<times> (string \<times> string) list) list \<Rightarrow>
     string" where
  "xml_interface n methods signals =
     ''  <interface name='' @ double_quoted n @ ''>'' @ [CHR 0x0A] @
     concat (map (xml_member ''method'') methods) @ concat (map (xml_member ''signal'') signals) @
     ''  </interface>'' @ [CHR 0x0A]"

definition driver_introspection_xml :: string where
  "driver_introspection_xml =
     ''<!DOCTYPE node PUBLIC '' @ double_quoted ''-//freedesktop//DTD D-BUS Object Introspection 1.0//EN'' @
     [CHR 0x0A] @ '' '' @
     double_quoted ''http://www.freedesktop.org/standards/dbus/1.0/introspect.dtd'' @ ''>'' @
     [CHR 0x0A] @ ''<node>'' @ [CHR 0x0A] @
     xml_interface BUS_INTERFACE
       [(''Hello'', [(''out'', ''s'')]),
        (''RequestName'', [(''in'', ''s''), (''in'', ''u''), (''out'', ''u'')]),
        (''ReleaseName'', [(''in'', ''s''), (''out'', ''u'')]),
        (''ListNames'', [(''out'', ''as'')]),
        (''ListActivatableNames'', [(''out'', ''as'')]),
        (''NameHasOwner'', [(''in'', ''s''), (''out'', ''b'')]),
        (''GetNameOwner'', [(''in'', ''s''), (''out'', ''s'')]),
        (''ListQueuedOwners'', [(''in'', ''s''), (''out'', ''as'')]),
        (''StartServiceByName'', [(''in'', ''s''), (''in'', ''u''), (''out'', ''u'')]),
        (''AddMatch'', [(''in'', ''s'')]),
        (''RemoveMatch'', [(''in'', ''s'')]),
        (''GetConnectionUnixUser'', [(''in'', ''s''), (''out'', ''u'')]),
        (''GetConnectionUnixProcessID'', [(''in'', ''s''), (''out'', ''u'')]),
        (''GetConnectionCredentials'', [(''in'', ''s''), (''out'', ''a{sv}'')]),
        (''GetId'', [(''out'', ''s'')]),
        (''UpdateActivationEnvironment'', [(''in'', ''a{ss}'')])]
       [(''NameOwnerChanged'', [([], ''s''), ([], ''s''), ([], ''s'')]),
        (''NameLost'', [([], ''s'')]),
        (''NameAcquired'', [([], ''s'')])] @
     xml_interface PEER_INTERFACE [(''Ping'', []), (''GetMachineId'', [(''out'', ''s'')])] [] @
     xml_interface INTROSPECTABLE_INTERFACE [(''Introspect'', [(''out'', ''s'')])] [] @
     xml_interface MONITORING_INTERFACE [(''BecomeMonitor'', [(''in'', ''as''), (''in'', ''u'')])] [] @
     xml_interface STATS_INTERFACE
       [(''GetStats'', [(''out'', ''a{sv}'')]),
        (''GetConnectionStats'', [(''in'', ''s''), (''out'', ''a{sv}'')])] [] @
     ''</node>'' @ [CHR 0x0A]"

definition handle_side_interface ::
  "bus_io \<Rightarrow> connection_entry \<Rightarrow> string option \<Rightarrow> string \<Rightarrow> dvalue list \<Rightarrow> bus \<Rightarrow>
     (driver_outcome \<times> bus) option" where
  "handle_side_interface io sender interface member args b =
     (if interface = Some PEER_INTERFACE then
        Some (if member = ''Ping'' then driver_ok []
              else if member = ''GetMachineId'' then driver_ok [VString (bu_guid b)]
              else no_method ''Peer'' member, b)
      else if interface = Some INTROSPECTABLE_INTERFACE then
        Some (if member = ''Introspect'' then driver_ok [VString driver_introspection_xml]
              else no_method ''Introspectable'' member, b)
      else if interface = Some STATS_INTERFACE then
        Some (if member = ''GetStats'' then driver_ok [stats_dict io b]
              else if member = ''GetConnectionStats'' then get_connection_stats args b
              else no_method ''Debug.Stats'' member, b)
      else if interface = Some MONITORING_INTERFACE then
        Some (if member = ''BecomeMonitor'' then (driver_ok [], become_monitor sender args b)
              else (no_method ''Monitoring'' member, b))
      else None)"

section \<open>Method calls\<close>

definition finish_driver_reply ::
  "bus_io \<Rightarrow> connection_entry \<Rightarrow> message \<Rightarrow> driver_outcome \<Rightarrow> bus \<Rightarrow> bus" where
  "finish_driver_reply io sender msg outcome b =
     (let b = (if name_owner_changes outcome \<noteq> [] then
                 broadcast_name_owner_changes io (name_owner_changes outcome) b else b)
      in if message_no_reply_expected msg then b
         else
           let reply = (case do_result outcome of
                 Inr vs \<Rightarrow> with_args vs (with_sender BUS_NAME (reply_to msg None))
               | Inl e \<Rightarrow>
                   with_arg (VString (de_message e))
                     (with_sender BUS_NAME (reply_to msg (Some (de_name e)))))
           in case driver_serial b of
                (s, b) \<Rightarrow> snd (write_message io (unique_name sender) (build s reply) b))"

definition handle_driver_call :: "bus_io \<Rightarrow> connection_entry \<Rightarrow> message \<Rightarrow> bus \<Rightarrow> bus" where
  "handle_driver_call io sender msg b =
     (let member = or_empty (m_member msg)
      in case handle_side_interface io sender (m_interface msg) member (body msg) b of
           Some (outcome, b) \<Rightarrow> finish_driver_reply io sender msg outcome b
         | None \<Rightarrow>
             (case handle io sender member (body msg) b of
                (outcome, b) \<Rightarrow> finish_driver_reply io sender msg outcome b))"

definition deliver_to_owner ::
  "bus_io \<Rightarrow> connection_entry \<Rightarrow> message \<Rightarrow> string \<Rightarrow> bus \<Rightarrow> bus" where
  "deliver_to_owner io sender msg owner b =
     (case get_connection (bu_registry b) owner of
        None \<Rightarrow> send_error io sender msg ERR_SERVICE_UNKNOWN ''owner vanished'' b
      | Some conn \<Rightarrow>
          if \<not> can_receive (bu_policy b) (identity io conn) msg (m_sender msg) then
            send_error io sender msg ERR_ACCESS_DENIED
              ''Destination is not allowed to receive this message'' (count_denial b)
          else if \<not> mac_allows io b AA_DBUS_RECEIVE conn (security_label sender) msg then
            send_error io sender msg ERR_ACCESS_DENIED
              ''AppArmor mediation denied recipient from receiving this message'' (count_denial b)
          else (case write_message io (unique_name conn) msg b of
                  (True, b) \<Rightarrow> map_stats (record_routed (routed_bytes msg)) b
                | (False, b) \<Rightarrow>
                    send_error io sender msg ERR_NO_REPLY ''destination connection is gone'' b))"

text \<open>The last part of \<open>dispatch_method_call\<close>: the destination has no owner.\<close>

definition activate_and_deliver ::
  "bus_io \<Rightarrow> connection_entry \<Rightarrow> message \<Rightarrow> string \<Rightarrow> bus \<Rightarrow> bus" where
  "activate_and_deliver io sender msg dest b =
     (if message_no_auto_start msg \<or> \<not> is_activatable (bu_activation b) dest then
        send_error io sender msg ERR_SERVICE_UNKNOWN
          (''The name '' @ dest @ '' was not provided by any .service files or activatable connections'') b
      else (case activate_and_wait io dest b of
              (Inr _, b') \<Rightarrow>
                let b' = take_snapshot b' (resumed io) in
                (case get_name_owner (bu_registry b') dest of
                   Some owner \<Rightarrow> deliver_to_owner io sender msg owner b'
                 | None \<Rightarrow> send_error io sender msg ERR_SERVICE_UNKNOWN ''activation raced with removal'' b')
            | (Inl e, b') \<Rightarrow>
                send_error io sender msg ERR_SPAWN_EXEC_FAILED (activation_error_text e) b'))"

definition dispatch_method_call :: "bus_io \<Rightarrow> connection_entry \<Rightarrow> message \<Rightarrow> bus \<Rightarrow> bus" where
  "dispatch_method_call io sender msg b =
     (case m_destination msg of
        None \<Rightarrow> send_error io sender msg ERR_BAD_ADDRESS ''Method call missing DESTINATION'' b
      | Some dest \<Rightarrow>
          if dest = BUS_NAME then handle_driver_call io sender msg b
          else if \<not> can_send (bu_policy b) (identity io sender) msg (Some dest) then
            send_error io sender msg ERR_ACCESS_DENIED
              (''Connection is not allowed to send to '' @ double_quoted dest) (count_denial b)
          else if \<not> mac_allows io b AA_DBUS_SEND sender (label_of (resolve_connection b dest)) msg then
            send_error io sender msg ERR_ACCESS_DENIED
              (''AppArmor mediation denied sending to '' @ double_quoted dest) (count_denial b)
          else (case get_name_owner (bu_registry b) dest of
                  Some owner \<Rightarrow> deliver_to_owner io sender msg owner b
                | None \<Rightarrow> activate_and_deliver io sender msg dest b))"

section \<open>Incoming messages\<close>

definition is_hello_call :: "message \<Rightarrow> bool" where
  "is_hello_call msg \<longleftrightarrow>
     m_type msg = MethodCall \<and> m_destination msg = Some BUS_NAME \<and>
     (m_interface msg = None \<or> m_interface msg = Some BUS_INTERFACE) \<and>
     m_member msg = Some ''Hello''"

text \<open>One task is spawned for each monitor; it writes the message and ignores the result.\<close>

definition deliver_to_monitors :: "message \<Rightarrow> bus \<Rightarrow> bus" where
  "deliver_to_monitors msg b =
     b\<lparr>tasks := tasks b @
         map (\<lambda>c. (unique_name c, msg)) (filter is_monitor (all_connections (bu_registry b)))\<rparr>"

definition dispatch_incoming :: "bus_io \<Rightarrow> connection_entry \<Rightarrow> message \<Rightarrow> bus \<Rightarrow> bus" where
  "dispatch_incoming io sender msg0 b =
     (let msg = set_sender (unique_name sender) msg0;
          b = deliver_to_monitors msg b
      in if \<not> is_registered sender \<and> \<not> is_hello_call msg then
           send_error io sender msg ERR_ACCESS_DENIED
             ''Client tried to send a message other than Hello without being registered'' b
         else (case m_type msg of
                 Signal \<Rightarrow> dispatch_signal io sender msg b
               | MethodCall \<Rightarrow> dispatch_method_call io sender msg b
               | _ \<Rightarrow> dispatch_reply io msg b))"

end
