(* ===== verification/Connections.thy ===== *)
theory Connections
  imports Dispatch
begin

text \<open>
  \<open>oxibus-daemon/src/connection_handler.rs\<close>: the life of a connection, from the accepted socket
  over the SASL exchange and the registration to the removal, and the states of the bus that
  any number of connections can reach together.
\<close>

section \<open>The handshake\<close>

text \<open>
  The lines the peer sends, each with what the system answers while it is handled; \<open>can_write\<close>
  tells whether a reply line goes out.  The result is \<open>None\<close> while the server waits for more.
\<close>

fun sasl_loop ::
  "(u8 list \<Rightarrow> u8 list) \<Rightarrow> (string \<Rightarrow> bool) \<Rightarrow> (auth_io \<times> string) list \<Rightarrow> server_auth \<Rightarrow>
     (string + unit) option" where
  "sasl_loop sha1 can_write [] auth = None"
| "sasl_loop sha1 can_write ((io, line) # lines) auth =
     (case server_feed_line sha1 io line auth of
        None \<Rightarrow> None
      | Some (Send ls, auth') \<Rightarrow>
          if list_all can_write ls then sasl_loop sha1 can_write lines auth'
          else Some (Inl ''SASL write error'')
      | Some (Begin _, auth') \<Rightarrow> Some (Inr ())
      | Some (Disconnect_Peer reason, auth') \<Rightarrow> Some (Inl reason))"

definition run_sasl_handshake ::
  "(u8 list \<Rightarrow> u8 list) \<Rightarrow> (string \<Rightarrow> bool) \<Rightarrow> string option \<Rightarrow> (auth_io \<times> string) list \<Rightarrow>
     peer_credentials \<Rightarrow> bus \<Rightarrow> (string + unit) option" where
  "run_sasl_handshake sha1 can_write home lines creds b =
     sasl_loop sha1 can_write lines
       (server_new creds (auth_mechanisms b) (bus_allow_anonymous b) (bu_guid b) home)"

section \<open>The life of a connection\<close>

text \<open>
  The first part of \<open>handle_connection\<close>, up to the handshake; \<open>None\<close> for the credentials is a
  socket that cannot be wrapped.  Returning drops the guard, which ends the incomplete
  connection.
\<close>

definition begin_connection :: "peer_credentials option \<Rightarrow> bus \<Rightarrow> bus" where
  "begin_connection creds b =
     (let limits = cfg_limits (bu_config b) in
      case try_begin_incomplete (lim_max_incomplete_connections limits) (bu_registry b) of
        (False, r) \<Rightarrow> b
      | (True, r) \<Rightarrow>
          let b = b\<lparr>bu_registry := r\<rparr> in
          (case creds of
             None \<Rightarrow> map_registry end_incomplete b
           | Some c \<Rightarrow>
               if connection_count_for_uid (bu_registry b) (uid c) \<ge>
                  unat (lim_max_connections_per_user limits)
               then map_registry end_incomplete b
               else b\<lparr>bu_pending := c # bu_pending b\<rparr>))"

text \<open>A handshake that failed or timed out.\<close>

definition handshake_failed :: "peer_credentials \<Rightarrow> bus \<Rightarrow> bus" where
  "handshake_failed c b = map_registry end_incomplete (b\<lparr>bu_pending := remove1 c (bu_pending b)\<rparr>)"

definition utf8_label :: "u8 list option \<Rightarrow> string option" where
  "utf8_label label =
     Option.bind label (\<lambda>bs. let s = str_of_bytes bs in if valid_utf8 s then Some s else None)"

definition choose_label :: "u8 list option \<Rightarrow> u8 list option \<Rightarrow> string option" where
  "choose_label of_socket of_process =
     (case utf8_label of_socket of Some l \<Rightarrow> Some l | None \<Rightarrow> utf8_label of_process)"

text \<open>After a successful handshake; the guard of the incomplete connection is still held.\<close>

definition register_connection :: "peer_credentials \<Rightarrow> string option \<Rightarrow> bus \<Rightarrow> bus" where
  "register_connection c label b =
     (case allocate_unique_name (bu_registry b) of
        (n, r) \<Rightarrow>
          b\<lparr>bu_registry := add_connection
               \<lparr>unique_name = n, credentials = c, security_label = label, match_rules = [],
                is_monitor = False, is_registered = False\<rparr> r,
            bu_pending := remove1 c (bu_pending b)\<rparr>)"

text \<open>After a read error: the queues are left, the changes announced, the guard dropped.\<close>

definition close_connection :: "bus_io \<Rightarrow> string \<Rightarrow> bus \<Rightarrow> bus" where
  "close_connection io n b =
     (case remove_connection n (bu_registry b) of
        (events, r) \<Rightarrow>
          map_registry end_incomplete (broadcast_name_owner_changes io events (b\<lparr>bu_registry := r\<rparr>)))"

section \<open>All connections together\<close>

text \<open>What is left of a handler's run when it is over: the shared state.\<close>

definition idle :: "bus \<Rightarrow> bus" where
  "idle b = b\<lparr>outbox := [], tasks := [], started := []\<rparr>"

text \<open>
  The states in which the bus is between the steps of its handlers.  A handler that waits for
  a service it has started (\<open>waits\<close>) leaves the bus to the others; the states it finds at its
  checks and afterwards are reachable ones in which its own connection is as it was.
\<close>

definition found_by :: "bus_io \<Rightarrow> bus set" where
  "found_by io = insert (resumed io) (set (polls io))"

inductive reachable :: "load_io \<Rightarrow> string \<Rightarrow> bus_kind \<Rightarrow> global_config \<Rightarrow> bus \<Rightarrow> bool"
  for lio :: load_io and g :: string and k :: bus_kind and cfg :: global_config where
  starts: "reachable lio g k cfg (bus_new lio g k cfg)"
| renamed: "reachable lio g k cfg b \<Longrightarrow> reachable lio g k cfg (set_guid g' b)"
| reloads: "reachable lio g k cfg b \<Longrightarrow> reachable lio g k cfg (reload_policy lio' b)"
| accepts: "reachable lio g k cfg b \<Longrightarrow> reachable lio g k cfg (begin_connection creds b)"
| fails: "reachable lio g k cfg b \<Longrightarrow> c \<in> set (bu_pending b) \<Longrightarrow>
     reachable lio g k cfg (handshake_failed c b)"
| registers: "reachable lio g k cfg b \<Longrightarrow> c \<in> set (bu_pending b) \<Longrightarrow>
     reachable lio g k cfg (register_connection c label b)"
| waits: "reachable lio g k cfg b \<Longrightarrow> reachable lio g k cfg (map_stats record_activation b)"
| handles: "reachable lio g k cfg b \<Longrightarrow> get_connection (bu_registry b) n = Some sender \<Longrightarrow>
     (\<And>s. s \<in> found_by io \<Longrightarrow>
        reachable lio g k cfg s \<and> get_connection (bu_registry s) n = Some sender) \<Longrightarrow>
     reachable lio g k cfg (idle (dispatch_incoming io sender msg b))"
| closes: "reachable lio g k cfg b \<Longrightarrow> get_connection (bu_registry b) n = Some sender \<Longrightarrow>
     reachable lio g k cfg (idle (close_connection io n b))"

inductive_cases reachable_elim: "reachable lio g k cfg b"

end
