(* ===== verification/Handler_Laws.thy ===== *)
theory Handler_Laws
  imports Connections
begin

text \<open>
  How the handlers act on the state: what they write (\<open>appends\<close>), what they leave alone
  (\<open>shared\<close>), and the interface \<open>handler_invariant\<close> through which an invariant of the registry
  is carried over every message, and \<open>bus_invariant\<close> through which it holds in every reachable
  state.
\<close>

section \<open>Writing\<close>

named_theorems bus_simps "what the primitive effects leave alone"

definition shared :: "bus \<Rightarrow> bus_kind \<times> global_config \<times> registry \<times> peer_credentials list" where
  "shared b = (bu_kind b, bu_config b, bu_registry b, bu_pending b)"

definition static :: "bus \<Rightarrow> policy \<times> services \<times> (string \<times> string) list \<times> string" where
  "static b = (bu_policy b, bu_activation b, bu_env b, bu_guid b)"

definition quiet :: "bus \<Rightarrow> bus \<Rightarrow> bool" where
  "quiet b b' \<longleftrightarrow> shared b' = shared b \<and> static b' = static b \<and> tasks b' = tasks b \<and> started b' = started b"

lemma quiet_refl [simp]: "quiet b b"
  by (simp add: quiet_def)

lemma quiet_trans [trans]: "quiet b b' \<Longrightarrow> quiet b' b'' \<Longrightarrow> quiet b b''"
  by (simp add: quiet_def)

lemma quietD:
  "quiet b b' \<Longrightarrow> bu_registry b' = bu_registry b"
  "quiet b b' \<Longrightarrow> bu_policy b' = bu_policy b"
  "quiet b b' \<Longrightarrow> bu_kind b' = bu_kind b"
  "quiet b b' \<Longrightarrow> bu_config b' = bu_config b"
  "quiet b b' \<Longrightarrow> bu_pending b' = bu_pending b"
  "quiet b b' \<Longrightarrow> bustype b' = bustype b"
  by (simp_all add: quiet_def shared_def static_def bustype_def)

lemma quiet_map_stats [bus_simps]: "quiet b (map_stats f b)" "outbox (map_stats f b) = outbox b"
  by (simp_all add: quiet_def shared_def static_def map_stats_def)

lemma map_stats_simps [simp]:
  "bu_registry (map_stats f b) = bu_registry b" "bu_policy (map_stats f b) = bu_policy b"
  "bu_config (map_stats f b) = bu_config b" "bu_kind (map_stats f b) = bu_kind b"
  "outbox (map_stats f b) = outbox b" "bu_pending (map_stats f b) = bu_pending b"
  "tasks (map_stats f b) = tasks b" "shared (map_stats f b) = shared b"
  by (simp_all add: map_stats_def shared_def)

definition writable :: "bus_io \<Rightarrow> string \<Rightarrow> message \<Rightarrow> bool" where
  "writable io n m \<longleftrightarrow> (case to_bytes m of Inr bs \<Rightarrow> write_io io n bs | Inl _ \<Rightarrow> False)"

lemma write_message_eq:
  "write_message io n m b =
     (writable io n m, if writable io n m then b\<lparr>outbox := outbox b @ [(n, m)]\<rparr> else b)"
  by (simp add: write_message_def writable_def split: sum.split)

lemma quiet_write: "quiet b (snd (write_message io n m b))"
  by (simp add: write_message_eq quiet_def shared_def static_def)

lemma outbox_write:
  "outbox (snd (write_message io n m b)) = outbox b @ (if writable io n m then [(n, m)] else [])"
  by (simp add: write_message_eq)

lemma driver_serial_eq: "\<exists>s g. driver_serial b = (s, b\<lparr>bu_serial := g\<rparr>) \<and> s \<noteq> 0"
  by (cases "bu_serial b = 0") (auto simp: driver_serial_def serial_next_eq)

lemma driver_serial_cases:
  obtains s b' where "driver_serial b = (s, b')" "quiet b b'" "outbox b' = outbox b" "s \<noteq> 0"
  using driver_serial_eq [of b] that by (auto simp: quiet_def shared_def static_def)

text \<open>What a part of a handler has written satisfies \<open>P\<close>.\<close>

definition appends :: "(string \<Rightarrow> message \<Rightarrow> bool) \<Rightarrow> bus \<Rightarrow> bus \<Rightarrow> bool" where
  "appends P b b' \<longleftrightarrow> (\<exists>new. outbox b' = outbox b @ new \<and> (\<forall>(d, x) \<in> set new. P d x))"

lemma appends_same: "outbox b' = outbox b \<Longrightarrow> appends P b b'"
  by (simp add: appends_def)

lemma appends_refl [simp]: "appends P b b"
  by (simp add: appends_def)

lemma appends_trans [trans]: "appends P b b' \<Longrightarrow> appends P b' b'' \<Longrightarrow> appends P b b''"
  by (auto simp: appends_def)

lemma appends_mono: "appends P b b' \<Longrightarrow> (\<And>d x. P d x \<Longrightarrow> Q d x) \<Longrightarrow> appends Q b b'"
  by (fastforce simp: appends_def)

lemma appends_write: "P n m \<Longrightarrow> appends P b (snd (write_message io n m b))"
  by (simp add: appends_def outbox_write)

lemma appendsD: "appends P b b' \<Longrightarrow> outbox b = [] \<Longrightarrow> (d, x) \<in> set (outbox b') \<Longrightarrow> P d x"
  by (auto simp: appends_def)

lemma quiet_shared: "quiet b b' \<Longrightarrow> shared b' = shared b"
  by (simp add: quiet_def)

section \<open>Messages of the bus\<close>

definition bus_message :: "message \<Rightarrow> bool" where
  "bus_message x \<longleftrightarrow> filter is_sender (h_fields (header x)) = [HSender BUS_NAME]"

text \<open>A reply of the bus to a call: addressed to the caller, with the call's serial.\<close>

definition answers :: "message \<Rightarrow> message \<Rightarrow> bool" where
  "answers call x \<longleftrightarrow>
     bus_message x \<and> m_type x \<in> {MethodReturn, ErrorReply} \<and>
     m_reply_serial x = Some (m_serial call) \<and> m_destination x = m_sender call"

lemmas builder_defs = build_def with_arg_def with_args_def with_sender_def with_destination_def
  push_field_def build_signal_def build_method_return_def build_error_def builder_new_def reply_to_def

lemma reply_answers:
  "answers call (build s (with_args vs (with_sender BUS_NAME (reply_to call e))))"
  by (cases e; cases "m_sender call")
    (simp_all add: answers_def bus_message_def builder_defs header_accessor_defs)

lemma reply_answers_arg:
  "answers call (build s (with_arg v (with_sender BUS_NAME (reply_to call e))))"
  using reply_answers [of call s "[v]" e] by (simp add: with_arg_def with_args_def)

lemma bus_signal_message: "bus_message (build s (bus_signal m vs))" "m_type (build s (bus_signal m vs)) = Signal"
  by (simp_all add: bus_message_def bus_signal_def builder_defs)

lemma bus_message_sender:
  assumes "bus_message x"
  shows "m_sender x = Some BUS_NAME"
proof -
  have "find_map (\<lambda>f. case f of HSender s \<Rightarrow> Some s | _ \<Rightarrow> None) (filter is_sender fs) =
      find_map (\<lambda>f. case f of HSender s \<Rightarrow> Some s | _ \<Rightarrow> None) fs" for fs
    by (rule find_map_filter) (auto split: header_field.splits)
  then have "m_sender x =
      find_map (\<lambda>f. case f of HSender s \<Rightarrow> Some s | _ \<Rightarrow> None) (filter is_sender (h_fields (header x)))"
    by (simp add: header_sender_def)
  then show ?thesis
    using assms by (simp add: bus_message_def)
qed

lemma set_sender_simps [simp]:
  "m_sender (set_sender n m) = Some n" "m_type (set_sender n m) = m_type m"
  "m_destination (set_sender n m) = m_destination m" "m_serial (set_sender n m) = m_serial m"
  "body (set_sender n m) = body m" "m_member (set_sender n m) = m_member m"
  "m_interface (set_sender n m) = m_interface m" "m_path (set_sender n m) = m_path m"
  "message_no_reply_expected (set_sender n m) = message_no_reply_expected m"
  by (simp_all add: set_sender_def header_set_sender_sender message_no_reply_expected_def)

definition error_answer :: "message \<Rightarrow> string \<Rightarrow> message \<Rightarrow> bool" where
  "error_answer call e x \<longleftrightarrow>
     answers call x \<and> m_type x = ErrorReply \<and> header_error_name (header x) = Some e"

lemma error_reply_answers:
  "error_answer call e (build s (with_arg v (with_sender BUS_NAME (reply_to call (Some e)))))"
  using reply_answers_arg [of call s v "Some e"]
  by (cases "m_sender call") (simp_all add: error_answer_def builder_defs header_accessor_defs)

lemma send_error_cases:
  obtains x where "error_answer call e x"
    "outbox (send_error io sender call e m b) =
       outbox b @ (if \<not> message_no_reply_expected call \<and> writable io (unique_name sender) x
                   then [(unique_name sender, x)] else [])"
    "quiet b (send_error io sender call e m b)"
proof -
  obtain s b' where b': "driver_serial b = (s, b')" "quiet b b'" "outbox b' = outbox b"
    by (rule driver_serial_cases)
  let ?x = "build s (with_arg (VString m) (with_sender BUS_NAME (reply_to call (Some e))))"
  show thesis
  proof (rule that [of ?x])
    show "error_answer call e ?x"
      by (rule error_reply_answers)
    show "outbox (send_error io sender call e m b) =
        outbox b @ (if \<not> message_no_reply_expected call \<and> writable io (unique_name sender) ?x
                    then [(unique_name sender, ?x)] else [])"
      using b' by (simp add: send_error_def outbox_write)
    show "quiet b (send_error io sender call e m b)"
      using b' quiet_trans [OF b'(2) quiet_write] by (simp add: send_error_def)
  qed
qed

lemma quiet_send_error: "quiet b (send_error io sender call e m b)"
  by (rule send_error_cases)

text \<open>Signals of the bus.\<close>

definition bus_notice :: "message \<Rightarrow> bool" where
  "bus_notice x \<longleftrightarrow> bus_message x \<and> m_type x = Signal"

lemma unicast_notice:
  "quiet b (send_unicast_driver_signal io dest m n b)"
  "appends (\<lambda>d x. bus_notice x) b (send_unicast_driver_signal io dest m n b)"
proof -
  obtain s b' where b': "driver_serial b = (s, b')" "quiet b b'" "outbox b' = outbox b"
    by (rule driver_serial_cases)
  let ?x = "build s (with_args [VString n] (with_destination dest (with_sender BUS_NAME
      (build_signal bus_path BUS_INTERFACE m))))"
  have x: "bus_notice ?x"
    by (simp add: bus_notice_def bus_message_def builder_defs)
  show "quiet b (send_unicast_driver_signal io dest m n b)"
    using b' quiet_trans [OF b'(2) quiet_write]
    by (simp add: send_unicast_driver_signal_def split: option.split)
  show "appends (\<lambda>d x. bus_notice x) b (send_unicast_driver_signal io dest m n b)"
    using b' x by (simp add: send_unicast_driver_signal_def appends_def outbox_write split: option.split)
qed

text \<open>A broadcast reaches the connections that want the message and may have it.\<close>

definition recipients :: "bus_io \<Rightarrow> message \<Rightarrow> bool \<Rightarrow> bus \<Rightarrow> connection_entry list" where
  "recipients io msg enforce b =
     filter (\<lambda>c. wants b msg c \<and> (enforce \<longrightarrow> may_receive io b msg c) \<and> writable io (unique_name c) msg)
       (all_connections (bu_registry b))"

lemma quiet_wants: "quiet b b' \<Longrightarrow> wants b' msg c = wants b msg c"
  by (simp add: wants_def quietD)

lemma quiet_may_receive: "quiet b b' \<Longrightarrow> may_receive io b' msg c = may_receive io b msg c"
  by (simp add: may_receive_def mac_allows_def quietD)

lemma broadcast_loop_eq:
  "quiet b (broadcast_loop io msg enforce cs b) \<and>
   outbox (broadcast_loop io msg enforce cs b) =
     outbox b @ map (\<lambda>c. (unique_name c, msg))
       (filter (\<lambda>c. wants b msg c \<and> (enforce \<longrightarrow> may_receive io b msg c) \<and> writable io (unique_name c) msg) cs)"
proof (induction cs arbitrary: b)
  case (Cons c cs)
  let ?b = "map_stats record_signal (snd (write_message io (unique_name c) msg b))"
  have "quiet b ?b"
    using quiet_trans [OF quiet_write] quiet_map_stats by blast
  then have "quiet ?b (broadcast_loop io msg enforce cs ?b) \<Longrightarrow> quiet b (broadcast_loop io msg enforce cs ?b)"
    and "wants ?b msg = wants b msg" "may_receive io ?b msg = may_receive io b msg"
    by (auto intro: quiet_trans simp: quiet_wants quiet_may_receive fun_eq_iff)
  then show ?case
    using Cons.IH [of b] Cons.IH [of ?b] by (auto simp: outbox_write)
qed simp

lemma broadcast_outbox:
  "outbox (broadcast_signal io msg enforce b) =
     outbox b @ map (\<lambda>c. (unique_name c, msg)) (recipients io msg enforce b)"
  by (simp add: broadcast_signal_def broadcast_loop_eq recipients_def)

lemma quiet_broadcast: "quiet b (broadcast_signal io msg enforce b)"
  by (simp add: broadcast_signal_def broadcast_loop_eq)

lemma announce_notice:
  "quiet b (announce io change b)" "appends (\<lambda>d x. bus_notice x) b (announce io change b)"
proof -
  obtain s b1 where b1: "driver_serial b = (s, b1)" "quiet b b1" "outbox b1 = outbox b"
    by (rule driver_serial_cases)
  define sig where "sig = build s (bus_signal NAME_OWNER_CHANGED
      [VString (noc_name change), VString (or_empty (noc_old_owner change)),
       VString (or_empty (noc_new_owner change))])"
  define b2 where "b2 = broadcast_signal io sig False b1"
  define b3 where "b3 = (case noc_new_owner change of
      Some u \<Rightarrow> send_unicast_driver_signal io u NAME_ACQUIRED (noc_name change) b2 | None \<Rightarrow> b2)"
  have eq: "announce io change b = (case noc_old_owner change of
      Some u \<Rightarrow> send_unicast_driver_signal io u NAME_LOST (noc_name change) b3 | None \<Rightarrow> b3)"
    unfolding announce_def b3_def b2_def sig_def by (simp add: b1(1) Let_def split: option.split)
  have "bus_notice sig"
    by (simp add: sig_def bus_notice_def bus_signal_message)
  then have "appends (\<lambda>d x. bus_notice x) b b2"
    using b1(3) by (auto simp: b2_def appends_def broadcast_outbox)
  moreover have "quiet b b2"
    using b1(2) quiet_broadcast unfolding b2_def by (rule quiet_trans)
  moreover have "quiet b2 b3" "appends (\<lambda>d x. bus_notice x) b2 b3"
    by (simp_all add: b3_def unicast_notice split: option.split)
  moreover have "quiet b3 (announce io change b)" "appends (\<lambda>d x. bus_notice x) b3 (announce io change b)"
    by (simp_all add: eq unicast_notice split: option.split)
  ultimately show "quiet b (announce io change b)" "appends (\<lambda>d x. bus_notice x) b (announce io change b)"
    by (blast intro: quiet_trans appends_trans)+
qed

lemma announcements_notice:
  "quiet b (broadcast_name_owner_changes io evs b) \<and>
   appends (\<lambda>d x. bus_notice x) b (broadcast_name_owner_changes io evs b)"
  unfolding broadcast_name_owner_changes_def
proof (induction evs arbitrary: b)
  case (Cons ev evs)
  have "quiet (announce io ev b) (fold (announce io) evs (announce io ev b)) \<and>
      appends (\<lambda>d x. bus_notice x) (announce io ev b) (fold (announce io) evs (announce io ev b))"
    by (rule Cons.IH)
  then show ?case
    using announce_notice [of b io ev] by (auto intro: quiet_trans appends_trans)
qed simp

section \<open>Waiting\<close>

lemma take_snapshot_simps [simp]:
  "shared (take_snapshot b s) = shared s" "bu_registry (take_snapshot b s) = bu_registry s"
  "bu_policy (take_snapshot b s) = bu_policy s" "bu_config (take_snapshot b s) = bu_config s"
  "bu_kind (take_snapshot b s) = bu_kind s"
  "outbox (take_snapshot b s) = outbox b" "tasks (take_snapshot b s) = tasks b"
  by (simp_all add: take_snapshot_def shared_def)

lemma wait_for_cases:
  "snd (wait_for n ss b) = b \<or> (\<exists>s \<in> set ss. \<exists>b0. snd (wait_for n ss b) = take_snapshot b0 s)"
proof (induction ss arbitrary: b)
  case (Cons s ss)
  show ?case
    using Cons.IH [of "take_snapshot b s"] by (auto simp: Let_def)
qed simp

lemma wait_for_outbox [simp]:
  "outbox (snd (wait_for n ss b)) = outbox b" "tasks (snd (wait_for n ss b)) = tasks b"
  by (induction ss arbitrary: b) (simp_all add: Let_def)

lemma wait_for_success:
  "wait_for n ss b = (Inr u, b') \<Longrightarrow> name_has_owner (bu_registry b') n"
  by (induction ss arbitrary: b) (auto simp: Let_def split: if_splits)

lemma wait_for_error: "wait_for n ss b = (Inl e, b') \<Longrightarrow> e = TimedOut n"
  by (induction ss arbitrary: b) (auto simp: Let_def split: if_splits)

lemma activate_and_wait_outbox [simp]:
  "outbox (snd (activate_and_wait io n b)) = outbox b" "tasks (snd (activate_and_wait io n b)) = tasks b"
  by (simp_all add: activate_and_wait_def Let_def split: sum.split)

lemma activate_and_wait_cases:
  "shared (snd (activate_and_wait io n b)) = shared b \<or>
   (\<exists>s \<in> set (polls io). shared (snd (activate_and_wait io n b)) = shared s)"
proof (cases "spawn (processes io) (bu_activation b) n (bu_env b)
    (if bu_kind b = System \<and> helper_exists io
     then ViaLaunchHelper (launch_helper_path (cfg_paths (bu_config b))) else Direct)")
  case (Inr cmd)
  let ?b = "map_stats record_activation (b\<lparr>started := started b @ [cmd]\<rparr>)"
  have eq: "activate_and_wait io n b = wait_for n (polls io) ?b"
    using Inr by (simp add: activate_and_wait_def)
  have "shared ?b = shared b"
    by (simp add: shared_def)
  then show ?thesis
    using wait_for_cases [of n "polls io" ?b] unfolding eq by auto
qed (simp add: activate_and_wait_def)

section \<open>The methods of the driver\<close>

lemma with_checked_split:
  "P (with_checked r b f) \<longleftrightarrow> (\<forall>e. r = Inl e \<longrightarrow> P (err_outcome e, b)) \<and> (\<forall>a. r = Inr a \<longrightarrow> P (f a))"
  by (simp add: with_checked_def split: sum.split)

lemma map_registry_simps [simp]:
  "outbox (map_registry f b) = outbox b" "tasks (map_registry f b) = tasks b"
  "bu_registry (map_registry f b) = f (bu_registry b)" "bu_config (map_registry f b) = bu_config b"
  "bu_kind (map_registry f b) = bu_kind b" "bu_pending (map_registry f b) = bu_pending b"
  "bu_policy (map_registry f b) = bu_policy b"
  by (simp_all add: map_registry_def)

lemmas handler_defs = handle_hello_def handle_request_name_def handle_release_name_def
  handle_name_has_owner_def handle_get_name_owner_def handle_list_queued_owners_def
  handle_start_service_def handle_add_match_def handle_remove_match_def handle_get_conn_uid_def
  handle_get_conn_pid_def handle_get_conn_credentials_def about_connection_def
  handle_update_activation_env_def set_match_rules_def denied_def

lemma start_service_outbox [simp]:
  "outbox (snd (handle_start_service io args b)) = outbox b"
  "tasks (snd (handle_start_service io args b)) = tasks b"
proof -
  have "outbox b' = outbox b \<and> tasks b' = tasks b" if "activate_and_wait io n b = (r, b')" for n r b'
    using activate_and_wait_outbox [of io n b] that by simp
  then show "outbox (snd (handle_start_service io args b)) = outbox b"
    "tasks (snd (handle_start_service io args b)) = tasks b"
    unfolding handle_start_service_def by (auto split: with_checked_split prod.split sum.split)
qed

text \<open>The methods that only look.\<close>

lemma read_only_handlers [simp]:
  "snd (handle_name_has_owner args b) = b" "snd (handle_get_name_owner args b) = b"
  "snd (handle_list_queued_owners args b) = b" "snd (about_connection f args b) = b"
  "snd (handle_get_conn_uid args b) = b" "snd (handle_get_conn_pid args b) = b"
  "snd (handle_get_conn_credentials args b) = b"
  by (simp_all add: handler_defs split: with_checked_split option.split)

lemma update_env_cases:
  "\<exists>env. snd (handle_update_activation_env args b) = b\<lparr>bu_env := env\<rparr>"
proof (cases "\<exists>t els. bu_kind b \<noteq> System \<and> map_option unwrap_variant (arg args 0) = Some (VArray t els)")
  case True
  then show ?thesis
    by (auto simp: handle_update_activation_env_def)
next
  case False
  then have "snd (handle_update_activation_env args b) = b"
    unfolding handle_update_activation_env_def by (auto split: option.split dvalue.split)
  then show ?thesis
    by (intro exI [of _ "bu_env b"]) simp
qed

lemma match_handlers_cases:
  "snd (handle_add_match c args b) = b \<or> (\<exists>rules. snd (handle_add_match c args b) = set_match_rules (unique_name c) rules b)"
  "snd (handle_remove_match c args b) = b \<or> (\<exists>rules. snd (handle_remove_match c args b) = set_match_rules (unique_name c) rules b)"
  by (auto simp: handle_add_match_def handle_remove_match_def Let_def
      split: with_checked_split sum.split)

lemma handle_outbox [simp]:
  "outbox (snd (handle io c m args b)) = outbox b" "tasks (snd (handle io c m args b)) = tasks b"
proof -
  have "outbox (snd (handle_update_activation_env args b)) = outbox b"
    "tasks (snd (handle_update_activation_env args b)) = tasks b"
    using update_env_cases [of args b] by auto
  moreover have "outbox (set_match_rules n rules b) = outbox b" "tasks (set_match_rules n rules b) = tasks b"
    for n rules by (simp_all add: set_match_rules_def)
  then have "outbox (snd (handle_add_match c args b)) = outbox b"
    "tasks (snd (handle_add_match c args b)) = tasks b"
    "outbox (snd (handle_remove_match c args b)) = outbox b"
    "tasks (snd (handle_remove_match c args b)) = tasks b"
    using match_handlers_cases [of c args b] by metis+
  moreover have "outbox (snd (h b)) = outbox b \<and> tasks (snd (h b)) = tasks b"
    if "h \<in> {handle_hello c, handle_request_name io c args, handle_release_name c args}" for h
    using that
    by (elim insertE emptyE; simp add: handler_defs Let_def split: with_checked_split prod.split)
  ultimately show "outbox (snd (handle io c m args b)) = outbox b"
    "tasks (snd (handle io c m args b)) = tasks b"
    by (simp_all add: handle_def)
qed

end
