(* ===== verification/Registry_Limits.thy ===== *)
theory Registry_Limits
  imports Registry
begin

text \<open>
  How many names a connection holds: the count the driver compares with its limit, as the size
  of a set, and what each operation of the registry does to that set and to the counters.
\<close>

definition held :: "registry \<Rightarrow> string \<Rightarrow> string set" where
  "held r u = {n. u \<in> q_unique_name ` set (queue_of r n)}"

lemma held_subset_names: "held r u \<subseteq> set (map fst (names r))"
proof
  fix n assume "n \<in> held r u"
  then have "queue_of r n \<noteq> []"
    by (auto simp: held_def)
  then show "n \<in> set (map fst (names r))"
    by (rule names_of_queue)
qed

lemma finite_held: "finite (held r u)"
  using held_subset_names by (rule finite_subset) simp

lemma names_held_by_card:
  assumes "wf_tables r"
  shows "names_held_by r u = card (held r u)"
proof -
  let ?ns = "filter (\<lambda>(_, q). list_ex (\<lambda>e. q_unique_name e = u) q) (names r)"
  have d: "distinct (map fst (names r))"
    using assms by (simp add: wf_tables_def)
  then have "distinct (map fst ?ns)"
    by (rule distinct_map_filter)
  then have "card (set (map fst ?ns)) = length (map fst ?ns)"
    by (rule distinct_card)
  moreover have "set (map fst ?ns) = held r u"
  proof
    show "set (map fst ?ns) \<subseteq> held r u"
    proof
      fix n assume "n \<in> set (map fst ?ns)"
      then obtain q where q: "(n, q) \<in> set (names r)" "list_ex (\<lambda>e. q_unique_name e = u) q"
        by auto
      then have "map_of (names r) n = Some q"
        using d by simp
      then show "n \<in> held r u"
        using q(2) by (simp add: held_def queue_of_def list_ex_name)
    qed
    show "held r u \<subseteq> set (map fst ?ns)"
    proof
      fix n assume n: "n \<in> held r u"
      then obtain q where q: "map_of (names r) n = Some q" "u \<in> q_unique_name ` set q"
        by (cases "map_of (names r) n") (auto simp: held_def queue_of_def)
      have "(n, q) \<in> set ?ns"
        using map_of_SomeD [OF q(1)] q(2) by (simp add: list_ex_name)
      then show "n \<in> set (map fst ?ns)"
        by force
    qed
  qed
  ultimately show ?thesis
    by (simp add: names_held_by_def)
qed

text \<open>A request adds at most one name, and only to the names of the caller.\<close>

lemma request_name_held:
  assumes "wf_tables r" "request_name u n flags r = ((code, evs), r')"
  shows "held r' v \<subseteq> (if v = u then insert n (held r v) else held r v)"
proof -
  have "q_unique_name ` set (queue_of r' n) \<subseteq> insert u (q_unique_name ` set (queue_of r n)) \<and>
      (\<forall>m. m \<noteq> n \<longrightarrow> queue_of r' m = queue_of r m)"
    using assms
  proof (cases rule: request_name_cases)
    case (replace e q)
    then show ?thesis
      by (auto simp: without_def)
  qed auto
  then have "v \<in> q_unique_name ` set (queue_of r m) \<or> (m = n \<and> v = u)"
    if "v \<in> q_unique_name ` set (queue_of r' m)" for m
    using that by (cases "m = n") auto
  then show ?thesis
    unfolding held_def by (cases "v = u") (simp_all, blast+)
qed

lemma request_name_rest:
  "request_name u n flags r = (x, r') \<Longrightarrow> connections r' = connections r \<and> incomplete r' = incomplete r \<and> next_id r' = next_id r"
  by (auto simp: request_name_def set_queue_def Let_def split: list.splits if_splits)

lemma release_internal_rest:
  "release_name_internal u n r = (ev, r') \<Longrightarrow> connections r' = connections r \<and> incomplete r' = incomplete r"
  by (auto simp: release_name_internal_def set_queue_def drop_name_def Let_def
      split: option.splits if_splits)

lemma release_name_rest:
  "release_name u n r = (x, r') \<Longrightarrow> connections r' = connections r \<and> incomplete r' = incomplete r"
  by (auto simp: release_name_def split: option.splits if_splits prod.splits dest: release_internal_rest)

lemma release_all_rest:
  "release_all u ns r = (evs, r') \<Longrightarrow> connections r' = connections r \<and> incomplete r' = incomplete r"
  by (induction u ns r arbitrary: evs r' rule: release_all.induct)
    (auto split: prod.splits option.splits dest: release_internal_rest)

lemma remove_connection_rest:
  "remove_connection u r = (evs, r') \<Longrightarrow>
     connections r' = AList.delete u (connections r) \<and> incomplete r' = incomplete r"
  by (auto simp: remove_connection_def Let_def split: prod.splits dest!: release_all_rest)

lemma release_name_held:
  assumes "wf_tables r" "release_name u n r = ((code, evs), r')"
  shows "held r' v \<subseteq> held r v"
  using release_name_step [OF assms] by (auto simp: held_def without_def split: if_splits)

lemma remove_connection_held:
  assumes "wf_registry r" "remove_connection u r = (evs, r')"
  shows "held r' v \<subseteq> held r v"
proof -
  define r0 where "r0 = r\<lparr>connections := AList.delete u (connections r)\<rparr>"
  have r0: "wf_tables r0" "queue_of r0 = queue_of r" "names r0 = names r"
    using assms(1) by (auto simp: r0_def wf_registry_def wf_tables_def distinct_delete delete_conv'
        queue_of_def fun_eq_iff split: if_splits)
  obtain evs' where "release_all u (map fst (names r)) r0 = (evs', r')"
    using assms(2) by (auto simp: remove_connection_def r0_def [symmetric] r0(3) split: prod.splits)
  then have "queue_of r' = (\<lambda>m. if m \<in> set (map fst (names r)) then without u (queue_of r0 m) else queue_of r0 m)"
    using release_all_step [OF r0(1)] by blast
  then show ?thesis
    by (auto simp: held_def without_def r0(2) split: if_splits)
qed

section \<open>Updating an entry\<close>

lemma update_connection_simps [simp]:
  "names (update_connection u f r) = names r" "incomplete (update_connection u f r) = incomplete r"
  "next_id (update_connection u f r) = next_id r"
  "queue_of (update_connection u f r) = queue_of r" "owners (update_connection u f r) = owners r"
  "map_of (connections (update_connection u f r)) =
     (case map_of (connections r) u of Some e \<Rightarrow> (map_of (connections r))(u \<mapsto> f e)
      | None \<Rightarrow> map_of (connections r))"
  by (auto simp: update_connection_def queue_of_def owners_def fun_eq_iff update_conv' split: option.split)

lemma update_connection_keys:
  "map fst (connections (update_connection u f r)) = map fst (connections r)"
proof (cases "map_of (connections r) u")
  case (Some e)
  then have "u \<in> fst ` set (connections r)"
    using map_of_eq_None_iff [of "connections r" u] by force
  then have "map fst (AList.update u v (connections r)) = map fst (connections r)" for v
    by (simp add: update_keys)
  then show ?thesis
    using Some by (simp add: update_connection_def)
qed (simp add: update_connection_def)

lemma update_connection_wf:
  assumes "wf_registry r" "\<And>c. unique_name (f c) = unique_name c"
  shows "wf_registry (update_connection u f r)"
proof -
  have "wf_tables (update_connection u f r)"
    using assms unfolding wf_registry_def wf_tables_def
    by (auto simp: update_connection_keys split: option.splits if_splits)
  then show ?thesis
    using assms(1) unfolding wf_registry_def queued_def by (simp add: update_connection_keys)
qed

section \<open>The shape of the names\<close>

text \<open>Well-known names have passed the name check; unique names are those of the counter.\<close>

definition well_named :: "registry \<Rightarrow> bool" where
  "well_named r \<longleftrightarrow>
     (\<forall>n \<in> set (map fst (names r)). is_valid_bus_name n) \<and>
     (\<forall>u \<in> set (map fst (connections r)). \<exists>i. u = '':1.'' @ show_nat i)"

lemma well_named_mono:
  "well_named r \<Longrightarrow> set (map fst (names r')) \<subseteq> set (map fst (names r)) \<Longrightarrow>
     set (map fst (connections r')) \<subseteq> set (map fst (connections r)) \<Longrightarrow> well_named r'"
  unfolding well_named_def by blast

lemma set_queue_keys: "set (map fst (names (set_queue n q r))) = insert n (set (map fst (names r)))"
  by (auto simp: set_queue_def dom_update)

lemma drop_name_keys: "set (map fst (names (drop_name n r))) \<subseteq> set (map fst (names r))"
  by (auto simp: drop_name_def delete_keys simp del: set_map)

lemma map_of_key: "map_of xs k = Some v \<Longrightarrow> k \<in> set (map fst xs)"
  by (auto dest: map_of_SomeD intro: rev_image_eqI)

lemma request_name_keys:
  assumes "request_name u n flags r = (x, r')"
  shows "set (map fst (names r')) = insert n (set (map fst (names r)))"
  using assms set_queue_keys
  by (auto simp: request_name_def Let_def simp del: set_map split: list.splits if_splits)

lemma release_internal_keys:
  assumes "release_name_internal u n r = (ev, r')"
  shows "set (map fst (names r')) \<subseteq> set (map fst (names r))"
proof (cases "map_of (names r) n")
  case (Some q)
  then have n: "insert n (set (map fst (names r))) = set (map fst (names r))"
    by (intro insert_absorb map_of_key)
  have "set (map fst (names (set_queue n q' r))) \<subseteq> set (map fst (names r))"
    "set (map fst (names (drop_name n (set_queue n q' r)))) \<subseteq> set (map fst (names r))" for q'
    using drop_name_keys [of n "set_queue n q' r"] unfolding set_queue_keys n by blast+
  then show ?thesis
    using assms Some by (auto simp: release_name_internal_def Let_def simp del: set_map split: if_splits)
qed (use assms in \<open>simp add: release_name_internal_def\<close>)

lemma release_name_keys:
  "release_name u n r = (x, r') \<Longrightarrow> set (map fst (names r')) \<subseteq> set (map fst (names r))"
  by (auto simp: release_name_def simp del: set_map split: option.splits if_splits prod.splits
      dest!: release_internal_keys)

lemma release_all_keys:
  "release_all u ns r = (evs, r') \<Longrightarrow> set (map fst (names r')) \<subseteq> set (map fst (names r))"
proof (induction u ns r arbitrary: evs r' rule: release_all.induct)
  case (2 u n ns r)
  obtain ev r1 where one: "release_name_internal u n r = (ev, r1)"
    by (cases "release_name_internal u n r")
  obtain evs' where "release_all u ns r1 = (evs', r')"
    using "2.prems" one by (auto split: prod.splits)
  then show ?case
    using "2.IH" [OF one [symmetric]] release_internal_keys [OF one] by blast
qed simp

lemma request_name_named:
  assumes "well_named r" "is_valid_bus_name n" "request_name u n flags r = (x, r')"
  shows "well_named r'"
proof -
  have c: "connections r' = connections r"
    using request_name_rest [OF assms(3)] by simp
  show ?thesis
    using assms(1,2) unfolding well_named_def request_name_keys [OF assms(3)] c by blast
qed

lemma release_name_named:
  assumes "well_named r" "release_name u n r = (x, r')"
  shows "well_named r'"
  using assms(1) release_name_keys [OF assms(2)]
  by (rule well_named_mono) (use release_name_rest [OF assms(2)] in simp)

lemma remove_connection_named:
  assumes "well_named r" "remove_connection u r = (evs, r')"
  shows "well_named r'"
proof -
  obtain evs' where all: "release_all u (map fst (names r))
      (r\<lparr>connections := AList.delete u (connections r)\<rparr>) = (evs', r')"
    using assms(2) by (auto simp: remove_connection_def split: prod.splits)
  then have "set (map fst (names r')) \<subseteq> set (map fst (names r))"
    using release_all_keys [OF all] by simp
  moreover have "set (map fst (connections r')) \<subseteq> set (map fst (connections r))"
    using remove_connection_rest [OF assms(2)] by (simp add: delete_keys)
  ultimately show ?thesis
    using assms(1) well_named_mono [of r r'] by blast
qed

lemma update_connection_named: "well_named r \<Longrightarrow> well_named (update_connection u f r)"
  unfolding well_named_def update_connection_keys by simp

lemma add_connection_named:
  "well_named r \<Longrightarrow> unique_name e = '':1.'' @ show_nat i \<Longrightarrow> well_named (add_connection e r)"
  by (auto simp: well_named_def add_connection_def dom_update)

text \<open>Neither kind of name contains a NUL.\<close>

lemma split_on_chars: "x \<in> set s \<Longrightarrow> x = c \<or> (\<exists>p \<in> set (split_on c s). x \<in> set p)"
proof (induction s)
  case (Cons y s)
  then show ?case
    by (cases "split_on c s") (auto split: if_splits)
qed simp

lemma valid_name_no_nul:
  assumes "is_valid_bus_name n"
  shows "CHR 0x00 \<notin> set n"
proof
  assume nul: "CHR 0x00 \<in> set n"
  have elem: "CHR 0x00 \<notin> set p" if "valid_name_element p" for p
    using that by (cases p) (auto simp: name_start_def name_char_def is_ascii_alphabetic_def
        is_ascii_alphanumeric_def is_ascii_digit_def list_all_iff)
  show False
  proof (cases "strip_prefix '':'' n")
    case None
    then show False
      using assms split_on_chars [OF nul, of "CHR ''.''"] elem
      by (auto simp: is_valid_bus_name_def is_valid_dotted_name_def list_all_iff split: if_splits)
  next
    case (Some rest)
    then have "CHR 0x00 \<in> set rest"
      using nul by (auto simp: strip_prefix_def prefix_def split: if_splits)
    then show False
      using assms Some split_on_chars [of "CHR 0x00" rest "CHR ''.''"]
      by (fastforce simp: is_valid_bus_name_def list_all_iff is_ascii_alphanumeric_def
          is_ascii_alphabetic_def is_ascii_digit_def split: if_splits)
  qed
qed

lemma unique_name_no_nul: "CHR 0x00 \<notin> set ('':1.'' @ show_nat i)"
  using show_nat_digits [of i] by (auto simp: list_all_iff is_ascii_digit_def)

end
