(* ===== verification/Handler_Invariants.thy ===== *)
theory Handler_Invariants
  imports Handler_Laws Registry_Limits
begin

text \<open>
  Invariants over everything the bus does.  \<open>handler_invariant\<close> is the interface of an
  invariant that the driver's operations on the registry keep: every message then keeps it.
  \<open>bus_invariant\<close> adds the life of connections: the invariant then holds in every reachable
  state.  Both are interpreted on the registry's tables with the limit on names, and on the
  count of the connections that are let in.
\<close>

definition max_names :: "bus \<Rightarrow> nat" where
  "max_names b = unat (lim_max_names_per_connection (cfg_limits (bu_config b)))"

locale handler_invariant =
  fixes inv :: "bus \<Rightarrow> bool"
  assumes inv_shared: "inv b \<Longrightarrow> shared b' = shared b \<Longrightarrow> inv b'"
    and inv_request: "inv b \<Longrightarrow> is_valid_bus_name n \<Longrightarrow> \<not> prefix '':'' n \<Longrightarrow> get_connection (bu_registry b) u \<noteq> None \<Longrightarrow>
      names_held_by (bu_registry b) u < max_names b \<Longrightarrow>
      request_name u n flags (bu_registry b) = (reply, r) \<Longrightarrow> inv (b\<lparr>bu_registry := r\<rparr>)"
    and inv_release: "inv b \<Longrightarrow> release_name u n (bu_registry b) = (reply, r) \<Longrightarrow>
      inv (b\<lparr>bu_registry := r\<rparr>)"
    and inv_update: "inv b \<Longrightarrow> (\<And>c. unique_name (f c) = unique_name c) \<Longrightarrow>
      inv (map_registry (update_connection u f) b)"
begin

lemma inv_quiet: "inv b \<Longrightarrow> quiet b b' \<Longrightarrow> inv b'"
  using inv_shared quiet_shared by blast

lemma inv_map_stats: "inv b \<Longrightarrow> inv (map_stats f b)"
  by (erule inv_shared) simp

lemma inv_send_error: "inv b \<Longrightarrow> inv (send_error io c call e m b)"
  using inv_quiet quiet_send_error by blast

lemma inv_write: "inv b \<Longrightarrow> inv (snd (write_message io n m b))"
  using inv_quiet quiet_write by blast

lemma inv_broadcast: "inv b \<Longrightarrow> inv (broadcast_signal io m e b)"
  using inv_quiet quiet_broadcast by blast

lemma inv_announcements: "inv b \<Longrightarrow> inv (broadcast_name_owner_changes io evs b)"
  using inv_quiet announcements_notice by blast

lemma inv_activate:
  assumes "inv b" "\<forall>s \<in> set (polls io). inv s" "activate_and_wait io n b = (r, b')"
  shows "inv b'"
  using activate_and_wait_cases [of io n b] assms inv_shared by (metis snd_conv)

lemma inv_hello: "inv b \<Longrightarrow> inv (snd (handle_hello c b))"
  by (simp add: handle_hello_def Let_def inv_update)

lemma inv_request_name:
  assumes "inv b" "get_connection (bu_registry b) (unique_name c) \<noteq> None"
  shows "inv (snd (handle_request_name io c args b))"
proof -
  have "is_valid_bus_name n \<and> \<not> prefix '':'' n" if "validate_bus_name n False = Inr u" for n u
    using that by (auto simp: validate_bus_name_def split: if_splits)
  then have "inv (b\<lparr>bu_registry := r\<rparr>)" if "validate_bus_name n False = Inr ()"
    "names_held_by (bu_registry b) (unique_name c) < max_names b"
    "request_name (unique_name c) n flags (bu_registry b) = (reply, r)" for n flags reply r
    using inv_request [OF assms(1) _ _ assms(2) that(2,3)] that(1) by blast
  then show ?thesis
    using assms(1)
    by (auto simp: handle_request_name_def denied_def Let_def inv_map_stats max_names_def not_le
        split: with_checked_split prod.split)
qed

lemma inv_release_name: "inv b \<Longrightarrow> inv (snd (handle_release_name c args b))"
  using inv_release by (auto simp: handle_release_name_def split: with_checked_split prod.split)

lemma inv_start_service:
  assumes "inv b" "\<forall>s \<in> set (polls io). inv s"
  shows "inv (snd (handle_start_service io args b))"
  using inv_activate [OF assms] assms(1)
  by (auto simp: handle_start_service_def split: with_checked_split prod.split sum.split)

lemma inv_rules: "inv b \<Longrightarrow> inv (set_match_rules n rules b)"
  by (simp add: set_match_rules_def inv_update)

lemma inv_handle:
  assumes "inv b" "get_connection (bu_registry b) (unique_name c) \<noteq> None"
    and "\<forall>s \<in> set (polls io). inv s"
  shows "inv (snd (handle io c m args b))"
proof -
  have "inv (b\<lparr>bu_env := e\<rparr>)" for e
    using assms(1) by (rule inv_shared) (simp add: shared_def)
  then have "inv (snd (handle_update_activation_env args b))"
    using update_env_cases [of args b] by auto
  moreover have "inv (snd (handle_add_match c args b))" "inv (snd (handle_remove_match c args b))"
    using match_handlers_cases [of c args b] assms(1) inv_rules by metis+
  ultimately show ?thesis
    using assms inv_hello inv_request_name inv_release_name inv_start_service
    by (simp add: handle_def)
qed

lemma inv_finish: "inv b \<Longrightarrow> inv (finish_driver_reply io c msg out b)"
proof -
  assume b: "inv b"
  define b1 where "b1 = (if name_owner_changes out \<noteq> [] then
      broadcast_name_owner_changes io (name_owner_changes out) b else b)"
  have b1: "inv b1"
    by (simp add: b1_def b inv_announcements)
  obtain s b2 where b2: "driver_serial b1 = (s, b2)" "quiet b1 b2"
    by (rule driver_serial_cases)
  have "inv b2"
    using b1 b2(2) by (rule inv_quiet)
  then show ?thesis
    using b1 b2(1) by (simp add: finish_driver_reply_def b1_def [symmetric] Let_def inv_write
        split: sum.split)
qed

lemma inv_driver_call:
  assumes "inv b" "get_connection (bu_registry b) (unique_name c) \<noteq> None"
    and "\<forall>s \<in> set (polls io). inv s"
  shows "inv (handle_driver_call io c msg b)"
proof -
  have side: "inv b'" if "handle_side_interface io c i m args b = Some (out, b')" for i m args out b'
    using that assms(1)
    by (auto simp: handle_side_interface_def become_monitor_def inv_update split: if_splits)
  have main: "inv b'" if "handle io c m args b = (out, b')" for m args out b'
    using inv_handle [OF assms, of m args] that by simp
  show ?thesis
    by (auto simp: handle_driver_call_def Let_def split: option.split prod.split
        intro!: inv_finish dest: side main)
qed

lemma inv_deliver:
  assumes "inv b"
  shows "inv (deliver_to_owner io c msg u b)"
proof -
  have "inv (b\<lparr>outbox := out\<rparr>)" for out
    using assms by (rule inv_shared) (simp add: shared_def)
  then show ?thesis
    using assms by (simp add: deliver_to_owner_def count_denial_def write_message_eq inv_send_error
        inv_map_stats split: option.split)
qed

lemma inv_activate_and_deliver:
  assumes "inv b" "\<forall>s \<in> found_by io. inv s"
  shows "inv (activate_and_deliver io c msg dest b)"
proof -
  have "inv b'" if "activate_and_wait io dest b = (r, b')" for r b'
    using inv_activate [OF assms(1) _ that] assms(2) by (simp add: found_by_def)
  moreover have "inv (take_snapshot b' (resumed io))" for b'
    using assms(2) by (auto simp: found_by_def intro: inv_shared [of "resumed io"])
  ultimately show ?thesis
    using assms(1)
    by (auto simp: activate_and_deliver_def Let_def inv_send_error inv_deliver
        split: prod.split sum.split option.split)
qed

lemma inv_dispatch:
  assumes "inv b" "get_connection (bu_registry b) (unique_name c) \<noteq> None"
    and "\<forall>s \<in> found_by io. inv s"
  shows "inv (dispatch_incoming io c msg b)"
proof -
  let ?b = "deliver_to_monitors (set_sender (unique_name c) msg) b"
  let ?m = "set_sender (unique_name c) msg"
  have b: "inv ?b" "get_connection (bu_registry ?b) (unique_name c) \<noteq> None"
    using assms(1,2) by (auto simp: deliver_to_monitors_def shared_def intro: inv_shared)
  have polls: "\<forall>s \<in> set (polls io). inv s"
    using assms(3) by (simp add: found_by_def)
  have "inv (dispatch_signal io c ?m ?b)"
    using b(1) by (simp add: dispatch_signal_def count_denial_def inv_map_stats inv_write
        inv_broadcast split: option.split)
  moreover have "inv (dispatch_reply io ?m ?b)"
    using b(1) by (simp add: dispatch_reply_def inv_map_stats inv_write split: option.split)
  moreover have "inv (dispatch_method_call io c ?m ?b)"
    using b(1) inv_driver_call [OF b polls] inv_activate_and_deliver [OF b(1) assms(3)]
    by (auto simp: dispatch_method_call_def count_denial_def inv_map_stats inv_send_error inv_deliver
        split: option.split)
  ultimately show ?thesis
    using b(1) by (simp add: dispatch_incoming_def Let_def inv_send_error split: message_type.split)
qed

end

section \<open>The life of connections\<close>

locale bus_invariant = handler_invariant inv for inv :: "bus \<Rightarrow> bool" +
  fixes lio :: load_io and g :: string and k :: bus_kind and cfg :: global_config
  assumes inv_new: "inv (bus_new lio g k cfg)"
    and inv_named: "inv b \<Longrightarrow> get_connection (bu_registry b) n = Some e \<Longrightarrow> unique_name e = n"
    and inv_begin: "inv b \<Longrightarrow> inv (begin_connection creds b)"
    and inv_failed: "inv b \<Longrightarrow> c \<in> set (bu_pending b) \<Longrightarrow> inv (handshake_failed c b)"
    and inv_register: "inv b \<Longrightarrow> c \<in> set (bu_pending b) \<Longrightarrow> inv (register_connection c label b)"
    and inv_remove: "inv b \<Longrightarrow> get_connection (bu_registry b) n = Some e \<Longrightarrow>
      remove_connection n (bu_registry b) = (evs, r) \<Longrightarrow> inv (b\<lparr>bu_registry := end_incomplete r\<rparr>)"
begin

lemma inv_close:
  assumes "inv b" "get_connection (bu_registry b) n = Some e"
  shows "inv (close_connection io n b)"
proof -
  obtain evs r where r: "remove_connection n (bu_registry b) = (evs, r)"
    by (cases "remove_connection n (bu_registry b)")
  have "quiet (b\<lparr>bu_registry := r\<rparr>) (broadcast_name_owner_changes io evs (b\<lparr>bu_registry := r\<rparr>))"
    using announcements_notice by blast
  then have "shared (close_connection io n b) = shared (b\<lparr>bu_registry := end_incomplete r\<rparr>)"
    using r by (simp add: close_connection_def quiet_def shared_def)
  then show ?thesis
    using inv_remove [OF assms r] by (rule inv_shared [rotated])
qed

lemma inv_reachable: "reachable lio g k cfg b \<Longrightarrow> inv b"
proof (induction rule: reachable.induct)
  case starts
  then show ?case by (rule inv_new)
next
  case (renamed b g')
  from renamed.IH show ?case by (rule inv_shared) (simp add: shared_def set_guid_def)
next
  case (reloads b lio')
  from reloads.IH show ?case
    by (rule inv_shared) (simp add: shared_def reload_policy_def split: sum.split)
next
  case (waits b)
  from waits.IH show ?case by (rule inv_map_stats)
next
  case (handles b n sender io msg)
  have "unique_name sender = n"
    using handles.IH(1) handles.hyps(2) by (rule inv_named)
  then have "inv (dispatch_incoming io sender msg b)"
    using handles by (intro inv_dispatch) auto
  then show ?case
    by (rule inv_shared) (simp add: idle_def shared_def)
next
  case (closes b n sender io)
  from closes.IH closes.hyps(2) have "inv (close_connection io n b)"
    by (rule inv_close)
  then show ?case
    by (rule inv_shared) (simp add: idle_def shared_def)
qed (simp_all add: inv_begin inv_failed inv_register)

end

section \<open>The tables and the limit on names\<close>

definition tables_ok :: "bus \<Rightarrow> bool" where
  "tables_ok b \<longleftrightarrow>
     wf_registry (bu_registry b) \<and> well_named (bu_registry b) \<and>
     (\<forall>u. card (held (bu_registry b) u) \<le> max_names b)"

lemma shared_parts:
  "shared b' = shared b \<Longrightarrow> bu_registry b' = bu_registry b"
  "shared b' = shared b \<Longrightarrow> bu_config b' = bu_config b"
  "shared b' = shared b \<Longrightarrow> bu_pending b' = bu_pending b"
  "shared b' = shared b \<Longrightarrow> max_names b' = max_names b"
  by (simp_all add: shared_def max_names_def)

lemma max_names_simps [simp]: "max_names (b\<lparr>bu_registry := r\<rparr>) = max_names b"
  "max_names (b\<lparr>bu_pending := p\<rparr>) = max_names b" "max_names (map_registry f b) = max_names b"
  by (simp_all add: max_names_def map_registry_def)

lemma wf_registryD: "wf_registry r \<Longrightarrow> wf_tables r"
  by (simp add: wf_registry_def)

lemma connected_key: "get_connection r u \<noteq> None \<longleftrightarrow> u \<in> set (map fst (connections r))"
  by (simp add: get_connection_def map_of_eq_None_iff del: not_None_eq)

lemma tables_subset:
  assumes "\<And>u. held r' u \<subseteq> held r u" "\<forall>u. card (held r u) \<le> m"
  shows "card (held r' u) \<le> m"
proof -
  have "card (held r' u) \<le> card (held r u)"
    by (rule card_mono [OF finite_held assms(1)])
  also have "\<dots> \<le> m"
    using assms(2) by blast
  finally show ?thesis .
qed

lemma tables_request:
  assumes "tables_ok b" "is_valid_bus_name n" "\<not> prefix '':'' n"
    and "get_connection (bu_registry b) u \<noteq> None"
    and "names_held_by (bu_registry b) u < max_names b"
    and "request_name u n flags (bu_registry b) = (reply, r)"
  shows "tables_ok (b\<lparr>bu_registry := r\<rparr>)"
proof -
  let ?r = "bu_registry b"
  obtain code evs where req: "request_name u n flags ?r = ((code, evs), r)"
    using assms(6) by (cases reply) auto
  have wf: "wf_registry ?r" "wf_tables ?r"
    using assms(1) by (simp_all add: tables_ok_def wf_registryD)
  have "card (held r v) \<le> max_names b" for v
  proof (cases "v = u")
    case True
    have "card (held r u) \<le> card (insert n (held ?r u))"
      using request_name_held [OF wf(2) req, of u] by (intro card_mono) (simp_all add: finite_held)
    also have "\<dots> \<le> Suc (card (held ?r u))"
      by (simp add: card_insert_if finite_held)
    finally show ?thesis
      using True assms(5) names_held_by_card [OF wf(2), of u] by simp
  next
    case False
    have "card (held r v) \<le> card (held ?r v)"
      using request_name_held [OF wf(2) req, of v] False by (intro card_mono) (simp_all add: finite_held)
    then show ?thesis
      using assms(1) by (meson le_trans tables_ok_def)
  qed
  moreover have "wf_registry r"
    using wf(1) assms(3) _ req by (rule request_name_wf) (use assms(4) connected_key in blast)
  moreover have "well_named r"
    using assms(1,2) request_name_named [OF _ _ assms(6)] by (simp add: tables_ok_def)
  ultimately show ?thesis
    by (simp add: tables_ok_def)
qed

lemma tables_update:
  assumes "tables_ok b" "\<And>c. unique_name (f c) = unique_name c"
  shows "tables_ok (map_registry (update_connection u f) b)"
  using assms update_connection_wf [of "bu_registry b" f u] update_connection_named [of "bu_registry b" u f]
  by (simp add: tables_ok_def held_def)

lemma tables_release:
  assumes "tables_ok b" "release_name u n (bu_registry b) = (reply, r)"
  shows "tables_ok (b\<lparr>bu_registry := r\<rparr>)"
proof -
  obtain code evs where rel: "release_name u n (bu_registry b) = ((code, evs), r)"
    using assms(2) by (cases reply) auto
  have wf: "wf_registry (bu_registry b)" "wf_tables (bu_registry b)"
    using assms(1) by (simp_all add: tables_ok_def wf_registryD)
  have "registry_step (ReleaseName u n) (bu_registry b) = (evs, r)"
    using rel by simp
  then have "wf_registry r"
    using registry.inv_step [OF wf(1), of "ReleaseName u n"] by simp
  moreover have "card (held r v) \<le> max_names b" for v
    using tables_subset [OF release_name_held [OF wf(2) rel]] assms(1) by (simp add: tables_ok_def)
  moreover have "well_named r"
    using assms(1) release_name_named [OF _ assms(2)] by (simp add: tables_ok_def)
  ultimately show ?thesis
    by (simp add: tables_ok_def)
qed

lemma tables_shared:
  assumes "tables_ok b" "shared b' = shared b"
  shows "tables_ok b'"
  using assms(1) shared_parts [OF assms(2)] by (simp add: tables_ok_def)

interpretation tables: handler_invariant tables_ok
  by unfold_locales (fact tables_shared tables_request tables_release tables_update)+

text \<open>The life of connections keeps the tables well-formed as well.\<close>

lemma begin_connection_cases:
  "begin_connection creds b = b \<or>
   (\<exists>r. try_begin_incomplete (lim_max_incomplete_connections (cfg_limits (bu_config b)))
          (bu_registry b) = (True, r) \<and>
      (begin_connection creds b = b\<lparr>bu_registry := end_incomplete r\<rparr> \<or>
       (\<exists>c. begin_connection creds b = b\<lparr>bu_registry := r, bu_pending := c # bu_pending b\<rparr>)))"
  by (auto simp: begin_connection_def Let_def map_registry_def split: prod.split bool.split option.split)

lemma counter_only:
  "wf_registry (r\<lparr>incomplete := i\<rparr>) = wf_registry r" "held (r\<lparr>incomplete := i\<rparr>) = held r"
  "wf_registry (r\<lparr>next_id := j\<rparr>) = wf_registry r" "held (r\<lparr>next_id := j\<rparr>) = held r"
  "well_named (r\<lparr>incomplete := i\<rparr>) = well_named r" "well_named (r\<lparr>next_id := j\<rparr>) = well_named r"
  by (simp_all add: wf_registry_def wf_tables_def queued_def queue_of_def held_def well_named_def
      fun_eq_iff)

lemma tables_begin: "tables_ok b \<Longrightarrow> tables_ok (begin_connection creds b)"
  using begin_connection_cases [of creds b]
  by (auto simp: tables_ok_def try_begin_incomplete_def end_incomplete_def Let_def counter_only
      split: if_splits)

lemma tables_failed: "tables_ok b \<Longrightarrow> tables_ok (handshake_failed c b)"
  by (simp add: tables_ok_def handshake_failed_def end_incomplete_def counter_only)

lemma tables_register: "tables_ok b \<Longrightarrow> tables_ok (register_connection c label b)"
proof -
  assume b: "tables_ok b"
  let ?r = "(bu_registry b)\<lparr>next_id := next_id (bu_registry b) + 1\<rparr>"
  let ?e = "\<lparr>unique_name = '':1.'' @ show_nat (unat (next_id (bu_registry b))), credentials = c,
      security_label = label, match_rules = [], is_monitor = False, is_registered = False\<rparr>"
  have "wf_registry ?r"
    using b by (simp add: tables_ok_def counter_only)
  then have "wf_registry (add_connection ?e ?r) \<and> queue_of (add_connection ?e ?r) = queue_of ?r"
    by (intro conjI add_connection_step [THEN conjunct1] add_connection_step [THEN conjunct2, THEN conjunct2])
      (simp_all add: prefix_def)
  moreover have "queue_of ?r = queue_of (bu_registry b)"
    by (simp add: queue_of_def fun_eq_iff)
  moreover have "well_named (add_connection ?e ?r)"
    using b by (intro add_connection_named) (simp_all add: tables_ok_def counter_only)
  ultimately show ?thesis
    using b by (simp add: tables_ok_def register_connection_def allocate_unique_name_def held_def)
qed

lemma tables_remove:
  assumes "tables_ok b" "remove_connection n (bu_registry b) = (evs, r)"
  shows "tables_ok (b\<lparr>bu_registry := end_incomplete r\<rparr>)"
proof -
  have wf: "wf_registry (bu_registry b)"
    using assms(1) by (simp add: tables_ok_def)
  have "card (held r v) \<le> max_names b" for v
    using tables_subset [OF remove_connection_held [OF wf assms(2)]] assms(1) by (simp add: tables_ok_def)
  then show ?thesis
    using remove_connection_step [OF wf assms(2)] remove_connection_named [OF _ assms(2)] assms(1)
    by (simp add: tables_ok_def end_incomplete_def counter_only)
qed

interpretation tables_bus: bus_invariant tables_ok lio g k cfg for lio g k cfg
proof unfold_locales
  have "names_held_by registry_new u = 0" for u
    by (simp add: names_held_by_def registry_new_def)
  moreover have "well_named registry_new"
    by (simp add: well_named_def registry_new_def)
  ultimately show "tables_ok (bus_new lio g k cfg)"
    by (simp add: tables_ok_def bus_new_def wf_registry_new
        names_held_by_card [OF wf_registryD [OF wf_registry_new], symmetric])
  show "unique_name e = n" if "tables_ok b" "get_connection (bu_registry b) n = Some e" for b n e
    using that by (auto simp: tables_ok_def wf_registry_def wf_tables_def get_connection_def)
qed (auto intro: tables_begin tables_failed tables_register tables_remove)

section \<open>How many connections there are\<close>

text \<open>
  The guard that \<open>handle_connection\<close> takes for the handshake is dropped when it returns, so a
  connection is counted as incomplete for as long as it lives.
\<close>

definition accounted :: "bus_kind \<Rightarrow> global_config \<Rightarrow> bus \<Rightarrow> bool" where
  "accounted k cfg b \<longleftrightarrow>
     bu_kind b = k \<and> bu_config b = cfg \<and>
     length (connections (bu_registry b)) + length (bu_pending b) \<le> unat (incomplete (bu_registry b)) \<and>
     incomplete (bu_registry b) \<le> lim_max_incomplete_connections (cfg_limits cfg) \<and>
     (\<forall>n c. map_of (connections (bu_registry b)) n = Some c \<longrightarrow> unique_name c = n)"

lemma accounted_shared:
  assumes "accounted k cfg b" "shared b' = shared b"
  shows "accounted k cfg b'"
  using assms(1) shared_parts [OF assms(2)] assms(2) by (simp add: accounted_def shared_def)

lemma accounted_same:
  "accounted k cfg b \<Longrightarrow> connections r = connections (bu_registry b) \<and> incomplete r = incomplete (bu_registry b) \<Longrightarrow>
     accounted k cfg (b\<lparr>bu_registry := r\<rparr>)"
  by (simp add: accounted_def)

lemma accounted_update:
  assumes "accounted k cfg b" "\<And>c. unique_name (f c) = unique_name c"
  shows "accounted k cfg (map_registry (update_connection u f) b)"
proof -
  have "length (connections (update_connection u f r)) = length (connections r)" for r
    using arg_cong [OF update_connection_keys, of length] by simp
  then show ?thesis
    using assms by (auto simp: accounted_def split: option.splits if_splits)
qed

lemma dec_word: "0 < unat (i :: u32) \<Longrightarrow> unat (i - 1) = unat i - 1"
  by (simp add: unat_minus_one unat_gt_0)

lemma dec_counter:
  "Suc m \<le> unat (i :: u32) \<Longrightarrow> i \<le> l \<Longrightarrow> m \<le> unat (i - 1) \<and> i - 1 \<le> l"
  using dec_word [of i] unfolding word_le_nat_alt by linarith

lemma length_delete: "map_of xs k = Some v \<Longrightarrow> Suc (length (AList.delete k xs)) \<le> length xs"
proof (induction xs)
  case (Cons x xs)
  have "length (AList.delete k xs) \<le> length xs"
    by (simp add: AList.delete_eq)
  then show ?case
    using Cons by (cases x) (auto simp: AList.delete_eq split: if_splits)
qed simp

lemma length_update: "length (AList.update k v xs) \<le> Suc (length xs)"
  by (induction xs) auto

lemma length_remove1_Suc: "x \<in> set xs \<Longrightarrow> length xs = Suc (length (remove1 x xs))"
  by (cases xs) (auto simp: length_remove1 dest: length_pos_if_in_set)

lemma accounted_begin:
  assumes "accounted k cfg b"
  shows "accounted k cfg (begin_connection creds b)"
proof -
  let ?lim = "lim_max_incomplete_connections (cfg_limits cfg)"
  have inc: "unat (incomplete (bu_registry b) + 1) = Suc (unat (incomplete (bu_registry b))) \<and>
      incomplete (bu_registry b) + 1 \<le> ?lim" if "incomplete (bu_registry b) < ?lim"
  proof
    have "incomplete (bu_registry b) \<noteq> - 1"
      using that by (metis word_order.extremum_strict)
    then show "unat (incomplete (bu_registry b) + 1) = Suc (unat (incomplete (bu_registry b)))"
      by (simp add: unatSuc add.commute eq_neg_iff_add_eq_0)
    show "incomplete (bu_registry b) + 1 \<le> ?lim"
      using that by (rule inc_le)
  qed
  show ?thesis
    using begin_connection_cases [of creds b] assms inc
    by (auto simp: accounted_def try_begin_incomplete_def end_incomplete_def Let_def not_le
        split: if_splits)
qed

lemma accounted_failed:
  assumes "accounted k cfg b" "c \<in> set (bu_pending b)"
  shows "accounted k cfg (handshake_failed c b)"
proof -
  have "length (bu_pending b) = Suc (length (remove1 c (bu_pending b)))"
    using assms(2) by (rule length_remove1_Suc)
  then show ?thesis
    using assms(1) dec_counter [of "length (connections (bu_registry b)) + length (remove1 c (bu_pending b))"]
    by (auto simp: accounted_def handshake_failed_def end_incomplete_def)
qed

lemma accounted_register:
  assumes "accounted k cfg b" "c \<in> set (bu_pending b)"
  shows "accounted k cfg (register_connection c label b)"
proof -
  have "length (bu_pending b) = Suc (length (remove1 c (bu_pending b)))"
    using assms(2) by (rule length_remove1_Suc)
  moreover have "length (AList.update n e (connections (bu_registry b))) \<le> Suc (length (connections (bu_registry b)))" for n e
    by (rule length_update)
  ultimately have "length (AList.update n e (connections (bu_registry b))) + length (remove1 c (bu_pending b))
      \<le> length (connections (bu_registry b)) + length (bu_pending b)" for n e
    by (metis add_Suc add_Suc_right add_le_mono1)
  then show ?thesis
    using assms(1) by (auto simp: accounted_def register_connection_def allocate_unique_name_def
        add_connection_def update_conv' intro: le_trans split: if_splits)
qed

lemma accounted_remove:
  assumes "accounted k cfg b" "get_connection (bu_registry b) n = Some e"
    and "remove_connection n (bu_registry b) = (evs, r)"
  shows "accounted k cfg (b\<lparr>bu_registry := end_incomplete r\<rparr>)"
proof -
  have r: "connections r = AList.delete n (connections (bu_registry b))"
    "incomplete r = incomplete (bu_registry b)"
    using remove_connection_rest [OF assms(3)] by auto
  have "Suc (length (connections r)) \<le> length (connections (bu_registry b))"
    using assms(2) r length_delete by (simp add: get_connection_def)
  then have "Suc (length (connections r) + length (bu_pending b)) \<le> unat (incomplete (bu_registry b))"
    using assms(1) by (simp add: accounted_def)
  then show ?thesis
    using assms(1) r dec_counter [of "length (connections r) + length (bu_pending b)"]
    by (auto simp: accounted_def end_incomplete_def delete_conv' split: if_splits)
qed

interpretation counts: bus_invariant "accounted k cfg" lio g k cfg for lio g k cfg
proof unfold_locales
  show "accounted k cfg (bus_new lio g k cfg)"
    by (simp add: accounted_def bus_new_def registry_new_def)
  show "accounted k cfg (b\<lparr>bu_registry := r\<rparr>)"
    if "accounted k cfg b" "request_name u n flags (bu_registry b) = (reply, r)" for b u n flags reply r
    using that request_name_rest by (blast intro: accounted_same)
  show "accounted k cfg (b\<lparr>bu_registry := r\<rparr>)"
    if "accounted k cfg b" "release_name u n (bu_registry b) = (reply, r)" for b u n reply r
    using that release_name_rest by (blast intro: accounted_same)
  show "unique_name e = n" if "accounted k cfg b" "get_connection (bu_registry b) n = Some e" for b n e
    using that by (simp add: accounted_def get_connection_def)
qed (fact accounted_shared accounted_update accounted_begin accounted_failed accounted_register accounted_remove)+

end
