(* ===== verification/Dispatch_Facts.thy ===== *)
theory Dispatch_Facts
  imports Handler_Invariants
begin

text \<open>
  Bounds on what becomes of a message: for a method call the bus writes notices and at most one
  reply, or forwards it after both sides' checks; a signal goes to the connections that the
  rules and the policy select.
\<close>

section \<open>Method calls\<close>

text \<open>
  An upper bound on what the bus writes when it answers: notices about names first, then at most
  one reply. Which reply it is, and that it is written, is in \<open>Bus_Answers\<close>.
\<close>

definition answered :: "bus_io \<Rightarrow> connection_entry \<Rightarrow> message \<Rightarrow> bus \<Rightarrow> bus \<Rightarrow> bool" where
  "answered io sender call b b' \<longleftrightarrow>
     (\<exists>notices x. (\<forall>(d, y) \<in> set notices. bus_notice y) \<and> answers call x \<and>
        outbox b' = outbox b @ notices @
          (if \<not> message_no_reply_expected call \<and> writable io (unique_name sender) x
           then [(unique_name sender, x)] else []))"

text \<open>
  The call has been passed on: the sender may send it to its destination (checked when it came
  in), and the connection that owns the destination may receive it (checked at the delivery).
\<close>

definition sending_allowed :: "bus_io \<Rightarrow> connection_entry \<Rightarrow> message \<Rightarrow> bus \<Rightarrow> bool" where
  "sending_allowed io sender msg b \<longleftrightarrow>
     can_send (bu_policy b) (identity io sender) msg (m_destination msg) \<and>
     mac_allows io b AA_DBUS_SEND sender
       (label_of (Option.bind (m_destination msg) (resolve_connection b))) msg"

definition receiving_allowed ::
  "bus_io \<Rightarrow> connection_entry \<Rightarrow> connection_entry \<Rightarrow> message \<Rightarrow> bus \<Rightarrow> bool" where
  "receiving_allowed io sender conn msg b \<longleftrightarrow>
     can_receive (bu_policy b) (identity io conn) msg (m_sender msg) \<and>
     mac_allows io b AA_DBUS_RECEIVE conn (security_label sender) msg"

definition forwarded :: "bus_io \<Rightarrow> connection_entry \<Rightarrow> message \<Rightarrow> bus \<Rightarrow> bus \<Rightarrow> bool" where
  "forwarded io sender msg b b' \<longleftrightarrow>
     (\<exists>dest conn. m_destination msg = Some dest \<and> dest \<noteq> BUS_NAME \<and>
        sending_allowed io sender msg b \<and>
        resolve_connection b' dest = Some conn \<and> receiving_allowed io sender conn msg b' \<and>
        writable io (unique_name conn) msg \<and> outbox b' = outbox b @ [(unique_name conn, msg)])"

lemma send_error_answered:
  "outbox b0 = outbox b \<Longrightarrow> answered io sender call b (send_error io sender call e m b0)"
proof -
  assume b0: "outbox b0 = outbox b"
  obtain x where x: "error_answer call e x" and out:
    "outbox (send_error io sender call e m b0) =
       outbox b0 @ (if \<not> message_no_reply_expected call \<and> writable io (unique_name sender) x
                    then [(unique_name sender, x)] else [])"
    by (rule send_error_cases)
  show ?thesis
    unfolding answered_def
    by (rule exI [of _ "[]"], rule exI [of _ x]) (use x out b0 in \<open>simp add: error_answer_def\<close>)
qed

text \<open>The end of a driver call: the announcements, then the reply.\<close>

definition announced :: "bus_io \<Rightarrow> driver_outcome \<Rightarrow> bus \<Rightarrow> bus" where
  "announced io out b =
     (if name_owner_changes out \<noteq> [] then
        broadcast_name_owner_changes io (name_owner_changes out) b else b)"

lemma finish_outbox:
  obtains x where "answers msg x"
    "outbox (finish_driver_reply io sender msg out b) = outbox (announced io out b) @
       (if \<not> message_no_reply_expected msg \<and> writable io (unique_name sender) x
        then [(unique_name sender, x)] else [])"
proof -
  obtain s b2 where b2: "driver_serial (announced io out b) = (s, b2)"
    "outbox b2 = outbox (announced io out b)"
    by (rule driver_serial_cases)
  define x where "x = build s (case do_result out of
      Inr vs \<Rightarrow> with_args vs (with_sender BUS_NAME (reply_to msg None))
    | Inl e \<Rightarrow> with_arg (VString (de_message e)) (with_sender BUS_NAME (reply_to msg (Some (de_name e)))))"
  have "finish_driver_reply io sender msg out b =
      (if message_no_reply_expected msg then announced io out b
       else snd (write_message io (unique_name sender) x b2))"
    unfolding finish_driver_reply_def announced_def [symmetric] Let_def
    by (simp add: b2(1) x_def)
  moreover have "answers msg x"
    by (simp add: x_def reply_answers reply_answers_arg split: sum.split)
  ultimately show thesis
    using b2(2) by (intro that [of x]) (simp_all add: outbox_write)
qed

lemma finish_answered:
  assumes "outbox b0 = outbox b"
  shows "answered io sender msg b (finish_driver_reply io sender msg out b0)"
proof -
  have "appends (\<lambda>d x. bus_notice x) b0 (announced io out b0)"
    using announcements_notice by (simp add: announced_def)
  then obtain notices where n: "outbox (announced io out b0) = outbox b @ notices"
    "\<forall>(d, y) \<in> set notices. bus_notice y"
    using assms by (auto simp: appends_def)
  obtain x where x: "answers msg x"
    "outbox (finish_driver_reply io sender msg out b0) = outbox (announced io out b0) @
       (if \<not> message_no_reply_expected msg \<and> writable io (unique_name sender) x
        then [(unique_name sender, x)] else [])"
    by (rule finish_outbox)
  show ?thesis
    unfolding answered_def by (rule exI [of _ notices], rule exI [of _ x]) (use x n in simp)
qed

lemma driver_call_answered:
  assumes "outbox b0 = outbox b"
  shows "answered io sender msg b (handle_driver_call io sender msg b0)"
proof -
  have side: "outbox b' = outbox b"
    if "handle_side_interface io sender i m args b0 = Some (out, b')" for i m args out b'
    using that assms by (auto simp: handle_side_interface_def become_monitor_def split: if_splits)
  have main: "outbox b' = outbox b" if "handle io sender m args b0 = (out, b')" for m args out b'
    using handle_outbox(1) [of io sender m args b0] that assms by simp
  show ?thesis
    by (auto simp: handle_driver_call_def Let_def split: option.split prod.split
        intro!: finish_answered dest: side main)
qed

lemma deliver_outcome:
  assumes "m_destination msg = Some dest" "dest \<noteq> BUS_NAME" "sending_allowed io sender msg b"
    and "outbox b0 = outbox b" "get_name_owner (bu_registry b0) dest = Some owner"
  shows "answered io sender msg b (deliver_to_owner io sender msg owner b0) \<or>
    forwarded io sender msg b (deliver_to_owner io sender msg owner b0)"
proof (cases "get_connection (bu_registry b0) owner")
  case None
  then show ?thesis
    using assms(4) by (simp add: deliver_to_owner_def send_error_answered)
next
  case (Some conn)
  show ?thesis
  proof (cases "receiving_allowed io sender conn msg b0 \<and> writable io (unique_name conn) msg")
    case True
    let ?b = "b0\<lparr>outbox := outbox b0 @ [(unique_name conn, msg)]\<rparr>"
    have eq: "deliver_to_owner io sender msg owner b0 = map_stats (record_routed (routed_bytes msg)) ?b"
      using True Some by (simp add: deliver_to_owner_def receiving_allowed_def write_message_eq)
    have "resolve_connection b0 dest = Some conn"
      using Some assms(5) by (simp add: resolve_connection_def)
    then have "forwarded io sender msg b (map_stats (record_routed (routed_bytes msg)) ?b)"
      using assms True
      by (simp add: forwarded_def resolve_connection_def receiving_allowed_def mac_allows_def
          bustype_def map_stats_def)
    then show ?thesis
      unfolding eq by (rule disjI2)
  next
    case False
    then have "answered io sender msg b (deliver_to_owner io sender msg owner b0)"
      using Some assms(4)
      by (auto simp: deliver_to_owner_def receiving_allowed_def write_message_eq count_denial_def
          intro!: send_error_answered)
    then show ?thesis ..
  qed
qed

text \<open>Nothing beyond one of these two bounds is written for a method call.\<close>

lemma method_call_outcome:
  "answered io sender msg b (dispatch_method_call io sender msg b) \<or>
   forwarded io sender msg b (dispatch_method_call io sender msg b)"
proof (cases "m_destination msg")
  case None
  then show ?thesis
    by (simp add: dispatch_method_call_def send_error_answered)
next
  case (Some dest)
  show ?thesis
  proof (cases "dest \<noteq> BUS_NAME \<and> sending_allowed io sender msg b")
    case False
    then have "answered io sender msg b (dispatch_method_call io sender msg b)"
      using Some by (auto simp: dispatch_method_call_def sending_allowed_def driver_call_answered
          count_denial_def intro!: send_error_answered)
    then show ?thesis ..
  next
    case True
    have deliver: "answered io sender msg b (deliver_to_owner io sender msg owner b0) \<or>
        forwarded io sender msg b (deliver_to_owner io sender msg owner b0)"
      if "outbox b0 = outbox b" "get_name_owner (bu_registry b0) dest = Some owner" for b0 owner
      using deliver_outcome [OF Some _ _ that] True by blast
    have step: "dispatch_method_call io sender msg b =
        (case get_name_owner (bu_registry b) dest of
           Some owner \<Rightarrow> deliver_to_owner io sender msg owner b
         | None \<Rightarrow> activate_and_deliver io sender msg dest b)"
      using True Some by (simp add: dispatch_method_call_def sending_allowed_def)
    show ?thesis
    proof (cases "get_name_owner (bu_registry b) dest")
      case (Some owner)
      then show ?thesis
        using deliver [of b owner] by (simp add: step)
    next
      case None
      have "outbox b' = outbox b" if "activate_and_wait io dest b = (r, b')" for r b'
        using activate_and_wait_outbox(1) [of io dest b] that by simp
      then show ?thesis
        using None deliver
        by (auto simp: step activate_and_deliver_def Let_def send_error_answered
            split: prod.split sum.split option.split)
    qed
  qed
qed

end
