(* ===== verification/Mediation.thy ===== *)
theory Mediation
  imports Dispatch_Facts
begin

text \<open>
  The whole of \<open>dispatch_incoming\<close>: who can be the sender of what is written, which processes
  are started, and what monitors are handed.
\<close>

section \<open>The quiet parts\<close>

lemma quiet_deliver: "quiet b (deliver_to_owner io c msg owner b)"
proof -
  have "quiet b (send_error io c msg e t (map_stats f b))" for e t f
    using quiet_map_stats(1) quiet_send_error by (rule quiet_trans)
  moreover have "quiet b (map_stats f (b\<lparr>outbox := outbox b @ [(n, msg)]\<rparr>))" for f n
    by (simp add: quiet_def shared_def static_def map_stats_def)
  ultimately show ?thesis
    by (auto simp: deliver_to_owner_def count_denial_def write_message_eq quiet_send_error
        split: option.split)
qed

lemma quiet_signal: "quiet b (dispatch_signal io c msg b)"
  by (auto simp: dispatch_signal_def count_denial_def quiet_map_stats quiet_broadcast quiet_write
      split: option.split intro: quiet_trans [OF quiet_write quiet_map_stats(1)])

lemma quiet_reply: "quiet b (dispatch_reply io msg b)"
  by (auto simp: dispatch_reply_def split: option.split
      intro: quiet_trans [OF quiet_write quiet_map_stats(1)])

lemma quiet_finish: "quiet b (finish_driver_reply io c msg out b)"
proof -
  have a: "quiet b (announced io out b)"
    using announcements_notice by (simp add: announced_def)
  obtain s b2 where b2: "driver_serial (announced io out b) = (s, b2)" "quiet (announced io out b) b2"
    by (rule driver_serial_cases)
  have "quiet b b2"
    using a b2(2) by (rule quiet_trans)
  then show ?thesis
    using a unfolding finish_driver_reply_def announced_def [symmetric] Let_def
    by (auto simp: b2(1) intro: quiet_trans [OF _ quiet_write])
qed

lemma quiet_parts:
  "quiet b b' \<Longrightarrow> started b' = started b" "quiet b b' \<Longrightarrow> tasks b' = tasks b"
  "quiet b b' \<Longrightarrow> bu_activation b' = bu_activation b" "quiet b b' \<Longrightarrow> bu_env b' = bu_env b"
  by (simp_all add: quiet_def static_def)

lemmas own_parts [simp] =
  quiet_parts(1,2) [OF quiet_send_error] quiet_parts(1,2) [OF quiet_deliver]
  quiet_parts(1,2) [OF quiet_signal] quiet_parts(1,2) [OF quiet_reply]
  quiet_parts(1,2) [OF quiet_finish]

lemma side_interface_parts:
  assumes "handle_side_interface io c i m args b = Some (out, b')"
  shows "outbox b' = outbox b \<and> tasks b' = tasks b \<and> started b' = started b"
  using assms by (auto simp: handle_side_interface_def become_monitor_def map_registry_def split: if_splits)

section \<open>Senders\<close>

text \<open>Everything that is written in the course of a message is that message, or the bus's own.\<close>

definition relays :: "message \<Rightarrow> bus \<Rightarrow> bus \<Rightarrow> bool" where
  "relays msg = appends (\<lambda>d x. bus_message x \<or> x = msg)"

lemma answered_relays: "answered io c msg b b' \<Longrightarrow> relays msg b b'"
  by (fastforce simp: answered_def relays_def appends_def bus_notice_def answers_def)

lemma forwarded_relays: "forwarded io c msg b b' \<Longrightarrow> relays msg b b'"
  by (auto simp: forwarded_def relays_def appends_def)

lemma call_relays: "relays msg b (dispatch_method_call io c msg b)"
  using method_call_outcome answered_relays forwarded_relays by blast

lemma signal_relays: "relays msg b (dispatch_signal io c msg b)"
  by (auto simp: dispatch_signal_def relays_def appends_def count_denial_def broadcast_outbox
      outbox_write split: option.split)

lemma reply_relays: "relays msg b (dispatch_reply io msg b)"
  by (auto simp: dispatch_reply_def relays_def appends_def outbox_write split: option.split)

lemma error_relays: "relays msg b (send_error io c msg e t b)"
  by (rule answered_relays [OF send_error_answered [of b b io c]]) simp

lemma monitors_parts [simp]:
  "outbox (deliver_to_monitors msg b) = outbox b"
  "bu_registry (deliver_to_monitors msg b) = bu_registry b"
  "bu_policy (deliver_to_monitors msg b) = bu_policy b"
  "bu_activation (deliver_to_monitors msg b) = bu_activation b"
  "bu_env (deliver_to_monitors msg b) = bu_env b"
  "bu_kind (deliver_to_monitors msg b) = bu_kind b"
  "bu_config (deliver_to_monitors msg b) = bu_config b"
  "started (deliver_to_monitors msg b) = started b"
  by (simp_all add: deliver_to_monitors_def)

lemma incoming_relays:
  "relays (set_sender (unique_name c) msg) b (dispatch_incoming io c msg b)"
proof -
  let ?m = "set_sender (unique_name c) msg"
  have "relays ?m (deliver_to_monitors ?m b) (dispatch_incoming io c msg b)"
    by (simp add: dispatch_incoming_def Let_def call_relays signal_relays reply_relays error_relays
        split: message_type.split)
  then show ?thesis
    by (simp add: relays_def appends_def)
qed

section \<open>Processes\<close>

definition strategy :: "bus_io \<Rightarrow> bus \<Rightarrow> spawn_strategy" where
  "strategy io b =
     (if bu_kind b = System \<and> helper_exists io
      then ViaLaunchHelper (launch_helper_path (cfg_paths (bu_config b))) else Direct)"

text \<open>At most one process has been started, for the service \<open>n\<close>, as the table says.\<close>

definition started_for :: "bus_io \<Rightarrow> string \<Rightarrow> bus \<Rightarrow> bus \<Rightarrow> bool" where
  "started_for io n b b' \<longleftrightarrow> started b' = started b \<or>
     (\<exists>cmd. spawn (processes io) (bu_activation b) n (bu_env b) (strategy io b) = Inr cmd \<and>
        started b' = started b @ [cmd])"

lemma wait_for_started [simp]: "started (snd (wait_for n ss b)) = started b"
  by (induction ss arbitrary: b) (simp_all add: Let_def take_snapshot_def)

lemma activate_started: "started_for io n b (snd (activate_and_wait io n b))"
  by (auto simp: activate_and_wait_def started_for_def strategy_def [symmetric] Let_def map_stats_def
      split: sum.split)

lemma started_same: "started b' = started b \<Longrightarrow> started_for io n b b'"
  by (simp add: started_for_def)

lemma started_quiet: "quiet b b' \<Longrightarrow> started_for io n b b'"
  by (simp add: started_same quiet_parts)

lemma started_then: "started_for io n b b' \<Longrightarrow> started b'' = started b' \<Longrightarrow> started_for io n b b''"
  by (simp add: started_for_def)

lemma activate_deliver_started: "started_for io dest b (activate_and_deliver io c msg dest b)"
proof -
  obtain r b' where a: "activate_and_wait io dest b = (r, b')"
    by (cases "activate_and_wait io dest b")
  have b': "started_for io dest b b'"
    using activate_started [of io dest b] a by simp
  have "started (take_snapshot b' s) = started b'" for s
    by (simp add: take_snapshot_def)
  then have later: "started_for io dest b x" if "quiet (take_snapshot b' s) x" for s x
    using that by (auto intro!: started_then [OF b'] simp: quiet_parts)
  have "started_for io dest b x" if "quiet b' x" for x
    using that by (auto intro!: started_then [OF b'] simp: quiet_parts)
  then show ?thesis
    using quiet_send_error quiet_deliver later [OF quiet_send_error] later [OF quiet_deliver]
    by (simp add: activate_and_deliver_def a Let_def started_quiet split: sum.split option.split)
qed

text \<open>Of the driver's methods only one starts anything.\<close>

lemma start_service_started:
  assumes "arg_str args 0 = Inr n"
  shows "started_for io n b (snd (handle_start_service io args b))"
proof -
  obtain r b' where a: "activate_and_wait io n b = (r, b')"
    by (cases "activate_and_wait io n b")
  have "started_for io n b b'"
    using activate_started [of io n b] a by simp
  then show ?thesis
    by (simp add: handle_start_service_def with_checked_def assms a started_same split: sum.split)
qed

lemma other_methods_started:
  assumes "m \<noteq> ''StartServiceByName''"
  shows "started (snd (handle io c m args b)) = started b"
proof -
  have rules: "started (set_match_rules n rules b) = started b" for n rules
    by (simp add: set_match_rules_def map_registry_def)
  have "started (snd (handle_add_match c args b)) = started b"
    "started (snd (handle_remove_match c args b)) = started b"
    using match_handlers_cases [of c args b] rules by metis+
  moreover have "started (snd (handle_update_activation_env args b)) = started b"
    using update_env_cases [of args b] by auto
  moreover have "started (snd (h b)) = started b"
    if "h \<in> {handle_hello c, handle_request_name io c args, handle_release_name c args}" for h
    using that
    by (elim insertE emptyE; simp add: handler_defs Let_def map_registry_def map_stats_def
        split: with_checked_split prod.split)
  ultimately show ?thesis
    using assms by (simp add: handle_def)
qed

text \<open>The service that a message asks for.\<close>

definition asks_for :: "message \<Rightarrow> string option" where
  "asks_for msg =
     (if m_type msg \<noteq> MethodCall then None
      else if m_destination msg = Some BUS_NAME then
        (if m_member msg = Some ''StartServiceByName''
         then (case arg_str (body msg) 0 of Inr n \<Rightarrow> Some n | Inl _ \<Rightarrow> None) else None)
      else if message_no_auto_start msg then None
      else m_destination msg)"

lemma driver_call_started:
  assumes "m_type msg = MethodCall" "m_destination msg = Some BUS_NAME"
  shows "started (handle_driver_call io c msg b) = started b \<or>
    (\<exists>n. asks_for msg = Some n \<and> started_for io n b (handle_driver_call io c msg b))"
proof (cases "handle_side_interface io c (m_interface msg) (or_empty (m_member msg)) (body msg) b")
  case (Some p)
  then show ?thesis
    using side_interface_parts quiet_parts(1) [OF quiet_finish]
    by (cases p) (simp add: handle_driver_call_def)
next
  case None
  obtain out b' where h: "handle io c (or_empty (m_member msg)) (body msg) b = (out, b')"
    by (cases "handle io c (or_empty (m_member msg)) (body msg) b")
  have eq: "started (handle_driver_call io c msg b) = started b'"
    using None quiet_parts(1) [OF quiet_finish] by (simp add: handle_driver_call_def h)
  show ?thesis
  proof (cases "\<exists>n. m_member msg = Some ''StartServiceByName'' \<and> arg_str (body msg) 0 = Inr n")
    case True
    then obtain n where n: "m_member msg = Some ''StartServiceByName''" "arg_str (body msg) 0 = Inr n"
      by blast
    then have "handle io c (or_empty (m_member msg)) (body msg) b = handle_start_service io (body msg) b"
      by (simp add: handle_def or_empty_def)
    then have "started_for io n b b'"
      using start_service_started [OF n(2), of io b] h by (metis snd_conv)
    then show ?thesis
      using n assms by (auto simp: asks_for_def eq intro: started_then)
  next
    case False
    have "started b' = started b"
    proof (cases "m_member msg = Some ''StartServiceByName''")
      case True
      then have "b' = b"
        using False h
        by (cases "arg_str (body msg) 0")
          (auto simp: handle_def or_empty_def handle_start_service_def with_checked_def)
      then show ?thesis by simp
    next
      case False
      then have "or_empty (m_member msg) \<noteq> ''StartServiceByName''"
        by (cases "m_member msg") (auto simp: or_empty_def)
      then show ?thesis
        using other_methods_started [of "or_empty (m_member msg)" io c "body msg" b] h by simp
    qed
    then show ?thesis
      by (simp add: eq)
  qed
qed

lemma call_started:
  assumes "m_type msg = MethodCall" "started (dispatch_method_call io c msg b) \<noteq> started b"
  shows "\<exists>n. asks_for msg = Some n \<and> started_for io n b (dispatch_method_call io c msg b) \<and>
    (m_destination msg = Some n \<longrightarrow> n = BUS_NAME \<or> sending_allowed io c msg b)"
proof -
  have quiet: "\<not> quiet b (dispatch_method_call io c msg b)"
    using assms(2) quiet_parts(1) by blast
  then obtain dest where dest: "m_destination msg = Some dest"
    using quiet_send_error by (cases "m_destination msg") (auto simp: dispatch_method_call_def)
  show ?thesis
  proof (cases "dest = BUS_NAME")
    case True
    then show ?thesis
      using driver_call_started [OF assms(1), of io c b] assms(2) dest
      by (auto simp: dispatch_method_call_def)
  next
    case False
    have denied: "quiet b (send_error io c msg e t (count_denial b))" for e t
      unfolding count_denial_def using quiet_map_stats(1) quiet_send_error by (rule quiet_trans)
    have allowed: "sending_allowed io c msg b"
      using quiet denied False dest
      by (auto simp: dispatch_method_call_def sending_allowed_def split: if_splits)
    have eq: "dispatch_method_call io c msg b = activate_and_deliver io c msg dest b"
      using quiet denied False dest quiet_deliver
      by (auto simp: dispatch_method_call_def split: if_splits option.splits)
    have "\<not> message_no_auto_start msg"
      using quiet quiet_send_error unfolding eq by (auto simp: activate_and_deliver_def)
    then show ?thesis
      using activate_deliver_started [of io dest b c msg] allowed False dest assms(1)
      unfolding eq by (intro exI [of _ dest]) (simp add: asks_for_def)
  qed
qed

lemma incoming_started:
  assumes "started (dispatch_incoming io c msg b) \<noteq> started b"
  shows "\<exists>n. asks_for msg = Some n \<and> is_registered c \<and> started_for io n b (dispatch_incoming io c msg b) \<and>
    (m_destination msg = Some n \<longrightarrow> n = BUS_NAME \<or> sending_allowed io c (set_sender (unique_name c) msg) b)"
proof -
  define m where "m = set_sender (unique_name c) msg"
  define b0 where "b0 = deliver_to_monitors m b"
  have "message_no_auto_start m = message_no_auto_start msg"
    by (simp add: message_no_auto_start_def m_def set_sender_def header_set_sender_def)
  then have same: "asks_for m = asks_for msg" "m_destination m = m_destination msg"
    by (simp_all add: asks_for_def m_def)
  have b0: "started b0 = started b" "started_for io n b0 x = started_for io n b x"
    "sending_allowed io c m b0 = sending_allowed io c m b" for n x
    by (simp_all add: b0_def started_for_def strategy_def sending_allowed_def mac_allows_def
        bustype_def resolve_connection_def [abs_def])
  have eq: "dispatch_incoming io c msg b =
      (if \<not> is_registered c \<and> \<not> is_hello_call m then
         send_error io c m ERR_ACCESS_DENIED
           ''Client tried to send a message other than Hello without being registered'' b0
       else (case m_type m of
               Signal \<Rightarrow> dispatch_signal io c m b0
             | MethodCall \<Rightarrow> dispatch_method_call io c m b0
             | _ \<Rightarrow> dispatch_reply io m b0))"
    unfolding dispatch_incoming_def Let_def m_def b0_def by (rule refl)
  have "\<not> quiet b0 (dispatch_incoming io c msg b)"
    using assms quiet_parts(1) b0(1) by metis
  then have reg: "is_registered c \<or> is_hello_call m" and call: "m_type m = MethodCall"
    and step: "dispatch_incoming io c msg b = dispatch_method_call io c m b0"
    using quiet_send_error quiet_signal quiet_reply unfolding eq
    by (auto split: if_splits message_type.splits)
  obtain n where n: "asks_for m = Some n" "started_for io n b0 (dispatch_method_call io c m b0)"
    "m_destination m = Some n \<longrightarrow> n = BUS_NAME \<or> sending_allowed io c m b0"
    using call_started [OF call, of io c b0] assms b0(1) step by auto
  have "\<not> is_hello_call m"
    using n(1) by (auto simp: is_hello_call_def asks_for_def)
  then have "is_registered c"
    using reg by simp
  then show ?thesis
    using n unfolding step same b0 m_def [symmetric] by blast
qed

section \<open>Monitors\<close>

lemma activate_deliver_tasks: "tasks (activate_and_deliver io c msg dest b) = tasks b"
proof -
  obtain r b' where a: "activate_and_wait io dest b = (r, b')"
    by (cases "activate_and_wait io dest b")
  have "tasks b' = tasks b"
    using activate_and_wait_outbox(2) [of io dest b] a by simp
  then show ?thesis
    by (auto simp: activate_and_deliver_def a Let_def split: sum.split option.split)
qed

lemma call_tasks: "tasks (dispatch_method_call io c msg b) = tasks b"
proof -
  have handle: "tasks b' = tasks b" if "handle io c m args b = (out, b')" for m args out b'
    using handle_outbox(2) [of io c m args b] that by simp
  have "tasks (handle_driver_call io c msg b) = tasks b"
    using handle side_interface_parts
    by (auto simp: handle_driver_call_def Let_def split: option.split prod.split)
  then show ?thesis
    by (auto simp: dispatch_method_call_def activate_deliver_tasks count_denial_def split: option.split)
qed

text \<open>A message is handed to every monitor once, whatever becomes of it.\<close>

lemma incoming_tasks:
  "tasks (dispatch_incoming io c msg b) =
     tasks b @ map (\<lambda>m. (unique_name m, set_sender (unique_name c) msg))
       (filter is_monitor (all_connections (bu_registry b)))"
proof -
  let ?m = "set_sender (unique_name c) msg"
  have "tasks (dispatch_incoming io c msg b) = tasks (deliver_to_monitors ?m b)"
    by (auto simp: dispatch_incoming_def Let_def call_tasks split: message_type.split)
  then show ?thesis
    by (simp add: deliver_to_monitors_def)
qed

end
