(* ===== verification/Object_Server.thy ===== *)
theory Object_Server
  imports Message Names "HOL-Library.AList" "HOL-Library.Sublist"
begin

text \<open>
  \<open>oxibus-client/src/object_server.rs\<close>: the objects a client exports, each with its interfaces,
  the dispatch of a call to one of them, and introspection.  An implementation of the trait
  \<open>Interface\<close> is a record of what its methods answer; what a call does besides is its own.
\<close>

section \<open>Interfaces\<close>

record method_error =
  me_name :: string
  me_message :: string

definition method_error_new :: "string \<Rightarrow> string \<Rightarrow> method_error" where
  "method_error_new n m = \<lparr>me_name = n, me_message = m\<rparr>"

definition quoted :: "string \<Rightarrow> string" where
  "quoted s = CHR 0x22 # s @ [CHR 0x22]"

definition unknown_method :: "string \<Rightarrow> string \<Rightarrow> method_error" where
  "unknown_method member interface =
     method_error_new ERR_UNKNOWN_METHOD
       (''No such method '' @ quoted member @ '' on interface '' @ quoted interface)"

definition unknown_interface :: "string \<Rightarrow> method_error" where
  "unknown_interface interface =
     method_error_new ERR_UNKNOWN_INTERFACE (''No such interface '' @ quoted interface)"

definition unknown_object :: "string \<Rightarrow> method_error" where
  "unknown_object path = method_error_new ERR_UNKNOWN_OBJECT (''No such object path '' @ quoted path)"

definition method_invalid_args :: "string \<Rightarrow> method_error" where
  "method_invalid_args m = method_error_new ERR_INVALID_ARGS m"

record exported =
  if_name :: string
  introspection_xml :: string
  if_call :: "string \<Rightarrow> dvalue list \<Rightarrow> method_error + dvalue list"
  list_properties :: "(string \<times> dvalue) list"

text \<open>The trait's default for \<open>set_property\<close>.\<close>

definition default_set_property :: "string \<Rightarrow> dvalue \<Rightarrow> method_error + unit" where
  "default_set_property n v =
     Inl (method_error_new ERR_UNKNOWN_PROPERTY (''No such property '' @ quoted n))"

definition properties_xml :: "exported \<Rightarrow> string" where
  "properties_xml i =
     concat (map (\<lambda>(n, v).
       ''<property name='' @ quoted n @ '' type='' @ quoted (to_signature_string (value_type v)) @
       '' access='' @ quoted ''readwrite'' @ ''/>'') (list_properties i))"

text \<open>\<open>str::contains\<close> and \<open>str::rfind\<close>.\<close>

fun contains_str :: "string \<Rightarrow> string \<Rightarrow> bool" where
  "contains_str p [] \<longleftrightarrow> p = []"
| "contains_str p (c # s) \<longleftrightarrow> prefix p (c # s) \<or> contains_str p s"

fun rfind :: "string \<Rightarrow> string \<Rightarrow> nat option" where
  "rfind p [] = (if p = [] then Some 0 else None)"
| "rfind p (c # s) =
     (case rfind p s of
        Some i \<Rightarrow> Some (Suc i)
      | None \<Rightarrow> if prefix p (c # s) then Some 0 else None)"

definition splice_properties :: "string \<Rightarrow> string \<Rightarrow> string" where
  "splice_properties iface_xml props =
     (if props = [] \<or> contains_str ''<property'' iface_xml then iface_xml
      else (case rfind ''</interface>'' iface_xml of
              Some idx \<Rightarrow> take idx iface_xml @ props @ drop idx iface_xml
            | None \<Rightarrow> iface_xml))"

section \<open>The table of objects\<close>

text \<open>Hash maps as association lists; the order of the pairs is the order of iteration.\<close>

type_synonym object_map = "(string \<times> (string \<times> exported) list) list"

definition object_server_new :: object_map where
  "object_server_new = []"

definition register_object :: "object_path \<Rightarrow> exported \<Rightarrow> object_map \<Rightarrow> object_map" where
  "register_object path iface objects =
     (let ifaces = (case map_of objects (path_str path) of Some m \<Rightarrow> m | None \<Rightarrow> [])
      in AList.update (path_str path) (AList.update (if_name iface) iface ifaces) objects)"

definition unregister_object :: "string \<Rightarrow> string \<Rightarrow> object_map \<Rightarrow> object_map" where
  "unregister_object path interface objects =
     (case map_of objects path of
        None \<Rightarrow> objects
      | Some ifaces \<Rightarrow>
          let ifaces = AList.delete interface ifaces
          in if ifaces = [] then AList.delete path objects else AList.update path ifaces objects)"

definition has_path :: "object_map \<Rightarrow> string \<Rightarrow> bool" where
  "has_path objects path \<longleftrightarrow> map_of objects path \<noteq> None"

definition get_interface :: "object_map \<Rightarrow> string \<Rightarrow> string \<Rightarrow> exported option" where
  "get_interface objects path interface =
     Option.bind (map_of objects path) (\<lambda>ifaces. map_of ifaces interface)"

definition object_dispatch ::
  "object_map \<Rightarrow> string \<Rightarrow> string option \<Rightarrow> string \<Rightarrow> dvalue list \<Rightarrow> method_error + dvalue list" where
  "object_dispatch objects path interface member args =
     (case map_of objects path of
        None \<Rightarrow> Inl (unknown_object path)
      | Some ifaces \<Rightarrow>
          (case interface of
             Some n \<Rightarrow>
               (case map_of ifaces n of
                  Some target \<Rightarrow> if_call target member args
                | None \<Rightarrow> Inl (unknown_interface n))
           | None \<Rightarrow>
               (case map snd ifaces of
                  [] \<Rightarrow> Inl (unknown_method member ''<no interface>'')
                | [target] \<Rightarrow> if_call target member args
                | _ \<Rightarrow> Inl (method_invalid_args
                    ''ambiguous method call: multiple interfaces implement this member, specify INTERFACE''))))"

section \<open>Introspection\<close>

definition child_of :: "string \<Rightarrow> string \<Rightarrow> string option" where
  "child_of path candidate =
     (if candidate = path then None
      else
        let pre = (if path = ''/'' then ''/'' else path @ ''/'') in
        (case strip_prefix pre candidate of
           None \<Rightarrow> None
         | Some rest \<Rightarrow>
             let child = hd (split_on CHR ''/'' rest)
             in if child = [] then None else Some child))"

fun push_children :: "string \<Rightarrow> string list \<Rightarrow> string list \<Rightarrow> string list" where
  "push_children path children [] = children"
| "push_children path children (candidate # cs) =
     (case child_of path candidate of
        Some child \<Rightarrow>
          if child \<in> set children then push_children path children cs
          else push_children path (children @ [child]) cs
      | None \<Rightarrow> push_children path children cs)"

definition NL :: string where "NL = [CHR 0x0A]"

definition introspect :: "object_map \<Rightarrow> string \<Rightarrow> string" where
  "introspect objects path =
     ''<!DOCTYPE node PUBLIC '' @ quoted ''-//freedesktop//DTD D-BUS Object Introspection 1.0//EN'' @ NL @
     '' '' @ quoted ''http://www.freedesktop.org/standards/dbus/1.0/introspect.dtd'' @ ''>'' @ NL @
     ''<node>'' @ NL @
     (case map_of objects path of
        Some ifaces \<Rightarrow>
          concat (map (\<lambda>(n, i). splice_properties (introspection_xml i) (properties_xml i) @ NL) ifaces)
      | None \<Rightarrow> []) @
     concat (map (\<lambda>child. ''  <node name='' @ quoted child @ ''/>'' @ NL)
       (push_children path [] (map fst objects))) @
     ''</node>'' @ NL"

section \<open>The table as a map\<close>

definition object_view :: "object_map \<Rightarrow> string \<times> string \<Rightarrow> exported option" where
  "object_view objects = (\<lambda>(path, n). get_interface objects path n)"

lemma register_view:
  "object_view (register_object path iface objects) =
     (object_view objects)((path_str path, if_name iface) \<mapsto> iface)"
  by (auto simp: object_view_def get_interface_def register_object_def Let_def update_conv' fun_eq_iff
      split: option.split)

lemma get_register:
  "map_of (register_object path iface objects) p =
     (if p = path_str path
      then Some (AList.update (if_name iface) iface (case map_of objects p of Some m \<Rightarrow> m | None \<Rightarrow> []))
      else map_of objects p)"
  by (simp add: register_object_def Let_def update_conv')

lemma get_unregister:
  "map_of (unregister_object path n objects) p =
     (if p = path
      then (case map_of objects p of
              None \<Rightarrow> None
            | Some ifaces \<Rightarrow> if AList.delete n ifaces = [] then None else Some (AList.delete n ifaces))
      else map_of objects p)"
  by (auto simp: unregister_object_def Let_def update_conv' delete_conv' split: option.split)

lemma unregister_view:
  "object_view (unregister_object path n objects) = (object_view objects)((path, n) := None)"
proof (rule ext)
  fix k
  obtain p m where k: "k = (p :: string, m :: string)" by (cases k)
  have gone: "AList.delete n ifaces = [] \<Longrightarrow> ((map_of ifaces)(n := None)) m = None"
    for ifaces :: "(string \<times> exported) list"
    by (metis delete_conv' map_of.simps(1))
  show "object_view (unregister_object path n objects) k = ((object_view objects)((path, n) := None)) k"
    using gone by (auto simp: k object_view_def get_interface_def get_unregister delete_conv' split: option.split)
qed

lemma distinct_register:
  "distinct (map fst objects) \<Longrightarrow> distinct (map fst (register_object path iface objects))"
  by (simp add: register_object_def Let_def distinct_update)

lemma distinct_unregister:
  "distinct (map fst objects) \<Longrightarrow> distinct (map fst (unregister_object path n objects))"
  by (auto simp: unregister_object_def Let_def distinct_update distinct_delete split: option.split)

text \<open>A table of interfaces as the server keeps them.\<close>

definition wf_ifaces :: "(string \<times> exported) list \<Rightarrow> bool" where
  "wf_ifaces ifaces \<longleftrightarrow> ifaces \<noteq> [] \<and> distinct (map fst ifaces) \<and> (\<forall>(n, i) \<in> set ifaces. if_name i = n)"

lemma update_nonempty: "AList.update k v al \<noteq> []"
  by (induction al) auto

lemma update_members: "set (AList.update k v al) \<subseteq> insert (k, v) (set al)"
  by (induction al) auto

lemma delete_members: "set (AList.delete k al) \<subseteq> set al"
  by (induction al) auto

lemma wf_ifaces_update:
  assumes "ifaces = [] \<or> wf_ifaces ifaces"
  shows "wf_ifaces (AList.update (if_name i) i ifaces)"
proof -
  have "distinct (map fst ifaces)" "\<forall>(n, i) \<in> set ifaces. if_name i = n"
    using assms by (auto simp: wf_ifaces_def)
  then show ?thesis
    using update_nonempty[of "if_name i" i ifaces] update_members[of "if_name i" i ifaces]
    by (fastforce simp: wf_ifaces_def distinct_update)
qed

lemma wf_ifaces_single: "wf_ifaces [(if_name i, i)]"
  by (simp add: wf_ifaces_def)

lemma wf_ifaces_delete:
  "wf_ifaces ifaces \<Longrightarrow> AList.delete n ifaces \<noteq> [] \<Longrightarrow> wf_ifaces (AList.delete n ifaces)"
  using delete_members[of n ifaces] by (fastforce simp: wf_ifaces_def distinct_delete)

text \<open>No path is kept without an interface, and every interface is found under its own name.\<close>

definition wf_objects :: "object_map \<Rightarrow> bool" where
  "wf_objects objects \<longleftrightarrow> distinct (map fst objects) \<and>
     (\<forall>path. case map_of objects path of None \<Rightarrow> True | Some ifaces \<Rightarrow> wf_ifaces ifaces)"

lemma wf_objects_new: "wf_objects object_server_new"
  by (simp add: wf_objects_def object_server_new_def)

lemma wf_objects_found: "wf_objects objects \<Longrightarrow> map_of objects path = Some ifaces \<Longrightarrow> wf_ifaces ifaces"
  unfolding wf_objects_def by (metis (no_types, lifting) option.simps(5))

lemma wf_register:
  assumes "wf_objects objects"
  shows "wf_objects (register_object path iface objects)"
  unfolding wf_objects_def
proof (intro conjI allI)
  show "distinct (map fst (register_object path iface objects))"
    using assms by (simp add: wf_objects_def distinct_register)
  fix p
  show "case map_of (register_object path iface objects) p of None \<Rightarrow> True | Some ifaces \<Rightarrow> wf_ifaces ifaces"
    using wf_objects_found[OF assms, of p]
    by (cases "p = path_str path"; cases "map_of objects p") (simp_all add: get_register wf_ifaces_update wf_ifaces_single)
qed

lemma wf_unregister:
  assumes "wf_objects objects"
  shows "wf_objects (unregister_object path n objects)"
  unfolding wf_objects_def
proof (intro conjI allI)
  show "distinct (map fst (unregister_object path n objects))"
    using assms by (simp add: wf_objects_def distinct_unregister)
  fix p
  show "case map_of (unregister_object path n objects) p of None \<Rightarrow> True | Some ifaces \<Rightarrow> wf_ifaces ifaces"
    using wf_objects_found[OF assms, of p]
    by (cases "p = path"; cases "map_of objects p") (simp_all add: get_unregister wf_ifaces_delete)
qed

lemma has_path_view:
  assumes "wf_objects objects"
  shows "has_path objects path \<longleftrightarrow> (\<exists>n. object_view objects (path, n) \<noteq> None)"
proof (cases "map_of objects path")
  case None
  then show ?thesis by (simp add: has_path_def object_view_def get_interface_def)
next
  case (Some ifaces)
  then obtain n i r where "ifaces = (n, i) # r"
    using wf_objects_found[OF assms] by (cases ifaces) (auto simp: wf_ifaces_def)
  with Some show ?thesis by (auto simp: has_path_def object_view_def get_interface_def)
qed

text \<open>What a call reaches: the interface it names, or the only one of its object.\<close>

lemma dispatch_named:
  assumes "has_path objects path"
  shows "object_dispatch objects path (Some n) member args =
    (case object_view objects (path, n) of
       Some target \<Rightarrow> if_call target member args
     | None \<Rightarrow> Inl (unknown_interface n))"
  using assms by (auto simp: object_dispatch_def has_path_def object_view_def get_interface_def)

lemma dispatch_unknown:
  "\<not> has_path objects path \<Longrightarrow> object_dispatch objects path n member args = Inl (unknown_object path)"
  by (auto simp: object_dispatch_def has_path_def)

lemma dispatch_unnamed:
  assumes wf: "wf_objects objects" and n: "object_view objects (path, n) = Some target"
    and only: "\<And>m. object_view objects (path, m) \<noteq> None \<Longrightarrow> m = n"
  shows "object_dispatch objects path None member args = if_call target member args"
proof -
  obtain ifaces where ifaces: "map_of objects path = Some ifaces" "map_of ifaces n = Some target"
    using n by (auto simp: object_view_def get_interface_def bind_eq_Some_conv)
  then have wfi: "distinct (map fst ifaces)"
    using wf_objects_found[OF wf] by (auto simp: wf_ifaces_def)
  have one: "fst x = n" if "x \<in> set ifaces" for x
  proof -
    have "map_of ifaces (fst x) = Some (snd x)" using that wfi by simp
    then show ?thesis using only[of "fst x"] ifaces by (simp add: object_view_def get_interface_def)
  qed
  obtain x r where split: "ifaces = x # r" using ifaces by (cases ifaces) auto
  have "r = []"
    using wfi one[of x] one unfolding split by (cases r) force+
  with ifaces split one[of x] show ?thesis by (cases x) (auto simp: object_dispatch_def split: if_splits)
qed

section \<open>Children\<close>

lemma push_children_set:
  "set (push_children path children cs) = set children \<union> {c. \<exists>x \<in> set cs. child_of path x = Some c}"
  by (induction path children cs rule: push_children.induct) (auto split: option.split)

lemma push_children_distinct:
  "distinct children \<Longrightarrow> distinct (push_children path children cs)"
  by (induction path children cs rule: push_children.induct) (auto split: option.split)

end
