(* ===== verification/Transport.thy ===== *)
theory Transport
  imports Message Registry
begin

text \<open>
  \<open>oxibus-transport/src/stream.rs\<close> and the receiving part of \<open>fds.rs\<close>: SASL lines and framed
  messages over a stream socket.  What the socket does is a list of events, one for each
  system call: data arrives in pieces of any size, with descriptors, or a write takes a part of
  the data.  An operation that needs more events than there are is still waiting (\<open>Pending\<close>).
\<close>

section \<open>Receiving\<close>

datatype io_error =
    PeerGone string
  | InvalidData string
  | InvalidFrame core_error
  | SocketError string

datatype 'a poll = Pending | Panicked | Done "io_error + 'a"

text \<open>The result of \<open>recvmsg\<close>; of a control message, whether it is \<open>SCM_RIGHTS\<close>, and its descriptors.\<close>

record control_message =
  cm_rights :: bool
  cm_fds :: "int list"

record recv_result =
  rr_bytes :: "u8 list"
  rr_control :: "control_message list"
  rr_truncated :: bool

definition recv_with_fds :: "recv_result \<Rightarrow> io_error + u8 list \<times> int list" where
  "recv_with_fds r =
     (let received_fds = concat (map cm_fds (filter cm_rights (rr_control r)))
      in if rr_truncated r then
           Inl (InvalidData ''SCM_RIGHTS ancillary data truncated (too many fds in one message)'')
         else Inr (rr_bytes r, received_fds))"

datatype recv_event = NotReady | Fails string | Arrives recv_result

record transport =
  read_buf :: "u8 list"
  pending_fds :: "int list"
  tr_credentials :: peer_credentials
  max_message_size :: u32

definition transport_new :: "peer_credentials \<Rightarrow> transport" where
  "transport_new c =
     \<lparr>read_buf = [], pending_fds = [], tr_credentials = c, max_message_size = DEFAULT_MAX_MESSAGE_LEN\<rparr>"

definition set_max_message_size :: "u32 \<Rightarrow> transport \<Rightarrow> transport" where
  "set_max_message_size m t = t\<lparr>max_message_size := m\<rparr>"

type_synonym 'a reading = "'a poll \<times> transport \<times> recv_event list"

fun fill_more :: "recv_event list \<Rightarrow> transport \<Rightarrow> unit reading" where
  "fill_more [] t = (Pending, t, [])"
| "fill_more (NotReady # es) t = fill_more es t"
| "fill_more (Fails e # es) t = (Done (Inl (SocketError e)), t, es)"
| "fill_more (Arrives r # es) t =
     (case recv_with_fds r of
        Inl e \<Rightarrow> (Done (Inl e), t, es)
      | Inr (chunk, recv_fds) \<Rightarrow>
          if chunk = [] then (Done (Inl (PeerGone ''peer closed'')), t, es)
          else (Done (Inr ()),
                t\<lparr>read_buf := read_buf t @ chunk, pending_fds := pending_fds t @ recv_fds\<rparr>, es))"

lemma fill_more_shorter: "fill_more es t = (Done (Inr u), t', es') \<Longrightarrow> length es' < length es"
  by (induction es t rule: fill_more.induct) (auto split: sum.splits if_splits)

text \<open>The loops of the readers: look at the buffer, and receive more until that gives a result.\<close>

function fill_until ::
  "(transport \<Rightarrow> (io_error + 'a) option) \<Rightarrow> recv_event list \<Rightarrow> transport \<Rightarrow> 'a reading" where
  "fill_until check es t =
     (case check t of
        Some r \<Rightarrow> (Done r, t, es)
      | None \<Rightarrow>
          (case fill_more es t of
             (Done (Inr _), t', es') \<Rightarrow> fill_until check es' t'
           | (Done (Inl e), t', es') \<Rightarrow> (Done (Inl e), t', es')
           | (Panicked, t', es') \<Rightarrow> (Panicked, t', es')
           | (Pending, t', es') \<Rightarrow> (Pending, t', es')))"
  by pat_completeness auto

termination fill_until
  by (relation "measure (\<lambda>(c, es, t). length es)") (auto dest: fill_more_shorter [OF sym])

declare fill_until.simps [simp del]

definition then_read ::
  "'a reading \<Rightarrow> ('a \<Rightarrow> recv_event list \<Rightarrow> transport \<Rightarrow> 'b reading) \<Rightarrow> 'b reading" where
  "then_read r f =
     (case r of
        (Done (Inr a), t, es) \<Rightarrow> f a es t
      | (Done (Inl e), t, es) \<Rightarrow> (Done (Inl e), t, es)
      | (Panicked, t, es) \<Rightarrow> (Panicked, t, es)
      | (Pending, t, es) \<Rightarrow> (Pending, t, es))"

section \<open>The SASL phase\<close>

definition read_initial_nul :: "recv_event list \<Rightarrow> transport \<Rightarrow> unit reading" where
  "read_initial_nul es t =
     then_read (fill_until (\<lambda>t. if read_buf t = [] then None else Some (Inr ())) es t) (\<lambda>_ es t.
       if read_buf t ! 0 \<noteq> 0 then (Done (Inl (InvalidData ''expected leading NUL byte'')), t, es)
       else (Done (Inr ()), t\<lparr>read_buf := drop 1 (read_buf t)\<rparr>, es))"

definition MAX_AUTH_LINE_BYTES :: nat where "MAX_AUTH_LINE_BYTES = 16384"

fun find_crlf :: "u8 list \<Rightarrow> nat option" where
  "find_crlf (x # y # r) = (if x = 13 \<and> y = 10 then Some 0 else map_option Suc (find_crlf (y # r)))"
| "find_crlf _ = None"

definition line_check :: "transport \<Rightarrow> (io_error + nat) option" where
  "line_check t =
     (case find_crlf (read_buf t) of
        Some pos \<Rightarrow> Some (Inr pos)
      | None \<Rightarrow>
          if length (read_buf t) > MAX_AUTH_LINE_BYTES then Some (Inl (InvalidData ''SASL line too long''))
          else None)"

definition read_line :: "recv_event list \<Rightarrow> transport \<Rightarrow> string reading" where
  "read_line es t =
     then_read (fill_until line_check es t) (\<lambda>pos es t.
       let line = str_of_bytes (take pos (read_buf t));
           t = t\<lparr>read_buf := drop 2 (drop pos (read_buf t))\<rparr>
       in if valid_utf8 line then (Done (Inr line), t, es)
          else (Done (Inl (InvalidData ''non-UTF8 SASL line'')), t, es))"

section \<open>Messages\<close>

definition frame_check :: "transport \<Rightarrow> (io_error + nat) option" where
  "frame_check t =
     (case peek_frame_len (read_buf t) of
        Inr (Some n) \<Rightarrow> Some (Inr n)
      | Inr None \<Rightarrow> None
      | Inl e \<Rightarrow> Some (Inl (InvalidFrame e)))"

definition take_frame :: "nat \<Rightarrow> recv_event list \<Rightarrow> transport \<Rightarrow> message reading" where
  "take_frame n es t0 =
     (let frame = take n (read_buf t0);
          t = t0\<lparr>read_buf := drop n (read_buf t0)\<rparr>
      in case header_read frame of
           None \<Rightarrow> (Panicked, t, es)
         | Some (Inl e) \<Rightarrow> (Done (Inl (InvalidFrame e)), t, es)
         | Some (Inr (h, _)) \<Rightarrow>
             let declared = unat (header_unix_fds h);
                 taken = take (min declared (length (pending_fds t))) (pending_fds t);
                 t = t\<lparr>pending_fds := drop (min declared (length (pending_fds t))) (pending_fds t)\<rparr>
             in (case from_bytes frame taken of
                   None \<Rightarrow> (Panicked, t, es)
                 | Some (Inl e) \<Rightarrow> (Done (Inl (InvalidFrame e)), t, es)
                 | Some (Inr m) \<Rightarrow> (Done (Inr m), t, es)))"

definition read_message :: "recv_event list \<Rightarrow> transport \<Rightarrow> message reading" where
  "read_message es t =
     then_read (fill_until frame_check es t) (\<lambda>n es t.
       if n > unat (max_message_size t) then
         (Done (Inl (InvalidData
            (''message of '' @ show_nat n @ '' bytes exceeds max_message_size ('' @
             show_nat (unat (max_message_size t)) @ '')''))), t, es)
       else
         then_read (fill_until (\<lambda>t. if length (read_buf t) < n then None else Some (Inr ())) es t)
           (\<lambda>_ es t. take_frame n es t))"

section \<open>Sending\<close>

datatype send_event = NoRoom | SendFails string | Accepts nat

text \<open>The calls that took data, each with what it took and the descriptors attached to it.\<close>

fun write_all_with_fds ::
  "send_event list \<Rightarrow> bool \<Rightarrow> u8 list \<Rightarrow> int list \<Rightarrow> (u8 list \<times> int list) list \<times> unit poll" where
  "write_all_with_fds es first [] out_fds = ([], Done (Inr ()))"
| "write_all_with_fds [] first bs out_fds = ([], Pending)"
| "write_all_with_fds (NoRoom # es) first bs out_fds = write_all_with_fds es first bs out_fds"
| "write_all_with_fds (SendFails e # es) first bs out_fds = ([], Done (Inl (SocketError e)))"
| "write_all_with_fds (Accepts n # es) first bs out_fds =
     (if n > length bs then ([], Panicked)
      else
        (case write_all_with_fds es False (drop n bs) out_fds of
           (calls, r) \<Rightarrow> ((take n bs, if first then out_fds else []) # calls, r)))"

definition write_line :: "send_event list \<Rightarrow> string \<Rightarrow> (u8 list \<times> int list) list \<times> unit poll" where
  "write_line es line = write_all_with_fds es True (as_bytes line @ [13, 10]) []"

definition send_initial_nul :: "send_event list \<Rightarrow> (u8 list \<times> int list) list \<times> unit poll" where
  "send_initial_nul es = write_all_with_fds es True [0] []"

definition transport_write ::
  "send_event list \<Rightarrow> message \<Rightarrow> (u8 list \<times> int list) list \<times> unit poll" where
  "transport_write es msg =
     (case to_bytes msg of
        Inl e \<Rightarrow> ([], Done (Inl (InvalidFrame e)))
      | Inr bs \<Rightarrow> write_all_with_fds es True bs (fds msg))"

section \<open>What a stream delivers\<close>

definition arrived :: "recv_event \<Rightarrow> u8 list" where
  "arrived e = (case e of Arrives r \<Rightarrow> rr_bytes r | _ \<Rightarrow> [])"

definition arrived_fds :: "recv_event \<Rightarrow> int list" where
  "arrived_fds e =
     (case e of Arrives r \<Rightarrow> concat (map cm_fds (filter cm_rights (rr_control r))) | _ \<Rightarrow> [])"

definition stream :: "recv_event list \<Rightarrow> u8 list" where
  "stream es = concat (map arrived es)"

definition stream_fds :: "recv_event list \<Rightarrow> int list" where
  "stream_fds es = concat (map arrived_fds es)"

text \<open>Nothing fails: the peer stays and no descriptors are lost.\<close>

definition delivers :: "recv_event list \<Rightarrow> bool" where
  "delivers es \<longleftrightarrow> list_all (\<lambda>e. case e of
     NotReady \<Rightarrow> True | Fails _ \<Rightarrow> False | Arrives r \<Rightarrow> rr_bytes r \<noteq> [] \<and> \<not> rr_truncated r) es"

text \<open>The transport after it has received these events.\<close>

definition fed :: "recv_event list \<Rightarrow> transport \<Rightarrow> transport" where
  "fed es t = t\<lparr>read_buf := read_buf t @ stream es, pending_fds := pending_fds t @ stream_fds es\<rparr>"

lemma fed_simps [simp]:
  "fed [] t = t" "read_buf (fed es t) = read_buf t @ stream es"
  "pending_fds (fed es t) = pending_fds t @ stream_fds es"
  "max_message_size (fed es t) = max_message_size t"
  by (simp_all add: fed_def stream_def stream_fds_def)

lemma stream_append [simp]:
  "stream (xs @ ys) = stream xs @ stream ys" "stream_fds (xs @ ys) = stream_fds xs @ stream_fds ys"
  "delivers (xs @ ys) \<longleftrightarrow> delivers xs \<and> delivers ys"
  by (simp_all add: stream_def stream_fds_def delivers_def)

lemma fed_append: "fed ys (fed xs t) = fed (xs @ ys) t"
  by (simp add: fed_def)

lemma fill_more_delivers:
  assumes "delivers es" "stream es \<noteq> []"
  obtains used es' where "es = used @ es'" "used \<noteq> []" "fill_more es t = (Done (Inr ()), fed used t, es')"
  using assms
proof (induction es t arbitrary: thesis rule: fill_more.induct)
  case (2 es t)
  then have "delivers es" "stream es \<noteq> []"
    by (auto simp: delivers_def stream_def arrived_def)
  then obtain used es' where "es = used @ es'" "fill_more es t = (Done (Inr ()), fed used t, es')"
    using "2.IH" by blast
  then show ?case
    using "2.prems"(1) [of "NotReady # used" es']
    by (simp add: fed_def stream_def stream_fds_def arrived_def arrived_fds_def)
next
  case (4 r es t)
  then show ?case
    by (intro "4.prems"(1) [of "[Arrives r]" es])
      (auto simp: recv_with_fds_def delivers_def fed_def stream_def stream_fds_def arrived_def arrived_fds_def)
qed (auto simp: delivers_def stream_def)

lemma fed_nothing:
  assumes "delivers es" "stream es = []"
  shows "fed es t = t"
proof -
  have ready: "e = NotReady" if e: "e \<in> set es" for e
  proof -
    have "arrived e = []" "case e of NotReady \<Rightarrow> True | Fails _ \<Rightarrow> False
        | Arrives r \<Rightarrow> rr_bytes r \<noteq> [] \<and> \<not> rr_truncated r"
      using assms e unfolding stream_def delivers_def list_all_iff by simp_all
    then show ?thesis
      by (cases e) (simp_all add: arrived_def)
  qed
  have "arrived_fds e = []" if "e \<in> set es" for e
    using ready [OF that] by (simp add: arrived_fds_def)
  then show ?thesis
    using assms(2) by (simp add: fed_def stream_fds_def)
qed

text \<open>
  A loop whose check can only ever give \<open>r\<close>, and does so at the latest on all there is, ends
  with \<open>r\<close> however the data was cut into pieces.
\<close>

lemma fill_until_delivers:
  assumes "delivers es"
    and "\<And>used es'. es = used @ es' \<Longrightarrow> check (fed used t) \<in> {None, Some r}"
    and "check (fed es t) = Some r"
  obtains used es' where "es = used @ es'" "check (fed used t) = Some r"
    "fill_until check es t = (Done r, fed used t, es')"
  using assms
proof (induction "length es" arbitrary: es t thesis rule: less_induct)
  case less
  show thesis
  proof (cases "check t")
    case (Some r')
    then have "r' = r"
      using less.prems(3) [of "[]" es] by simp
    then show thesis
      using Some by (intro less.prems(1) [of "[]" es]) (simp_all add: fill_until.simps [of check es])
  next
    case None
    have "stream es \<noteq> []"
      using None less.prems(2,4) fed_nothing by fastforce
    then obtain u1 es1 where one: "es = u1 @ es1" "u1 \<noteq> []" "fill_more es t = (Done (Inr ()), fed u1 t, es1)"
      using fill_more_delivers less.prems(2) by blast
    have step: "fill_until check es t = fill_until check es1 (fed u1 t)"
      using None one(3) by (simp add: fill_until.simps [of check es])
    obtain used es' where "es1 = used @ es'" "check (fed used (fed u1 t)) = Some r"
      "fill_until check es1 (fed u1 t) = (Done r, fed used (fed u1 t), es')"
    proof (rule less.hyps [of es1 "fed u1 t"])
      show "length es1 < length es" "delivers es1"
        using one(1,2) less.prems(2) by simp_all
      show "check (fed used (fed u1 t)) \<in> {None, Some r}" if "es1 = used @ es'" for used es'
        using less.prems(3) [of "u1 @ used" es'] that one(1) by (simp add: fed_append)
      show "check (fed es1 (fed u1 t)) = Some r"
        using less.prems(4) one(1) by (simp add: fed_append)
    qed blast
    then show thesis
      using one(1) step by (intro less.prems(1) [of "u1 @ used" es']) (simp_all add: fed_append)
  qed
qed

section \<open>Lines and frames arrive whole\<close>

lemma find_crlf_None_prefix: "find_crlf (xs @ ys) = None \<Longrightarrow> find_crlf xs = None"
  by (induction xs rule: find_crlf.induct) (auto split: if_splits)

lemma find_crlf_line:
  assumes "13 \<notin> set xs"
  shows "find_crlf (xs @ 13 # 10 # ys) = Some (length xs)"
    "prefix p (xs @ [13]) \<Longrightarrow> find_crlf p = None"
proof -
  show line: "find_crlf (xs @ 13 # 10 # ys) = Some (length xs)"
    using assms
  proof (induction xs)
    case (Cons x xs)
    then show ?case by (cases xs) auto
  qed simp
  have "find_crlf (xs @ [13]) = None"
    using assms
  proof (induction xs)
    case (Cons x xs)
    then show ?case by (cases xs) auto
  qed simp
  then show "prefix p (xs @ [13]) \<Longrightarrow> find_crlf p = None"
    by (auto simp: prefix_def intro: find_crlf_None_prefix)
qed

lemma prefix_total:
  "prefix p (xs @ ys) \<Longrightarrow> prefix p xs \<or> (\<exists>zs. p = xs @ zs \<and> prefix zs ys)"
  by (metis prefix_append)

lemma cr_in_as_bytes: "13 \<in> set (as_bytes s) \<longleftrightarrow> CHR 0x0D \<in> set s"
proof -
  have "13 = byte_of (CHR 0x0D)"
    by (simp add: byte_of_def)
  then have "13 \<in> set (as_bytes s) \<longleftrightarrow> byte_of (CHR 0x0D) \<in> byte_of ` set s"
    by (simp add: as_bytes_def)
  then show ?thesis
    by (simp add: image_iff)
qed

text \<open>While a line comes in, it is waited for; a CR LF that is found is the one at its end.\<close>

lemma line_check_partial:
  assumes "13 \<notin> set (as_bytes line)" "length line < MAX_AUTH_LINE_BYTES"
    and "prefix (read_buf t) (as_bytes line @ 13 # 10 # rest)"
  shows "line_check t \<in> {None, Some (Inr (length line))}"
proof -
  consider "prefix (read_buf t) (as_bytes line @ [13])"
    | zs where "read_buf t = as_bytes line @ 13 # 10 # zs"
    using prefix_total [of "read_buf t" "as_bytes line @ [13]" "10 # rest"] assms(3)
    by (auto simp: prefix_Cons)
  then show ?thesis
  proof cases
    case 1
    then have "find_crlf (read_buf t) = None" "length (read_buf t) \<le> length line + 1"
      using find_crlf_line(2) [OF assms(1)] prefix_length_le [OF 1] by auto
    then show ?thesis
      using assms(2) by (simp add: line_check_def)
  qed (simp add: line_check_def find_crlf_line(1) [OF assms(1)])
qed

lemma found_line_complete:
  assumes "13 \<notin> set (as_bytes line)" "b @ b' = as_bytes line @ 13 # 10 # rest"
    and "find_crlf b \<noteq> None"
  shows "length line + 2 \<le> length b" "take (length line) b = as_bytes line"
    "drop (length line + 2) b @ b' = rest"
proof -
  show len: "length line + 2 \<le> length b"
  proof (rule ccontr)
    assume "\<not> ?thesis"
    then have "prefix b (as_bytes line @ [13])"
      using arg_cong [OF assms(2), of "take (length line + 1)"]
      by (intro prefixI [of _ _ "take (length line + 1 - length b) b'"]) (simp add: Suc_diff_le)
    then show False
      using find_crlf_line(2) [OF assms(1)] assms(3) by simp
  qed
  show "take (length line) b = as_bytes line"
    using arg_cong [OF assms(2), of "take (length line)"] len by simp
  show "drop (length line + 2) b @ b' = rest"
    using arg_cong [OF assms(2), of "drop (length line + 2)"] len by simp
qed

text \<open>A line without CR that fits is read as it was written, and the rest stays for the next reader.\<close>

lemma read_line_delivers:
  assumes "delivers es" "read_buf t @ stream es = as_bytes line @ 13 # 10 # rest"
    and "CHR 0x0D \<notin> set line" "valid_utf8 line" "length line < MAX_AUTH_LINE_BYTES"
  obtains used es' where "es = used @ es'"
    "read_line es t = (Done (Inr line), (fed used t)\<lparr>read_buf := drop (length line + 2) (read_buf (fed used t))\<rparr>, es')"
    "drop (length line + 2) (read_buf (fed used t)) @ stream es' = rest"
proof -
  have cr: "13 \<notin> set (as_bytes line)"
    using assms(3) by (simp add: cr_in_as_bytes)
  have check: "line_check (fed u t) \<in> {None, Some (Inr (length line))}" if "es = u @ es'" for u es'
    using that assms(2) by (intro line_check_partial [OF cr assms(5)] prefixI [of _ _ "stream es'"]) simp
  have full: "line_check (fed es t) = Some (Inr (length line))"
    using find_crlf_line(1) [OF cr, of rest] assms(2) by (simp add: line_check_def)
  obtain used es' where u: "es = used @ es'" "line_check (fed used t) = Some (Inr (length line))"
    "fill_until line_check es t = (Done (Inr (length line)), fed used t, es')"
    by (rule fill_until_delivers [where check = line_check and r = "Inr (length line)", OF assms(1) check full])
  have found: "find_crlf (read_buf (fed used t)) \<noteq> None"
    using u(2) by (auto simp: line_check_def split: option.splits if_splits)
  have pre: "read_buf (fed used t) @ stream es' = as_bytes line @ 13 # 10 # rest"
    using assms(2) u(1) by simp
  note complete = found_line_complete [OF cr pre found]
  show thesis
    using u(1,3) assms(4) complete(2,3) by (intro that [of used es'])
      (simp_all add: read_line_def then_read_def Let_def add.commute)
qed

lemma peek_frame_len_append:
  assumes "length p = 16"
  shows "peek_frame_len (p @ q) = peek_frame_len p"
proof -
  have u: "unmarshaler_new (drop 4 p @ q) be = (unmarshaler_new (drop 4 p) be)\<lparr>u_buf := drop 4 p @ q\<rparr>" for be
    by (simp add: unmarshaler_new_def)
  have "read_prefix (p @ q) = read_prefix p"
  proof (cases "byte_order (p ! 0)")
    case (Inr be)
    then show ?thesis
      using assms
      by (cases "message_type_from_u8 (p ! 1)"; cases "p ! 3 = PROTOCOL_VERSION")
        (simp_all add: read_prefix_def nth_append unmarshaler_new_def read_u32_aligned u_skip_def)
  qed (use assms in \<open>simp add: read_prefix_def nth_append\<close>)
  then show ?thesis
    using assms by (simp add: peek_frame_len_def)
qed

lemma from_bytes_header:
  "from_bytes bs ds = Some (Inr m) \<Longrightarrow> \<exists>off. header_read bs = Some (Inr (header m, off))"
  by (auto simp: from_bytes_def result_simps split: option.splits if_splits)

lemma written_header:
  assumes "to_bytes m = Inr bs" "wf_message m" "length bs < 2 ^ 32"
  obtains off where "header_read bs = Some (Inr (header (received m), off))"
    "unat (header_unix_fds (header (received m))) = length (fds m)"
proof -
  obtain off where h: "header_read bs = Some (Inr (header (received m), off))"
    using from_to_bytes [OF assms] from_bytes_header by blast
  obtain bb sig where "marshal_body (body m) (h_big_endian (header m)) = Inr (bb, sig)"
    using assms(1) by (auto simp: to_bytes_def result_simps)
  then have "unat (header_unix_fds (header (received m))) = length (fds m)"
    using assms(2) by (simp add: received_def sent_header_unix_fds wf_message_def unat_of_nat)
  with h show thesis
    by (rule that)
qed

lemma from_bytes_other_fds:
  assumes "from_bytes bs ds = Some (Inr m)" "length ds' = length ds"
  shows "from_bytes bs ds' = Some (Inr (m\<lparr>fds := ds'\<rparr>))"
proof -
  obtain off where h: "header_read bs = Some (Inr (header m, off))"
    using from_bytes_header [OF assms(1)] by blast
  then show ?thesis
    using assms
    by (cases m) (auto simp: from_bytes_def result_simps split: option.splits if_splits)
qed

lemma take_frame_buf: "length (read_buf (fst (snd (take_frame n es t)))) \<le> length (read_buf t)"
  by (simp add: take_frame_def Let_def split: option.split sum.split prod.split)

lemma taken_prefix: "b @ b' = bs @ rest \<Longrightarrow> k \<le> length b \<Longrightarrow> take k b = take k (bs @ rest)"
  by (metis append_Nil2 diff_is_0_eq take0 take_append)

lemma frame_head:
  assumes "peek_frame_len bs = Inr (Some (length bs))"
  shows "16 \<le> length bs" "peek_frame_len (take 16 bs @ xs) = Inr (Some (length bs))"
proof -
  show len: "16 \<le> length bs"
    using assms by (auto simp: peek_frame_len_def split: if_splits)
  show "peek_frame_len (take 16 bs @ xs) = Inr (Some (length bs))"
    using peek_frame_len_append [of "take 16 bs"] len assms
    by (metis append_take_drop_id length_take min_absorb2)
qed

text \<open>While the head of a frame comes in, it is waited for; then the length of the frame is known.\<close>

lemma frame_check_partial:
  assumes "peek_frame_len bs = Inr (Some (length bs))" "read_buf t @ later = bs @ rest"
  shows "frame_check t = (if length (read_buf t) < 16 then None else Some (Inr (length bs)))"
proof (cases "length (read_buf t) < 16")
  case False
  then have "take 16 (read_buf t) = take 16 bs"
    using taken_prefix [OF assms(2), of 16] frame_head(1) [OF assms(1)] by simp
  then have "peek_frame_len (read_buf t) = Inr (Some (length bs))"
    using frame_head(2) [OF assms(1)] by (metis append_take_drop_id)
  then show ?thesis
    using False by (simp add: frame_check_def)
qed (simp add: frame_check_def peek_frame_len_def)

text \<open>
  A message that fits is read as it was written, with its descriptors, if these have come by
  the time its last byte has; what follows it stays for the next reader.
\<close>

lemma take_frame_written:
  assumes "to_bytes m = Inr bs" "wf_message m" "length bs < 2 ^ 32"
    and "read_buf t = bs @ later" "pending_fds t = fds m @ others"
  shows "take_frame (length bs) es t = (Done (Inr (received m)), t\<lparr>read_buf := later, pending_fds := others\<rparr>, es)"
proof -
  obtain off where "header_read bs = Some (Inr (header (received m), off))"
    "unat (header_unix_fds (header (received m))) = length (fds m)"
    using assms(1-3) by (rule written_header)
  moreover have "from_bytes bs (fds m) = Some (Inr (received m))"
    using from_to_bytes [OF assms(1-3)] by simp
  ultimately show ?thesis
    using assms(4,5) by (simp add: take_frame_def Let_def)
qed

lemma read_message_delivers:
  assumes m: "to_bytes m = Inr bs" "wf_message m" "length bs < 2 ^ 32" "length bs \<le> unat (max_message_size t)"
    and es: "delivers es" "read_buf t @ stream es = bs @ rest"
    and fds: "\<And>used es'. es = used @ es' \<Longrightarrow> length bs \<le> length (read_buf (fed used t)) \<Longrightarrow>
      prefix (fds m) (pending_fds (fed used t))"
  obtains used es' where "es = used @ es'"
    "read_message es t = (Done (Inr (received m)),
       (fed used t)\<lparr>read_buf := drop (length bs) (read_buf (fed used t)),
          pending_fds := drop (length (fds m)) (pending_fds (fed used t))\<rparr>, es')"
    "drop (length bs) (read_buf (fed used t)) @ stream es' = rest"
proof -
  have peek: "peek_frame_len bs = Inr (Some (length bs))"
    using from_to_bytes [OF m(1-3)] by simp
  have check: "frame_check (fed u t) \<in> {None, Some (Inr (length bs))}" if "es = u @ es'" for u es'
    using that es(2) by (subst frame_check_partial [OF peek, of _ "stream es'" rest]) auto
  have full: "frame_check (fed es t) = Some (Inr (length bs))"
    using es(2) frame_head(1) [OF peek] arg_cong [OF es(2), of length]
    by (subst frame_check_partial [OF peek, of _ "[]" rest]) auto
  obtain u1 es1 where one: "es = u1 @ es1" "frame_check (fed u1 t) = Some (Inr (length bs))"
    "fill_until frame_check es t = (Done (Inr (length bs)), fed u1 t, es1)"
    by (rule fill_until_delivers [where check = frame_check and r = "Inr (length bs)", OF es(1) check full])
  let ?check = "\<lambda>t. if length (read_buf t) < length bs then None else Some (Inr ()) :: (io_error + unit) option"
  have es1: "delivers es1" "\<not> length (read_buf (fed es1 (fed u1 t))) < length bs"
    using es one(1) arg_cong [OF es(2), of length] by simp_all
  then have full1: "?check (fed es1 (fed u1 t)) = Some (Inr ())"
    by simp
  have check1: "?check (fed v (fed u1 t)) \<in> {None, Some (Inr ())}" if "es1 = v @ es'" for v es'
    by simp
  obtain u2 es' where two: "es1 = u2 @ es'" "?check (fed u2 (fed u1 t)) = Some (Inr ())"
    "fill_until ?check es1 (fed u1 t) = (Done (Inr ()), fed u2 (fed u1 t), es')"
    by (rule fill_until_delivers [where check = ?check and r = "Inr ()", OF es1(1) check1 full1])
  let ?t = "fed (u1 @ u2) t"
  have split: "es = (u1 @ u2) @ es'" and enough: "length bs \<le> length (read_buf ?t)"
    using one(1) two(1,2) by (simp_all split: if_splits)
  have come: "read_buf ?t @ stream es' = bs @ rest"
    using es(2) split by simp
  then obtain later where later: "read_buf ?t = bs @ later"
    using taken_prefix [OF come enough] by (metis append_take_drop_id append_eq_conv_conj)
  obtain others where others: "pending_fds ?t = fds m @ others"
    using fds [OF split enough] by (auto simp: prefix_def)
  have "later @ stream es' = rest"
    using come unfolding later by simp
  then show thesis
    using split later others m(4) one(3) two(3) take_frame_written [OF m(1-3) later others, of es']
    by (intro that [of "u1 @ u2" es']) (simp_all add: read_message_def then_read_def fed_append fed_simps(4) del: fed_simps(1-3))
qed

text \<open>Any number of messages without descriptors, one after the other.\<close>

fun read_messages :: "nat \<Rightarrow> recv_event list \<Rightarrow> transport \<Rightarrow> message list reading" where
  "read_messages 0 es t = (Done (Inr []), t, es)"
| "read_messages (Suc n) es t =
     then_read (read_message es t) (\<lambda>m es t.
     then_read (read_messages n es t) (\<lambda>ms es t. (Done (Inr (m # ms)), t, es)))"

definition sendable :: "u32 \<Rightarrow> message \<Rightarrow> u8 list \<Rightarrow> bool" where
  "sendable limit m bs \<longleftrightarrow> to_bytes m = Inr bs \<and> wf_message m \<and> fds m = [] \<and>
     length bs < 2 ^ 32 \<and> length bs \<le> unat limit"

lemma read_messages_delivers:
  assumes "list_all2 (sendable (max_message_size t)) ms bss" "delivers es"
    and "read_buf t @ stream es = concat bss @ rest"
  shows "\<exists>t' es'. read_messages (length ms) es t = (Done (Inr (map received ms)), t', es') \<and>
    read_buf t' @ stream es' = rest"
  using assms(2,3,1)
proof (induction ms arbitrary: bss es t)
  case (Cons m ms)
  then obtain bs bss' where bss: "bss = bs # bss'" "sendable (max_message_size t) m bs"
    "list_all2 (sendable (max_message_size t)) ms bss'"
    by (auto simp: list_all2_Cons1)
  note m = bss(2) [unfolded sendable_def]
  have buf: "read_buf t @ stream es = bs @ concat bss' @ rest"
    using Cons.prems bss(1) by simp
  obtain used es1 where one: "es = used @ es1"
    "read_message es t = (Done (Inr (received m)),
       (fed used t)\<lparr>read_buf := drop (length bs) (read_buf (fed used t)),
          pending_fds := drop (length (fds m)) (pending_fds (fed used t))\<rparr>, es1)"
    "drop (length bs) (read_buf (fed used t)) @ stream es1 = concat bss' @ rest"
    by (rule read_message_delivers [of m bs t es "concat bss' @ rest"]) (use m buf Cons.prems in simp_all)
  let ?t = "(fed used t)\<lparr>read_buf := drop (length bs) (read_buf (fed used t)),
      pending_fds := drop (length (fds m)) (pending_fds (fed used t))\<rparr>"
  have "\<exists>t' es'. read_messages (length ms) es1 ?t = (Done (Inr (map received ms)), t', es') \<and>
      read_buf t' @ stream es' = rest"
    using bss(3) one(1,3) Cons.prems(1) by (intro Cons.IH [of es1 ?t bss']) simp_all
  then show ?case
    using one(2) by (auto simp: then_read_def)
qed simp

section \<open>Writers\<close>

text \<open>A write that ends well has handed over all bytes in order, and the descriptors once.\<close>

lemma write_all_Done:
  assumes "write_all_with_fds es first bs out = (calls, Done (Inr ()))"
  shows "concat (map fst calls) = bs \<and>
    concat (map snd calls) = (if first \<and> bs \<noteq> [] then out else [])"
  using assms
proof (induction es first bs out arbitrary: calls rule: write_all_with_fds.induct)
  case (5 n es first b bs out)
  then show ?case
    by (auto split: if_splits prod.splits)
qed auto

lemma transport_write_Done:
  assumes "transport_write es m = (calls, Done (Inr ()))"
  shows "to_bytes m = Inr (concat (map fst calls))"
  using assms write_all_Done by (auto simp: transport_write_def split: sum.splits)

text \<open>
  \<open>Writer\<close> is cloned freely and takes no lock: between two calls of one write, the calls of
  another writer of the socket may come.  A schedule tells who writes how much next.
\<close>

fun shared_socket :: "(nat \<times> nat) list \<Rightarrow> u8 list list \<Rightarrow> u8 list" where
  "shared_socket [] bufs = []"
| "shared_socket ((i, n) # sched) bufs =
     (if i < length bufs then
        take n (bufs ! i) @ shared_socket sched (bufs[i := drop n (bufs ! i)])
      else shared_socket sched bufs)"

section \<open>Buffers\<close>

definition small_pieces :: "nat \<Rightarrow> recv_event list \<Rightarrow> bool" where
  "small_pieces k es \<longleftrightarrow> list_all (\<lambda>e. length (arrived e) \<le> k) es"

lemma fill_more_small:
  assumes "fill_more es t = (p, t', es')" "small_pieces k es"
  shows "length (read_buf t') \<le> length (read_buf t) + k \<and> small_pieces k es' \<and>
    max_message_size t' = max_message_size t \<and> (p \<noteq> Done (Inr ()) \<longrightarrow> t' = t)"
  using assms
  by (induction es t rule: fill_more.induct)
    (auto simp: small_pieces_def recv_with_fds_def arrived_def split: if_splits)

text \<open>A loop that gives up or succeeds once the buffer is longer than \<open>m\<close> keeps it short.\<close>

lemma fill_until_small:
  assumes "fill_until check es t = (p, t', es')" "small_pieces k es"
    and "\<And>t. check t = None \<Longrightarrow> length (read_buf t) \<le> m"
  shows "length (read_buf t') \<le> max (length (read_buf t)) (m + k) \<and> small_pieces k es' \<and>
    max_message_size t' = max_message_size t"
  using assms
proof (induction check es t rule: fill_until.induct)
  case (1 check es t)
  show ?case
  proof (cases "check t")
    case (Some r)
    then show ?thesis
      using "1.prems" by (simp add: fill_until.simps [of check es])
  next
    case None
    obtain p1 t1 es1 where f: "fill_more es t = (p1, t1, es1)"
      by (cases "fill_more es t")
    note small = fill_more_small [OF f "1.prems"(2)]
    have m: "length (read_buf t) \<le> m"
      using "1.prems"(3) None by blast
    show ?thesis
    proof (cases "p1 = Done (Inr ())")
      case True
      then have "fill_until check es1 t1 = (p, t', es')"
        using "1.prems"(1) None f by (simp add: fill_until.simps [of check es])
      then have "length (read_buf t') \<le> max (length (read_buf t1)) (m + k) \<and> small_pieces k es' \<and>
          max_message_size t' = max_message_size t1"
        using "1.IH" [OF None f [symmetric] True refl refl _ _ "1.prems"(3)] small by blast
      then show ?thesis
        using small m by auto
    next
      case False
      then show ?thesis
        using "1.prems"(1) None f small
        by (auto simp: fill_until.simps [of check es] split: poll.splits sum.splits)
    qed
  qed
qed

end
