(* ===== verification/Client.thy ===== *)
theory Client
  imports Object_Server Transport Auth_Client
begin

text \<open>
  \<open>oxibus-client/src/connection.rs\<close>, \<open>proxy.rs\<close> and \<open>error.rs\<close>: a client's connection.  Its
  state is shared by the callers of \<open>call_method\<close> and the task that reads the socket; a call is
  a record with the channel on which its reply comes (\<open>ca_slot\<close>) and how far its caller is
  (\<open>ca_phase\<close>).  Every operation between two waits is one step on the state.
\<close>

section \<open>Errors\<close>

datatype client_error =
    Io io_error
  | Protocol string
  | AuthFailed string
  | CallError string string
  | Closed
  | Core core_error

definition is_service_unknown :: "client_error \<Rightarrow> bool" where
  "is_service_unknown e \<longleftrightarrow> (case e of CallError n _ \<Rightarrow> n = ERR_SERVICE_UNKNOWN | _ \<Rightarrow> False)"

section \<open>Descriptors\<close>

text \<open>\<open>extract_fds\<close>: descriptors move from the values into a list; an index stays in their place.\<close>

fun fd_walk :: "dvalue \<Rightarrow> int list \<Rightarrow> dvalue \<times> int list"
  and fd_walk_all :: "dvalue list \<Rightarrow> int list \<Rightarrow> dvalue list \<times> int list"
where
  "fd_walk (VUnixFd fd) out = (VUnixFd (word_of_nat (length out)), out @ [sint fd])"
| "fd_walk (VArray t els) out = (case fd_walk_all els out of (els', out') \<Rightarrow> (VArray t els', out'))"
| "fd_walk (VStruct els) out = (case fd_walk_all els out of (els', out') \<Rightarrow> (VStruct els', out'))"
| "fd_walk (VDictEntry k v) out =
     (case fd_walk k out of (k', out1) \<Rightarrow> (case fd_walk v out1 of (v', out2) \<Rightarrow> (VDictEntry k' v', out2)))"
| "fd_walk (VVariant inner) out = (case fd_walk inner out of (inner', out') \<Rightarrow> (VVariant inner', out'))"
| "fd_walk v out = (v, out)"
| "fd_walk_all [] out = ([], out)"
| "fd_walk_all (v # vs) out =
     (case fd_walk v out of (v', out1) \<Rightarrow> (case fd_walk_all vs out1 of (vs', out2) \<Rightarrow> (v' # vs', out2)))"

definition extract_fds :: "dvalue list \<Rightarrow> dvalue list \<times> int list" where
  "extract_fds values = fd_walk_all values []"

section \<open>The messages a client sends\<close>

definition with_values :: "dvalue list \<Rightarrow> message_builder \<Rightarrow> message_builder" where
  "with_values values builder =
     (case extract_fds values of (values, out) \<Rightarrow> with_args values (fold with_fd out builder))"

definition call_message ::
  "string option \<Rightarrow> object_path \<Rightarrow> string option \<Rightarrow> string \<Rightarrow> dvalue list \<Rightarrow> u32 \<Rightarrow> message" where
  "call_message destination path interface member args serial =
     (let builder = build_method_call path member;
          builder = (case interface of Some i \<Rightarrow> with_interface i builder | None \<Rightarrow> builder);
          builder = (case destination of Some d \<Rightarrow> with_destination d builder | None \<Rightarrow> builder)
      in build serial (with_values args builder))"

definition signal_message ::
  "object_path \<Rightarrow> string \<Rightarrow> string \<Rightarrow> dvalue list \<Rightarrow> u32 \<Rightarrow> message" where
  "signal_message path interface member args serial =
     build serial (with_args args (build_signal path interface member))"

definition changed_properties :: "string \<Rightarrow> (string \<times> dvalue) list \<Rightarrow> string list \<Rightarrow> dvalue list" where
  "changed_properties interface changed invalidated =
     [VString interface,
      VArray (TDictEntry TString TVariant) (map (\<lambda>(n, v). VDictEntry (VString n) (VVariant v)) changed),
      VArray TString (map VString invalidated)]"

definition exported_reply :: "message \<Rightarrow> method_error + dvalue list \<Rightarrow> u32 \<Rightarrow> message" where
  "exported_reply msg result serial =
     build serial
       (case result of
          Inr values \<Rightarrow> with_values values (reply_to msg None)
        | Inl e \<Rightarrow> with_arg (VString (me_message e)) (reply_to msg (Some (me_name e))))"

text \<open>What a reply means to the caller.\<close>

definition call_result :: "message \<Rightarrow> client_error + dvalue list" where
  "call_result reply =
     (case m_type reply of
        MethodReturn \<Rightarrow> Inr (body reply)
      | ErrorReply \<Rightarrow>
          Inl (CallError
            (case header_error_name (header reply) of Some n \<Rightarrow> n | None \<Rightarrow> [])
            (case body reply of
               [] \<Rightarrow> []
             | v # _ \<Rightarrow> (case value_as_str v of Some s \<Rightarrow> s | None \<Rightarrow> [])))
      | _ \<Rightarrow> Inl (Protocol ''unexpected reply message type''))"

section \<open>The connection\<close>

text \<open>A \<open>oneshot\<close> channel, and what its caller is doing; a caller may give up at any wait.\<close>

datatype slot = Open | Filled message | Dropped

datatype phase = Writing | Awaiting | Returned "client_error + dvalue list" | Abandoned

record client_call =
  ca_message :: message
  ca_slot :: slot
  ca_phase :: phase

abbreviation "ca_serial call \<equiv> m_serial (ca_message call)"

record client =
  cl_calls :: "client_call list"
  cl_pending :: "(u32 \<times> nat) list"
  cl_serials :: u32
  cl_reply_counter :: u32
  cl_name :: "string option"
  cl_objects :: object_map
  cl_signals :: "message list"
  cl_raw :: "message list"
  cl_written :: "message list"
  cl_reading :: bool

definition connection_new :: "object_map \<Rightarrow> u32 \<Rightarrow> client" where
  "connection_new objects counter =
     \<lparr>cl_calls = [], cl_pending = [], cl_serials = 1, cl_reply_counter = counter, cl_name = None,
      cl_objects = objects, cl_signals = [], cl_raw = [], cl_written = [], cl_reading = True\<rparr>"

definition set_slot :: "slot \<Rightarrow> nat \<Rightarrow> client \<Rightarrow> client" where
  "set_slot s i c = c\<lparr>cl_calls := (cl_calls c)[i := (cl_calls c ! i)\<lparr>ca_slot := s\<rparr>]\<rparr>"

definition set_phase :: "phase \<Rightarrow> nat \<Rightarrow> client \<Rightarrow> client" where
  "set_phase p i c = c\<lparr>cl_calls := (cl_calls c)[i := (cl_calls c ! i)\<lparr>ca_phase := p\<rparr>]\<rparr>"

text \<open>Taking an entry out of the table drops its sender, unless it is used.\<close>

definition forget_pending :: "u32 \<Rightarrow> client \<Rightarrow> client" where
  "forget_pending serial c =
     (case map_of (cl_pending c) serial of
        None \<Rightarrow> c
      | Some i \<Rightarrow> (set_slot Dropped i c)\<lparr>cl_pending := AList.delete serial (cl_pending c)\<rparr>)"

text \<open>\<open>call_method\<close>, up to the write, after the write, and after the wait for the reply.\<close>

definition start_call ::
  "string option \<Rightarrow> object_path \<Rightarrow> string option \<Rightarrow> string \<Rightarrow> dvalue list \<Rightarrow> client \<Rightarrow> client" where
  "start_call destination path interface member args c =
     (let (serial, g) = serial_next (cl_serials c);
          msg = call_message destination path interface member args serial;
          c = forget_pending serial (c\<lparr>cl_serials := g\<rparr>)
      in c\<lparr>cl_calls := cl_calls c @ [\<lparr>ca_message = msg, ca_slot = Open, ca_phase = Writing\<rparr>],
           cl_pending := AList.update serial (length (cl_calls c)) (cl_pending c)\<rparr>)"

definition call_written :: "io_error + unit \<Rightarrow> nat \<Rightarrow> client \<Rightarrow> client" where
  "call_written result i c =
     (let msg = ca_message (cl_calls c ! i) in
      case result of
        Inl e \<Rightarrow> set_phase (Returned (Inl (Io e))) i (forget_pending (m_serial msg) c)
      | Inr _ \<Rightarrow> set_phase Awaiting i (c\<lparr>cl_written := cl_written c @ [msg]\<rparr>))"

definition call_resumes :: "nat \<Rightarrow> client \<Rightarrow> client" where
  "call_resumes i c =
     (case ca_slot (cl_calls c ! i) of
        Open \<Rightarrow> c
      | Filled reply \<Rightarrow> set_phase (Returned (call_result reply)) i c
      | Dropped \<Rightarrow> set_phase (Returned (Inl Closed)) i c)"

text \<open>\<open>emit_signal\<close> and \<open>send_no_reply\<close> write a message with the next serial and wait for nothing.\<close>

definition send_only :: "io_error + unit \<Rightarrow> (u32 \<Rightarrow> message) \<Rightarrow> client \<Rightarrow> (client_error + unit) \<times> client" where
  "send_only result message_for c =
     (let (serial, g) = serial_next (cl_serials c); c = c\<lparr>cl_serials := g\<rparr>
      in case result of
           Inl e \<Rightarrow> (Inl (Io e), c)
         | Inr _ \<Rightarrow> (Inr (), c\<lparr>cl_written := cl_written c @ [message_for serial]\<rparr>))"

definition emit_signal ::
  "io_error + unit \<Rightarrow> object_path \<Rightarrow> string \<Rightarrow> string \<Rightarrow> dvalue list \<Rightarrow> client \<Rightarrow>
     (client_error + unit) \<times> client" where
  "emit_signal result path interface member args =
     send_only result (signal_message path interface member args)"

definition properties_changed ::
  "io_error + unit \<Rightarrow> object_path \<Rightarrow> string \<Rightarrow> (string \<times> dvalue) list \<Rightarrow> string list \<Rightarrow> client \<Rightarrow>
     (client_error + unit) \<times> client" where
  "properties_changed result path interface changed invalidated =
     emit_signal result path PROPERTIES_INTERFACE ''PropertiesChanged''
       (changed_properties interface changed invalidated)"

definition send_no_reply ::
  "io_error + unit \<Rightarrow> message_builder \<Rightarrow> client \<Rightarrow> (client_error + unit) \<times> client" where
  "send_no_reply result builder =
     send_only result (\<lambda>serial. build serial (with_flag NO_REPLY_EXPECTED builder))"

section \<open>The bus's own methods\<close>

definition bus_call :: "string \<Rightarrow> dvalue list \<Rightarrow> client \<Rightarrow> client" where
  "bus_call member args = start_call (Some BUS_NAME) (ObjectPath BUS_PATH) (Some BUS_INTERFACE) member args"

lemma bus_path_valid: "object_path_new BUS_PATH = Inr (ObjectPath BUS_PATH)"
  by code_simp

definition start_hello :: "client \<Rightarrow> client" where
  "start_hello = bus_call ''Hello'' []"

definition finish_hello :: "client_error + dvalue list \<Rightarrow> client \<Rightarrow> (client_error + string) \<times> client" where
  "finish_hello reply c =
     (case reply of
        Inl e \<Rightarrow> (Inl e, c)
      | Inr vs \<Rightarrow>
          (case Option.bind (if vs = [] then None else Some (hd vs)) value_as_str of
             None \<Rightarrow> (Inl (Protocol ''Hello did not return a name''), c)
           | Some n \<Rightarrow> (Inr n, c\<lparr>cl_name := Some n\<rparr>)))"

definition start_request_name :: "string \<Rightarrow> u32 \<Rightarrow> client \<Rightarrow> client" where
  "start_request_name n flags = bus_call ''RequestName'' [VString n, VUInt32 flags]"

definition finish_request_name :: "client_error + dvalue list \<Rightarrow> client_error + u32" where
  "finish_request_name reply =
     and_then reply (\<lambda>vs.
       case Option.bind (if vs = [] then None else Some (hd vs)) value_as_u32 of
         None \<Rightarrow> Inl (Protocol ''RequestName returned no result'')
       | Some code \<Rightarrow> Inr code)"

definition start_add_match :: "string \<Rightarrow> client \<Rightarrow> client" where
  "start_add_match rule = bus_call ''AddMatch'' [VString rule]"

definition finish_add_match :: "client_error + dvalue list \<Rightarrow> client_error + unit" where
  "finish_add_match reply = and_then reply (\<lambda>_. Inr ())"

section \<open>The reader\<close>

definition is_for_us :: "message \<Rightarrow> client \<Rightarrow> bool" where
  "is_for_us msg c \<longleftrightarrow>
     (case m_destination msg of None \<Rightarrow> True | Some dest \<Rightarrow> cl_name c = Some dest)"

definition answer_call :: "(message \<Rightarrow> io_error + unit) \<Rightarrow> message \<Rightarrow> client \<Rightarrow> client" where
  "answer_call wr msg c =
     (if \<not> is_for_us msg c then c
      else (case m_path msg of
              None \<Rightarrow> c
            | Some path \<Rightarrow>
                (case m_member msg of
                   None \<Rightarrow> c
                 | Some member \<Rightarrow>
                     let result = object_dispatch (cl_objects c) (path_str path) (m_interface msg) member (body msg)
                     in if message_no_reply_expected msg then c
                        else
                          let (serial, counter) = serial_next (cl_reply_counter c);
                              out = exported_reply msg result serial;
                              c = c\<lparr>cl_reply_counter := counter\<rparr>
                          in (case wr out of
                                Inl _ \<Rightarrow> c
                              | Inr _ \<Rightarrow> c\<lparr>cl_written := cl_written c @ [out]\<rparr>))))"

definition handle_incoming :: "(message \<Rightarrow> io_error + unit) \<Rightarrow> message \<Rightarrow> client \<Rightarrow> client" where
  "handle_incoming wr msg c =
     (if m_type msg = MethodReturn \<or> m_type msg = ErrorReply then
        (case m_reply_serial msg of
           None \<Rightarrow> c
         | Some reply_serial \<Rightarrow>
             (case map_of (cl_pending c) reply_serial of
                None \<Rightarrow> c
              | Some i \<Rightarrow>
                  (set_slot (Filled msg) i c)
                    \<lparr>cl_pending := AList.delete reply_serial (cl_pending c)\<rparr>))
      else if m_type msg = Signal then c\<lparr>cl_signals := cl_signals c @ [msg]\<rparr>
      else answer_call wr msg c)"

text \<open>One round of the reader's loop, and its end: the table of pending calls is cleared.\<close>

definition receive_message :: "(message \<Rightarrow> io_error + unit) \<Rightarrow> message \<Rightarrow> client \<Rightarrow> client" where
  "receive_message wr msg c = handle_incoming wr msg (c\<lparr>cl_raw := cl_raw c @ [msg]\<rparr>)"

definition reader_ends :: "client \<Rightarrow> client" where
  "reader_ends c =
     (fold (\<lambda>(_, i). set_slot Dropped i) (cl_pending c) c)\<lparr>cl_pending := [], cl_reading := False\<rparr>"

text \<open>A panic of the reader's task would leave the table as it is.\<close>

fun reader_rounds ::
  "(message \<Rightarrow> io_error + unit) \<Rightarrow> nat \<Rightarrow> recv_event list \<Rightarrow> transport \<Rightarrow> client \<Rightarrow> client" where
  "reader_rounds wr 0 es t c = c"
| "reader_rounds wr (Suc n) es t c =
     (case read_message es t of
        (Done (Inr msg), t', es') \<Rightarrow> reader_rounds wr n es' t' (receive_message wr msg c)
      | (Done (Inl _), t', es') \<Rightarrow> reader_ends c
      | (Panicked, t', es') \<Rightarrow> c\<lparr>cl_reading := False\<rparr>
      | (Pending, t', es') \<Rightarrow> c)"

text \<open>Every message takes bytes from the buffer, so as many rounds as there are bytes are enough.\<close>

definition reader_task ::
  "(message \<Rightarrow> io_error + unit) \<Rightarrow> recv_event list \<Rightarrow> transport \<Rightarrow> client \<Rightarrow> client" where
  "reader_task wr es t c = reader_rounds wr (Suc (length (read_buf t) + length (stream es))) es t c"

end
