(* ===== verification/Transport_Progress.thy ===== *)
theory Transport_Progress
  imports Transport
begin

text \<open>
  Every line and every message takes bytes from what there is to read.  The loops over them,
  the client's reader and its handshake, need no more rounds than there are bytes.
\<close>

definition to_read :: "recv_event list \<Rightarrow> transport \<Rightarrow> nat" where
  "to_read es t = length (read_buf t) + length (stream es)"

lemma fill_more_keeps:
  "fill_more es t = (Done (Inr u), t', es') \<Longrightarrow> to_read es' t' = to_read es t"
  by (induction es t rule: fill_more.induct)
    (auto simp: to_read_def stream_def arrived_def recv_with_fds_def split: if_splits)

lemma fill_until_keeps:
  "fill_until check es t = (Done (Inr a), t', es') \<Longrightarrow> to_read es' t' = to_read es t \<and> check t' = Some (Inr a)"
proof (induction check es t rule: fill_until.induct)
  case (1 check es t)
  show ?case
  proof (cases "check t")
    case (Some r)
    then show ?thesis using "1.prems" by (simp add: fill_until.simps [of check es])
  next
    case None
    obtain p1 t1 es1 where f: "fill_more es t = (p1, t1, es1)"
      by (cases "fill_more es t")
    show ?thesis
    proof (cases "p1 = Done (Inr ())")
      case True
      then have "fill_until check es1 t1 = (Done (Inr a), t', es')"
        using "1.prems" None f by (simp add: fill_until.simps [of check es])
      then show ?thesis
        using "1.IH" [OF None f [symmetric] True refl] fill_more_keeps f True by metis
    next
      case False
      then show ?thesis
        using "1.prems" None f by (auto simp: fill_until.simps [of check es] split: poll.splits sum.splits)
    qed
  qed
qed

lemma find_crlf_bound: "find_crlf bs = Some n \<Longrightarrow> n + 2 \<le> length bs"
  by (induction bs arbitrary: n rule: find_crlf.induct) (auto split: if_splits)

lemma read_line_takes:
  assumes "read_line es t = (Done (Inr line), t', es')"
  shows "to_read es' t' < to_read es t"
proof -
  obtain pos t1 where f: "fill_until line_check es t = (Done (Inr pos), t1, es')"
    "t' = t1\<lparr>read_buf := drop 2 (drop pos (read_buf t1))\<rparr>"
    using assms by (auto simp: read_line_def then_read_def Let_def split: poll.splits sum.splits prod.splits if_splits)
  note k = fill_until_keeps [OF f(1)]
  then have "find_crlf (read_buf t1) = Some pos"
    by (auto simp: line_check_def split: option.splits if_splits)
  then have "pos + 2 \<le> length (read_buf t1)"
    by (rule find_crlf_bound)
  then show ?thesis
    using k f(2) unfolding to_read_def by simp linarith
qed

lemma peek_frame_len_pos: "peek_frame_len bs = Inr (Some n) \<Longrightarrow> 0 < n"
proof -
  assume "peek_frame_len bs = Inr (Some n)"
  then obtain f b where "n = div_ceil (16 + f) 8 * 8 + b"
    by (auto simp: peek_frame_len_def Let_def result_simps split: if_splits sum.splits prod.splits)
  then show ?thesis by (simp add: div_ceil_padding)
qed

lemma take_frame_takes:
  assumes "take_frame n es t = (Done (Inr m), t', es')"
  shows "es' = es \<and> read_buf t' = drop n (read_buf t)"
  using assms by (auto simp: take_frame_def Let_def split: option.splits sum.splits prod.splits)

lemma read_message_takes:
  assumes "read_message es t = (Done (Inr m), t', es')"
  shows "to_read es' t' < to_read es t"
proof -
  obtain n t1 es1 t2 where f: "fill_until frame_check es t = (Done (Inr n), t1, es1)"
    "fill_until (\<lambda>t. if length (read_buf t) < n then None else Some (Inr ())) es1 t1 = (Done (Inr ()), t2, es')"
    "read_buf t' = drop n (read_buf t2)"
    using assms take_frame_takes
    by (fastforce simp: read_message_def then_read_def split: poll.splits sum.splits prod.splits if_splits)
  have "peek_frame_len (read_buf t1) = Inr (Some n)"
    using fill_until_keeps [OF f(1)] by (auto simp: frame_check_def split: sum.splits option.splits)
  then have "0 < n" by (rule peek_frame_len_pos)
  moreover have "n \<le> length (read_buf t2)"
    using fill_until_keeps [OF f(2)] by (auto split: if_splits)
  ultimately show ?thesis
    using fill_until_keeps [OF f(1)] fill_until_keeps [OF f(2)] f(3) by (simp add: to_read_def)
qed

end
