(* ===== verification/Client_Facts.thy ===== *)
theory Client_Facts
  imports Client Transport_Progress
begin

text \<open>
  Lemmas on the client: what \<open>extract_fds\<close> moves, the states a connection can reach, and what
  the table of pending calls has to do with the calls.
\<close>

section \<open>Descriptors\<close>

text \<open>The descriptors, or indexes, in a value from left to right, and putting back what indexes stand for.\<close>

fun fds_in :: "dvalue \<Rightarrow> u32 list" where
  "fds_in (VUnixFd fd) = [fd]"
| "fds_in (VArray t els) = concat (map fds_in els)"
| "fds_in (VStruct els) = concat (map fds_in els)"
| "fds_in (VDictEntry k v) = fds_in k @ fds_in v"
| "fds_in (VVariant inner) = fds_in inner"
| "fds_in _ = []"

fun resolve_fds :: "int list \<Rightarrow> dvalue \<Rightarrow> dvalue" where
  "resolve_fds out (VUnixFd i) = VUnixFd (word_of_int (out ! unat i))"
| "resolve_fds out (VArray t els) = VArray t (map (resolve_fds out) els)"
| "resolve_fds out (VStruct els) = VStruct (map (resolve_fds out) els)"
| "resolve_fds out (VDictEntry k v) = VDictEntry (resolve_fds out k) (resolve_fds out v)"
| "resolve_fds out (VVariant inner) = VVariant (resolve_fds out inner)"
| "resolve_fds out v = v"

text \<open>The numbers from one length to another; they join like intervals.\<close>

lemma upt_join: "a \<le> b \<Longrightarrow> b \<le> c \<Longrightarrow> [a..<b] @ [b..<c] = [a..<c]"
  by (metis le_Suc_ex upt_add_eq_append)

definition moved :: "int list \<Rightarrow> u32 list \<Rightarrow> int list \<Rightarrow> u32 list \<Rightarrow> bool" where
  "moved out before out' after \<longleftrightarrow>
     out' = out @ map sint before \<and> after = map word_of_nat [length out..<length out']"

lemma moved_none [simp]: "moved out [] out []"
  by (simp add: moved_def)

lemma moved_one: "moved out [fd] (out @ [sint fd]) [word_of_nat (length out)]"
  by (simp add: moved_def)

lemma moved_append:
  assumes "moved o1 b1 o2 a1" "moved o2 b2 o3 a2"
  shows "moved o1 (b1 @ b2) o3 (a1 @ a2)"
  using assms upt_join [of "length o1" "length o2" "length o3"]
  by (auto simp: moved_def simp flip: map_append)

lemma fd_walk_moves:
  "fd_walk v out = (v', out') \<Longrightarrow> moved out (fds_in v) out' (fds_in v') \<and> value_type v' = value_type v"
  "fd_walk_all vs out = (vs', out') \<Longrightarrow>
     moved out (concat (map fds_in vs)) out' (concat (map fds_in vs')) \<and>
     map value_type vs' = map value_type vs"
proof (induction v out and vs out arbitrary: v' out' and vs' out' rule: fd_walk_fd_walk_all.induct)
  case (1 fd out)
  then show ?case using moved_one by auto
next
  case (2 t els out)
  then show ?case by (cases "fd_walk_all els out") fastforce
next
  case (3 els out)
  then show ?case by (cases "fd_walk_all els out") fastforce
next
  case (4 k v out)
  obtain k' o1 where k: "fd_walk k out = (k', o1)" by fastforce
  obtain w' o2 where w: "fd_walk v o1 = (w', o2)" by fastforce
  have "v' = VDictEntry k' w'" "out' = o2"
    using "4.prems" k w by auto
  then show ?case
    using "4.IH"(1) [OF k] "4.IH"(2) [OF k [symmetric] w] moved_append by auto
next
  case (5 inner out)
  then show ?case by (cases "fd_walk inner out") fastforce
next
  case (8 v vs out)
  obtain v1 o1 where v: "fd_walk v out = (v1, o1)" by fastforce
  obtain vs1 o2 where vs: "fd_walk_all vs o1 = (vs1, o2)" by fastforce
  have "vs' = v1 # vs1" "out' = o2"
    using "8.prems" v vs by auto
  then show ?case
    using "8.IH"(1) [OF v] "8.IH"(2) [OF v [symmetric] vs] moved_append by auto
qed simp_all

text \<open>What was moved is found again at its index, as long as an index fits into 32 bits.\<close>

lemma fd_walk_resolves:
  "fd_walk v out = (v', out') \<Longrightarrow> length out' \<le> 2 ^ 32 \<Longrightarrow> resolve_fds (out' @ later) v' = v"
  "fd_walk_all vs out = (vs', out') \<Longrightarrow> length out' \<le> 2 ^ 32 \<Longrightarrow> map (resolve_fds (out' @ later)) vs' = vs"
proof (induction v out and vs out arbitrary: v' out' later and vs' out' later rule: fd_walk_fd_walk_all.induct)
  case (1 fd out)
  then have "unat (word_of_nat (length out) :: u32) = length out"
    by (auto simp: unat_of_nat)
  then show ?case using 1 by (auto simp: nth_append)
next
  case (2 t els out)
  then show ?case by (cases "fd_walk_all els out") fastforce
next
  case (3 els out)
  then show ?case by (cases "fd_walk_all els out") fastforce
next
  case (4 k v out)
  obtain k' o1 where k: "fd_walk k out = (k', o1)" by fastforce
  obtain w' o2 where w: "fd_walk v o1 = (w', o2)" by fastforce
  have v': "v' = VDictEntry k' w'" "out' = o2"
    using "4.prems" k w by auto
  obtain n where n: "o2 = o1 @ n"
    using fd_walk_moves(1) [OF w] by (auto simp: moved_def)
  then have "resolve_fds (o2 @ later) k' = k" "resolve_fds (o2 @ later) w' = v"
    using "4.IH"(1) [OF k, of "n @ later"] "4.IH"(2) [OF k [symmetric] w, of later] "4.prems"(2) v' by auto
  then show ?case using v' by simp
next
  case (5 inner out)
  then show ?case by (cases "fd_walk inner out") fastforce
next
  case (8 v vs out)
  obtain v1 o1 where v: "fd_walk v out = (v1, o1)" by fastforce
  obtain vs1 o2 where vs: "fd_walk_all vs o1 = (vs1, o2)" by fastforce
  have vs': "vs' = v1 # vs1" "out' = o2"
    using "8.prems" v vs by auto
  obtain n where n: "o2 = o1 @ n"
    using fd_walk_moves(2) [OF vs] by (auto simp: moved_def)
  then have "resolve_fds (o2 @ later) v1 = v" "map (resolve_fds (o2 @ later)) vs1 = vs"
    using "8.IH"(1) [OF v, of "n @ later"] "8.IH"(2) [OF v [symmetric] vs, of later] "8.prems"(2) vs' by auto
  then show ?case using vs' by simp
qed auto

lemma fold_with_fd: "fold with_fd out b = b\<lparr>b_fds := b_fds b @ out\<rparr>"
  by (induction out arbitrary: b) (simp_all add: with_fd_def)

section \<open>Calls and the table of pending calls\<close>

text \<open>
  The calls that still wait on their channel are exactly those in the table, each under its own
  serial; a channel is filled with a reply to that serial that has come in; and what a call
  returned is that reply, or that the channel was closed, or the error of its own write.
\<close>

definition linked :: "client_call list \<Rightarrow> (u32 \<rightharpoonup> nat) \<Rightarrow> bool" where
  "linked calls m \<longleftrightarrow>
     (\<forall>i < length calls. ca_slot (calls ! i) = Open \<longleftrightarrow> m (ca_serial (calls ! i)) = Some i) \<and>
     (\<forall>s i. m s = Some i \<longrightarrow> i < length calls \<and> ca_serial (calls ! i) = s)"

definition is_reply_to :: "message \<Rightarrow> u32 \<Rightarrow> bool" where
  "is_reply_to m s \<longleftrightarrow> (m_type m = MethodReturn \<or> m_type m = ErrorReply) \<and> m_reply_serial m = Some s"

definition call_ok :: "message list \<Rightarrow> client_call \<Rightarrow> bool" where
  "call_ok raw call \<longleftrightarrow>
     (case ca_slot call of Filled m \<Rightarrow> m \<in> set raw \<and> is_reply_to m (ca_serial call) | _ \<Rightarrow> True) \<and>
     (case ca_phase call of
        Returned r \<Rightarrow> (\<exists>e. r = Inl (Io e)) \<or>
          (case ca_slot call of Open \<Rightarrow> False | Filled m \<Rightarrow> r = call_result m | Dropped \<Rightarrow> r = Inl Closed)
      | _ \<Rightarrow> True)"

definition calls_ok :: "client \<Rightarrow> bool" where
  "calls_ok c \<longleftrightarrow> distinct (map fst (cl_pending c)) \<and> linked (cl_calls c) (map_of (cl_pending c)) \<and>
     list_all (call_ok (cl_raw c)) (cl_calls c)"

lemma linked_unlink:
  assumes "linked calls m" "m s = Some i" "x \<noteq> Open"
  shows "linked (calls[i := (calls ! i)\<lparr>ca_slot := x\<rparr>]) (m(s := None))"
  using assms by (auto simp: linked_def nth_list_update)

lemma linked_phase:
  assumes "linked calls m"
  shows "linked (calls[i := (calls ! i)\<lparr>ca_phase := p\<rparr>]) m"
proof (cases "i < length calls")
  case True
  with assms show ?thesis by (auto simp: linked_def nth_list_update)
qed (use assms in \<open>simp add: list_update_beyond\<close>)

lemma linked_add:
  assumes "linked calls m" "m (ca_serial call) = None" "ca_slot call = Open"
  shows "linked (calls @ [call]) (m(ca_serial call \<mapsto> length calls))"
  using assms by (fastforce simp: linked_def nth_append less_Suc_eq)

lemma linked_open: "linked calls m \<Longrightarrow> m s = Some i \<Longrightarrow> i < length calls \<and> ca_serial (calls ! i) = s \<and> ca_slot (calls ! i) = Open"
  by (auto simp: linked_def)

lemma set_slot_simps [simp]:
  "cl_calls (set_slot s i c) = (cl_calls c)[i := (cl_calls c ! i)\<lparr>ca_slot := s\<rparr>]"
  "cl_pending (set_slot s i c) = cl_pending c" "cl_raw (set_slot s i c) = cl_raw c"
  "cl_written (set_slot s i c) = cl_written c" "cl_signals (set_slot s i c) = cl_signals c"
  "cl_name (set_slot s i c) = cl_name c" "cl_reading (set_slot s i c) = cl_reading c"
  by (simp_all add: set_slot_def)

lemma set_phase_simps [simp]:
  "cl_calls (set_phase p i c) = (cl_calls c)[i := (cl_calls c ! i)\<lparr>ca_phase := p\<rparr>]"
  "cl_pending (set_phase p i c) = cl_pending c" "cl_raw (set_phase p i c) = cl_raw c"
  "cl_written (set_phase p i c) = cl_written c" "cl_reading (set_phase p i c) = cl_reading c"
  by (simp_all add: set_phase_def)

lemma list_all_update: "list_all P xs \<Longrightarrow> (i < length xs \<Longrightarrow> P x) \<Longrightarrow> list_all P (xs[i := x])"
  by (cases "i < length xs") (auto simp: list_all_length nth_list_update)

lemma list_all_nth: "list_all P xs \<Longrightarrow> i < length xs \<Longrightarrow> P (xs ! i)"
  by (simp add: list_all_length)

text \<open>Taking an open call out of the table, its channel dropped or filled.\<close>

lemma calls_ok_unlink:
  assumes ok: "calls_ok c" and i: "map_of (cl_pending c) s = Some i"
    and x: "x = Dropped \<or> (\<exists>m. x = Filled m \<and> m \<in> set (cl_raw c) \<and> is_reply_to m s)"
  shows "calls_ok ((set_slot x i c)\<lparr>cl_pending := AList.delete s (cl_pending c)\<rparr>)"
proof -
  have l: "linked (cl_calls c) (map_of (cl_pending c))" using ok by (simp add: calls_ok_def)
  note o = linked_open [OF l i]
  have "call_ok (cl_raw c) (cl_calls c ! i)" using ok o list_all_nth by (auto simp: calls_ok_def)
  then have "call_ok (cl_raw c) ((cl_calls c ! i)\<lparr>ca_slot := x\<rparr>)"
    using o x by (auto simp: call_ok_def split: phase.splits)
  moreover have "x \<noteq> Open" using x by auto
  ultimately show ?thesis
    using ok linked_unlink [OF l i] by (simp add: calls_ok_def distinct_delete delete_conv' list_all_update)
qed

lemma calls_ok_forget: "calls_ok c \<Longrightarrow> calls_ok (forget_pending s c)"
  using calls_ok_unlink [of c s _ Dropped] by (auto simp: forget_pending_def split: option.split)

lemma forget_pending_none: "map_of (cl_pending (forget_pending s c)) s = None"
  by (auto simp: forget_pending_def delete_conv' split: option.split)

lemma forget_pending_simps [simp]:
  "cl_raw (forget_pending s c) = cl_raw c" "length (cl_calls (forget_pending s c)) = length (cl_calls c)"
  "cl_reading (forget_pending s c) = cl_reading c"
  by (simp_all add: forget_pending_def split: option.split)

lemma calls_ok_phase:
  assumes "calls_ok c" "i < length (cl_calls c) \<Longrightarrow> call_ok (cl_raw c) ((cl_calls c ! i)\<lparr>ca_phase := p\<rparr>)"
  shows "calls_ok (set_phase p i c)"
  using assms linked_phase by (auto simp: calls_ok_def intro!: list_all_update)

section \<open>The states of a connection\<close>

text \<open>
  Any interleaving of callers, of the reader and of what other connections of the process do
  to the counter of reply serials.
\<close>

inductive client_step :: "client \<Rightarrow> client \<Rightarrow> bool" where
  exports: "client_step c (c\<lparr>cl_objects := objects, cl_reply_counter := counter\<rparr>)"
| calls: "client_step c (start_call dest path interface member args c)"
| writes: "i < length (cl_calls c) \<Longrightarrow> ca_phase (cl_calls c ! i) = Writing \<Longrightarrow>
     client_step c (call_written result i c)"
| resumes: "i < length (cl_calls c) \<Longrightarrow> ca_phase (cl_calls c ! i) = Awaiting \<Longrightarrow>
     client_step c (call_resumes i c)"
| abandons: "i < length (cl_calls c) \<Longrightarrow> ca_phase (cl_calls c ! i) \<in> {Writing, Awaiting} \<Longrightarrow>
     client_step c (set_phase Abandoned i c)"
| sends: "client_step c (snd (send_only result message_for c))"
| named: "client_step c (snd (finish_hello reply c))"
| receives: "cl_reading c \<Longrightarrow> client_step c (receive_message wr msg c)"
| ends: "cl_reading c \<Longrightarrow> client_step c (reader_ends c)"

inductive client_reachable :: "client \<Rightarrow> bool" where
  opens: "client_reachable (connection_new objects counter)"
| moves: "client_reachable c \<Longrightarrow> client_step c c' \<Longrightarrow> client_reachable c'"

lemma call_message_serial [simp]: "m_serial (call_message dest path interface member args s) = s"
  by (simp add: call_message_def build_def Let_def)

lemma call_ok_phase: "call_ok raw call \<Longrightarrow> p \<in> {Writing, Awaiting, Abandoned} \<Longrightarrow> call_ok raw (call\<lparr>ca_phase := p\<rparr>)"
  by (auto simp: call_ok_def split: slot.splits)

lemma call_ok_more: "call_ok raw call \<Longrightarrow> call_ok (raw @ later) call"
  by (auto simp: call_ok_def split: slot.splits phase.splits)

lemma calls_ok_start:
  assumes "calls_ok c"
  shows "calls_ok (start_call dest path interface member args c)"
proof -
  obtain s g where s: "serial_next (cl_serials c) = (s, g)" by fastforce
  let ?c = "forget_pending s (c\<lparr>cl_serials := g\<rparr>)"
  let ?call = "\<lparr>ca_message = call_message dest path interface member args s, ca_slot = Open, ca_phase = Writing\<rparr>"
  have ok: "calls_ok ?c" using assms by (intro calls_ok_forget) (simp add: calls_ok_def)
  have "linked (cl_calls ?c @ [?call]) ((map_of (cl_pending ?c))(s \<mapsto> length (cl_calls ?c)))"
    using ok forget_pending_none linked_add [of "cl_calls ?c" "map_of (cl_pending ?c)" ?call]
    by (simp add: calls_ok_def)
  moreover have "start_call dest path interface member args c =
      ?c\<lparr>cl_calls := cl_calls ?c @ [?call], cl_pending := AList.update s (length (cl_calls ?c)) (cl_pending ?c)\<rparr>"
    by (simp add: start_call_def s Let_def)
  ultimately show ?thesis
    using ok by (simp add: calls_ok_def distinct_update update_conv' call_ok_def)
qed

lemma calls_ok_written:
  assumes "calls_ok c" "i < length (cl_calls c)"
  shows "calls_ok (call_written result i c)"
proof (cases result)
  case (Inl e)
  let ?c = "forget_pending (ca_serial (cl_calls c ! i)) c"
  have ok: "calls_ok ?c" using assms calls_ok_forget by blast
  then have "call_ok (cl_raw ?c) (cl_calls ?c ! i)"
    using assms(2) list_all_nth [of _ "cl_calls ?c" i] by (auto simp: calls_ok_def)
  then have "call_ok (cl_raw ?c) ((cl_calls ?c ! i)\<lparr>ca_phase := Returned (Inl (Io e))\<rparr>)"
    by (auto simp: call_ok_def split: slot.splits)
  with Inl ok show ?thesis
    by (simp add: call_written_def Let_def calls_ok_phase)
next
  case (Inr u)
  have "call_ok (cl_raw c) (cl_calls c ! i)" using assms list_all_nth by (auto simp: calls_ok_def)
  then have "calls_ok (set_phase Awaiting i (c\<lparr>cl_written := x\<rparr>))" for x
    using assms(1) by (intro calls_ok_phase call_ok_phase) (simp_all add: calls_ok_def)
  then show ?thesis by (simp add: call_written_def Inr Let_def)
qed

lemma calls_ok_resumes:
  assumes "calls_ok c" "i < length (cl_calls c)"
  shows "calls_ok (call_resumes i c)"
proof -
  have "call_ok (cl_raw c) (cl_calls c ! i)" using assms list_all_nth by (auto simp: calls_ok_def)
  then show ?thesis
    using assms(1) by (auto simp: call_resumes_def call_ok_def split: slot.split intro!: calls_ok_phase)
qed

lemma calls_ok_receive:
  assumes "calls_ok c"
  shows "calls_ok (receive_message wr msg c)"
proof -
  let ?c = "c\<lparr>cl_raw := cl_raw c @ [msg]\<rparr>"
  have ok: "calls_ok ?c" using assms call_ok_more by (auto simp: calls_ok_def list_all_iff)
  have "calls_ok (answer_call wr msg ?c)"
    using ok by (auto simp: answer_call_def calls_ok_def Let_def split: option.split prod.split sum.split)
  moreover have "calls_ok ((set_slot (Filled msg) i ?c)\<lparr>cl_pending := AList.delete s (cl_pending ?c)\<rparr>)"
    if "map_of (cl_pending ?c) s = Some i" "is_reply_to msg s" for s i
    using calls_ok_unlink [OF ok that(1)] that(2) by auto
  ultimately show ?thesis
    using ok by (auto simp: receive_message_def handle_incoming_def is_reply_to_def calls_ok_def split: option.split)
qed

lemma set_slot_frame: "set_slot x i (c\<lparr>cl_pending := q\<rparr>) = (set_slot x i c)\<lparr>cl_pending := q\<rparr>"
  by (simp add: set_slot_def)

text \<open>The end of the reader closes the channels of all calls in the table and of no other.\<close>

lemma calls_ok_drop:
  assumes "calls_ok c"
  shows "calls_ok ((fold (\<lambda>(_, i). set_slot Dropped i) (cl_pending c) c)\<lparr>cl_pending := []\<rparr>)"
  using assms
proof (induction "cl_pending c" arbitrary: c)
  case Nil
  then show ?case by (simp add: calls_ok_def)
next
  case (Cons x rest)
  obtain s i where x: "x = (s, i)" by fastforce
  then have i: "map_of (cl_pending c) s = Some i" and rest: "AList.delete s (cl_pending c) = rest"
    using Cons.hyps(2) [symmetric] Cons.prems
    by (auto simp: calls_ok_def intro!: delete_idem)
  let ?c = "(set_slot Dropped i c)\<lparr>cl_pending := rest\<rparr>"
  have frame: "fold (\<lambda>(_, i). set_slot Dropped i) l (d\<lparr>cl_pending := q\<rparr>) =
      (fold (\<lambda>(_, i). set_slot Dropped i) l d)\<lparr>cl_pending := q\<rparr>" for l d q
    by (induction l arbitrary: d) (auto simp: set_slot_frame)
  have "calls_ok ?c" using calls_ok_unlink [OF Cons.prems i] rest by auto
  then have "calls_ok ((fold (\<lambda>(_, i). set_slot Dropped i) rest ?c)\<lparr>cl_pending := []\<rparr>)"
    using Cons.hyps(1) [of ?c] by simp
  then show ?case
    using Cons.hyps(2) [symmetric] x by (simp add: frame)
qed

lemma calls_ok_ends: "calls_ok c \<Longrightarrow> calls_ok (reader_ends c)"
  using calls_ok_drop [of c] by (simp add: reader_ends_def calls_ok_def)

lemma calls_ok_step:
  assumes "client_step c c'" "calls_ok c"
  shows "calls_ok c'"
  using assms
proof (induction rule: client_step.induct)
  case (abandons i c)
  then show ?case
    using list_all_nth [of _ "cl_calls c" i] call_ok_phase by (intro calls_ok_phase) (auto simp: calls_ok_def)
next
  case (sends c result message_for)
  then show ?case
    by (auto simp: send_only_def calls_ok_def Let_def split: prod.split sum.split)
next
  case (named c reply)
  then show ?case
    by (auto simp: finish_hello_def calls_ok_def split: sum.split option.split)
next
  case (exports c objects counter)
  then show ?case by (simp add: calls_ok_def)
qed (simp_all add: calls_ok_start calls_ok_written calls_ok_resumes calls_ok_receive calls_ok_ends)

lemma calls_ok_reachable: "client_reachable c \<Longrightarrow> calls_ok c"
proof (induction rule: client_reachable.induct)
  case (opens objects counter)
  then show ?case by (simp add: connection_new_def calls_ok_def linked_def)
qed (rule calls_ok_step)

lemma call_reachable:
  assumes "client_reachable c" "i < length (cl_calls c)"
  shows "call_ok (cl_raw c) (cl_calls c ! i)"
  using calls_ok_reachable [OF assms(1)] assms(2) list_all_nth by (auto simp: calls_ok_def)

text \<open>What a reply does to the calls: only the open call with that serial is concerned.\<close>

lemma linked_unique:
  assumes "linked calls m" "i < length calls" "j < length calls" "ca_slot (calls ! i) = Open"
    "ca_slot (calls ! j) = Open" "ca_serial (calls ! i) = ca_serial (calls ! j)"
  shows "i = j"
  using assms by (auto simp: linked_def)

lemma linked_update_map:
  assumes "linked calls m"
  shows "map (\<lambda>call. if ca_slot call = Open \<and> ca_serial call = s then call\<lparr>ca_slot := x\<rparr> else call) calls =
    (case m s of None \<Rightarrow> calls | Some i \<Rightarrow> calls[i := (calls ! i)\<lparr>ca_slot := x\<rparr>])"
proof (cases "m s")
  case None
  have "\<not> (ca_slot call = Open \<and> ca_serial call = s)" if "call \<in> set calls" for call
    using that assms None by (auto simp: in_set_conv_nth linked_def)
  then have "map (\<lambda>call. if ca_slot call = Open \<and> ca_serial call = s then call\<lparr>ca_slot := x\<rparr> else call) calls = calls"
    by (intro map_idI) (meson if_not_P)
  then show ?thesis using None by simp
next
  case (Some i)
  have "(ca_slot (calls ! j) = Open \<and> ca_serial (calls ! j) = s) \<longleftrightarrow> j = i" if "j < length calls" for j
  proof
    assume "ca_slot (calls ! j) = Open \<and> ca_serial (calls ! j) = s"
    then have "m s = Some j" using that assms unfolding linked_def by blast
    then show "j = i" using Some by simp
  qed (use linked_open [OF assms Some] in simp)
  then have "map (\<lambda>call. if ca_slot call = Open \<and> ca_serial call = s then call\<lparr>ca_slot := x\<rparr> else call) calls =
      calls[i := (calls ! i)\<lparr>ca_slot := x\<rparr>]"
    using linked_open [OF assms Some] by (intro nth_equalityI) (simp_all add: nth_list_update)
  then show ?thesis using Some by simp
qed

lemma receive_reply:
  assumes "calls_ok c" "is_reply_to m s"
  shows "cl_calls (receive_message wr m c) =
    map (\<lambda>call. if ca_slot call = Open \<and> ca_serial call = s then call\<lparr>ca_slot := Filled m\<rparr> else call) (cl_calls c)"
  using assms linked_update_map [of "cl_calls c" "map_of (cl_pending c)" s "Filled m"]
  by (auto simp: receive_message_def handle_incoming_def is_reply_to_def calls_ok_def split: option.split)

lemma receive_other:
  assumes "\<not> is_reply_to m s" "i < length (cl_calls c)" "ca_serial (cl_calls c ! i) = s" "calls_ok c"
  shows "cl_calls (receive_message wr m c) ! i = cl_calls c ! i"
proof -
  have "map_of (cl_pending c) r \<noteq> Some i" if "r \<noteq> s" for r
    using assms that by (auto simp: calls_ok_def linked_def)
  then have "(cl_calls c)[j := x] ! i = cl_calls c ! i" if "map_of (cl_pending c) r = Some j" "r \<noteq> s" for r j x
    using that by (cases "i = j") auto
  then show ?thesis
    using assms(1) by (auto simp: receive_message_def handle_incoming_def answer_call_def is_reply_to_def Let_def
        split: option.split prod.split sum.split)
qed

lemma at_most_one:
  assumes "\<And>i j. i < length xs \<Longrightarrow> j < length xs \<Longrightarrow> P (xs ! i) \<Longrightarrow> P (xs ! j) \<Longrightarrow> i = j"
  shows "length (filter P xs) \<le> 1"
proof -
  have "card {i. i < length xs \<and> P (xs ! i)} \<le> Suc 0"
    using assms by (subst card_le_Suc0_iff_eq) auto
  then show ?thesis by (simp add: length_filter_conv_card)
qed

lemma fold_drop_nth:
  "i < length (cl_calls c) \<Longrightarrow> cl_calls (fold (\<lambda>(_, k). set_slot Dropped k) l c) ! i =
     (if i \<in> snd ` set l then (cl_calls c ! i)\<lparr>ca_slot := Dropped\<rparr> else cl_calls c ! i)"
proof (induction l arbitrary: c)
  case (Cons x l)
  obtain s k where x: "x = (s, k)" by fastforce
  show ?case
    using Cons.prems Cons.IH [of "set_slot Dropped k c"] by (cases "i = k") (simp_all add: x image_iff)
qed simp

lemma fold_drop_length: "length (cl_calls (fold (\<lambda>(_, k). set_slot Dropped k) l c)) = length (cl_calls c)"
  by (induction l arbitrary: c) auto

lemma reader_ends_calls:
  assumes "calls_ok c"
  shows "cl_calls (reader_ends c) =
    map (\<lambda>call. if ca_slot call = Open then call\<lparr>ca_slot := Dropped\<rparr> else call) (cl_calls c)"
proof -
  have l: "linked (cl_calls c) (map_of (cl_pending c))" and d: "distinct (map fst (cl_pending c))"
    using assms by (simp_all add: calls_ok_def)
  have "i \<in> snd ` set (cl_pending c) \<longleftrightarrow> ca_slot (cl_calls c ! i) = Open" if "i < length (cl_calls c)" for i
  proof
    assume "i \<in> snd ` set (cl_pending c)"
    then obtain s where "(s, i) \<in> set (cl_pending c)" by auto
    then have "map_of (cl_pending c) s = Some i" using d by simp
    then show "ca_slot (cl_calls c ! i) = Open" using linked_open [OF l] by blast
  next
    assume "ca_slot (cl_calls c ! i) = Open"
    then have "map_of (cl_pending c) (ca_serial (cl_calls c ! i)) = Some i"
      using l that unfolding linked_def by blast
    then show "i \<in> snd ` set (cl_pending c)" by (force dest: map_of_SomeD)
  qed
  then show ?thesis
    by (intro nth_equalityI) (simp_all add: reader_ends_def fold_drop_length fold_drop_nth)
qed

section \<open>Calls after the end of the reader\<close>

text \<open>
  Call \<open>i\<close> of a connection whose reader is gone: its channel stays open, unless its own write
  fails or another call gets the same serial.
\<close>

definition stranded :: "nat \<Rightarrow> client \<Rightarrow> bool" where
  "stranded i c \<longleftrightarrow> i < length (cl_calls c) \<and> \<not> cl_reading c \<and>
     (ca_slot (cl_calls c ! i) = Open \<or> (\<exists>e. ca_phase (cl_calls c ! i) = Returned (Inl (Io e))) \<or>
      (\<exists>j < length (cl_calls c). j \<noteq> i \<and> ca_serial (cl_calls c ! j) = ca_serial (cl_calls c ! i)))"

lemma forget_pending_calls:
  "cl_calls (forget_pending s c) =
     (case map_of (cl_pending c) s of
        None \<Rightarrow> cl_calls c
      | Some k \<Rightarrow> (cl_calls c)[k := (cl_calls c ! k)\<lparr>ca_slot := Dropped\<rparr>])"
  by (simp add: forget_pending_def split: option.split)

lemma forget_pending_nth:
  assumes "calls_ok c" "j < length (cl_calls c)"
  shows "ca_serial (cl_calls (forget_pending s c) ! j) = ca_serial (cl_calls c ! j)"
    "ca_phase (cl_calls (forget_pending s c) ! j) = ca_phase (cl_calls c ! j)"
    "ca_serial (cl_calls c ! j) \<noteq> s \<Longrightarrow> ca_slot (cl_calls (forget_pending s c) ! j) = ca_slot (cl_calls c ! j)"
proof -
  have "linked (cl_calls c) (map_of (cl_pending c))" using assms by (simp add: calls_ok_def)
  note o = linked_open [OF this, of s]
  show "ca_serial (cl_calls (forget_pending s c) ! j) = ca_serial (cl_calls c ! j)"
    "ca_phase (cl_calls (forget_pending s c) ! j) = ca_phase (cl_calls c ! j)"
    "ca_serial (cl_calls c ! j) \<noteq> s \<Longrightarrow> ca_slot (cl_calls (forget_pending s c) ! j) = ca_slot (cl_calls c ! j)"
    using assms(2) o by (auto simp: forget_pending_calls nth_list_update split: option.split)
qed

lemma stranded_phase:
  assumes "stranded i c" "\<And>e. ca_phase (cl_calls c ! k) \<noteq> Returned (Inl (Io e))"
  shows "stranded i (set_phase p k c)"
proof -
  have same: "ca_slot ((cl_calls c)[k := (cl_calls c ! k)\<lparr>ca_phase := p\<rparr>] ! j) = ca_slot (cl_calls c ! j)"
    "ca_serial ((cl_calls c)[k := (cl_calls c ! k)\<lparr>ca_phase := p\<rparr>] ! j) = ca_serial (cl_calls c ! j)"
    if "j < length (cl_calls c)" for j
    using that by (cases "j = k"; simp)+
  show ?thesis
    using assms same by (cases "i = k") (auto simp: stranded_def)
qed

lemma stranded_start:
  assumes "stranded i c" "calls_ok c"
  shows "stranded i (start_call dest path interface member args c)"
proof -
  obtain s g where s: "serial_next (cl_serials c) = (s, g)" by fastforce
  let ?c = "forget_pending s (c\<lparr>cl_serials := g\<rparr>)"
  let ?c' = "start_call dest path interface member args c"
  have ok: "calls_ok (c\<lparr>cl_serials := g\<rparr>)" using assms(2) by (simp add: calls_ok_def)
  have i: "i < length (cl_calls c)" using assms(1) by (simp add: stranded_def)
  have l: "length (cl_calls ?c') = Suc (length (cl_calls c))" and r: "cl_reading ?c' = cl_reading c"
    by (simp_all add: start_call_def s Let_def)
  have old: "cl_calls ?c' ! j = cl_calls ?c ! j" if "j < length (cl_calls c)" for j
    using that by (simp add: start_call_def s Let_def nth_append)
  have new: "ca_serial (cl_calls ?c' ! length (cl_calls c)) = s"
    by (simp add: start_call_def s Let_def nth_append)
  note f = forget_pending_nth [OF ok, simplified]
  show ?thesis
  proof (cases "ca_serial (cl_calls c ! i) = s")
    case True
    then have "ca_serial (cl_calls ?c' ! length (cl_calls c)) = ca_serial (cl_calls ?c' ! i)"
      using new i old f(1) by simp
    then show ?thesis using assms(1) i l r unfolding stranded_def by (metis lessI less_SucI nat_neq_iff)
  next
    case False
    then have "ca_slot (cl_calls ?c' ! i) = ca_slot (cl_calls c ! i)" using f(3) i old by simp
    moreover have "ca_phase (cl_calls ?c' ! i) = ca_phase (cl_calls c ! i)" using f(2) i old by simp
    moreover have "ca_serial (cl_calls ?c' ! j) = ca_serial (cl_calls c ! j)" if "j < length (cl_calls c)" for j
      using f(1) that old by simp
    ultimately show ?thesis
      using assms(1) i l r unfolding stranded_def by (metis less_SucI)
  qed
qed

lemma stranded_written:
  assumes "stranded i c" "calls_ok c" "k < length (cl_calls c)" "ca_phase (cl_calls c ! k) = Writing"
  shows "stranded i (call_written result k c)"
proof (cases result)
  case (Inr u)
  have "stranded i (c\<lparr>cl_written := x\<rparr>)" for x using assms(1) by (simp add: stranded_def)
  then have "stranded i (set_phase Awaiting k (c\<lparr>cl_written := x\<rparr>))" for x
    using assms(4) by (intro stranded_phase) simp_all
  then show ?thesis by (simp add: call_written_def Inr Let_def)
next
  case (Inl e)
  let ?s = "ca_serial (cl_calls c ! k)"
  let ?c = "forget_pending ?s c"
  note f = forget_pending_nth [OF assms(2)]
  have i: "i < length (cl_calls c)" using assms(1) by (simp add: stranded_def)
  have *: "call_written result k c = set_phase (Returned (Inl (Io e))) k ?c"
    by (simp add: call_written_def Inl Let_def)
  show ?thesis
  proof (cases "k = i")
    case True
    then show ?thesis unfolding * using assms(1) i by (auto simp: stranded_def)
  next
    case k: False
    have "stranded i ?c"
    proof (cases "ca_serial (cl_calls c ! i) = ?s")
      case True
      then have "ca_serial (cl_calls ?c ! k) = ca_serial (cl_calls ?c ! i)" using f(1) i assms(3) by simp
      then show ?thesis using assms(1,3) k i by (auto simp: stranded_def)
    next
      case False
      then have "ca_slot (cl_calls ?c ! i) = ca_slot (cl_calls c ! i)" using f(3) i by simp
      moreover have "ca_phase (cl_calls ?c ! i) = ca_phase (cl_calls c ! i)" using f(2) i by simp
      moreover have "ca_serial (cl_calls ?c ! j) = ca_serial (cl_calls c ! j)" if "j < length (cl_calls c)" for j
        using f(1) that by simp
      ultimately show ?thesis
        using assms(1) i unfolding stranded_def by (metis forget_pending_simps(2,3))
    qed
    then show ?thesis
      using f(2) [OF assms(3)] assms(4) by (simp add: * stranded_phase)
  qed
qed

lemma stranded_resumes:
  assumes "stranded i c" "ca_phase (cl_calls c ! k) = Awaiting"
  shows "stranded i (call_resumes k c)"
  using assms stranded_phase by (auto simp: call_resumes_def split: slot.split)

lemma stranded_step:
  assumes "client_step c c'" "calls_ok c" "stranded i c"
  shows "stranded i c'"
  using assms
proof (induction rule: client_step.induct)
  case (abandons k c)
  then show ?case by (intro stranded_phase) auto
next
  case (sends c result message_for)
  then show ?case by (auto simp: send_only_def stranded_def Let_def split: prod.split sum.split)
next
  case (named c reply)
  then show ?case by (auto simp: finish_hello_def stranded_def split: sum.split option.split)
next
  case (receives c wr msg)
  then show ?case by (simp add: stranded_def)
next
  case (ends c)
  then show ?case by (simp add: stranded_def)
next
  case (exports c objects counter)
  then show ?case by (simp add: stranded_def)
qed (simp_all add: stranded_start stranded_written stranded_resumes)

lemma stranded_runs:
  assumes "client_step\<^sup>*\<^sup>* c c'" "calls_ok c" "stranded i c"
  shows "calls_ok c' \<and> stranded i c'"
  using assms by (induction rule: rtranclp_induct) (auto intro: calls_ok_step stranded_step)

lemma start_stranded:
  assumes "calls_ok c" "\<not> cl_reading c"
  shows "stranded (length (cl_calls c)) (start_call dest path interface member args c)"
  using assms by (auto simp: stranded_def start_call_def Let_def nth_append split: prod.split)

section \<open>Calls to this client\<close>

text \<open>The path and the member of a call that this client answers.\<close>

lemma answer_call_written:
  assumes "m_type msg = MethodCall" "is_for_us msg c" "m_path msg = Some path" "m_member msg = Some member"
  shows "cl_written (receive_message wr msg c) = cl_written c @
    (let out = exported_reply msg
         (object_dispatch (cl_objects c) (path_str path) (m_interface msg) member (body msg))
         (fst (serial_next (cl_reply_counter c)))
     in if \<not> message_no_reply_expected msg \<and> (\<exists>u. wr out = Inr u) then [out] else [])"
  using assms
  by (auto simp: receive_message_def handle_incoming_def answer_call_def is_for_us_def Let_def
      split: prod.split sum.split option.splits)

lemma call_not_for_us:
  assumes "m_type msg = MethodCall" "\<not> is_for_us msg c"
  shows "receive_message wr msg c = c\<lparr>cl_raw := cl_raw c @ [msg]\<rparr>"
  using assms by (auto simp: receive_message_def handle_incoming_def answer_call_def is_for_us_def
      split: option.splits)

text \<open>A reply that a client writes for an exported method, as its caller will read it.\<close>

lemma exported_reply_fields:
  "m_reply_serial (exported_reply msg result serial) = Some (m_serial msg)"
  "m_destination (exported_reply msg result serial) = m_sender msg"
  "m_type (exported_reply msg result serial) = (case result of Inr _ \<Rightarrow> MethodReturn | Inl _ \<Rightarrow> ErrorReply)"
  "m_serial (exported_reply msg result serial) = serial"
  "call_result (exported_reply msg result serial) =
     (case result of
        Inr vs \<Rightarrow> Inr (fst (extract_fds vs))
      | Inl e \<Rightarrow> Inl (CallError (me_name e) (me_message e)))"
  by (cases "m_sender msg"; cases result; simp add: exported_reply_def with_values_def fold_with_fd reply_to_def
      build_method_return_def build_error_def builder_new_def push_field_def with_destination_def with_args_def
      with_arg_def build_def Let_def header_reply_serial_def header_destination_def header_error_name_def
      call_result_def split: prod.split)+

section \<open>Introspection\<close>

lemma hd_split_on: "hd (split_on c s) = takeWhile (\<lambda>x. x \<noteq> c) s"
  by (induction s) (auto split: list.split)

text \<open>The first segment of what is left of a path.\<close>

lemma first_segment:
  "takeWhile (\<lambda>x. x \<noteq> c) r = s \<longleftrightarrow> c \<notin> set s \<and> (\<exists>rest. r = s @ rest \<and> (rest = [] \<or> hd rest = c))"
proof
  assume s: "takeWhile (\<lambda>x. x \<noteq> c) r = s"
  have "dropWhile (\<lambda>x. x \<noteq> c) r = [] \<or> hd (dropWhile (\<lambda>x. x \<noteq> c) r) = c"
    using hd_dropWhile by blast
  moreover have "c \<notin> set s" using s set_takeWhileD by fastforce
  ultimately show "c \<notin> set s \<and> (\<exists>rest. r = s @ rest \<and> (rest = [] \<or> hd rest = c))"
    using s takeWhile_dropWhile_id by metis
next
  assume "c \<notin> set s \<and> (\<exists>rest. r = s @ rest \<and> (rest = [] \<or> hd rest = c))"
  then obtain rest where r: "r = s @ rest" "rest = [] \<or> hd rest = c" "c \<notin> set s" by blast
  then have "takeWhile (\<lambda>x. x \<noteq> c) rest = []" by (cases rest) auto
  moreover have "\<forall>x \<in> set s. x \<noteq> c" using r(3) by auto
  ultimately show "takeWhile (\<lambda>x. x \<noteq> c) r = s" using r(1) by (simp add: takeWhile_append2)
qed

lemma child_of_Some:
  "child_of path candidate = Some s \<longleftrightarrow> s \<noteq> [] \<and> CHR ''/'' \<notin> set s \<and>
     (\<exists>rest. candidate = (if path = ''/'' then ''/'' else path @ ''/'') @ s @ rest \<and>
        (rest = [] \<or> hd rest = CHR ''/''))"
proof -
  define pre where "pre = (if path = ''/'' then ''/'' else path @ ''/'')"
  have neq: "candidate \<noteq> path" if "candidate = pre @ s @ rest" "s \<noteq> []" for rest
    using that by (auto simp: pre_def split: if_splits)
  have "child_of path candidate = Some s \<longleftrightarrow>
      candidate \<noteq> path \<and> s \<noteq> [] \<and> (\<exists>r. candidate = pre @ r \<and> takeWhile (\<lambda>x. x \<noteq> CHR ''/'') r = s)"
  proof (cases "strip_prefix pre candidate")
    case None
    then have "candidate \<noteq> pre @ r" for r using strip_prefix_Some [of pre candidate r] by simp
    then show ?thesis using None by (simp add: child_of_def Let_def pre_def [symmetric])
  next
    case (Some r)
    then have "candidate = pre @ r" by (simp add: strip_prefix_Some)
    then show ?thesis using Some by (auto simp: child_of_def Let_def pre_def [symmetric] hd_split_on)
  qed
  also have "\<dots> \<longleftrightarrow> s \<noteq> [] \<and> CHR ''/'' \<notin> set s \<and> (\<exists>rest. candidate = pre @ s @ rest \<and> (rest = [] \<or> hd rest = CHR ''/''))"
    using neq by (auto simp: first_segment)
  finally show ?thesis by (simp only: pre_def)
qed

lemma some_member:
  "{c. \<exists>x \<in> S. A c \<and> B c \<and> (\<exists>r. x = f c r \<and> R r)} = {c. A c \<and> B c \<and> (\<exists>r. f c r \<in> S \<and> R r)}"
  by blast

section \<open>The reader's loop\<close>

lemma reader_rounds_enough:
  "to_read es t < n \<Longrightarrow> to_read es t < n' \<Longrightarrow> reader_rounds wr n es t c = reader_rounds wr n' es t c"
proof (induction n arbitrary: n' es t c)
  case (Suc n)
  then obtain m where m: "n' = Suc m" by (cases n') auto
  have "reader_rounds wr n es' t' c' = reader_rounds wr m es' t' c'"
    if "read_message es t = (Done (Inr msg), t', es')" for msg es' t' c'
    using read_message_takes [OF that] Suc.prems m by (intro Suc.IH) auto
  then show ?case
    by (auto simp: m split: prod.split poll.split sum.split)
qed simp

text \<open>The messages that are read are handled in their order, and the loop goes on with what is left.\<close>

lemma read_messages_takes:
  "read_messages n es t = (Done (Inr ms), t', es') \<Longrightarrow> to_read es' t' \<le> to_read es t"
proof (induction n arbitrary: es t ms)
  case (Suc n)
  then obtain m t1 es1 ms' where one: "read_message es t = (Done (Inr m), t1, es1)"
    "read_messages n es1 t1 = (Done (Inr ms'), t', es')"
    by (auto simp: then_read_def split: poll.splits sum.splits prod.splits)
  show ?case
    using read_message_takes [OF one(1)] Suc.IH [OF one(2)] by simp
qed simp

lemma reader_rounds_messages:
  "read_messages n es t = (Done (Inr ms), t', es') \<Longrightarrow>
     reader_rounds wr (n + k) es t c = reader_rounds wr k es' t' (fold (receive_message wr) ms c)"
proof (induction n arbitrary: es t ms c)
  case (Suc n)
  then obtain m t1 es1 ms' where one: "read_message es t = (Done (Inr m), t1, es1)"
    "read_messages n es1 t1 = (Done (Inr ms'), t', es')" "ms = m # ms'"
    by (auto simp: then_read_def split: poll.splits sum.splits prod.splits)
  show ?case
    using one(1,3) Suc.IH [OF one(2)] by simp
qed simp

lemma reader_task_messages:
  assumes "read_messages n es t = (Done (Inr ms), t', es')"
  shows "reader_task wr es t c = reader_task wr es' t' (fold (receive_message wr) ms c)"
proof -
  have total: "to_read es t < n + Suc (to_read es t)" "to_read es' t' < Suc (to_read es t)"
    using read_messages_takes [OF assms] by auto
  have "reader_task wr es t c = reader_rounds wr (n + Suc (to_read es t)) es t c"
    unfolding reader_task_def to_read_def [symmetric] using total by (intro reader_rounds_enough) auto
  also have "\<dots> = reader_rounds wr (Suc (to_read es t)) es' t' (fold (receive_message wr) ms c)"
    by (rule reader_rounds_messages [OF assms])
  also have "\<dots> = reader_task wr es' t' (fold (receive_message wr) ms c)"
    unfolding reader_task_def to_read_def [symmetric] using total by (intro reader_rounds_enough) auto
  finally show ?thesis .
qed

end
