(* ===== verification/Client_Handshake.thy ===== *)
theory Client_Handshake
  imports Client Transport_Progress
begin

text \<open>
  The client's side of the handshake, \<open>handshake\<close> in \<open>oxibus-client/src/connection.rs\<close>: the
  SASL machine of \<open>Auth_Client\<close> over the lines of \<open>Transport\<close>.  The \<open>k\<close>-th step has its own
  answers of the system (\<open>io k\<close>) and of the socket to its write (\<open>wr k\<close>).  The result is the
  bytes that went out, how the handshake ended, and what is left to read.
\<close>

datatype 'a await = Waiting | Crashed | Ready "client_error + 'a"

definition await_of :: "'a poll \<Rightarrow> 'a await" where
  "await_of p =
     (case p of
        Pending \<Rightarrow> Waiting
      | Panicked \<Rightarrow> Crashed
      | Done (Inl e) \<Rightarrow> Ready (Inl (Io e))
      | Done (Inr a) \<Rightarrow> Ready (Inr a))"

type_synonym 'a exchange = "u8 list \<times> 'a await \<times> transport \<times> recv_event list"

definition after_write ::
  "(u8 list \<times> int list) list \<times> unit poll \<Rightarrow> recv_event list \<Rightarrow> transport \<Rightarrow>
     (recv_event list \<Rightarrow> transport \<Rightarrow> 'a exchange) \<Rightarrow> 'a exchange" where
  "after_write w es t f =
     (case w of
        (calls, p) \<Rightarrow>
          let out = concat (map fst calls) in
          (case await_of p of
             Ready (Inr _) \<Rightarrow> (case f es t of (out', r) \<Rightarrow> (out @ out', r))
           | Ready (Inl e) \<Rightarrow> (out, Ready (Inl e), t, es)
           | Crashed \<Rightarrow> (out, Crashed, t, es)
           | Waiting \<Rightarrow> (out, Waiting, t, es)))"

definition after_line ::
  "recv_event list \<Rightarrow> transport \<Rightarrow>
     (string \<Rightarrow> recv_event list \<Rightarrow> transport \<Rightarrow> 'a exchange) \<Rightarrow> 'a exchange" where
  "after_line es t f =
     (case read_line es t of
        (p, t', es') \<Rightarrow>
          (case await_of p of
             Ready (Inr line) \<Rightarrow> f line es' t'
           | Ready (Inl e) \<Rightarrow> ([], Ready (Inl e), t', es')
           | Crashed \<Rightarrow> ([], Crashed, t', es')
           | Waiting \<Rightarrow> ([], Waiting, t', es')))"

text \<open>What the system and the socket answer: in the loop, once for each line that is sent.\<close>

record handshake_io =
  hi_system :: "nat \<Rightarrow> client_io"
  hi_nul :: "send_event list"
  hi_lines :: "nat \<Rightarrow> send_event list"
  hi_final :: "nat \<Rightarrow> send_event list"

text \<open>
  The loop.  A server may keep it going with DATA lines; each round takes a line of the server,
  so as many rounds as there are bytes to come, and one more, are enough.
\<close>

fun handshake_rounds ::
  "(u8 list \<Rightarrow> u8 list) \<Rightarrow> handshake_io \<Rightarrow> nat \<Rightarrow> nat \<Rightarrow> string \<Rightarrow> client_auth \<Rightarrow>
     recv_event list \<Rightarrow> transport \<Rightarrow> client_auth exchange" where
  "handshake_rounds sha1 io 0 k line auth es t = ([], Waiting, t, es)"
| "handshake_rounds sha1 io (Suc n) k line auth es t =
     after_write (write_line (hi_lines io k) line) es t (\<lambda>es t.
     after_line es t (\<lambda>resp es t.
       case client_feed_line sha1 (hi_system io k) resp auth of
         None \<Rightarrow> ([], Crashed, t, es)
       | Some (CAuthenticated, auth) \<Rightarrow> ([], Ready (Inr auth), t, es)
       | Some (CSend l, auth) \<Rightarrow> handshake_rounds sha1 io n (Suc k) l auth es t
       | Some (MechanismRejected _, auth) \<Rightarrow>
           (case try_next_mechanism (hi_system io k) auth of
              Some (next_line, auth) \<Rightarrow> handshake_rounds sha1 io n (Suc k) next_line auth es t
            | None \<Rightarrow>
                ([], Ready (Inl (AuthFailed ''server rejected every configured SASL mechanism'')), t, es))
       | Some (ProtocolError e, auth) \<Rightarrow> ([], Ready (Inl (AuthFailed e)), t, es)))"

fun write_lines ::
  "(nat \<Rightarrow> send_event list) \<Rightarrow> string list \<Rightarrow> recv_event list \<Rightarrow> transport \<Rightarrow> unit exchange" where
  "write_lines wr [] es t = ([], Ready (Inr ()), t, es)"
| "write_lines wr (l # ls) es t = after_write (write_line (wr (length ls)) l) es t (write_lines wr ls)"

definition then_exchange ::
  "'a exchange \<Rightarrow> ('a \<Rightarrow> recv_event list \<Rightarrow> transport \<Rightarrow> 'b exchange) \<Rightarrow> 'b exchange" where
  "then_exchange x f =
     (case x of
        (out, Ready (Inr a), t, es) \<Rightarrow> (case f a es t of (out', r) \<Rightarrow> (out @ out', r))
      | (out, Ready (Inl e), t, es) \<Rightarrow> (out, Ready (Inl e), t, es)
      | (out, Crashed, t, es) \<Rightarrow> (out, Crashed, t, es)
      | (out, Waiting, t, es) \<Rightarrow> (out, Waiting, t, es))"

definition handshake ::
  "(u8 list \<Rightarrow> u8 list) \<Rightarrow> handshake_io \<Rightarrow> mechanism list \<Rightarrow> bool \<Rightarrow> string option \<Rightarrow>
     recv_event list \<Rightarrow> transport \<Rightarrow> unit exchange" where
  "handshake sha1 io mechanisms negotiate home es t =
     after_write (send_initial_nul (hi_nul io)) es t (\<lambda>es t.
     case client_start (hi_system io 0) (client_new mechanisms negotiate home) of
       None \<Rightarrow> ([], Crashed, t, es)
     | Some (line, auth) \<Rightarrow>
         then_exchange
           (handshake_rounds sha1 io (Suc (length (read_buf t) + length (stream es))) 1 line auth es t)
           (\<lambda>auth es t.
             let (lines, expect_reply) = fst (finish_lines auth) in
             then_exchange (write_lines (hi_final io) lines es t) (\<lambda>_ es t.
               if expect_reply then after_line es t (\<lambda>_ es t. ([], Ready (Inr ()), t, es))
               else ([], Ready (Inr ()), t, es))))"

section \<open>Connecting\<close>

definition default_mechanisms :: "mechanism list" where
  "default_mechanisms = [External, DbusCookieSha1]"

text \<open>
  The socket that \<open>oxibus_transport::connect\<close> gives, or its error; afterwards the transport is
  the reader's, with what is left to read.
\<close>

definition connect_with ::
  "io_error + peer_credentials \<Rightarrow> (u8 list \<Rightarrow> u8 list) \<Rightarrow> handshake_io \<Rightarrow> mechanism list \<Rightarrow> bool \<Rightarrow>
     string option \<Rightarrow> object_map \<Rightarrow> u32 \<Rightarrow> recv_event list \<Rightarrow>
     (client \<times> transport \<times> recv_event list) await" where
  "connect_with sock sha1 io mechanisms negotiate home objects counter es =
     (case sock of
        Inl e \<Rightarrow> Ready (Inl (Io e))
      | Inr creds \<Rightarrow>
          (case handshake sha1 io mechanisms negotiate home es (transport_new creds) of
             (_, Ready (Inr _), t, es) \<Rightarrow> Ready (Inr (connection_new objects counter, t, es))
           | (_, Ready (Inl e), t, es) \<Rightarrow> Ready (Inl e)
           | (_, Crashed, t, es) \<Rightarrow> Crashed
           | (_, Waiting, t, es) \<Rightarrow> Waiting))"

definition client_connect ::
  "io_error + peer_credentials \<Rightarrow> (u8 list \<Rightarrow> u8 list) \<Rightarrow> handshake_io \<Rightarrow>
     string option \<Rightarrow> u32 \<Rightarrow> recv_event list \<Rightarrow> (client \<times> transport \<times> recv_event list) await" where
  "client_connect sock sha1 io home counter es =
     connect_with sock sha1 io default_mechanisms True home object_server_new counter es"

section \<open>A handshake that succeeds\<close>

lemma after_write_done:
  "after_write (calls, Done (Inr ())) es t f = (concat (map fst calls) @ fst (f es t), snd (f es t))"
  by (simp add: after_write_def await_of_def split: prod.split)

lemma write_line_done:
  "write_line ev line = (calls, Done (Inr ())) \<Longrightarrow> concat (map fst calls) = as_bytes line @ [13, 10]"
  unfolding write_line_def by (drule write_all_Done) simp

definition wire_line :: "string \<Rightarrow> u8 list" where
  "wire_line l = as_bytes l @ [13, 10]"

lemma after_line_done:
  assumes "delivers es" "read_buf t @ stream es = wire_line line @ rest"
    and "CHR 0x0D \<notin> set line" "valid_utf8 line" "length line < MAX_AUTH_LINE_BYTES"
  obtains t' es' where "delivers es'" "read_buf t' @ stream es' = rest" "\<And>f. after_line es t f = f line es' t'"
proof -
  have "read_buf t @ stream es = as_bytes line @ 13 # 10 # rest"
    using assms(2) by (simp add: wire_line_def)
  then obtain used es' where u: "es = used @ es'"
    "read_line es t = (Done (Inr line), (fed used t)\<lparr>read_buf := drop (length line + 2) (read_buf (fed used t))\<rparr>, es')"
    "drop (length line + 2) (read_buf (fed used t)) @ stream es' = rest"
    by (rule read_line_delivers [OF assms(1) _ assms(3-5)])
  show thesis
    using u assms(1) by (intro that [of es' "(fed used t)\<lparr>read_buf := drop (length line + 2) (read_buf (fed used t))\<rparr>"])
      (simp_all add: after_line_def await_of_def)
qed

definition external_line :: "u32 \<Rightarrow> string" where
  "external_line u = ''AUTH EXTERNAL '' @ hex_encode (as_bytes (show_nat (unat u)))"

lemma external_start:
  "client_start io (client_new (External # others) fd home) =
     Some (external_line (c_uid io),
       (client_new (External # others) fd home)\<lparr>tried := 0, c_state := WaitingForDataOrOk External None\<rparr>)"
  by (simp add: client_start_def begin_mechanism_def client_new_def external_line_def)

lemma ok_line: "client_feed_line sha1 io (''OK '' @ guid) c = Some (CAuthenticated, c\<lparr>c_state := CDone\<rparr>)"
  using split_once_append [of "CHR '' ''" "''OK''" guid] by (simp add: client_feed_line_def)

lemma handshake_external:
  assumes "delivers es"
    and heard: "read_buf t @ stream es = wire_line (''OK '' @ guid) @ wire_line ''AGREE_UNIX_FD'' @ rest"
    and guid: "CHR 0x0D \<notin> set guid" "valid_utf8 (''OK '' @ guid)" "length guid + 3 < MAX_AUTH_LINE_BYTES"
    and nul: "send_initial_nul (hi_nul io) = (w0, Done (Inr ()))"
    and w1: "write_line (hi_lines io 1) (external_line (c_uid (hi_system io 0))) = (w1, Done (Inr ()))"
    and w2: "write_line (hi_final io 1) ''NEGOTIATE_UNIX_FD'' = (w2, Done (Inr ()))"
    and w3: "write_line (hi_final io 0) ''BEGIN'' = (w3, Done (Inr ()))"
  shows "\<exists>t' es'. handshake sha1 io (External # others) True home es t =
      (0 # wire_line (external_line (c_uid (hi_system io 0))) @ wire_line ''NEGOTIATE_UNIX_FD'' @ wire_line ''BEGIN'',
       Ready (Inr ()), t', es') \<and> read_buf t' @ stream es' = rest"
proof -
  let ?n = "length (read_buf t) + length (stream es)"
  let ?c = "(client_new (External # others) True home)\<lparr>tried := 0, c_state := WaitingForDataOrOk External None\<rparr>"
  have ok: "CHR 0x0D \<notin> set (''OK '' @ guid)" "valid_utf8 (''OK '' @ guid)" "length (''OK '' @ guid) < MAX_AUTH_LINE_BYTES"
    using guid by simp_all
  obtain t1 es1 where one: "delivers es1" "read_buf t1 @ stream es1 = wire_line ''AGREE_UNIX_FD'' @ rest"
    "\<And>f. after_line es t f = (f (''OK '' @ guid) es1 t1 :: client_auth exchange)"
    using after_line_done [OF assms(1) heard ok] by blast
  have agree: "CHR 0x0D \<notin> set ''AGREE_UNIX_FD''" "valid_utf8 ''AGREE_UNIX_FD''"
    "length ''AGREE_UNIX_FD'' < MAX_AUTH_LINE_BYTES"
    by code_simp+
  obtain t2 es2 where two: "read_buf t2 @ stream es2 = rest"
    "\<And>f. after_line es1 t1 f = (f ''AGREE_UNIX_FD'' es2 t2 :: unit exchange)"
    using after_line_done [OF one(1,2) agree] by blast
  have rounds: "handshake_rounds sha1 io (Suc ?n) 1 (external_line (c_uid (hi_system io 0))) ?c es t =
      (wire_line (external_line (c_uid (hi_system io 0))), Ready (Inr (?c\<lparr>c_state := CDone\<rparr>)), t1, es1)"
    using w1 write_line_done [OF w1] by (simp add: after_write_done one(3) ok_line [simplified] wire_line_def)
  have lines: "write_lines (hi_final io) [''NEGOTIATE_UNIX_FD'', ''BEGIN''] es1 t1 =
      (wire_line ''NEGOTIATE_UNIX_FD'' @ wire_line ''BEGIN'', Ready (Inr ()), t1, es1)"
    using w2 w3 write_line_done [OF w2] write_line_done [OF w3]
    by (simp add: after_write_done wire_line_def)
  have "concat (map fst w0) = [0]"
    using nul write_all_Done unfolding send_initial_nul_def by blast
  moreover have "fst (finish_lines (?c\<lparr>c_state := CDone\<rparr>)) = ([''NEGOTIATE_UNIX_FD'', ''BEGIN''], True)"
    by (simp add: finish_lines_def client_new_def)
  ultimately have "handshake sha1 io (External # others) True home es t =
      (0 # wire_line (external_line (c_uid (hi_system io 0))) @ wire_line ''NEGOTIATE_UNIX_FD'' @ wire_line ''BEGIN'',
       Ready (Inr ()), t2, es2)"
    unfolding handshake_def
    by (simp add: nul after_write_done external_start rounds lines then_exchange_def two(2)
        del: handshake_rounds.simps write_lines.simps One_nat_def)
  then show ?thesis using two(1) by blast
qed

text \<open>More rounds than there are bytes to read change nothing.\<close>

lemma after_write_cong: "f es t = g es t \<Longrightarrow> after_write w es t f = after_write w es t g"
  by (simp add: after_write_def Let_def split: prod.split await.split sum.split)

lemma after_line_cong:
  assumes "\<And>line t' es'. read_line es t = (Done (Inr line), t', es') \<Longrightarrow> f line es' t' = g line es' t'"
  shows "after_line es t f = after_line es t g"
  using assms by (auto simp: after_line_def await_of_def split: prod.split poll.split sum.split)

lemma handshake_rounds_enough:
  "to_read es t < n \<Longrightarrow> to_read es t < n' \<Longrightarrow>
     handshake_rounds sha1 io n k line auth es t = handshake_rounds sha1 io n' k line auth es t"
proof (induction n arbitrary: n' k line auth es t)
  case (Suc n)
  then obtain m where m: "n' = Suc m" by (cases n') auto
  have next_round: "handshake_rounds sha1 io n k' l a es' t' = handshake_rounds sha1 io m k' l a es' t'"
    if "read_line es t = (Done (Inr resp), t', es')" for k' l a resp es' t'
    using read_line_takes [OF that] Suc.prems m by (intro Suc.IH) auto
  show ?case
    unfolding m handshake_rounds.simps
    by (intro after_write_cong after_line_cong) (auto simp: next_round split: option.split client_action.split)
qed simp

end
