(* ===== verification/System_Facts.thy ===== *)
theory System_Facts
  imports Mediation Client_Facts Client_Handshake
begin

text \<open>
  Client and bus together: when the bus delivers what a client sends, and what a client's
  messages look like on the other side.
\<close>

section \<open>What a client sends\<close>

lemma call_message_fields:
  "m_type (call_message dest path interface member args s) = MethodCall"
  "m_path (call_message dest path interface member args s) = Some path"
  "m_interface (call_message dest path interface member args s) = interface"
  "m_member (call_message dest path interface member args s) = Some member"
  "m_destination (call_message dest path interface member args s) = dest"
  "body (call_message dest path interface member args s) = fst (extract_fds args)"
  "fds (call_message dest path interface member args s) = snd (extract_fds args)"
  "\<not> message_no_reply_expected (call_message dest path interface member args s)"
  by (cases interface; cases dest; cases "extract_fds args";
      simp add: call_message_def with_values_def fold_with_fd build_method_call_def builder_new_def push_field_def
      with_interface_def with_destination_def with_args_def build_def Let_def header_accessor_defs
      message_no_reply_expected_def)+

lemma set_sender_parts [simp]:
  "header (set_sender u m) = header_set_sender u (header m)" "body (set_sender u m) = body m"
  "fds (set_sender u m) = fds m"
  "message_no_reply_expected (set_sender u m) = message_no_reply_expected m"
  by (simp_all add: set_sender_def message_no_reply_expected_def)

lemma call_result_set_sender [simp]: "call_result (set_sender u m) = call_result m"
  by (cases "m_type m") (simp_all add: call_result_def)

text \<open>A call as it is started, and the call as it is written.\<close>

lemma started_call:
  "length (cl_calls (start_call dest path interface member args c)) = Suc (length (cl_calls c))"
  "cl_calls (start_call dest path interface member args c) ! length (cl_calls c) =
     \<lparr>ca_message = call_message dest path interface member args (fst (serial_next (cl_serials c))),
      ca_slot = Open, ca_phase = Writing\<rparr>"
  by (simp_all add: start_call_def Let_def nth_append split: prod.split)

section \<open>What the bus delivers\<close>

definition delivers_calls ::
  "bus_io \<Rightarrow> connection_entry \<Rightarrow> connection_entry \<Rightarrow> message \<Rightarrow> bus \<Rightarrow> bool" where
  "delivers_calls io sender conn msg b \<longleftrightarrow>
     (let x = set_sender (unique_name sender) msg in
      is_registered sender \<and> m_destination msg \<noteq> Some BUS_NAME \<and>
      Option.bind (m_destination msg) (resolve_connection b) = Some conn \<and>
      sending_allowed io sender x b \<and> receiving_allowed io sender conn x b \<and>
      writable io (unique_name conn) x)"

lemma call_delivered:
  assumes "m_type msg = MethodCall" "delivers_calls io sender conn msg b"
  shows "outbox (dispatch_incoming io sender msg b) =
    outbox b @ [(unique_name conn, set_sender (unique_name sender) msg)]"
proof -
  let ?x = "set_sender (unique_name sender) msg"
  let ?b = "deliver_to_monitors ?x b"
  obtain dest owner where dest: "m_destination msg = Some dest" "dest \<noteq> BUS_NAME"
    "get_name_owner (bu_registry b) dest = Some owner" "get_connection (bu_registry b) owner = Some conn"
    using assms(2) by (auto simp: delivers_calls_def Let_def resolve_connection_def bind_eq_Some_conv)
  have same: "mac_allows io ?b = mac_allows io b" "resolve_connection ?b = resolve_connection b"
    by (simp_all add: fun_eq_iff mac_allows_def bustype_def resolve_connection_def)
  have checks: "can_send (bu_policy b) (identity io sender) ?x (Some dest)"
    "mac_allows io b AA_DBUS_SEND sender (label_of (resolve_connection b dest)) ?x"
    "can_receive (bu_policy b) (identity io conn) ?x (m_sender ?x)"
    "mac_allows io b AA_DBUS_RECEIVE conn (security_label sender) ?x" "writable io (unique_name conn) ?x"
    "is_registered sender"
    using assms(2) dest(1)
    by (auto simp: delivers_calls_def Let_def sending_allowed_def receiving_allowed_def)
  have "outbox (deliver_to_owner io sender ?x owner ?b) = outbox b @ [(unique_name conn, ?x)]"
    using checks dest by (simp add: deliver_to_owner_def same write_message_eq)
  moreover have "dispatch_incoming io sender msg b = deliver_to_owner io sender ?x owner ?b"
    using checks dest assms(1)
    by (simp add: dispatch_incoming_def dispatch_method_call_def Let_def same)
  ultimately show ?thesis by simp
qed

lemma reply_delivered:
  assumes "m_type msg = MethodReturn \<or> m_type msg = ErrorReply" "is_registered sender"
    and "Option.bind (m_destination msg) (resolve_connection b) = Some conn"
    and "writable io (unique_name conn) (set_sender (unique_name sender) msg)"
  shows "outbox (dispatch_incoming io sender msg b) =
    outbox b @ [(unique_name conn, set_sender (unique_name sender) msg)]"
proof -
  obtain dest where "m_destination msg = Some dest"
    using assms(3) by (auto simp: bind_eq_Some_conv)
  then show ?thesis
    using assms by (auto simp: dispatch_incoming_def dispatch_reply_def Let_def resolve_connection_def outbox_write)
qed

end
