(* ===== verification/Address.thy ===== *)
theory Address
  imports Core_Types Rust_Strings "HOL-Library.AList"
begin

text \<open>
  \<open>oxibus-core/src/addr.rs\<close>: server addresses, their parser and printer, and the escapes in
  their values.
\<close>

section \<open>Lossy decoding\<close>

text \<open>
  \<open>String::from_utf8_lossy\<close>: at the head of the bytes, how many belong together and whether
  they are a character; those that are not become one replacement character.
\<close>

definition utf8_head :: "nat list \<Rightarrow> nat \<times> bool" where
  "utf8_head s =
     (case s of
        [] \<Rightarrow> (0, True)
      | a # s \<Rightarrow>
          if a < 0x80 then (1, True)
          else if 0xC2 \<le> a \<and> a \<le> 0xDF then
            (case s of b # _ \<Rightarrow> if utf8_cont b then (2, True) else (1, False) | [] \<Rightarrow> (1, False))
          else if 0xE0 \<le> a \<and> a \<le> 0xEF then
            (case s of
               b # s \<Rightarrow>
                 if \<not> utf8_second a b then (1, False)
                 else (case s of c # _ \<Rightarrow> if utf8_cont c then (3, True) else (2, False) | [] \<Rightarrow> (2, False))
             | [] \<Rightarrow> (1, False))
          else if 0xF0 \<le> a \<and> a \<le> 0xF4 then
            (case s of
               b # s \<Rightarrow>
                 if \<not> utf8_second a b then (1, False)
                 else
                   (case s of
                      c # s \<Rightarrow>
                        if \<not> utf8_cont c then (2, False)
                        else (case s of d # _ \<Rightarrow> if utf8_cont d then (4, True) else (3, False) | [] \<Rightarrow> (3, False))
                    | [] \<Rightarrow> (2, False))
             | [] \<Rightarrow> (1, False))
          else (1, False))"

lemma utf8_head_pos: "(n, ok) = utf8_head (a # s) \<Longrightarrow> 0 < n"
  by (auto simp: utf8_head_def split: list.splits if_splits)

function lossy_codes :: "nat list \<Rightarrow> nat list" where
  "lossy_codes [] = []"
| "lossy_codes (a # s) =
     (case utf8_head (a # s) of
        (n, ok) \<Rightarrow> (if ok then take n (a # s) else [0xEF, 0xBF, 0xBD]) @ lossy_codes (drop n (a # s)))"
  by pat_completeness auto

termination lossy_codes
  by (relation "measure length") (auto dest: utf8_head_pos)

lemma lossy_codes_valid: "valid_utf8_codes s \<Longrightarrow> lossy_codes s = s"
  by (induction s rule: valid_utf8_codes.induct)
    (auto simp: utf8_head_def split: if_splits list.splits)

definition from_utf8_lossy :: "string \<Rightarrow> string" where
  "from_utf8_lossy s = map char_of (lossy_codes (map of_char s))"

lemma from_utf8_lossy_valid: "valid_utf8 s \<Longrightarrow> from_utf8_lossy s = s"
  by (simp add: from_utf8_lossy_def valid_utf8_def lossy_codes_valid comp_def)

section \<open>Escapes\<close>

definition hex_val :: "char \<Rightarrow> nat option" where
  "hex_val b = hex_value b"

fun unescape_bytes :: "string \<Rightarrow> string" where
  "unescape_bytes (c # h # l # r) =
     (if c = CHR ''%'' then
        (case (hex_val h, hex_val l) of
           (Some x, Some y) \<Rightarrow> char_of (x * 16 + y) # unescape_bytes r
         | _ \<Rightarrow> c # unescape_bytes (h # l # r))
      else c # unescape_bytes (h # l # r))"
| "unescape_bytes (c # r) = c # unescape_bytes r"
| "unescape_bytes [] = []"

definition unescape :: "string \<Rightarrow> string" where
  "unescape s = from_utf8_lossy (unescape_bytes s)"

definition is_safe :: "char \<Rightarrow> bool" where
  "is_safe b \<longleftrightarrow> is_ascii_alphanumeric b \<or>
     b \<in> {CHR ''-'', CHR ''_'', CHR ''/'', CHR ''.'', CHR 0x5C}"

definition escape :: "string \<Rightarrow> string" where
  "escape s =
     concat (map (\<lambda>b. if is_safe b then [b]
       else [CHR ''%'', hex_digit (code_of b div 16), hex_digit (code_of b mod 16)]) s)"

section \<open>Addresses\<close>

datatype address =
    UnixPath string
  | UnixAbstract string
  | UnixTmpdir string
  | Tcp string u16
  | Systemd

fun insert_pairs :: "string \<Rightarrow> string list \<Rightarrow> (string \<times> string) list \<Rightarrow> (string \<times> string) list core_result" where
  "insert_pairs whole [] kv = Inr kv"
| "insert_pairs whole (p # ps) kv =
     (if p = [] then insert_pairs whole ps kv
      else (case split_once CHR ''='' p of
              None \<Rightarrow> Inl (InvalidAddress whole)
            | Some (k, v) \<Rightarrow> insert_pairs whole ps (AList.update k v kv)))"

definition parse_kv :: "string \<Rightarrow> (string \<times> string) list core_result" where
  "parse_kv rest = insert_pairs rest (split_on CHR '','' rest) []"

definition parse_address :: "string \<Rightarrow> address core_result" where
  "parse_address s =
     (if s = ''systemd:'' then Inr Systemd
      else (case split_once CHR '':'' s of
              None \<Rightarrow> Inl (InvalidAddress s)
            | Some (transport, rest) \<Rightarrow>
                and_then (parse_kv rest) (\<lambda>kv.
                if transport = ''unix'' then
                  (case map_of kv ''path'' of
                     Some path \<Rightarrow> Inr (UnixPath (unescape path))
                   | None \<Rightarrow>
                       (case map_of kv ''abstract'' of
                          Some n \<Rightarrow> Inr (UnixAbstract (unescape n))
                        | None \<Rightarrow>
                            (case map_of kv ''tmpdir'' of
                               Some dir \<Rightarrow> Inr (UnixTmpdir (unescape dir))
                             | None \<Rightarrow> Inl (InvalidAddress s))))
                else if transport = ''tcp'' then
                  let host = (case map_of kv ''host'' of Some h \<Rightarrow> h | None \<Rightarrow> ''localhost'') in
                  (case Option.bind (map_of kv ''port'') (parse_uint (2 ^ 16)) of
                     Some port \<Rightarrow> Inr (Tcp host (word_of_nat port))
                   | None \<Rightarrow> Inl (InvalidAddress s))
                else
                  Inl (InvalidAddress
                    (''unsupported transport '' @ single_quoted transport @ '' in '' @ single_quoted s)))))"

definition parse_address_list :: "string \<Rightarrow> address list core_result" where
  "parse_address_list s = try_map parse_address (filter (\<lambda>part. part \<noteq> []) (split_on CHR '';'' s))"

fun to_address_string :: "address \<Rightarrow> string" where
  "to_address_string (UnixPath p) = ''unix:path='' @ escape p"
| "to_address_string (UnixAbstract a) = ''unix:abstract='' @ escape a"
| "to_address_string (UnixTmpdir d) = ''unix:tmpdir='' @ escape d"
| "to_address_string (Tcp host port) = ''tcp:host='' @ host @ '',port='' @ show_nat (unat port)"
| "to_address_string Systemd = ''systemd:''"

section \<open>What is printed is parsed\<close>

lemma unescape_Cons: "c \<noteq> CHR ''%'' \<Longrightarrow> unescape_bytes (c # r) = c # unescape_bytes r"
  by (cases r rule: unescape_bytes.cases) (auto split: list.splits intro: list.exhaust)

lemma nibbles: "code_of b div 16 < 16" "code_of b mod 16 < 16"
  by (rule less_mult_imp_div_less) simp_all

lemma unescape_escape: "unescape_bytes (escape s) = s"
proof (induction s)
  case (Cons b s)
  show ?case
  proof (cases "is_safe b")
    case True
    then have "b \<noteq> CHR ''%''"
      by (auto simp: is_safe_def is_ascii_alphanumeric_def is_ascii_alphabetic_def is_ascii_digit_def)
    then show ?thesis
      using True Cons.IH by (simp add: escape_def unescape_Cons)
  next
    case False
    then show ?thesis
      using Cons.IH nibbles [of b] by (simp add: escape_def hex_val_def hex_value_digit)
  qed
qed (simp add: escape_def)

lemma hex_digit_plain: "d < 16 \<Longrightarrow> is_ascii_alphanumeric (hex_digit d)"
  by (auto simp: hex_digit_def is_ascii_alphanumeric_def is_ascii_alphabetic_def is_ascii_digit_def)

lemma escape_chars: "c \<in> set (escape s) \<Longrightarrow> is_safe c \<or> c = CHR ''%''"
proof (induction s)
  case (Cons b s)
  have "is_safe (hex_digit (code_of b div 16))" "is_safe (hex_digit (code_of b mod 16))"
    by (simp_all only: is_safe_def hex_digit_plain [OF nibbles(1)] hex_digit_plain [OF nibbles(2)] simp_thms)
  moreover have "c \<in> set (if is_safe b then [b]
      else [CHR ''%'', hex_digit (code_of b div 16), hex_digit (code_of b mod 16)]) \<or> c \<in> set (escape s)"
    using Cons.prems by (simp add: escape_def)
  ultimately show ?case
    using Cons.IH by (auto split: if_splits)
qed (simp add: escape_def)

lemma escape_no_separator:
  "CHR '','' \<notin> set (escape s)" "CHR '';'' \<notin> set (escape s)" "CHR '':'' \<notin> set (escape s)"
  using escape_chars [of _ s]
  by (fastforce simp: is_safe_def is_ascii_alphanumeric_def is_ascii_alphabetic_def is_ascii_digit_def)+

definition wf_address :: "address \<Rightarrow> bool" where
  "wf_address a \<longleftrightarrow> (case a of
     UnixPath p \<Rightarrow> valid_utf8 p | UnixAbstract n \<Rightarrow> valid_utf8 n | UnixTmpdir d \<Rightarrow> valid_utf8 d
   | Tcp host port \<Rightarrow> CHR '','' \<notin> set host \<and> CHR '';'' \<notin> set host | Systemd \<Rightarrow> True)"

lemma parse_kv_single:
  assumes "CHR '','' \<notin> set v" "CHR '','' \<notin> set k" "CHR ''='' \<notin> set k"
  shows "parse_kv (k @ CHR ''='' # v) = Inr [(k, v)]"
  using assms split_on_no_sep [of "CHR '',''" "k @ CHR ''='' # v"]
  by (simp add: parse_kv_def split_once_append)

lemma parse_unix:
  assumes "CHR '','' \<notin> set v" "CHR '','' \<notin> set k" "CHR ''='' \<notin> set k"
  shows "parse_address (''unix:'' @ k @ CHR ''='' # v) =
    (if k = ''path'' then Inr (UnixPath (unescape v))
     else if k = ''abstract'' then Inr (UnixAbstract (unescape v))
     else if k = ''tmpdir'' then Inr (UnixTmpdir (unescape v))
     else Inl (InvalidAddress (''unix:'' @ k @ CHR ''='' # v)))"
  using parse_kv_single [OF assms] by (simp add: parse_address_def)

lemma address_printed:
  assumes "wf_address a"
  shows "parse_address (to_address_string a) = Inr a"
proof (cases a)
  case (UnixPath p)
  then show ?thesis
    using assms parse_unix [of "escape p" "''path''"] escape_no_separator(1) [of p]
    by (simp add: wf_address_def unescape_def unescape_escape from_utf8_lossy_valid)
next
  case (UnixAbstract p)
  then show ?thesis
    using assms parse_unix [of "escape p" "''abstract''"] escape_no_separator(1) [of p]
    by (simp add: wf_address_def unescape_def unescape_escape from_utf8_lossy_valid)
next
  case (UnixTmpdir p)
  then show ?thesis
    using assms parse_unix [of "escape p" "''tmpdir''"] escape_no_separator(1) [of p]
    by (simp add: wf_address_def unescape_def unescape_escape from_utf8_lossy_valid)
next
  case (Tcp host port)
  let ?p = "show_nat (unat port)"
  have "unat port < 65536"
    using unsigned_less [of port, where ?'a = nat] by simp
  then have port: "parse_uint 65536 ?p = Some (unat port)"
    by (rule parse_uint_show_nat)
  have "split_on (CHR '','') (''host='' @ host @ '',port='' @ ?p) = [''host='' @ host, ''port='' @ ?p]"
    using assms Tcp split_on_append [of "CHR '',''" "''host='' @ host" "''port='' @ ?p"]
      split_on_no_sep [of "CHR '',''" "''port='' @ ?p"] show_nat_no_special(5)
    by (simp add: wf_address_def)
  then have "parse_kv (''host='' @ host @ '',port='' @ ?p) = Inr [(''host'', host), (''port'', ?p)]"
    using split_once_append [of "CHR ''=''" "''host''" host] split_once_append [of "CHR ''=''" "''port''" ?p]
    by (simp add: parse_kv_def)
  then show ?thesis
    using port Tcp by (simp add: parse_address_def)
qed (simp add: parse_address_def)

lemma address_parts:
  assumes "wf_address a"
  shows "CHR '';'' \<notin> set (to_address_string a) \<and> to_address_string a \<noteq> []"
  using assms escape_no_separator(2) show_nat_hd [of "CHR '';''"]
  by (cases a) (auto simp: wf_address_def is_ascii_digit_def)

lemma address_list_printed:
  assumes "\<forall>a \<in> set as. wf_address a"
  shows "parse_address_list (join_with CHR '';'' (map to_address_string as)) = Inr as"
proof (cases as)
  case (Cons a as')
  have "split_on CHR '';'' (join_with CHR '';'' (map to_address_string as)) = map to_address_string as"
    using Cons assms address_parts by (intro split_on_join) auto
  moreover have "filter (\<lambda>p. p \<noteq> []) (map to_address_string as) = map to_address_string as"
    using assms address_parts by (auto simp: filter_id_conv)
  moreover have "try_map parse_address (map to_address_string as) = Inr as"
    using assms address_printed by (simp add: try_map_Inr list_all2_conv_all_nth)
  ultimately show ?thesis
    by (simp add: parse_address_list_def)
qed (simp add: parse_address_list_def)

end
