(* ===== verification/Proxy.thy ===== *)
theory Proxy
  imports Client
begin

text \<open>
  \<open>oxibus-client/src/proxy.rs\<close>: a handle for one object of another connection.  Each operation
  is a call of the connection and what it makes of the result.
\<close>

record proxy =
  px_destination :: string
  px_path :: object_path
  px_interface :: "string option"

definition proxy_new :: "string \<Rightarrow> object_path \<Rightarrow> string option \<Rightarrow> proxy" where
  "proxy_new destination path interface =
     \<lparr>px_destination = destination, px_path = path, px_interface = interface\<rparr>"

definition proxy_call :: "proxy \<Rightarrow> string \<Rightarrow> dvalue list \<Rightarrow> client \<Rightarrow> client" where
  "proxy_call p member args =
     start_call (Some (px_destination p)) (px_path p) (px_interface p) member args"

definition properties_call :: "proxy \<Rightarrow> string \<Rightarrow> dvalue list \<Rightarrow> client \<Rightarrow> client" where
  "properties_call p member args =
     start_call (Some (px_destination p)) (px_path p) (Some PROPERTIES_INTERFACE) member args"

definition get_property :: "proxy \<Rightarrow> string \<Rightarrow> string \<Rightarrow> client \<Rightarrow> client" where
  "get_property p interface n = properties_call p ''Get'' [VString interface, VString n]"

definition get_property_result :: "client_error + dvalue list \<Rightarrow> client_error + dvalue" where
  "get_property_result reply =
     and_then reply (\<lambda>vs. Inr (case vs of [] \<Rightarrow> VString [] | v # _ \<Rightarrow> unwrap_variant v))"

definition set_property :: "proxy \<Rightarrow> string \<Rightarrow> string \<Rightarrow> dvalue \<Rightarrow> client \<Rightarrow> client" where
  "set_property p interface n v =
     properties_call p ''Set'' [VString interface, VString n, VVariant v]"

definition set_property_result :: "client_error + dvalue list \<Rightarrow> client_error + unit" where
  "set_property_result reply = and_then reply (\<lambda>_. Inr ())"

definition get_all_properties :: "proxy \<Rightarrow> string \<Rightarrow> client \<Rightarrow> client" where
  "get_all_properties p interface = properties_call p ''GetAll'' [VString interface]"

fun property_pairs :: "dvalue list \<Rightarrow> (string \<times> dvalue) list" where
  "property_pairs [] = []"
| "property_pairs (VDictEntry k v # els) =
     (case value_as_str k of
        Some key \<Rightarrow> (key, unwrap_variant v) # property_pairs els
      | None \<Rightarrow> property_pairs els)"
| "property_pairs (_ # els) = property_pairs els"

definition get_all_result :: "client_error + dvalue list \<Rightarrow> client_error + (string \<times> dvalue) list" where
  "get_all_result reply =
     and_then reply (\<lambda>vs. Inr (case vs of VArray _ els # _ \<Rightarrow> property_pairs els | _ \<Rightarrow> []))"

definition introspect_call :: "proxy \<Rightarrow> client \<Rightarrow> client" where
  "introspect_call p =
     start_call (Some (px_destination p)) (px_path p) (Some INTROSPECTABLE_INTERFACE) ''Introspect'' []"

definition introspect_result :: "client_error + dvalue list \<Rightarrow> client_error + string" where
  "introspect_result reply =
     and_then reply (\<lambda>vs. Inr (case vs of
       [] \<Rightarrow> []
     | v # _ \<Rightarrow> (case value_as_str v of Some s \<Rightarrow> s | None \<Rightarrow> [])))"

text \<open>A dictionary of properties, as \<open>properties_changed\<close> builds one, is read back.\<close>

lemma property_pairs_built:
  "property_pairs (map (\<lambda>(n, v). VDictEntry (VString n) (VVariant v)) ps) =
     map (\<lambda>(n, v). (n, unwrap_variant v)) ps"
  by (induction ps) auto

end
