(* ===== verification/Client_Properties.thy ===== *)
theory Client_Properties
  imports Address Client_Facts Client_Handshake Proxy
begin

text \<open>
  The properties of the client's side: addresses, exported objects, calls and the handshake.
\<close>

section \<open>Addresses\<close>

text \<open>A list of addresses, printed one after the other with semicolons between them, is parsed
  as the same list: every byte of a path or a name that could be taken for a separator is escaped.\<close>

theorem address_list_round_trip:
  assumes "\<forall>a \<in> set as. wf_address a"
  shows "parse_address_list (join_with CHR '';'' (map to_address_string as)) = Inr as"
  using assms by (rule address_list_printed)

lemma address_list_round_trip_witness:
  "parse_address_list (join_with CHR '';'' (map to_address_string
     [UnixPath ''/tmp/a;b,c=d%'', UnixAbstract ''x'', Tcp ''localhost'' 0])) =
   Inr [UnixPath ''/tmp/a;b,c=d%'', UnixAbstract ''x'', Tcp ''localhost'' 0]"
  by (rule address_list_round_trip) (simp, intro conjI; code_simp)

section \<open>Calls\<close>

text \<open>The sample: a client whose first call has gone out.\<close>

definition calling_client :: client where
  "calling_client = call_written (Inr ()) 0
     (start_call (Some '':1.2'') (ObjectPath ''/o'') (Some ''a.I'') ''Get'' [] (connection_new [] 1))"

definition sample_reply :: message where
  "sample_reply = build 7 (with_arg (VUInt32 5) (build_method_return 1))"

lemma calling_client_state:
  "length (cl_calls calling_client) = 1" "ca_phase (cl_calls calling_client ! 0) = Awaiting"
  "ca_slot (cl_calls calling_client ! 0) = Open" "ca_serial (cl_calls calling_client ! 0) = 1"
  "cl_reading calling_client" "cl_name calling_client = None" "cl_pending calling_client = [(1, 0)]"
  by (simp_all add: calling_client_def call_written_def start_call_def connection_new_def serial_next_eq
      forget_pending_def set_phase_def Let_def call_message_def build_def)

lemma sample_reply_state: "is_reply_to sample_reply 1" "call_result sample_reply = Inr [VUInt32 5]"
  "m_type sample_reply = MethodReturn" "m_reply_serial sample_reply = Some 1" "body sample_reply = [VUInt32 5]"
  by (simp_all add: sample_reply_def is_reply_to_def build_method_return_def builder_new_def push_field_def
      with_arg_def build_def header_reply_serial_def call_result_def)

lemma calling_client_reachable: "client_reachable calling_client"
proof -
  let ?c = "start_call (Some '':1.2'') (ObjectPath ''/o'') (Some ''a.I'') ''Get'' [] (connection_new [] 1)"
  have "client_reachable ?c"
    by (rule moves [OF opens calls])
  moreover have "0 < length (cl_calls ?c)" "ca_phase (cl_calls ?c ! 0) = Writing"
    by (simp_all add: start_call_def connection_new_def serial_next_eq forget_pending_def Let_def)
  ultimately show ?thesis
    unfolding calling_client_def by (rule moves [OF _ writes])
qed

text \<open>C10. In every state a connection can reach, a reply with a serial fills the channel of the one call
  that has this serial and still waits, and changes no other call; there is never more than one.\<close>

theorem reply_reaches_its_call:
  assumes "client_reachable c" "m_type m = MethodReturn \<or> m_type m = ErrorReply" "m_reply_serial m = Some s"
  shows "cl_calls (receive_message wr m c) =
      map (\<lambda>call. if ca_slot call = Open \<and> ca_serial call = s then call\<lparr>ca_slot := Filled m\<rparr> else call) (cl_calls c) \<and>
    length (filter (\<lambda>call. ca_slot call = Open \<and> ca_serial call = s) (cl_calls c)) \<le> 1"
proof -
  have ok: "calls_ok c" using calls_ok_reachable assms(1) by blast
  then have "linked (cl_calls c) (map_of (cl_pending c))" by (simp add: calls_ok_def)
  then show ?thesis
    using receive_reply [OF ok] assms(2,3) linked_unique
    by (intro conjI at_most_one) (auto simp: is_reply_to_def)
qed

lemma reply_reaches_its_call_witness:
  "\<exists>call. cl_calls (receive_message (\<lambda>_. Inr ()) sample_reply calling_client) = [call] \<and> ca_slot call = Filled sample_reply"
proof -
  obtain call where "cl_calls calling_client = [call]" "ca_slot call = Open" "ca_serial call = 1"
    using calling_client_state by (cases "cl_calls calling_client") auto
  then show ?thesis
    using reply_reaches_its_call [OF calling_client_reachable _ sample_reply_state(4), of "\<lambda>_. Inr ()"]
      sample_reply_state(3) by simp
qed

text \<open>C25. Whatever the order of replies, errors, lost writes and given-up calls: a call that returned values
  got them from a method return with its own serial that came in on this connection.\<close>

theorem results_come_from_replies:
  assumes "client_reachable c" "i < length (cl_calls c)" "ca_phase (cl_calls c ! i) = Returned (Inr vs)"
  shows "\<exists>m \<in> set (cl_raw c). m_type m = MethodReturn \<and> m_reply_serial m = Some (ca_serial (cl_calls c ! i)) \<and>
    body m = vs"
proof -
  have "call_ok (cl_raw c) (cl_calls c ! i)" using call_reachable assms(1,2) .
  then obtain m where "m \<in> set (cl_raw c)" "is_reply_to m (ca_serial (cl_calls c ! i))" "call_result m = Inr vs"
    using assms(3) by (auto simp: call_ok_def split: slot.splits)
  then show ?thesis
    by (intro bexI [of _ m]) (auto simp: is_reply_to_def call_result_def)
qed

lemma results_come_from_replies_witness:
  "\<exists>m \<in> set (cl_raw (call_resumes 0 (receive_message (\<lambda>_. Inr ()) sample_reply calling_client))). body m = [VUInt32 5]"
proof -
  let ?c1 = "receive_message (\<lambda>_. Inr ()) sample_reply calling_client"
  let ?c2 = "call_resumes 0 ?c1"
  obtain call where call: "cl_calls calling_client = [call]"
    using calling_client_state by (cases "cl_calls calling_client") auto
  have one: "cl_calls ?c1 = [call\<lparr>ca_slot := Filled sample_reply\<rparr>]"
    using receive_reply [OF calls_ok_reachable [OF calling_client_reachable] sample_reply_state(1)]
      calling_client_state call by simp
  have r1: "client_reachable ?c1"
    using moves [OF calling_client_reachable receives] calling_client_state(5) by blast
  then have "client_reachable ?c2"
    by (rule moves [OF _ resumes]) (use one calling_client_state call in simp_all)
  moreover have "ca_phase (cl_calls ?c2 ! 0) = Returned (Inr [VUInt32 5])" "0 < length (cl_calls ?c2)"
    using one sample_reply_state(2) by (simp_all add: call_resumes_def)
  ultimately show ?thesis
    using results_come_from_replies [of ?c2 0] by blast
qed

text \<open>When the reader ends, the channels of the calls that still wait are closed, so every one of them
  returns with an error, and the replies that have come in are kept.\<close>

theorem calls_end_with_the_reader:
  assumes "client_reachable c"
  shows "cl_calls (reader_ends c) =
    map (\<lambda>call. if ca_slot call = Open then call\<lparr>ca_slot := Dropped\<rparr> else call) (cl_calls c)"
  using reader_ends_calls calls_ok_reachable assms by blast

lemma calls_end_with_the_reader_witness:
  "list_all (\<lambda>call. ca_slot call = Dropped) (cl_calls (reader_ends calling_client))"
proof -
  obtain call where "cl_calls calling_client = [call]" "ca_slot call = Open"
    using calling_client_state by (cases "cl_calls calling_client") auto
  then show ?thesis
    using calls_end_with_the_reader [OF calling_client_reachable] by simp
qed

text \<open>A call that starts after the reader has ended waits for good: in no later state has it returned,
  unless its own write failed or another call was given the same serial.\<close>

theorem late_calls_never_return:
  assumes "client_reachable c" "\<not> cl_reading c" "i = length (cl_calls c)"
    and "client_step\<^sup>*\<^sup>* (start_call dest path interface member args c) c'"
    and "ca_phase (cl_calls c' ! i) = Returned r"
  shows "(\<exists>e. r = Inl (Io e)) \<or>
    (\<exists>j < length (cl_calls c'). j \<noteq> i \<and> ca_serial (cl_calls c' ! j) = ca_serial (cl_calls c' ! i))"
proof -
  have ok: "calls_ok c" using calls_ok_reachable assms(1) by blast
  have later: "calls_ok c' \<and> stranded i c'"
    using stranded_runs [OF assms(4) calls_ok_start [OF ok]] start_stranded [OF ok assms(2)] assms(3) by blast
  then have "call_ok (cl_raw c') (cl_calls c' ! i)"
    using list_all_nth by (auto simp: calls_ok_def stranded_def)
  with later assms(5) show ?thesis
    by (auto simp: stranded_def call_ok_def)
qed

definition late_client :: client where
  "late_client = call_written (Inl (SocketError [])) 1
     (start_call None (ObjectPath ''/'') None ''M'' [] (reader_ends calling_client))"

lemma late_calls_never_return_witness:
  "(\<exists>e. (Inl (Io (SocketError [])) :: client_error + dvalue list) = Inl (Io e)) \<or>
   (\<exists>j < length (cl_calls late_client). j \<noteq> 1 \<and> ca_serial (cl_calls late_client ! j) = ca_serial (cl_calls late_client ! 1))"
proof (rule late_calls_never_return)
  let ?c = "reader_ends calling_client"
  let ?s = "start_call None (ObjectPath ''/'') None ''M'' [] ?c"
  show "client_reachable ?c"
    using moves [OF calling_client_reachable ends] calling_client_state(5) by blast
  show "\<not> cl_reading ?c" by (simp add: reader_ends_def)
  show l: "1 = length (cl_calls ?c)"
    using calling_client_state by (simp add: reader_ends_calls calls_ok_reachable calling_client_reachable)
  have s: "length (cl_calls ?s) = 2" "ca_phase (cl_calls ?s ! 1) = Writing"
    using l by (simp_all add: start_call_def Let_def nth_append split: prod.split)
  then have "client_step ?s late_client"
    unfolding late_client_def by (intro writes) simp_all
  then show "client_step\<^sup>*\<^sup>* ?s late_client" by blast
  show "ca_phase (cl_calls late_client ! 1) = Returned (Inl (Io (SocketError [])))"
    using s(1) by (simp add: late_client_def call_written_def Let_def)
qed

section \<open>Descriptors\<close>

text \<open>The descriptors of the arguments go out in the order in which they occur, each replaced by its
  place in that order; with the list at hand the indexes give the arguments back, and the types
  are the same.\<close>

theorem extracted_fds_resolve:
  assumes "extract_fds vs = (vs', out)" "length out \<le> 2 ^ 32"
  shows "out = map sint (concat (map fds_in vs)) \<and>
    concat (map fds_in vs') = map word_of_nat [0..<length out] \<and>
    map value_type vs' = map value_type vs \<and> map (resolve_fds out) vs' = vs"
  using fd_walk_moves(2) [of vs "[]" vs' out] fd_walk_resolves(2) [of vs "[]" vs' out "[]"] assms
  by (simp add: extract_fds_def moved_def)

lemma extracted_fds_resolve_witness:
  "map (resolve_fds [9, 4]) [VVariant (VUnixFd 0), VArray TUnixFd [VUnixFd 1], VString ''x''] =
     [VVariant (VUnixFd 9), VArray TUnixFd [VUnixFd 4], VString ''x'']"
  using extracted_fds_resolve [of "[VVariant (VUnixFd 9), VArray TUnixFd [VUnixFd 4], VString ''x'']"
      "[VVariant (VUnixFd 0), VArray TUnixFd [VUnixFd 1], VString ''x'']" "[9, 4]"]
  by (simp add: extract_fds_def)

section \<open>Exported objects\<close>

text \<open>The table of exported objects is a map from paths and interface names to interfaces: registering
  and unregistering set one entry, a path exists as long as it has an interface, every interface
  is found under its own name, and a call that names an interface reaches that entry.\<close>

theorem object_table_is_map:
  assumes "wf_objects objects"
  shows "wf_objects (register_object p i objects) \<and> wf_objects (unregister_object path n objects) \<and>
    object_view (register_object p i objects) = (object_view objects)((path_str p, if_name i) \<mapsto> i) \<and>
    object_view (unregister_object path n objects) = (object_view objects)((path, n) := None) \<and>
    has_path objects path = (\<exists>m. object_view objects (path, m) \<noteq> None) \<and>
    object_dispatch objects path (Some n) member args =
      (if has_path objects path
       then case object_view objects (path, n) of
              Some target \<Rightarrow> if_call target member args
            | None \<Rightarrow> Inl (unknown_interface n)
       else Inl (unknown_object path))"
  using has_path_view [OF assms, of path] dispatch_named dispatch_unknown
  by (simp add: wf_register [OF assms] wf_unregister [OF assms] register_view unregister_view)

definition sample_interface :: exported where
  "sample_interface = \<lparr>if_name = ''a.I'', introspection_xml = [], if_call = (\<lambda>member args. Inr args),
     list_properties = []\<rparr>"

lemma object_table_is_map_witness:
  "object_view (register_object (ObjectPath ''/o'') sample_interface object_server_new) = [(''/o'', ''a.I'') \<mapsto> sample_interface]"
  using object_table_is_map [OF wf_objects_new, of "ObjectPath ''/o''" sample_interface]
  by (simp add: sample_interface_def object_view_def object_server_new_def get_interface_def fun_eq_iff)

text \<open>The children that introspection lists below a path are the next segments of the paths in the
  table, each of them once.\<close>

theorem introspection_children:
  "distinct (push_children path [] (map fst objects)) \<and>
   set (push_children path [] (map fst objects)) =
     {c. c \<noteq> [] \<and> CHR ''/'' \<notin> set c \<and>
         (\<exists>rest. has_path objects ((if path = ''/'' then ''/'' else path @ ''/'') @ c @ rest) \<and>
            (rest = [] \<or> hd rest = CHR ''/''))}"
proof -
  have path: "has_path objects p \<longleftrightarrow> p \<in> set (map fst objects)" for p
    by (simp add: has_path_def map_of_eq_None_iff del: not_None_eq)
  have "distinct (push_children path [] (map fst objects))"
    by (intro push_children_distinct) simp
  then show ?thesis
    unfolding path push_children_set child_of_Some by (simp only: some_member list.set Un_empty_left)
qed

text \<open>A call for this client's own name, or for none, to a path and a member is answered with one
  message, unless it wants no answer: to its sender, with its serial, and read by the caller as what
  the object returned, or as an error with its name and text.\<close>

theorem exported_calls_are_answered:
  assumes "m_type msg = MethodCall" "m_destination msg = None \<or> m_destination msg = cl_name c"
    and "m_path msg = Some path" "m_member msg = Some member" "\<not> message_no_reply_expected msg"
    and "\<And>m. wr m = Inr ()"
  shows "\<exists>reply. cl_written (receive_message wr msg c) = cl_written c @ [reply] \<and>
    m_destination reply = m_sender msg \<and> m_reply_serial reply = Some (m_serial msg) \<and>
    call_result reply =
      (case object_dispatch (cl_objects c) (path_str path) (m_interface msg) member (body msg) of
         Inr vs \<Rightarrow> Inr (fst (extract_fds vs))
       | Inl e \<Rightarrow> Inl (CallError (me_name e) (me_message e)))"
proof -
  have "is_for_us msg c"
    using assms(2) by (auto simp: is_for_us_def split: option.split)
  then show ?thesis
    using answer_call_written [of msg c path member wr] assms exported_reply_fields by (simp add: Let_def)
qed

end
