(* ===== verification/Encodable.thy ===== *)
theory Encodable
  imports Message
begin

text \<open>
  Messages that have an encoding: their strings have no NUL, and the header is not too long.
\<close>

definition plain :: "string \<Rightarrow> bool" where
  "plain s \<longleftrightarrow> CHR 0x00 \<notin> set s"

lemma plain_simps [simp]: "plain []" "plain (s @ t) \<longleftrightarrow> plain s \<and> plain t"
  by (auto simp: plain_def)

lemma plain_bytes: "plain s \<longleftrightarrow> 0 \<notin> set (as_bytes s)"
proof -
  have "byte_of (CHR 0x00) = 0"
    by (simp add: byte_of_def)
  then have "0 \<in> set (as_bytes s) \<longleftrightarrow> byte_of (CHR 0x00) \<in> byte_of ` set s"
    by (simp add: as_bytes_def)
  also have "\<dots> \<longleftrightarrow> CHR 0x00 \<in> set s"
    by (simp add: image_iff)
  finally show ?thesis
    by (simp add: plain_def)
qed

lemma padding_less: "0 < a \<Longrightarrow> padding a n < a"
  by (simp add: padding_def)

lemma enc_string_plain:
  "plain s \<Longrightarrow> \<exists>bs. enc_string be n s = Inr bs \<and> length bs \<le> length s + 8"
  using padding_less [of 4 n] by (auto simp: enc_string_def plain_bytes)

fun field_text :: "header_field \<Rightarrow> string" where
  "field_text (HPath p) = path_str p"
| "field_text (HInterface s) = s"
| "field_text (HMember s) = s"
| "field_text (HErrorName s) = s"
| "field_text (HReplySerial _) = []"
| "field_text (HDestination s) = s"
| "field_text (HSender s) = s"
| "field_text (HSignature s) = sig_str s"
| "field_text (HUnixFds _) = []"

definition plain_field :: "header_field \<Rightarrow> bool" where
  "plain_field f \<longleftrightarrow> plain (field_text f) \<and> length (field_text f) \<le> 255"

lemma enc_field_plain:
  assumes "plain_field f"
  shows "\<exists>bs. enc be n (field_struct f) = Inr bs \<and> length bs \<le> 512"
proof -
  have val: "\<exists>bs. enc be m (field_to_value f) = Inr bs \<and> length bs \<le> 300" for m
  proof -
    have "\<exists>bs. enc_string be m (field_text f) = Inr bs \<and> length bs \<le> 300"
      using enc_string_plain [of "field_text f" be m] assms by (auto simp: plain_field_def)
    moreover have "length (enc_word be m (v :: u32)) \<le> 300" for v
      using padding_less [of 4 m] by simp
    ultimately show ?thesis
      using assms by (cases f) (auto simp: plain_field_def enc_signature_def MAX_SIGNATURE_LEN_def)
  qed
  have "\<exists>bs. enc_signature (to_signature_string (value_type (field_to_value f))) = Inr bs \<and> length bs = 3"
    by (cases f) (auto simp: enc_signature_def MAX_SIGNATURE_LEN_def to_signature_string_eq)
  then obtain sg where sg: "enc_signature (to_signature_string (value_type (field_to_value f))) = Inr sg" "length sg = 3"
    by blast
  obtain bs where "enc be (n + padding 8 n + 1 + length sg) (field_to_value f) = Inr bs" "length bs \<le> 300"
    using val by blast
  then show ?thesis
    using sg padding_less [of 8 n] by (simp add: field_struct_def)
qed

lemma enc_fields_plain:
  assumes "\<forall>f \<in> set fs. plain_field f"
  shows "\<exists>bs. enc_seq be n (map field_struct fs) = Inr bs \<and> length bs \<le> 512 * length fs"
  using assms
proof (induction fs arbitrary: n)
  case (Cons f fs)
  obtain bs where bs: "enc be n (field_struct f) = Inr bs" "length bs \<le> 512"
    using enc_field_plain Cons.prems by fastforce
  obtain cs where "enc_seq be (n + length bs) (map field_struct fs) = Inr cs" "length cs \<le> 512 * length fs"
    using Cons by fastforce
  then show ?case
    using bs by simp
qed simp

lemma header_write_plain:
  assumes "\<forall>f \<in> set (h_fields h). plain_field f" "length (h_fields h) \<le> 1000"
  shows "\<exists>w. header_write h m = Inr w"
proof -
  let ?v = "VArray field_type (map field_struct (h_fields h))"
  have "\<exists>es. enc be n ?v = Inr es" for be n
  proof -
    obtain bs where "enc_seq be (array_start field_type n) (map field_struct (h_fields h)) = Inr bs"
      "length bs \<le> 512 * length (h_fields h)"
      using enc_fields_plain [OF assms(1)] by blast
    then show ?thesis
      using assms(2) by (simp add: enc_array_def MAX_ARRAY_LEN_def)
  qed
  then have "\<exists>w. write_value ?v m = Inr w" for m
    unfolding write_value_enc by (metis and_then_Inr)
  then have "\<exists>w. and_then (write_value ?v m) (\<lambda>m. Inr (m_align 8 m)) = Inr w" for m
    by (metis and_then_Inr)
  then show ?thesis
    unfolding header_write_def Let_def by blast
qed

text \<open>A message whose body is a list of plain strings, and whose header is plain and complete.\<close>

lemma enc_strings_plain:
  "\<forall>s \<in> set ss. plain s \<Longrightarrow> \<exists>bs. enc_seq be n (map VString ss) = Inr bs"
proof (induction ss arbitrary: n)
  case (Cons s ss)
  obtain bs where "enc_string be n s = Inr bs"
    using enc_string_plain Cons.prems by fastforce
  moreover obtain cs where "enc_seq be (n + length bs) (map VString ss) = Inr cs"
    using Cons by fastforce
  ultimately show ?case by simp
qed simp

lemma to_bytes_plain:
  assumes body: "body m = map VString ss" "\<forall>s \<in> set ss. plain s" "length ss \<le> 255"
    and fields: "\<forall>f \<in> set (h_fields (header m)). plain_field f" "length (h_fields (header m)) \<le> 900"
    and valid: "header_validate (header m) = Inr ()" "fds m = []"
  shows "\<exists>bs. to_bytes m = Inr bs"
proof -
  let ?be = "h_big_endian (header m)"
  define sig where "sig = concat (map (\<lambda>v. to_signature_string (value_type v)) (body m))"
  have sig: "sig = replicate (length ss) CHR ''s''"
    unfolding sig_def body(1) by (induction ss) (simp_all add: to_signature_string_eq)
  obtain bs where bs: "enc_seq (big_endian (marshaler_new ?be)) (length (buf (marshaler_new ?be))) (map VString ss) = Inr bs"
    using enc_strings_plain [OF body(2)] by blast
  then obtain bb where mb: "marshal_body (body m) ?be = Inr (bb, sig)"
    using body(1) by (auto simp: marshal_body_def write_value_enc sig_def)
  have "parse_signature sig = Inr (replicate (length ss) TString)"
    using body(3) by (auto simp: parse_signature_eq sig wf_signature_def to_signature_string_eq
        concat_replicate_trivial map_replicate_const)
  then obtain s where s: "(if sig \<noteq> [] then and_then (signature_new sig) (\<lambda>s. Inr (Some s)) else Inr None) = Inr s"
    "\<And>g. s = Some g \<Longrightarrow> g = Signature sig"
    by (cases "sig = []") (auto simp: result_simps signature_new_eq)
  have "plain_field (HSignature (Signature sig))"
    using body(3) by (auto simp: plain_field_def plain_def sig)
  then have "\<forall>f \<in> set (h_fields (sent_header m bb s)). plain_field f"
    "length (h_fields (sent_header m bb s)) \<le> 1000"
    using fields s(2) valid(2) by (auto simp: sent_header_def split: option.splits
        intro: le_trans [OF length_filter_le])
  then obtain w where "header_write (sent_header m bb s) (marshaler_new (h_big_endian (sent_header m bb s))) = Inr w"
    using header_write_plain by blast
  moreover have "header_validate (sent_header m bb s) = Inr ()"
    using valid(1) unfolding header_validate_def by (auto split: message_type.splits if_splits)
  ultimately show ?thesis
    using mb s(1) by (auto simp: to_bytes_def Let_def)
qed

end
