(* ===== verification/Announcements.thy ===== *)
theory Announcements
  imports Mediation Encodable
begin

text \<open>
  The contract of \<open>NameOwnerChanged\<close>: a client that listens to the bus's signals can replay
  them and then knows the owner of every well-known name.  The registry's part is the
  interface \<open>announcer\<close>; here it is carried through the driver and the dispatcher to the
  messages that are written to the client.
\<close>

section \<open>What a client hears\<close>

definition change_message :: "u32 \<Rightarrow> name_owner_change \<Rightarrow> message" where
  "change_message s change =
     build s (bus_signal NAME_OWNER_CHANGED
       [VString (noc_name change), VString (or_empty (noc_old_owner change)),
        VString (or_empty (noc_new_owner change))])"

definition owner_of_text :: "string \<Rightarrow> string option" where
  "owner_of_text s = (if s = [] then None else Some s)"

text \<open>What a client reads off a message, after checking that the bus has sent it.\<close>

definition change_of :: "message \<Rightarrow> name_owner_change option" where
  "change_of x =
     (if m_sender x = Some BUS_NAME \<and> m_type x = Signal \<and> m_member x = Some NAME_OWNER_CHANGED then
        (case body x of
           [VString n, VString old, VString new] \<Rightarrow>
             Some \<lparr>noc_name = n, noc_old_owner = owner_of_text old, noc_new_owner = owner_of_text new\<rparr>
         | _ \<Rightarrow> None)
      else None)"

definition heard :: "string \<Rightarrow> (string \<times> message) list \<Rightarrow> name_owner_change list" where
  "heard w out = List.map_filter (\<lambda>(d, x). if d = w then change_of x else None) out"

lemma heard_simps [simp]: "heard w [] = []" "heard w (xs @ ys) = heard w xs @ heard w ys"
  by (simp_all add: heard_def map_filter_def)

lemma heard_Cons: "heard w ((d, x) # xs) =
    (if d = w then (case change_of x of Some c \<Rightarrow> [c] | None \<Rightarrow> []) else []) @ heard w xs"
  by (simp add: heard_def map_filter_def split: option.split)

text \<open>Changes that a signal can carry: its strings have no NUL, and an owner's name is not empty.\<close>

definition nice :: "string \<Rightarrow> bool" where
  "nice u \<longleftrightarrow> u \<noteq> [] \<and> plain u"

definition clean :: "name_owner_change \<Rightarrow> bool" where
  "clean ev \<longleftrightarrow>
     plain (noc_name ev) \<and>
     (\<forall>u. noc_old_owner ev = Some u \<or> noc_new_owner ev = Some u \<longrightarrow> nice u)"

lemma owner_of_text_inverse: "x \<noteq> Some [] \<Longrightarrow> owner_of_text (or_empty x) = x"
  by (cases x) (auto simp: owner_of_text_def or_empty_def)

lemma change_of_message: "clean ev \<Longrightarrow> change_of (change_message s ev) = Some ev"
proof -
  assume "clean ev"
  then have "owner_of_text (or_empty (noc_old_owner ev)) = noc_old_owner ev"
    "owner_of_text (or_empty (noc_new_owner ev)) = noc_new_owner ev"
    by (auto simp: clean_def nice_def intro!: owner_of_text_inverse)
  then show ?thesis
    using bus_message_sender [OF bus_signal_message(1)]
    by (simp add: change_of_def change_message_def bus_signal_def builder_defs header_sender_def
        header_accessor_defs)
qed

lemma change_of_reply: "m_type x \<noteq> Signal \<Longrightarrow> change_of x = None"
  by (simp add: change_of_def)

lemma change_of_foreign: "m_sender x \<noteq> Some BUS_NAME \<Longrightarrow> change_of x = None"
  by (simp add: change_of_def)

text \<open>A connection that listens: a rule for the bus's change signals, and its socket takes them.\<close>

definition hears_changes :: "connection_entry \<Rightarrow> bool" where
  "hears_changes c \<longleftrightarrow> \<not> is_monitor c \<and>
     (\<exists>r \<in> set (match_rules c). \<forall>s ev look. rule_matches r (change_message s ev) look)"

definition listening :: "string \<Rightarrow> bus \<Rightarrow> bool" where
  "listening w b \<longleftrightarrow> (\<exists>c. get_connection (bu_registry b) w = Some c \<and> hears_changes c)"

definition takes_changes :: "bus_io \<Rightarrow> string \<Rightarrow> bool" where
  "takes_changes io w \<longleftrightarrow> (\<forall>bs. write_io io w bs)"

text \<open>Every clean change has an encoding.\<close>

lemma change_writable:
  assumes "clean ev" "takes_changes io w"
  shows "writable io w (change_message s ev)"
proof -
  let ?m = "change_message s ev"
  let ?ss = "[noc_name ev, or_empty (noc_old_owner ev), or_empty (noc_new_owner ev)]"
  have body: "body ?m = map VString ?ss" "fds ?m = []"
    by (simp_all add: change_message_def bus_signal_def builder_defs)
  have plain: "\<forall>s \<in> set ?ss. plain s"
    using assms(1) by (auto simp: clean_def nice_def or_empty_def split: option.split)
  have "path_str bus_path = BUS_PATH"
    by code_simp
  then have fields: "\<forall>f \<in> set (h_fields (header ?m)). plain_field f" "length (h_fields (header ?m)) \<le> 900"
    by (simp_all add: change_message_def bus_signal_def builder_defs plain_field_def plain_def
        BUS_PATH_def BUS_INTERFACE_def BUS_NAME_def NAME_OWNER_CHANGED_def)
  have "header_validate (header ?m) = Inr ()"
    by (simp add: change_message_def bus_signal_def builder_defs header_validate_def header_accessor_defs)
  then obtain bs where "to_bytes ?m = Inr bs"
    using to_bytes_plain [OF body(1) plain _ fields] body(2) by auto
  then show ?thesis
    using assms(2) by (simp add: writable_def takes_changes_def)
qed

section \<open>One change\<close>

lemma filter_key:
  assumes "distinct (map fst xs)" "\<forall>x \<in> set xs. unique_name (snd x) = fst x"
  shows "filter (\<lambda>c. unique_name c = w) (map snd xs) = (case map_of xs w of Some c \<Rightarrow> [c] | None \<Rightarrow> [])"
  using assms
proof (induction xs)
  case (Cons x xs)
  have "map_of xs (fst x) = None"
    using Cons.prems(1) by (simp add: map_of_eq_None_iff)
  then show ?case
    using Cons by (cases x) (auto split: option.split)
qed simp

lemma connection_named_once:
  assumes "wf_registry r" "get_connection r w = Some c"
  shows "filter (\<lambda>c. unique_name c = w) (all_connections r) = [c]" "unique_name c = w"
proof -
  have d: "distinct (map fst (connections r))"
    and named: "\<And>n e. map_of (connections r) n = Some e \<Longrightarrow> unique_name e = n"
    using assms(1) by (auto simp: wf_registry_def wf_tables_def)
  have "\<forall>x \<in> set (connections r). unique_name (snd x) = fst x"
    using named d by (metis map_of_eq_Some_iff prod.collapse)
  with d show "filter (\<lambda>c. unique_name c = w) (all_connections r) = [c]"
    using filter_key [of "connections r" w] assms(2) by (simp add: all_connections_def get_connection_def)
  show "unique_name c = w"
    using named assms(2) by (simp add: get_connection_def)
qed

lemma heard_broadcast:
  assumes "wf_registry (bu_registry b)" "listening w b" "takes_changes io w" "clean ev"
  shows "heard w (map (\<lambda>c. (unique_name c, change_message s ev)) (recipients io (change_message s ev) False b)) = [ev]"
proof -
  let ?m = "change_message s ev"
  obtain c where c: "get_connection (bu_registry b) w = Some c" "hears_changes c"
    using assms(2) by (auto simp: listening_def)
  note once = connection_named_once [OF assms(1) c(1)]
  have "wants b ?m c"
    using c(2) by (auto simp: wants_def hears_changes_def list_ex_iff)
  moreover have "writable io w ?m"
    using assms(3,4) by (simp add: change_writable)
  moreover have "filter (\<lambda>c. unique_name c = w) (filter Q cs) = filter Q (filter (\<lambda>c. unique_name c = w) cs)"
    for Q and cs :: "connection_entry list"
    by (simp add: conj_commute)
  ultimately have rec: "filter (\<lambda>c. unique_name c = w) (recipients io ?m False b) = [c]"
    using once unfolding recipients_def by (simp del: filter_filter)
  have "heard w (map (\<lambda>c. (unique_name c, ?m)) cs) = map (\<lambda>_. ev) (filter (\<lambda>c. unique_name c = w) cs)" for cs
    using change_of_message [OF assms(4)] by (induction cs) (simp_all add: heard_Cons)
  from this [of "recipients io ?m False b"] show ?thesis
    unfolding rec by simp
qed

lemma listening_quiet: "quiet b b' \<Longrightarrow> listening w b' = listening w b"
  by (simp add: listening_def quietD)

lemma heard_appended:
  assumes "outbox b' = outbox b @ new" "\<forall>(d, x) \<in> set new. change_of x = None"
  shows "heard w (outbox b') = heard w (outbox b)"
proof -
  have "heard w new = []"
    using assms(2) by (induction new) (auto simp: heard_Cons split: prod.splits)
  then show ?thesis
    using assms(1) by simp
qed

text \<open>\<open>NameAcquired\<close> and \<open>NameLost\<close> are not changes of an owner.\<close>

lemma heard_unicast:
  assumes "m \<noteq> NAME_OWNER_CHANGED"
  shows "heard w (outbox (send_unicast_driver_signal io dest m n b)) = heard w (outbox b)"
proof -
  obtain s b' where b': "driver_serial b = (s, b')" "quiet b b'" "outbox b' = outbox b"
    by (rule driver_serial_cases)
  let ?x = "build s (with_args [VString n] (with_destination dest (with_sender BUS_NAME
      (build_signal bus_path BUS_INTERFACE m))))"
  have "m_member ?x = Some m"
    by (simp add: builder_defs header_accessor_defs)
  then have x: "change_of ?x = None"
    using assms by (simp add: change_of_def)
  show ?thesis
    using b' x by (auto simp: send_unicast_driver_signal_def outbox_write heard_Cons split: option.split)
qed

lemma heard_announce:
  assumes "wf_registry (bu_registry b)" "listening w b" "takes_changes io w" "clean ev"
  shows "heard w (outbox (announce io ev b)) = heard w (outbox b) @ [ev]"
proof -
  obtain s b1 where b1: "driver_serial b = (s, b1)" "quiet b b1" "outbox b1 = outbox b"
    by (rule driver_serial_cases)
  define b2 where "b2 = broadcast_signal io (change_message s ev) False b1"
  define b3 where "b3 = (case noc_new_owner ev of
      Some u \<Rightarrow> send_unicast_driver_signal io u NAME_ACQUIRED (noc_name ev) b2 | None \<Rightarrow> b2)"
  have eq: "announce io ev b = (case noc_old_owner ev of
      Some u \<Rightarrow> send_unicast_driver_signal io u NAME_LOST (noc_name ev) b3 | None \<Rightarrow> b3)"
    unfolding announce_def b3_def b2_def change_message_def
    by (simp add: b1(1) Let_def split: option.split)
  have "wf_registry (bu_registry b1)" "listening w b1"
    using b1(2) assms(1,2) by (simp_all add: quietD listening_quiet)
  then have "heard w (outbox b2) = heard w (outbox b) @ [ev]"
    using heard_broadcast [of b1 w io ev s] assms(3,4) b1(3) by (simp add: b2_def broadcast_outbox)
  moreover have "heard w (outbox b3) = heard w (outbox b2)"
    by (simp add: b3_def heard_unicast interface_names split: option.split)
  moreover have "heard w (outbox (announce io ev b)) = heard w (outbox b3)"
    by (simp add: eq heard_unicast interface_names split: option.split)
  ultimately show ?thesis by simp
qed

lemma heard_announcements:
  assumes "wf_registry (bu_registry b)" "listening w b" "takes_changes io w" "\<forall>ev \<in> set evs. clean ev"
  shows "heard w (outbox (broadcast_name_owner_changes io evs b)) = heard w (outbox b) @ evs"
  using assms unfolding broadcast_name_owner_changes_def
proof (induction evs arbitrary: b)
  case (Cons ev evs)
  have q: "quiet b (announce io ev b)"
    by (rule announce_notice)
  have "heard w (outbox (fold (announce io) evs (announce io ev b))) =
      heard w (outbox (announce io ev b)) @ evs"
    using Cons.prems q by (intro Cons.IH) (simp_all add: quietD listening_quiet)
  then show ?case
    using heard_announce [of b w io ev] Cons.prems by simp
qed simp

text \<open>The end of a driver call: exactly the changes of its outcome are heard.\<close>

lemma heard_finish:
  assumes "name_owner_changes out \<noteq> [] \<Longrightarrow> wf_registry (bu_registry b) \<and> listening w b"
    and "takes_changes io w" "\<forall>ev \<in> set (name_owner_changes out). clean ev"
  shows "heard w (outbox (finish_driver_reply io sender msg out b)) =
    heard w (outbox b) @ name_owner_changes out"
proof -
  obtain x where x: "answers msg x"
    "outbox (finish_driver_reply io sender msg out b) = outbox (announced io out b) @
       (if \<not> message_no_reply_expected msg \<and> writable io (unique_name sender) x
        then [(unique_name sender, x)] else [])"
    by (rule finish_outbox)
  have "change_of x = None"
    using x(1) by (intro change_of_reply) (auto simp: answers_def)
  then have "heard w (outbox (finish_driver_reply io sender msg out b)) = heard w (outbox (announced io out b))"
    unfolding x(2) by (simp add: heard_Cons)
  also have "\<dots> = heard w (outbox b) @ name_owner_changes out"
    using heard_announcements [of b w io "name_owner_changes out"] assms by (simp add: announced_def)
  finally show ?thesis .
qed

section \<open>The driver's outcomes\<close>

text \<open>A handler has waited only if it has started a process.\<close>

lemma not_waited:
  assumes "activate_and_wait io n b = (r, b')" "started b' = started b"
  shows "b' = b"
proof (cases "spawn (processes io) (bu_activation b) n (bu_env b)
    (if bu_kind b = System \<and> helper_exists io
     then ViaLaunchHelper (launch_helper_path (cfg_paths (bu_config b))) else Direct)")
  case (Inl e)
  then show ?thesis
    using assms(1) by (simp add: activate_and_wait_def)
next
  case (Inr cmd)
  then have "b' = snd (wait_for n (polls io) (map_stats record_activation (b\<lparr>started := started b @ [cmd]\<rparr>)))"
    using assms(1) by (simp add: activate_and_wait_def)
  then have "started b' = started b @ [cmd]"
    by (simp add: map_stats_def)
  with assms(2) show ?thesis by simp
qed

definition sound_outcome :: "bus \<Rightarrow> driver_outcome \<Rightarrow> bus \<Rightarrow> bool" where
  "sound_outcome b out b' \<longleftrightarrow>
     (\<forall>n. \<not> prefix '':'' n \<longrightarrow>
        owners (bu_registry b') n = fold apply_change (name_owner_changes out) (owners (bu_registry b)) n) \<and>
     (\<forall>ev \<in> set (name_owner_changes out). clean ev) \<and>
     (name_owner_changes out \<noteq> [] \<longrightarrow>
        wf_registry (bu_registry b') \<and> (\<forall>w. listening w b' = listening w b))"

lemma sound_silent:
  "owners (bu_registry b') = owners (bu_registry b) \<Longrightarrow> name_owner_changes out = [] \<Longrightarrow>
     sound_outcome b out b'"
  by (simp add: sound_outcome_def)

lemma err_outcome_silent [simp]: "name_owner_changes (err_outcome e) = []"
  by (simp add: err_outcome_def)

lemma ok_outcome_changes [simp]: "name_owner_changes (ok_outcome vs evs) = evs"
  by (simp add: ok_outcome_def)

text \<open>Names of connections are not empty.\<close>

lemma connection_key:
  "wf_registry r \<Longrightarrow> get_connection r n = Some c \<Longrightarrow> unique_name c = n \<and> prefix '':'' n"
  by (simp add: wf_registry_def wf_tables_def get_connection_def)

text \<open>The names of the tables can be written in a signal.\<close>

definition nice_tables :: "registry \<Rightarrow> bool" where
  "nice_tables r \<longleftrightarrow> (\<forall>u \<in> queued r. nice u) \<and> (\<forall>n \<in> dom (map_of (names r)). plain n)"

lemma named_connection_nice:
  assumes "well_named r" "get_connection r u \<noteq> None"
  shows "nice u"
proof -
  have "u \<in> set (map fst (connections r))"
    using assms(2) connected_key by blast
  then show ?thesis
    using assms(1) unique_name_no_nul unfolding well_named_def nice_def plain_def by auto
qed

lemma named_nice_tables:
  assumes "wf_registry r" "well_named r"
  shows "nice_tables r"
proof -
  have "\<forall>u \<in> queued r. nice u"
    using assms named_connection_nice unfolding wf_registry_def connected_key by blast
  moreover have "plain n" if "n \<in> dom (map_of (names r))" for n
    using that assms(2) valid_name_no_nul unfolding dom_map_of_conv_image_fst well_named_def plain_def
    by auto
  ultimately show ?thesis
    by (simp add: nice_tables_def)
qed

lemma first_owner_in: "first_owner q = Some u \<Longrightarrow> u \<in> q_unique_name ` set q"
  by (auto simp: first_owner_def split: list.splits)

lemma first_owner_queued: "first_owner (queue_of r n) = Some u \<Longrightarrow> u \<in> queued r"
  using queue_queued [of _ r n] by (auto simp: first_owner_def split: list.splits)

lemma request_name_clean:
  assumes "wf_registry r" "nice_tables r" "nice u" "plain n"
    and "request_name u n flags r = ((code, evs), r')"
  shows "\<forall>ev \<in> set evs. clean ev"
  using wf_registryD [OF assms(1)] assms(5)
proof (cases rule: request_name_cases)
  case (replace e q)
  then have "q_unique_name e \<in> queued r"
    using first_owner_queued [of r n] by simp
  then have "nice (q_unique_name e)"
    using assms(2) by (simp add: nice_tables_def)
  then show ?thesis
    using replace assms(3,4) by (auto simp: clean_def)
qed (use assms(3,4) in \<open>auto simp: clean_def\<close>)

lemma release_internal_clean:
  assumes "nice_tables r" "nice u" "release_name_internal u n r = (ev, r')"
  shows "\<forall>e \<in> set (ev_list ev). clean e"
proof -
  have next_owner: "nice v" if q: "map_of (names r) n = Some q" and v: "first_owner (without u q) = Some v" for q v
  proof -
    obtain e where "e \<in> set q" "q_unique_name e = v"
      using first_owner_in [OF v] by (auto simp: without_def)
    then show ?thesis
      using q assms(1) queue_queued [of e r n] by (auto simp: queue_of_def nice_tables_def)
  qed
  have name: "plain n" if "map_of (names r) n = Some q" for q
    using that assms(1) by (auto simp: nice_tables_def)
  show ?thesis
    using assms(2,3) next_owner name
    by (auto simp: release_name_internal_def ev_list_def clean_def Let_def split: option.splits if_splits)
qed

lemma release_name_clean:
  assumes "nice_tables r" "nice u" "release_name u n r = ((code, evs), r')"
  shows "\<forall>ev \<in> set evs. clean ev"
  using assms release_internal_clean [OF assms(1,2), of n]
  by (auto simp: release_name_def ev_list_def split: option.splits if_splits prod.splits)

lemma release_all_clean:
  assumes "wf_tables r" "nice_tables r" "nice u" "release_all u ns r = (evs, r')"
  shows "\<forall>ev \<in> set evs. clean ev"
  using assms
proof (induction ns arbitrary: r evs)
  case (Cons n ns)
  obtain ev r1 where one: "release_name_internal u n r = (ev, r1)"
    by (cases "release_name_internal u n r")
  obtain evs' where rest: "release_all u ns r1 = (evs', r')" and evs: "evs = ev_list ev @ evs'"
    using Cons.prems(4) one by (auto simp: ev_list_def split: prod.splits option.splits)
  have r1: "wf_tables r1" "queued r1 \<subseteq> queued r"
    using release_internal_step [OF Cons.prems(1) one] by (auto simp: queued_def without_def split: if_splits)
  moreover have "dom (map_of (names r1)) \<subseteq> dom (map_of (names r))"
    using one by (auto simp: release_name_internal_def Let_def split: option.splits if_splits)
  ultimately have "wf_tables r1" "nice_tables r1"
    using Cons.prems(2) unfolding nice_tables_def by blast+
  then have "\<forall>ev \<in> set evs'. clean ev"
    by (rule Cons.IH [OF _ _ Cons.prems(3) rest])
  then show ?case
    using release_internal_clean [OF Cons.prems(2,3) one] evs by auto
qed simp

lemma listening_update:
  assumes "\<And>c. hears_changes (f c) = hears_changes c"
  shows "listening w (map_registry (update_connection u f) b) = listening w b"
  using assms by (auto simp: listening_def get_connection_def split: option.split)

lemma hello_sound:
  assumes "wf_registry (bu_registry b)" "prefix '':'' (unique_name c)" "nice (unique_name c)" "handle_hello c b = (out, b')"
  shows "sound_outcome b out b'"
proof -
  let ?f = "\<lambda>c. c\<lparr>is_registered := True\<rparr>"
  have b': "b' = map_registry (update_connection (unique_name c) ?f) b"
    using assms(4) by (auto simp: handle_hello_def Let_def split: if_splits)
  have wf: "wf_registry (bu_registry b')"
    using update_connection_wf [OF assms(1)] by (simp add: b')
  have own: "owners (bu_registry b') = owners (bu_registry b)"
    by (simp add: b')
  have listens: "listening w b' = listening w b" for w
    unfolding b' by (rule listening_update) (simp add: hears_changes_def)
  have "name_owner_changes out = [] \<or>
      name_owner_changes out = [\<lparr>noc_name = unique_name c, noc_old_owner = None, noc_new_owner = Some (unique_name c)\<rparr>]"
    using assms(4) by (auto simp: handle_hello_def Let_def split: if_splits)
  then show ?thesis
    using assms(2,3) own listens wf by (auto simp: sound_outcome_def apply_change_def clean_def nice_def)
qed

lemma request_name_sound:
  assumes "wf_registry (bu_registry b)" "get_connection (bu_registry b) (unique_name c) = Some c"
    and "well_named (bu_registry b)" "handle_request_name io c args b = (out, b')"
  shows "sound_outcome b out b'"
proof -
  have tables: "nice_tables (bu_registry b)" "nice (unique_name c)"
    using assms(1-3) named_nice_tables named_connection_nice by auto
  have silent: "sound_outcome b out b'" if "bu_registry b' = bu_registry b" "name_owner_changes out = []"
    using that by (simp add: sound_outcome_def)
  have granted: "sound_outcome b (ok_outcome [VUInt32 code] evs) (b\<lparr>bu_registry := r\<rparr>)"
    if req: "request_name (unique_name c) n flags (bu_registry b) = ((code, evs), r)"
      and v: "validate_bus_name n False = Inr u" for n flags code evs r u
  proof -
    have "\<not> prefix '':'' n" "plain n"
      using v valid_name_no_nul [of n] by (auto simp: validate_bus_name_def plain_def split: if_splits)
    then have wf: "wf_registry r"
      using assms(1) req connected_key [of "bu_registry b" "unique_name c"] assms(2)
      by (intro request_name_wf [OF _ _ _ req]) auto
    have "owners r = fold apply_change evs (owners (bu_registry b))"
      using request_name_owners [OF wf_registryD [OF assms(1)] req] by simp
    moreover have "connections r = connections (bu_registry b)"
      using request_name_rest [OF req] by simp
    then have "listening w (b\<lparr>bu_registry := r\<rparr>) = listening w b" for w
      by (simp add: listening_def get_connection_def)
    ultimately show ?thesis
      using request_name_clean [OF assms(1) tables \<open>plain n\<close> req] wf by (simp add: sound_outcome_def)
  qed
  show ?thesis
    using assms(4) silent granted
    by (auto simp: handle_request_name_def with_checked_def denied_def Let_def
        split: sum.splits if_splits prod.splits)
qed

lemma release_name_sound:
  assumes "wf_registry (bu_registry b)" "nice_tables (bu_registry b)" "nice (unique_name c)"
    and "handle_release_name c args b = (out, b')"
  shows "sound_outcome b out b'"
proof -
  have released: "sound_outcome b (ok_outcome [VUInt32 code] evs) (b\<lparr>bu_registry := r\<rparr>)"
    if rel: "release_name (unique_name c) n (bu_registry b) = ((code, evs), r)" for n code evs r
  proof -
    note step = release_name_step [OF wf_registryD [OF assms(1)] rel]
    then have "listening w (b\<lparr>bu_registry := r\<rparr>) = listening w b" for w
      by (simp add: listening_def get_connection_def)
    moreover have "wf_registry r"
      using registry.inv_step [OF assms(1), of "ReleaseName (unique_name c) n" evs r] rel by simp
    ultimately show ?thesis
      using step release_name_clean [OF assms(2,3) rel] by (simp add: sound_outcome_def)
  qed
  show ?thesis
    using assms(4) released
    by (auto simp: handle_release_name_def with_checked_def sound_outcome_def split: sum.splits prod.splits)
qed

text \<open>The other methods change no owner and announce nothing.\<close>

lemma other_methods_silent:
  assumes "h \<in> {handle_name_has_owner args, handle_get_name_owner args, handle_list_queued_owners args,
    handle_add_match c args, handle_remove_match c args, handle_get_conn_uid args,
    handle_get_conn_pid args, handle_get_conn_credentials args}"
  shows "name_owner_changes (fst (h b)) = []"
  using assms
  by (elim insertE emptyE; simp add: handler_defs no_owner_error_def Let_def
      split: with_checked_split option.split sum.split)

lemma update_env_silent: "name_owner_changes (fst (handle_update_activation_env args b)) = []"
  unfolding handle_update_activation_env_def by (auto split: option.split dvalue.split)

lemma start_service_sound:
  assumes "handle_start_service io args b = (out, b')" "started b' = started b"
  shows "sound_outcome b out b'"
proof -
  have "b' = b \<and> name_owner_changes out = []"
    using assms not_waited [of io _ b] 
    by (auto simp: handle_start_service_def with_checked_def split: sum.splits if_splits prod.splits)
  then show ?thesis
    by (simp add: sound_outcome_def)
qed

lemma handle_sound:
  assumes "wf_registry (bu_registry b)" "get_connection (bu_registry b) (unique_name c) = Some c"
    and "well_named (bu_registry b)" "handle io c m args b = (out, b')" "started b' = started b"
  shows "sound_outcome b out b'"
proof -
  have c: "prefix '':'' (unique_name c)" "nice (unique_name c)" "nice_tables (bu_registry b)"
    using connection_key [OF assms(1,2)] assms(1-3) named_nice_tables named_connection_nice by auto
  have rules: "owners (bu_registry (set_match_rules n rules b)) = owners (bu_registry b)" for n rules
    by (simp add: set_match_rules_def)
  have "owners (bu_registry (snd (handle_add_match c args b))) = owners (bu_registry b)"
    "owners (bu_registry (snd (handle_remove_match c args b))) = owners (bu_registry b)"
    using match_handlers_cases [of c args b] rules by metis+
  then have match: "sound_outcome b (fst (handle_add_match c args b)) (snd (handle_add_match c args b))"
    "sound_outcome b (fst (handle_remove_match c args b)) (snd (handle_remove_match c args b))"
    by (simp_all add: sound_silent other_methods_silent [of _ args c b])
  have "owners (bu_registry (snd (handle_update_activation_env args b))) = owners (bu_registry b)"
    using update_env_cases [of args b] by auto
  then have env: "sound_outcome b (fst (handle_update_activation_env args b)) (snd (handle_update_activation_env args b))"
    by (simp add: sound_silent update_env_silent)
  have looks: "sound_outcome b (fst (handle_name_has_owner args b)) b"
    "sound_outcome b (fst (handle_get_name_owner args b)) b"
    "sound_outcome b (fst (handle_list_queued_owners args b)) b"
    "sound_outcome b (fst (handle_get_conn_uid args b)) b"
    "sound_outcome b (fst (handle_get_conn_pid args b)) b"
    "sound_outcome b (fst (handle_get_conn_credentials args b)) b"
    by (simp_all add: sound_silent other_methods_silent [of _ args c b])
  consider "m = ''Hello''" | "m = ''RequestName''" | "m = ''ReleaseName''" | "m = ''StartServiceByName''"
    | "m \<notin> {''Hello'', ''RequestName'', ''ReleaseName'', ''StartServiceByName''}"
    by blast
  then show ?thesis
  proof cases
    case 1
    then show ?thesis
      using assms(4) by (intro hello_sound [OF assms(1) c(1,2)]) (simp add: handle_def)
  next
    case 2
    then show ?thesis
      using assms(4) by (intro request_name_sound [OF assms(1-3)]) (simp add: handle_def)
  next
    case 3
    then show ?thesis
      using assms(4) by (intro release_name_sound [OF assms(1) c(3,2)]) (simp add: handle_def)
  next
    case 4
    then show ?thesis
      using assms(4,5) by (intro start_service_sound) (simp_all add: handle_def)
  next
    case 5
    then have "sound_outcome b (fst (handle io c m args b)) (snd (handle io c m args b))"
      using match env by (simp add: handle_def looks sound_silent)
    then show ?thesis
      using assms(4) by simp
  qed
qed

section \<open>Whole messages\<close>

definition unheard :: "bus \<Rightarrow> bus \<Rightarrow> bool" where
  "unheard b b' \<longleftrightarrow> quiet b b' \<and> (\<forall>w. heard w (outbox b') = heard w (outbox b))"

lemma unheard_trans: "unheard b b' \<Longrightarrow> unheard b' b'' \<Longrightarrow> unheard b b''"
  by (auto simp: unheard_def intro: quiet_trans)

lemma unheard_stats [intro]: "unheard b (map_stats f b)"
  using quiet_map_stats by (simp add: unheard_def)

lemma unheard_write: "change_of x = None \<Longrightarrow> unheard b (snd (write_message io n x b))"
  by (simp add: unheard_def quiet_write outbox_write heard_Cons)

lemma unheard_error: "unheard b (send_error io c call e m b)"
proof -
  obtain x where x: "error_answer call e x" "quiet b (send_error io c call e m b)" and
    out: "outbox (send_error io c call e m b) =
       outbox b @ (if \<not> message_no_reply_expected call \<and> writable io (unique_name c) x
                   then [(unique_name c, x)] else [])"
    by (rule send_error_cases)
  have "change_of x = None"
    using x(1) by (intro change_of_reply) (simp add: error_answer_def)
  then show ?thesis
    using x(2) by (simp add: unheard_def out heard_Cons)
qed

lemma unheard_broadcast:
  assumes "change_of x = None"
  shows "unheard b (broadcast_signal io x e b)"
proof -
  have "heard w (map (\<lambda>c. (unique_name c, x)) cs) = []" for w and cs :: "connection_entry list"
    using assms by (induction cs) (simp_all add: heard_Cons)
  then show ?thesis
    by (simp add: unheard_def quiet_broadcast broadcast_outbox)
qed

lemma unheard_signal: "change_of msg = None \<Longrightarrow> unheard b (dispatch_signal io c msg b)"
  by (auto simp: dispatch_signal_def count_denial_def unheard_broadcast split: option.split
      intro: unheard_trans [OF unheard_write] unheard_stats) (simp add: unheard_def)

lemma unheard_reply: "change_of msg = None \<Longrightarrow> unheard b (dispatch_reply io msg b)"
  by (auto simp: dispatch_reply_def split: option.split
      intro: unheard_trans [OF unheard_write] unheard_stats) (simp_all add: unheard_def)

lemma unheard_deliver:
  assumes "change_of msg = None"
  shows "unheard b (deliver_to_owner io c msg owner b)"
proof -
  have "unheard b (b\<lparr>outbox := outbox b @ [(n, msg)]\<rparr>)" for n
    using assms by (simp add: unheard_def quiet_def shared_def static_def heard_Cons)
  then show ?thesis
    by (auto simp: deliver_to_owner_def count_denial_def write_message_eq unheard_error split: option.split
        intro: unheard_trans [OF unheard_stats unheard_error] unheard_trans [OF _ unheard_stats])
qed

lemma waited_started: "activate_and_wait io n b = (Inr u, b') \<Longrightarrow> started b' \<noteq> started b"
proof
  assume a: "activate_and_wait io n b = (Inr u, b')" and s: "started b' = started b"
  show False
  proof (cases "spawn (processes io) (bu_activation b) n (bu_env b)
      (if bu_kind b = System \<and> helper_exists io
       then ViaLaunchHelper (launch_helper_path (cfg_paths (bu_config b))) else Direct)")
    case (Inl e)
    then show False
      using a by (simp add: activate_and_wait_def)
  next
    case (Inr cmd)
    then have "b' = snd (wait_for n (polls io) (map_stats record_activation (b\<lparr>started := started b @ [cmd]\<rparr>)))"
      using a by (simp add: activate_and_wait_def)
    with s show False
      by (simp add: map_stats_def)
  qed
qed

lemma unheard_activate:
  assumes "change_of msg = None" "started (activate_and_deliver io c msg dest b) = started b"
  shows "unheard b (activate_and_deliver io c msg dest b)"
proof (cases "message_no_auto_start msg \<or> \<not> is_activatable (bu_activation b) dest")
  case True
  then show ?thesis
    by (simp add: activate_and_deliver_def unheard_error)
next
  case False
  obtain r b' where a: "activate_and_wait io dest b = (r, b')"
    by (cases "activate_and_wait io dest b")
  show ?thesis
  proof (cases r)
    case (Inl e)
    have eq: "activate_and_deliver io c msg dest b =
        send_error io c msg ERR_SPAWN_EXEC_FAILED (activation_error_text e) b'"
      using False a Inl by (simp add: activate_and_deliver_def)
    then have "started b' = started b"
      using assms(2) quiet_parts(1) [OF quiet_send_error] by metis
    then have "b' = b"
      using not_waited a by blast
    then show ?thesis
      unfolding eq by (simp add: unheard_error)
  next
    case (Inr u)
    let ?b = "take_snapshot b' (resumed io)"
    have "started (activate_and_deliver io c msg dest b) = started ?b"
      using False a Inr unheard_deliver [OF assms(1)] quiet_parts(1) [OF quiet_send_error]
      by (auto simp: activate_and_deliver_def unheard_def quiet_parts(1) Let_def split: option.split)
    also have "\<dots> = started b'"
      by (simp add: take_snapshot_def)
    finally have "started b' = started b"
      using assms(2) by simp
    then show ?thesis
      using waited_started a Inr by blast
  qed
qed

lemma unheard_owners:
  "unheard b b' \<Longrightarrow> bu_registry b' = bu_registry b \<and> heard w (outbox b') = heard w (outbox b) \<and> started b' = started b"
  by (simp add: unheard_def quietD quiet_parts(1))

text \<open>What a step has announced: the changes heard are those of the owners.\<close>

definition reported :: "string \<Rightarrow> bus \<Rightarrow> bus \<Rightarrow> bool" where
  "reported w b b' \<longleftrightarrow>
     (\<exists>evs. heard w (outbox b') = heard w (outbox b) @ evs \<and>
        (\<forall>n. \<not> prefix '':'' n \<longrightarrow>
           owners (bu_registry b') n = fold apply_change evs (owners (bu_registry b)) n))"

lemma reported_silent:
  "heard w (outbox b') = heard w (outbox b) \<Longrightarrow> owners (bu_registry b') = owners (bu_registry b) \<Longrightarrow>
     reported w b b'"
  unfolding reported_def by (rule exI [of _ "[]"]) simp

lemma unheard_reported: "unheard b b' \<Longrightarrow> reported w b b'"
  using unheard_owners by (intro reported_silent) auto

lemma driver_call_reported:
  assumes "wf_registry (bu_registry b)" "get_connection (bu_registry b) (unique_name c) = Some c"
    and "well_named (bu_registry b)" "listening w b" "takes_changes io w" "started (handle_driver_call io c msg b) = started b"
  shows "reported w b (handle_driver_call io c msg b)"
proof -
  define member where "member = or_empty (m_member msg)"
  show ?thesis
  proof (cases "handle_side_interface io c (m_interface msg) member (body msg) b")
    case (Some p)
    obtain out b' where p: "p = (out, b')" by (cases p)
    have side: "name_owner_changes out = [] \<and> owners (bu_registry b') = owners (bu_registry b) \<and>
        outbox b' = outbox b \<and> wf_registry (bu_registry b')"
      using Some assms(1) update_connection_wf [OF assms(1)]
      by (auto simp: p handle_side_interface_def become_monitor_def driver_ok_def driver_err_def
          no_method_def get_connection_stats_def split: if_splits option.splits)
    have "handle_driver_call io c msg b = finish_driver_reply io c msg out b'"
      using Some by (simp add: handle_driver_call_def member_def p)
    then show ?thesis
      using side heard_finish [of out b' w io c msg] assms(5) quietD(1) [OF quiet_finish [of b' io c msg out]]
      by (intro reported_silent) simp_all
  next
    case None
    obtain out b' where h: "handle io c member (body msg) b = (out, b')"
      by (cases "handle io c member (body msg) b")
    have eq: "handle_driver_call io c msg b = finish_driver_reply io c msg out b'"
      using None h by (simp add: handle_driver_call_def member_def)
    have "started b' = started b"
      using assms(6) quiet_parts(1) [OF quiet_finish] by (simp add: eq)
    then have sound: "sound_outcome b out b'"
      using handle_sound [OF assms(1-3) h] by blast
    have out: "outbox b' = outbox b"
      using handle_outbox(1) [of io c member "body msg" b] h by simp
    have "heard w (outbox (finish_driver_reply io c msg out b')) = heard w (outbox b) @ name_owner_changes out"
      using sound assms(4,5) out by (subst heard_finish) (auto simp: sound_outcome_def)
    then show ?thesis
      using sound quietD(1) [OF quiet_finish [of b' io c msg out]]
      unfolding eq reported_def sound_outcome_def by (intro exI [of _ "name_owner_changes out"]) simp
  qed
qed

lemma unique_not_bus: "prefix '':'' n \<Longrightarrow> n \<noteq> BUS_NAME"
  by (auto simp: BUS_NAME_def)

lemma monitors_reported:
  "reported w (deliver_to_monitors msg b) b' = reported w b b'"
  "wf_registry (bu_registry (deliver_to_monitors msg b)) = wf_registry (bu_registry b)"
  "bu_registry (deliver_to_monitors msg b) = bu_registry b"
  "listening w (deliver_to_monitors msg b) = listening w b"
  "started (deliver_to_monitors msg b) = started b" "outbox (deliver_to_monitors msg b) = outbox b"
  by (simp_all add: reported_def deliver_to_monitors_def listening_def)

lemma dispatch_reported:
  assumes "wf_registry (bu_registry b)" "get_connection (bu_registry b) (unique_name c) = Some c"
    and "well_named (bu_registry b)" "listening w b" "takes_changes io w" "started (dispatch_incoming io c msg b) = started b"
  shows "reported w b (dispatch_incoming io c msg b)"
proof -
  let ?m = "set_sender (unique_name c) msg"
  let ?b = "deliver_to_monitors ?m b"
  have foreign: "change_of ?m = None"
    using connection_key [OF assms(1,2)] unique_not_bus by (intro change_of_foreign) auto
  have err: "reported w ?b (send_error io c ?m e t b0)" if "quiet ?b b0" "outbox b0 = outbox ?b" for e t b0
    using that unheard_trans [OF _ unheard_error, of ?b b0] by (intro unheard_reported) (simp add: unheard_def)
  have call: "reported w ?b (dispatch_method_call io c ?m ?b)"
    if s: "started (dispatch_method_call io c ?m ?b) = started ?b"
  proof (cases "m_destination ?m")
    case None
    then show ?thesis
      by (simp add: dispatch_method_call_def err)
  next
    case (Some dest)
    have denied: "reported w ?b (send_error io c ?m e t (count_denial ?b))" for e t
      using quiet_map_stats by (intro err) (simp_all add: count_denial_def)
    show ?thesis
    proof (cases "dest = BUS_NAME")
      case True
      then have "dispatch_method_call io c ?m ?b = handle_driver_call io c ?m ?b"
        using Some by (simp add: dispatch_method_call_def)
      then show ?thesis
        using s assms(1-5) driver_call_reported [of ?b c w io ?m] by (simp add: monitors_reported)
    next
      case False
      then show ?thesis
        using Some s denied foreign
        by (auto simp: dispatch_method_call_def unheard_reported unheard_deliver unheard_activate
            split: option.splits if_splits)
    qed
  qed
  have "reported w ?b (dispatch_incoming io c msg b)"
    using assms(6) call err [of ?b] foreign
    by (auto simp: dispatch_incoming_def Let_def unheard_reported unheard_signal unheard_reply
        monitors_reported(5) split: message_type.splits if_splits)
  then show ?thesis
    by (simp add: monitors_reported(1))
qed

lemma close_reported:
  assumes "wf_registry (bu_registry b)" "get_connection (bu_registry b) n = Some c" "n \<noteq> w"
    and "well_named (bu_registry b)" "listening w b" "takes_changes io w"
  shows "reported w b (close_connection io n b) \<and> listening w (close_connection io n b)"
proof -
  obtain evs r where r: "remove_connection n (bu_registry b) = (evs, r)"
    by (cases "remove_connection n (bu_registry b)")
  note step = remove_connection_step [OF assms(1) r]
  have n: "prefix '':'' n"
    using connection_key [OF assms(1,2)] by simp
  define r0 where "r0 = (bu_registry b)\<lparr>connections := AList.delete n (connections (bu_registry b))\<rparr>"
  obtain evs' where all: "release_all n (map fst (names (bu_registry b))) r0 = (evs', r)"
    and evs: "evs = evs' @ [\<lparr>noc_name = n, noc_old_owner = Some n, noc_new_owner = None\<rparr>]"
    using r by (auto simp: remove_connection_def r0_def split: prod.splits)
  have r0: "wf_tables r0" "queued r0 = queued (bu_registry b)"
    using assms(1) by (auto simp: r0_def wf_registry_def wf_tables_def distinct_delete delete_conv'
        queued_def queue_of_def split: if_splits)
  have nice: "nice_tables (bu_registry b)" "nice n"
    using assms(1,2,4) named_nice_tables named_connection_nice by auto
  then have "nice_tables r0"
    using r0(2) by (simp add: nice_tables_def r0_def)
  then have "\<forall>ev \<in> set evs'. clean ev"
    by (rule release_all_clean [OF r0(1) _ nice(2) all])
  then have "\<forall>ev \<in> set evs. clean ev"
    using nice(2) by (simp add: evs clean_def nice_def)
  moreover have listens: "listening w (b\<lparr>bu_registry := r\<rparr>)"
    using step assms(3,5) by (simp add: listening_def get_connection_def)
  ultimately have "heard w (outbox (broadcast_name_owner_changes io evs (b\<lparr>bu_registry := r\<rparr>))) =
      heard w (outbox b) @ evs"
    using heard_announcements [of "b\<lparr>bu_registry := r\<rparr>" w io evs] step assms(6) by simp
  moreover have q: "quiet (b\<lparr>bu_registry := r\<rparr>) (broadcast_name_owner_changes io evs (b\<lparr>bu_registry := r\<rparr>))"
    using announcements_notice by blast
  have reg: "bu_registry (close_connection io n b) = end_incomplete r"
    "outbox (close_connection io n b) = outbox (broadcast_name_owner_changes io evs (b\<lparr>bu_registry := r\<rparr>))"
    using r quietD(1) [OF q] by (simp_all add: close_connection_def)
  have "owners (end_incomplete r) = owners r" "get_connection (end_incomplete r) = get_connection r"
    by (simp_all add: end_incomplete_def owners_def get_connection_def fun_eq_iff)
  then show ?thesis
    using calculation step n listens unfolding reported_def reg
    by (auto simp: listening_def reg intro!: exI [of _ evs])
qed

section \<open>Runs of the bus, as a listener sees them\<close>

datatype bus_op =
    MessageFrom bus_io connection_entry message
  | ConnectionLost bus_io string
  | ConnectionMade peer_credentials "string option"

text \<open>One step, with the changes that the connection \<open>w\<close> hears in its course.\<close>

fun bus_op_result :: "bus_op \<Rightarrow> bus \<Rightarrow> bus" where
  "bus_op_result (MessageFrom io sender msg) b = dispatch_incoming io sender msg b"
| "bus_op_result (ConnectionLost io n) b = close_connection io n b"
| "bus_op_result (ConnectionMade c label) b = register_connection c label b"

definition bus_op_step :: "string \<Rightarrow> bus_op \<Rightarrow> bus \<Rightarrow> name_owner_change list \<times> bus" where
  "bus_op_step w op b = (heard w (outbox (bus_op_result op b)), idle (bus_op_result op b))"

text \<open>
  The steps considered: the sender is connected, the listener stays connected, listens on and
  takes what is written to it; handlers that wait for a service they have started are left
  out, as the steps of the others then fall into theirs.
\<close>

fun bus_op_ok :: "string \<Rightarrow> bus_op \<Rightarrow> bus \<Rightarrow> bool" where
  "bus_op_ok w (MessageFrom io sender msg) b \<longleftrightarrow>
     get_connection (bu_registry b) (unique_name sender) = Some sender \<and> takes_changes io w \<and>
     started (dispatch_incoming io sender msg b) = [] \<and> (\<forall>s \<in> found_by io. tables_ok s) \<and>
     listening w (dispatch_incoming io sender msg b)"
| "bus_op_ok w (ConnectionLost io n) b \<longleftrightarrow>
     get_connection (bu_registry b) n \<noteq> None \<and> n \<noteq> w \<and> takes_changes io w"
| "bus_op_ok w (ConnectionMade c label) b \<longleftrightarrow> listening w (register_connection c label b)"

definition listener_inv :: "string \<Rightarrow> bus \<Rightarrow> bool" where
  "listener_inv w b \<longleftrightarrow> tables_ok b \<and> listening w b \<and> outbox b = [] \<and> started b = []"

text \<open>The owners of the well-known names, and the effect of a change that was heard.\<close>

definition name_table :: "bus \<Rightarrow> string \<Rightarrow> string option" where
  "name_table b n = (if prefix '':'' n then None else owners (bu_registry b) n)"

definition replay_change :: "name_owner_change \<Rightarrow> (string \<Rightarrow> string option) \<Rightarrow> (string \<Rightarrow> string option)" where
  "replay_change ev v = (if prefix '':'' (noc_name ev) then v else apply_change ev v)"

lemma replay_fold:
  "\<not> prefix '':'' n \<Longrightarrow> fold replay_change evs v n = fold apply_change evs v n"
  "prefix '':'' n \<Longrightarrow> fold replay_change evs v n = v n"
proof -
  have "\<not> prefix '':'' n \<Longrightarrow> v n = v' n \<Longrightarrow> fold replay_change evs v n = fold apply_change evs v' n" for v v'
  proof (induction evs arbitrary: v v')
    case (Cons ev evs)
    have "replay_change ev v n = apply_change ev v' n"
      using Cons.prems by (auto simp: replay_change_def apply_change_def)
    from Cons.IH [of "replay_change ev v" "apply_change ev v'", OF Cons.prems(1) this] show ?case
      by simp
  qed simp
  then show "\<not> prefix '':'' n \<Longrightarrow> fold replay_change evs v n = fold apply_change evs v n" by simp
  show "prefix '':'' n \<Longrightarrow> fold replay_change evs v n = v n"
  proof (induction evs arbitrary: v)
    case (Cons ev evs)
    have "replay_change ev v n = v n"
      using Cons.prems by (auto simp: replay_change_def apply_change_def)
    then show ?case
      using Cons.IH [OF Cons.prems, of "replay_change ev v"] by simp
  qed simp
qed

lemma apply_local:
  "v n = v' n \<Longrightarrow> fold apply_change es v n = fold apply_change es v' n"
proof (induction es arbitrary: v v')
  case (Cons e es)
  have "apply_change e v n = apply_change e v' n"
    using Cons.prems by (simp add: apply_change_def)
  from Cons.IH [of "apply_change e v" "apply_change e v'", OF this] show ?case
    by simp
qed simp

lemma reported_replay:
  assumes "reported w b b'" "outbox b = []"
  shows "name_table (idle b') = fold replay_change (heard w (outbox b')) (name_table b)"
proof
  fix n
  obtain evs where e: "heard w (outbox b') = heard w (outbox b) @ evs"
    and evs': "\<forall>n. \<not> prefix '':'' n \<longrightarrow> owners (bu_registry b') n = fold apply_change evs (owners (bu_registry b)) n"
    using assms(1) unfolding reported_def by blast
  have evs: "heard w (outbox b') = evs"
    using e assms(2) by simp
  show "name_table (idle b') n = fold replay_change (heard w (outbox b')) (name_table b) n"
  proof (cases "prefix '':'' n")
    case True
    then show ?thesis
      by (simp add: name_table_def replay_fold)
  next
    case False
    have "name_table b n = owners (bu_registry b) n"
      using False by (simp add: name_table_def)
    then have "fold apply_change evs (name_table b) n = fold apply_change evs (owners (bu_registry b)) n"
      by (rule apply_local)
    then show ?thesis
      using evs' False by (simp add: evs replay_fold(1) [OF False] name_table_def False idle_def)
  qed
qed

lemma idle_parts [simp]:
  "tables_ok (idle b) = tables_ok b" "listening w (idle b) = listening w b"
  "outbox (idle b) = []" "started (idle b) = []"
  by (simp_all add: tables_ok_def idle_def listening_def max_names_def)

lemma bus_op_reported:
  assumes "listener_inv w b" "bus_op_ok w op b"
  shows "reported w b (bus_op_result op b) \<and> tables_ok (bus_op_result op b) \<and> listening w (bus_op_result op b)"
proof -
  have b: "tables_ok b" "wf_registry (bu_registry b)" "listening w b" "outbox b = []" "started b = []"
    using assms(1) by (simp_all add: listener_inv_def tables_ok_def)
  have named: "well_named (bu_registry b)"
    using b(1) by (simp add: tables_ok_def)
  show ?thesis
  proof (cases op)
    case (MessageFrom io sender msg)
    then show ?thesis
      using assms(2) b named dispatch_reported [of b sender w io msg] tables.inv_dispatch [of b sender io msg]
      by simp
  next
    case (ConnectionLost io n)
    then obtain c where "get_connection (bu_registry b) n = Some c"
      using assms(2) by auto
    then show ?thesis
      using ConnectionLost assms(2) b named close_reported [of b n c w io] tables_bus.inv_close [OF b(1)]
      by auto
  next
    case (ConnectionMade c label)
    have "owners (bu_registry (register_connection c label b)) = owners (bu_registry b)"
      "outbox (register_connection c label b) = outbox b"
      by (simp_all add: register_connection_def allocate_unique_name_def add_connection_def owners_def fun_eq_iff)
    then show ?thesis
      using ConnectionMade assms(2) b tables_register [of b c label] by (simp add: reported_silent)
  qed
qed

interpretation listener: announcer "bus_op_step w" "bus_op_ok w" "listener_inv w" name_table replay_change
  for w
proof unfold_locales
  fix b op evs b'
  assume step: "listener_inv w b" "bus_op_ok w op b" "bus_op_step w op b = (evs, b')"
  note rep = bus_op_reported [OF step(1,2)]
  show "listener_inv w b'"
    using rep step(3) by (auto simp: bus_op_step_def listener_inv_def)
  show "name_table b' = fold replay_change evs (name_table b)"
    using reported_replay [of w b "bus_op_result op b"] rep step(1,3)
    by (auto simp: bus_op_step_def listener_inv_def)
qed

end
