(* ===== verification/Bus_Answers.thy ===== *)
theory Bus_Answers
  imports Announcements
begin

text \<open>
  What the bus answers, message by message: the reply that is written for a call, with the serial
  and the text it has, and the cases in which nothing is written. A reply is missing only when
  the call wants none, or when it has no encoding or its write to the caller fails.
\<close>

section \<open>Replies\<close>

definition reply_written ::
  "bus_io \<Rightarrow> connection_entry \<Rightarrow> message \<Rightarrow> message_builder \<Rightarrow> bus \<Rightarrow> (string \<times> message) list" where
  "reply_written io c call r b =
     (let x = build (fst (driver_serial b)) r
      in if message_no_reply_expected call \<or> \<not> writable io (unique_name c) x then []
         else [(unique_name c, x)])"

definition error_reply :: "message \<Rightarrow> string \<Rightarrow> string \<Rightarrow> message_builder" where
  "error_reply call e t = with_arg (VString t) (with_sender BUS_NAME (reply_to call (Some e)))"

definition outcome_reply :: "message \<Rightarrow> driver_outcome \<Rightarrow> message_builder" where
  "outcome_reply call out =
     (case do_result out of
        Inr vs \<Rightarrow> with_args vs (with_sender BUS_NAME (reply_to call None))
      | Inl e \<Rightarrow> error_reply call (de_name e) (de_message e))"

text \<open>The call is refused: the bus answers with that error name and that text and writes nothing else.\<close>

definition refused ::
  "bus_io \<Rightarrow> connection_entry \<Rightarrow> message \<Rightarrow> string \<Rightarrow> string \<Rightarrow> bus \<Rightarrow> bus \<Rightarrow> bool" where
  "refused io c call e t b b' \<longleftrightarrow>
     outbox b' = outbox b @ reply_written io c call (error_reply call e t) b"

lemma send_error_outbox:
  assumes "outbox b = outbox b0"
  shows "outbox (send_error io c call e t b) = outbox b0 @ reply_written io c call (error_reply call e t) b"
  using assms driver_serial_eq [of b]
  by (auto simp: send_error_def reply_written_def error_reply_def outbox_write)

lemma count_denial_reply [simp]:
  "reply_written io c call r (count_denial b) = reply_written io c call r b"
  "outbox (count_denial b) = outbox b"
  by (simp_all add: reply_written_def count_denial_def driver_serial_def map_stats_def case_prod_beta)

lemma reply_is_plain:
  assumes "plain t" "plain e" "length e \<le> 255" "\<And>u. m_sender call = Some u \<Longrightarrow> plain u \<and> length u \<le> 255"
  shows "\<exists>bs. to_bytes (build s (error_reply call e t)) = Inr bs"
proof -
  let ?x = "build s (error_reply call e t)"
  have body: "body ?x = map VString [t]" "fds ?x = []"
    by (cases "m_sender call"; simp add: error_reply_def builder_defs)+
  have "\<forall>f \<in> set (h_fields (header ?x)). plain_field f" "length (h_fields (header ?x)) \<le> 900"
    using assms by (cases "m_sender call"; simp add: error_reply_def builder_defs plain_field_def;
        simp add: plain_def BUS_NAME_def)+
  moreover have "header_validate (header ?x) = Inr ()"
    by (cases "m_sender call")
      (simp_all add: error_reply_def builder_defs header_validate_def header_accessor_defs)
  ultimately show ?thesis
    using to_bytes_plain [OF body(1)] body(2) assms(1) by simp
qed

text \<open>A caller that wants a reply, takes writes and has an encodable name really gets the refusal.\<close>

lemma refusal_is_written:
  assumes "\<not> message_no_reply_expected call" "takes_changes io (unique_name c)"
    and "plain t" "plain e" "length e \<le> 255" "\<And>u. m_sender call = Some u \<Longrightarrow> plain u \<and> length u \<le> 255"
  obtains x where "reply_written io c call (error_reply call e t) b = [(unique_name c, x)]"
    "error_answer call e x" "body x = [VString t]"
proof -
  let ?x = "build (fst (driver_serial b)) (error_reply call e t)"
  obtain bs where "to_bytes ?x = Inr bs"
    using reply_is_plain [OF assms(3-6)] by blast
  then have "writable io (unique_name c) ?x"
    using assms(2) by (simp add: writable_def takes_changes_def)
  moreover have "error_answer call e ?x"
    unfolding error_reply_def by (rule error_reply_answers)
  moreover have "body ?x = [VString t]"
    by (cases "m_sender call") (simp_all add: error_reply_def builder_defs)
  ultimately show thesis
    using assms(1) by (intro that [of ?x]) (simp_all add: reply_written_def)
qed

section \<open>Method calls\<close>

text \<open>
  A call handed to the connection that owns its destination: it arrives there, as it is, if the
  policy and the mediation let that connection receive it; otherwise the caller is told why not.
\<close>

definition handed_over ::
  "bus_io \<Rightarrow> connection_entry \<Rightarrow> message \<Rightarrow> string \<Rightarrow> bus \<Rightarrow> bus \<Rightarrow> bool" where
  "handed_over io c call owner b b' \<longleftrightarrow>
     (case get_connection (bu_registry b) owner of
        None \<Rightarrow> refused io c call ERR_SERVICE_UNKNOWN ''owner vanished'' b b'
      | Some conn \<Rightarrow>
          if \<not> can_receive (bu_policy b) (identity io conn) call (m_sender call) then
            refused io c call ERR_ACCESS_DENIED
              ''Destination is not allowed to receive this message'' b b'
          else if \<not> mac_allows io b AA_DBUS_RECEIVE conn (security_label c) call then
            refused io c call ERR_ACCESS_DENIED
              ''AppArmor mediation denied recipient from receiving this message'' b b'
          else if \<not> writable io (unique_name conn) call then
            refused io c call ERR_NO_REPLY ''destination connection is gone'' b b'
          else outbox b' = outbox b @ [(unique_name conn, call)])"

lemma deliver_hands_over: "handed_over io c call owner b (deliver_to_owner io c call owner b)"
  by (auto simp: handed_over_def deliver_to_owner_def refused_def send_error_outbox write_message_eq
      split: option.split)

definition not_provided :: "string \<Rightarrow> string" where
  "not_provided dest =
     ''The name '' @ dest @ '' was not provided by any .service files or activatable connections''"

text \<open>What the driver does for a call to the bus: its outcome, and the bus afterwards.\<close>

definition driver_method ::
  "bus_io \<Rightarrow> connection_entry \<Rightarrow> message \<Rightarrow> bus \<Rightarrow> driver_outcome \<times> bus" where
  "driver_method io c call b =
     (case handle_side_interface io c (m_interface call) (or_empty (m_member call)) (body call) b of
        Some r \<Rightarrow> r
      | None \<Rightarrow> handle io c (or_empty (m_member call)) (body call) b)"

lemma finish_reply:
  "outbox (finish_driver_reply io c call out b) =
     outbox (announced io out b) @ reply_written io c call (outcome_reply call out) (announced io out b)"
  using driver_serial_eq [of "announced io out b"]
  by (auto simp: finish_driver_reply_def announced_def [symmetric] Let_def reply_written_def
      outcome_reply_def error_reply_def outbox_write split: sum.split)

lemma driver_method_outbox:
  assumes "driver_method io c call b = (out, b1)"
  shows "outbox b1 = outbox b"
proof -
  have side: "outbox b' = outbox b"
    if "handle_side_interface io c i m args b = Some (out, b')" for i m args b'
    using that by (auto simp: handle_side_interface_def become_monitor_def split: if_splits)
  have main: "outbox b' = outbox b" if "handle io c m args b = (out, b')" for m args b'
    using handle_outbox(1) [of io c m args b] that by simp
  show ?thesis
    using assms by (auto simp: driver_method_def split: option.splits dest: side main)
qed

lemma driver_call_answered_exactly:
  assumes "driver_method io c call b = (out, b1)"
  obtains notices where "list_all (\<lambda>(to, x). bus_notice x) notices"
    "outbox (announced io out b1) = outbox b @ notices"
    "outbox (handle_driver_call io c call b) =
       outbox b @ notices @ reply_written io c call (outcome_reply call out) (announced io out b1)"
proof -
  have "appends (\<lambda>d x. bus_notice x) b1 (announced io out b1)"
    using announcements_notice by (simp add: announced_def)
  then obtain notices where n: "outbox (announced io out b1) = outbox b @ notices"
    "\<forall>(d, y) \<in> set notices. bus_notice y"
    using driver_method_outbox [OF assms] by (auto simp: appends_def)
  have "handle_driver_call io c call b = finish_driver_reply io c call out b1"
    using assms by (auto simp: handle_driver_call_def driver_method_def Let_def split: option.splits)
  then show thesis
    using n by (intro that [of notices]) (simp_all add: finish_reply list_all_iff)
qed

text \<open>Whatever is written for a call is a notice, the call itself, or a reply to it for the caller.\<close>

lemma method_call_writes:
  "list_all (\<lambda>(to, x). bus_notice x \<or> x = msg \<or> to = unique_name c \<and> answers msg x)
     (drop (length (outbox b)) (outbox (dispatch_method_call io c msg b)))"
  using method_call_outcome [of io c msg b]
  by (auto simp: answered_def forwarded_def list_all_iff)

section \<open>Clients that are not registered\<close>

lemma monitors_reply [simp]:
  "reply_written io c call r (deliver_to_monitors msg b) = reply_written io c call r b"
  by (simp add: reply_written_def deliver_to_monitors_def driver_serial_def case_prod_beta)

lemma unregistered_refused:
  assumes "\<not> is_registered c" "\<not> is_hello_call msg"
  shows "refused io c (set_sender (unique_name c) msg) ERR_ACCESS_DENIED
      ''Client tried to send a message other than Hello without being registered''
      b (dispatch_incoming io c msg b)"
    and "quiet (deliver_to_monitors (set_sender (unique_name c) msg) b) (dispatch_incoming io c msg b)"
proof -
  let ?m = "set_sender (unique_name c) msg"
  let ?t = "''Client tried to send a message other than Hello without being registered''"
  have "\<not> is_hello_call ?m"
    using assms(2) by (simp add: is_hello_call_def)
  then have eq: "dispatch_incoming io c msg b = send_error io c ?m ERR_ACCESS_DENIED ?t (deliver_to_monitors ?m b)"
    using assms(1) by (simp add: dispatch_incoming_def Let_def)
  show "refused io c ?m ERR_ACCESS_DENIED ?t b (dispatch_incoming io c msg b)"
    unfolding eq refused_def by (simp add: send_error_outbox)
  show "quiet (deliver_to_monitors ?m b) (dispatch_incoming io c msg b)"
    unfolding eq by (rule quiet_send_error)
qed

end
