(* ===== verification/Daemon_Properties.thy ===== *)
theory Daemon_Properties
  imports Bus_Answers "HOL-Library.Code_Target_Nat"
begin

text \<open>
  The properties of the daemon as a whole: what the dispatcher does with every message, what
  holds in every state the bus can reach, and what clients can learn from the bus's signals.
\<close>

section \<open>A bus to apply them to\<close>

definition sample_load :: load_io where
  "sample_load =
     \<lparr>toml_policy = \<lambda>_. None, toml_service = \<lambda>_. None,
      list_policy_dir = \<lambda>_. NotADirectory, list_service_dir = \<lambda>_. None\<rparr>"

abbreviation sample_user :: peer_credentials where
  "sample_user \<equiv> \<lparr>uid = 1000, gid = 1000, pid = 42\<rparr>"

definition fresh_bus :: bus where
  "fresh_bus = bus_new sample_load ''00ff'' Session global_config_default"

definition sample_bus :: bus where
  "sample_bus = register_connection sample_user None (begin_connection (Some sample_user) fresh_bus)"

definition sample_client :: connection_entry where
  "sample_client =
     \<lparr>unique_name = '':1.1'', credentials = sample_user, security_label = None, match_rules = [],
      is_monitor = False, is_registered = False\<rparr>"

definition sample_io :: bus_io where
  "sample_io =
     \<lparr>identity_of = \<lambda>_. \<lparr>id_uid = 0, id_user_name = Some ''root'', id_group_names = []\<rparr>, kernel_mac = None, write_io = \<lambda>_ _. True,
      processes = \<lparr>getpwnam = \<lambda>_. None, current_uid = 0, start_process = \<lambda>_. None\<rparr>,
      helper_exists = False, uptime_secs = 0, polls = [], resumed = fresh_bus\<rparr>"

lemma sample_bus_tables:
  "connections (bu_registry sample_bus) = [('':1.1'', sample_client)]"
  "names (bu_registry sample_bus) = []" "bu_policy sample_bus = []"
  "incomplete (bu_registry sample_bus) = 1" "bu_pending sample_bus = []"
  by code_simp+

lemma sample_bus_reachable: "reachable sample_load ''00ff'' Session global_config_default sample_bus"
proof -
  let ?r = "reachable sample_load ''00ff'' Session global_config_default"
  have "?r (begin_connection (Some sample_user) fresh_bus)"
    unfolding fresh_bus_def by (intro reachable.accepts reachable.starts)
  moreover have "sample_user \<in> set (bu_pending (begin_connection (Some sample_user) fresh_bus))"
    by code_simp
  ultimately show ?thesis
    unfolding sample_bus_def by (rule reachable.registers)
qed

section \<open>What is written\<close>

text \<open>C4. Every message the bus writes while it handles a message of a connection is either its own,
  with the bus's name as its only sender, or the message itself with the sender stamped over:
  nobody can speak in another's name.\<close>

theorem no_foreign_senders:
  "\<exists>written. outbox (dispatch_incoming io c msg b) = outbox b @ written \<and>
     list_all (\<lambda>(to, x). filter is_sender (h_fields (header x)) = [HSender BUS_NAME] \<or>
       x = set_sender (unique_name c) msg) written"
  using incoming_relays [of c msg b io]
  by (simp add: relays_def appends_def bus_message_def list_all_iff)

text \<open>C3. What becomes of a method call, case by case: the driver's notices and its reply, the exact
  error with which the bus refuses it, or the call itself to the owner of its destination; the
  two sides' policies and mediation come first, and nothing else is written to anybody. A reply is
  missing only when none is wanted or the write to the caller fails, and every reply goes to the
  caller with the serial of its call. A destination without an owner is started first if it may
  be, and the last case continues in the state after the wait.\<close>

theorem method_call_mediated:
  "let b' = dispatch_method_call io c msg b in
   list_all (\<lambda>(to, x). bus_notice x \<or> x = msg \<or> to = unique_name c \<and> answers msg x)
     (drop (length (outbox b)) (outbox b')) \<and>
   (case m_destination msg of
     None \<Rightarrow> refused io c msg ERR_BAD_ADDRESS ''Method call missing DESTINATION'' b b'
   | Some dest \<Rightarrow>
       if dest = BUS_NAME then
         (case driver_method io c msg b of
            (out, b1) \<Rightarrow>
              \<exists>notices. list_all (\<lambda>(to, x). bus_notice x) notices \<and>
                outbox (announced io out b1) = outbox b @ notices \<and>
                outbox b' = outbox b @ notices @
                  reply_written io c msg (outcome_reply msg out) (announced io out b1))
       else if \<not> can_send (bu_policy b) (identity io c) msg (Some dest) then
         refused io c msg ERR_ACCESS_DENIED
           (''Connection is not allowed to send to '' @ double_quoted dest) b b'
       else if \<not> mac_allows io b AA_DBUS_SEND c (label_of (resolve_connection b dest)) msg then
         refused io c msg ERR_ACCESS_DENIED
           (''AppArmor mediation denied sending to '' @ double_quoted dest) b b'
       else
         (case get_name_owner (bu_registry b) dest of
            Some owner \<Rightarrow> handed_over io c msg owner b b'
          | None \<Rightarrow>
              if message_no_auto_start msg then
                refused io c msg ERR_SERVICE_UNKNOWN (not_provided dest) b b'
              else if \<not> is_activatable (bu_activation b) dest then
                refused io c msg ERR_SERVICE_UNKNOWN (not_provided dest) b b'
              else
                (case activate_and_wait io dest b of
                   (Inl e, b1) \<Rightarrow>
                     outbox b1 = outbox b \<and>
                     refused io c msg ERR_SPAWN_EXEC_FAILED (activation_error_text e) b1 b'
                 | (Inr _, b1) \<Rightarrow>
                     let b2 = take_snapshot b1 (resumed io)
                     in outbox b2 = outbox b \<and>
                       (case get_name_owner (bu_registry b2) dest of
                          Some owner \<Rightarrow> handed_over io c msg owner b2 b'
                        | None \<Rightarrow>
                            refused io c msg ERR_SERVICE_UNKNOWN ''activation raced with removal'' b2 b'))))"
proof (cases "m_destination msg")
  case None
  then show ?thesis
    unfolding Let_def
    by (intro conjI method_call_writes) (simp add: dispatch_method_call_def refused_def send_error_outbox)
next
  case (Some dest)
  obtain out b1 where d: "driver_method io c msg b = (out, b1)"
    by (cases "driver_method io c msg b")
  obtain r b2 where w: "activate_and_wait io dest b = (r, b2)"
    by (cases "activate_and_wait io dest b")
  have "outbox b2 = outbox b"
    using activate_and_wait_outbox(1) [of io dest b] w by simp
  then show ?thesis
    unfolding Let_def using Some d w driver_call_answered_exactly [OF d]
    by (intro conjI method_call_writes) (auto simp: dispatch_method_call_def activate_and_deliver_def Let_def refused_def
        send_error_outbox deliver_hands_over not_provided_def take_snapshot_def
        split: option.split sum.split)
qed

text \<open>C16. A connection that has not said Hello changes nothing: each of its messages goes to the
  monitors and is refused with one access error, whose text is fixed; it is written whenever
  the caller wants a reply, takes the write and has an encodable name. The tables, the policy,
  the services, and the started processes stay as they are.\<close>

theorem unregistered_is_confined:
  assumes "\<not> is_registered c" "\<not> is_hello_call msg"
  shows "let b' = dispatch_incoming io c msg b; call = set_sender (unique_name c) msg;
      refusal = ''Client tried to send a message other than Hello without being registered''
    in bu_registry b' = bu_registry b \<and> bu_policy b' = bu_policy b \<and>
      bu_activation b' = bu_activation b \<and> bu_env b' = bu_env b \<and> started b' = started b \<and>
      tasks b' = tasks b @
        map (\<lambda>m. (unique_name m, call)) (filter is_monitor (all_connections (bu_registry b))) \<and>
      outbox b' = outbox b @ reply_written io c call (error_reply call ERR_ACCESS_DENIED refusal) b \<and>
      (\<not> message_no_reply_expected msg \<and> takes_changes io (unique_name c) \<and>
         plain (unique_name c) \<and> length (unique_name c) \<le> 255 \<longrightarrow>
       (\<exists>x. reply_written io c call (error_reply call ERR_ACCESS_DENIED refusal) b = [(unique_name c, x)] \<and>
          error_answer call ERR_ACCESS_DENIED x \<and> body x = [VString refusal]))"
proof -
  let ?call = "set_sender (unique_name c) msg"
  let ?t = "''Client tried to send a message other than Hello without being registered''"
  note r = unregistered_refused(1) [OF assms, where io = io and b = b] and q = unregistered_refused(2) [OF assms, where io = io and b = b]
  have "\<exists>x. reply_written io c ?call (error_reply ?call ERR_ACCESS_DENIED ?t) b = [(unique_name c, x)] \<and>
      error_answer ?call ERR_ACCESS_DENIED x \<and> body x = [VString ?t]"
    if "\<not> message_no_reply_expected msg" "takes_changes io (unique_name c)"
      "plain (unique_name c)" "length (unique_name c) \<le> 255"
  proof -
    have m: "m_sender ?call = Some u \<Longrightarrow> plain u \<and> length u \<le> 255" for u
      using that(3,4) by simp
    have t: "\<not> message_no_reply_expected ?call" "plain ?t" "plain ERR_ACCESS_DENIED" "length ERR_ACCESS_DENIED \<le> 255"
      using that(1) by (simp_all add: plain_def ERR_ACCESS_DENIED_def)
    show ?thesis
      by (rule refusal_is_written [OF t(1) that(2) t(2-4) m]) blast+
  qed
  then show ?thesis
    using r quietD(1,2) [OF q] quiet_parts(1,3,4) [OF q] incoming_tasks [of io c msg b]
    by (simp add: Let_def refused_def)
qed

definition ping :: message where
  "ping = build 1 (with_destination ''org.a'' (build_method_call bus_path ''Ping''))"

lemma ping_is_not_hello: "\<not> is_hello_call ping"
  by (simp add: is_hello_call_def ping_def builder_defs build_method_call_def header_accessor_defs BUS_NAME_def)

lemma ping_wants_reply: "\<not> message_no_reply_expected ping"
  by (simp add: ping_def message_no_reply_expected_def builder_defs build_method_call_def)

lemma unregistered_is_confined_witness:
  "\<exists>x. outbox (dispatch_incoming sample_io sample_client ping sample_bus) = outbox sample_bus @ [('':1.1'', x)] \<and>
     error_answer (set_sender '':1.1'' ping) ERR_ACCESS_DENIED x"
proof -
  have "\<not> is_registered sample_client" "unique_name sample_client = '':1.1''"
    by (simp_all add: sample_client_def)
  moreover have "takes_changes sample_io '':1.1''" "plain '':1.1''" "length '':1.1'' \<le> 255"
    by (simp_all add: takes_changes_def sample_io_def plain_def)
  ultimately show ?thesis
    using unregistered_is_confined [OF _ ping_is_not_hello, of sample_client sample_io sample_bus]
      ping_wants_reply by (auto simp: Let_def)
qed

text \<open>C21. A signal without a destination goes to exactly the connections whose rules match it, whose
  policy and mediation let them receive it and that take the write, once each; one with a
  destination goes to that connection alone; none goes anywhere unless the sender may send it.\<close>

theorem signal_recipients:
  "outbox (dispatch_signal io c msg b) = outbox b @
     (if can_send (bu_policy b) (identity io c) msg (m_destination msg) \<and>
         mac_allows io b AA_DBUS_SEND c None msg
      then (case m_destination msg of
              None \<Rightarrow> map (\<lambda>r. (unique_name r, msg))
                (filter (\<lambda>r. wants b msg r \<and> may_receive io b msg r \<and> writable io (unique_name r) msg)
                   (all_connections (bu_registry b)))
            | Some dest \<Rightarrow>
                (case resolve_connection b dest of
                   Some r \<Rightarrow> if writable io (unique_name r) msg then [(unique_name r, msg)] else []
                 | None \<Rightarrow> []))
      else [])"
  by (simp add: dispatch_signal_def count_denial_def broadcast_outbox recipients_def outbox_write
      split: option.split)

text \<open>A reply or error is passed on to the owner of its destination whatever the policy says and
  whether or not it answers a call.\<close>

theorem replies_are_unchecked:
  "outbox (dispatch_reply io msg b) = outbox b @
     (case Option.bind (m_destination msg) (resolve_connection b) of
        Some r \<Rightarrow> if writable io (unique_name r) msg then [(unique_name r, msg)] else []
      | None \<Rightarrow> [])"
  by (simp add: dispatch_reply_def outbox_write split: option.split)

text \<open>Every message that comes in, even one that is refused, is handed to each monitor once.\<close>

theorem monitors_see_everything:
  "tasks (dispatch_incoming io c msg b) =
     tasks b @ map (\<lambda>m. (unique_name m, set_sender (unique_name c) msg))
       (filter is_monitor (all_connections (bu_registry b)))"
  by (rule incoming_tasks)

section \<open>Names\<close>

text \<open>What \<open>RequestName\<close> asks of its caller.\<close>

definition may_request :: "bus_io \<Rightarrow> connection_entry \<Rightarrow> string \<Rightarrow> bus \<Rightarrow> bool" where
  "may_request io c n b \<longleftrightarrow>
     \<not> prefix '':'' n \<and> is_valid_bus_name n \<and> can_own (bu_policy b) (identity io c) n \<and>
     check_permission (kernel_mac io) AA_DBUS_BIND (security_label c) None (bustype b) (Some n) None None None \<and>
     names_held_by (bu_registry b) (unique_name c) < max_names b"

text \<open>C15. \<open>RequestName\<close> reaches the registry exactly when its arguments are a valid well-known name
  and flags, the policy and the mediation let the caller own the name and the caller is below
  its limit; otherwise it is an error and the registry stays as it is.\<close>

theorem request_name_guarded:
  "case arg_str args 0 of
     Inl e \<Rightarrow> handle_request_name io c args b = (err_outcome e, b)
   | Inr n \<Rightarrow>
       (case arg_u32 args 1 of
          Inr flags \<Rightarrow>
            if may_request io c n b then
              (case request_name (unique_name c) n flags (bu_registry b) of
                 ((code, evs), r) \<Rightarrow>
                   handle_request_name io c args b = (ok_outcome [VUInt32 code] evs, b\<lparr>bu_registry := r\<rparr>))
            else \<exists>e. fst (handle_request_name io c args b) = err_outcome e \<and>
              bu_registry (snd (handle_request_name io c args b)) = bu_registry b
        | Inl e \<Rightarrow> \<exists>e. handle_request_name io c args b = (err_outcome e, b))"
  by (auto simp: handle_request_name_def with_checked_def may_request_def denied_def validate_bus_name_def
      identity_def max_names_def Let_def split: sum.split prod.split)

text \<open>C24. In every reachable state no connection holds or waits for more names than the limit.\<close>

theorem names_are_limited:
  assumes "reachable lio g k cfg b"
  shows "card {n. u \<in> q_unique_name ` set (queue_of (bu_registry b) n)} \<le>
    unat (lim_max_names_per_connection (cfg_limits (bu_config b)))"
  using tables_bus.inv_reachable [OF assms] by (simp add: tables_ok_def held_def max_names_def)

lemma names_are_limited_witness:
  "card {n. '':1.1'' \<in> q_unique_name ` set (queue_of (bu_registry sample_bus) n)} \<le>
    unat (lim_max_names_per_connection (cfg_limits (bu_config sample_bus)))"
  by (rule names_are_limited [OF sample_bus_reachable])

text \<open>In every reachable state there are never more connections than
  \<open>max_incomplete_connections\<close> (64 by default), as a connection is counted as incomplete until
  it ends and not only during its handshake.\<close>

theorem connections_bounded_by_incomplete:
  assumes "reachable lio g k cfg b"
  shows "length (connections (bu_registry b)) + length (bu_pending b) \<le>
    unat (lim_max_incomplete_connections (cfg_limits cfg))"
  using counts.inv_reachable [OF assms] by (auto simp: accounted_def word_le_nat_alt)

lemma connections_bounded_by_incomplete_witness: "length (connections (bu_registry sample_bus)) \<le> 64"
  using connections_bounded_by_incomplete [OF sample_bus_reachable]
  by (simp add: global_config_default_def limits_config_default_def)

section \<open>Listeners\<close>









section \<open>Processes\<close>

text \<open>C22. The bus starts a process only for a registered connection's method call that asks for a
  service, by its destination or with \<open>StartServiceByName\<close>, and it starts what the service's
  file says, as the bus's own user, or the helper with the service's name.\<close>

theorem only_services_are_started:
  "started (dispatch_incoming io c msg b) = started b \<or>
   (\<exists>n def cmd. asks_for msg = Some n \<and> is_registered c \<and>
      map_of (bu_activation b) n = Some def \<and>
      started (dispatch_incoming io c msg b) = started b @ [cmd] \<and>
      (case strategy io b of
         ViaLaunchHelper helper \<Rightarrow> cmd_program cmd = helper \<and> cmd_args cmd = [n] \<and> sv_user def \<noteq> None
       | Direct \<Rightarrow> cmd_program cmd = sv_exec def \<and> cmd_args cmd = sv_args def \<and>
           (case sv_user def of
              None \<Rightarrow> True
            | Some usr \<Rightarrow> resolve_uid (getpwnam (processes io)) usr = Some (current_uid (processes io)))))"
proof (cases "started (dispatch_incoming io c msg b) = started b")
  case False
  then obtain n cmd where n: "asks_for msg = Some n" "is_registered c"
    "spawn (processes io) (bu_activation b) n (bu_env b) (strategy io b) = Inr cmd"
    "started (dispatch_incoming io c msg b) = started b @ [cmd]"
    using incoming_started by (fastforce simp: started_for_def)
  obtain def where def: "map_of (bu_activation b) n = Some def"
    "case strategy io b of
       ViaLaunchHelper helper \<Rightarrow>
         sv_user def \<noteq> None \<and> cmd = \<lparr>cmd_program = helper, cmd_args = [n], cmd_env = []\<rparr>
     | Direct \<Rightarrow>
         (\<forall>usr. sv_user def = Some usr \<longrightarrow>
            resolve_uid (getpwnam (processes io)) usr = Some (current_uid (processes io))) \<and>
         cmd = \<lparr>cmd_program = sv_exec def, cmd_args = sv_args def, cmd_env = spawn_env (bu_env b) def\<rparr>"
    using n(3) unfolding spawn_Inr by blast
  have "case strategy io b of
      ViaLaunchHelper helper \<Rightarrow> cmd_program cmd = helper \<and> cmd_args cmd = [n] \<and> sv_user def \<noteq> None
    | Direct \<Rightarrow> cmd_program cmd = sv_exec def \<and> cmd_args cmd = sv_args def \<and>
        (case sv_user def of
           None \<Rightarrow> True
         | Some usr \<Rightarrow> resolve_uid (getpwnam (processes io)) usr = Some (current_uid (processes io)))"
    using def(2) by (auto split: spawn_strategy.splits option.split)
  then show ?thesis
    using n def(1) by blast
qed simp

end
