(* ===== verification/Transport_Properties.thy ===== *)
theory Transport_Properties
  imports Transport Wire_Properties "HOL-Library.Code_Target_Nat"
begin

text \<open>
  The properties of the transport: lines and messages arrive as they were sent however the
  socket cuts the data, the buffers stay short, and what is not guaranteed.
\<close>

text \<open>C9. Messages without descriptors that are written to a socket one after the other, in as many
  pieces as the socket takes, are read from it as they were sent and in order, in whatever pieces
  the data arrives, and what follows them is left for the next reader.\<close>

theorem messages_survive_the_socket:
  assumes written: "list_all2 (\<lambda>m calls. \<exists>ev. transport_write ev m = (calls, Done (Inr ()))) ms callss"
    and fit: "list_all (\<lambda>m. wf_message m \<and> fds m = []) ms"
      "list_all (\<lambda>calls. length (concat (map fst calls)) \<le> unat (max_message_size t)) callss"
    and arrives: "delivers es" "read_buf t @ stream es = concat (map (\<lambda>calls. concat (map fst calls)) callss) @ rest"
  shows "\<exists>t' es'. read_messages (length ms) es t = (Done (Inr (map received ms)), t', es') \<and>
    read_buf t' @ stream es' = rest"
proof (rule read_messages_delivers [OF _ arrives])
  have "unat (max_message_size t) < 2 ^ 32"
    by (rule order_less_le_trans [OF unsigned_less]) simp
  then have "sendable (max_message_size t) m (concat (map fst calls))"
    if "\<exists>ev. transport_write ev m = (calls, Done (Inr ()))" "wf_message m \<and> fds m = []"
      "length (concat (map fst calls)) \<le> unat (max_message_size t)" for m calls
    using that transport_write_Done by (auto simp: sendable_def)
  then show "list_all2 (sendable (max_message_size t)) ms (map (\<lambda>calls. concat (map fst calls)) callss)"
    using written fit by (simp add: list_all2_conv_all_nth list_all_length)
qed

text \<open>The sample message, written in one piece and read byte by byte.\<close>

definition byte_events :: "u8 list \<Rightarrow> recv_event list" where
  "byte_events bs = map (\<lambda>b. Arrives \<lparr>rr_bytes = [b], rr_control = [], rr_truncated = False\<rparr>) bs"

lemma byte_events_simps [simp]: "delivers (byte_events bs)" "stream (byte_events bs) = bs"
  by (induction bs) (simp_all add: byte_events_def delivers_def stream_def arrived_def)

abbreviation sample_transport :: transport where
  "sample_transport \<equiv> transport_new \<lparr>uid = 0, gid = 0, pid = 1\<rparr>"

lemma transport_write_whole:
  "to_bytes m = Inr bs \<Longrightarrow> bs \<noteq> [] \<Longrightarrow>
     transport_write [Accepts (length bs)] m = ([(bs, fds m)], Done (Inr ()))"
  by (cases bs) (simp_all add: transport_write_def)

lemma messages_survive_the_socket_witness:
  "\<exists>t' es'. read_messages 1 (byte_events sample_bytes) sample_transport =
     (Done (Inr [received sample_message]), t', es')"
proof -
  have "sample_bytes \<noteq> []" "length sample_bytes \<le> unat DEFAULT_MAX_MESSAGE_LEN"
    by code_simp+
  moreover have "transport_write [Accepts (length sample_bytes)] sample_message = ([(sample_bytes, [])], Done (Inr ()))"
    using transport_write_whole [OF sample_message_sent(1)] calculation(1) sample_message_sent(4) by simp
  ultimately show ?thesis
    using messages_survive_the_socket [of "[sample_message]" "[[(sample_bytes, [])]]" sample_transport
        "byte_events sample_bytes" "[]"] sample_message_sent(2,4)
    by (force simp: transport_new_def)
qed

text \<open>A SASL line without CR that is written to the socket is read as it was written, whatever the
  pieces, and the bytes after it, which may already be a message, stay in the buffer.\<close>

theorem lines_survive_the_socket:
  assumes "write_line ev line = (calls, Done (Inr ()))"
    and "delivers es" "read_buf t @ stream es = concat (map fst calls) @ rest"
    and "CHR 0x0D \<notin> set line" "valid_utf8 line" "length line < MAX_AUTH_LINE_BYTES"
  shows "\<exists>t' es'. read_line es t = (Done (Inr line), t', es') \<and> read_buf t' @ stream es' = rest \<and>
    max_message_size t' = max_message_size t"
proof -
  have "concat (map fst calls) = as_bytes line @ [13, 10]"
    using write_all_Done assms(1) unfolding write_line_def by blast
  then have "read_buf t @ stream es = as_bytes line @ 13 # 10 # rest"
    using assms(3) by simp
  with assms(2) obtain used es' where "es = used @ es'"
    "read_line es t = (Done (Inr line), (fed used t)\<lparr>read_buf := drop (length line + 2) (read_buf (fed used t))\<rparr>, es')"
    "drop (length line + 2) (read_buf (fed used t)) @ stream es' = rest"
    using assms(4-6) by (rule read_line_delivers)
  then show ?thesis by simp
qed

lemma lines_survive_the_socket_witness:
  "\<exists>t' es'. read_line (byte_events (as_bytes ''DATA'' @ [13, 10, 108])) sample_transport = (Done (Inr ''DATA''), t', es') \<and>
     read_buf t' @ stream es' = [108]"
proof -
  have "write_line [Accepts 2, NoRoom, Accepts 4] ''DATA'' =
      ([([68, 65], []), ([84, 65, 13, 10], [])], Done (Inr ()))" "as_bytes ''DATA'' = [68, 65, 84, 65]"
    "valid_utf8 ''DATA''"
    by code_simp+
  then show ?thesis
    using lines_survive_the_socket [of "[Accepts 2, NoRoom, Accepts 4]" "''DATA''"
        "[([68, 65], []), ([84, 65, 13, 10], [])]" "byte_events (as_bytes ''DATA'' @ [13, 10, 108])"
        sample_transport "[108]"]
    by (auto simp: transport_new_def MAX_AUTH_LINE_BYTES_def)
qed

text \<open>Whatever a peer sends, the buffer is never longer than the limit on a line and one piece
  of 65536 bytes while a line is read, and than the message limit and one piece while a message is
  read, unless it was already.\<close>

theorem receive_buffers_are_bounded:
  assumes "small_pieces 65536 es"
  shows "length (read_buf (fst (snd (read_line es t)))) \<le> max (length (read_buf t)) (16384 + 65536) \<and>
    length (read_buf (fst (snd (read_message es t)))) \<le>
      max (length (read_buf t)) (max 16 (unat (max_message_size t)) + 65536)"
proof
  obtain p t1 es1 where l: "fill_until line_check es t = (p, t1, es1)"
    by (cases "fill_until line_check es t")
  have "length (read_buf t) \<le> 16384" if "line_check t = None" for t
    using that by (auto simp: line_check_def MAX_AUTH_LINE_BYTES_def split: option.splits if_splits)
  then have "length (read_buf t1) \<le> max (length (read_buf t)) (16384 + 65536)"
    using fill_until_small [OF l assms] by blast
  moreover have "length (read_buf (fst (snd (read_line es t)))) \<le> length (read_buf t1)"
    by (auto simp: read_line_def l then_read_def Let_def split: poll.split sum.split)
  ultimately show "length (read_buf (fst (snd (read_line es t)))) \<le> max (length (read_buf t)) (16384 + 65536)"
    by simp
next
  obtain p t1 es1 where f: "fill_until frame_check es t = (p, t1, es1)"
    by (cases "fill_until frame_check es t")
  have "length (read_buf t) \<le> 16" if "frame_check t = None" for t
    using that by (auto simp: frame_check_def peek_frame_len_def and_then_def split: sum.splits option.splits if_splits prod.splits)
  then have one: "length (read_buf t1) \<le> max (length (read_buf t)) (16 + 65536) \<and> small_pieces 65536 es1 \<and>
      max_message_size t1 = max_message_size t"
    using fill_until_small [OF f assms] by blast
  let ?limit = "unat (max_message_size t)"
  have two: "length (read_buf (fst (snd (then_read
      (fill_until (\<lambda>t. if length (read_buf t) < n then None else Some (Inr ())) es1 t1) (\<lambda>_ es t. take_frame n es t)))))
      \<le> max (length (read_buf t1)) (?limit + 65536)" if n: "n \<le> ?limit" for n
  proof -
    let ?check = "\<lambda>t. if length (read_buf t) < n then None else Some (Inr ()) :: (io_error + unit) option"
    obtain q t2 es2 where b: "fill_until ?check es1 t1 = (q, t2, es2)"
      by (cases "fill_until ?check es1 t1")
    have "length (read_buf t) \<le> ?limit" if "?check t = None" for t
      using that n by (simp split: if_splits)
    then have "length (read_buf t2) \<le> max (length (read_buf t1)) (?limit + 65536)"
      using fill_until_small [OF b, of 65536 ?limit] one by blast
    moreover have "length (read_buf (fst (snd (then_read (q, t2, es2) (\<lambda>_ es t. take_frame n es t))))) \<le> length (read_buf t2)"
      using take_frame_buf by (auto simp: then_read_def split: poll.split sum.split)
    ultimately show ?thesis
      by (simp add: b)
  qed
  have "length (read_buf (fst (snd (read_message es t)))) \<le> max (length (read_buf t1)) (?limit + 65536)"
    using one two by (auto simp: read_message_def f then_read_def [of "(p, t1, es1)"] split: poll.split sum.split)
  then show "length (read_buf (fst (snd (read_message es t)))) \<le> max (length (read_buf t)) (max 16 ?limit + 65536)"
    using one by auto
qed

lemma receive_buffers_are_bounded_witness:
  "length (read_buf (fst (snd (read_line (byte_events sample_bytes) sample_transport)))) \<le> 81920"
  using receive_buffers_are_bounded [of "byte_events sample_bytes" sample_transport]
  by (simp add: transport_new_def small_pieces_def byte_events_def list_all_iff arrived_def)

text \<open>A message gets as many of the waiting descriptors as its header declares, in the order of their
  arrival: one that came with an earlier message that declared none is given to the next.\<close>

theorem descriptors_go_by_arrival:
  assumes "to_bytes m = Inr bs" "wf_message m" "length bs < 2 ^ 32"
    and "read_buf t = bs @ later" "length (fds m) \<le> length (pending_fds t)"
  shows "take_frame (length bs) es t =
    (Done (Inr ((received m)\<lparr>fds := take (length (fds m)) (pending_fds t)\<rparr>)),
     t\<lparr>read_buf := later, pending_fds := drop (length (fds m)) (pending_fds t)\<rparr>, es)"
proof -
  obtain off where h: "header_read bs = Some (Inr (header (received m), off))"
    "unat (header_unix_fds (header (received m))) = length (fds m)"
    using assms(1-3) by (rule written_header)
  let ?ds = "take (length (fds m)) (pending_fds t)"
  have "from_bytes bs ?ds = Some (Inr ((received m)\<lparr>fds := ?ds\<rparr>))"
    using from_to_bytes [OF assms(1-3)] assms(5) by (intro from_bytes_other_fds [of bs "fds m"]) simp_all
  then show ?thesis
    using h assms(4,5) by (simp add: take_frame_def Let_def)
qed

lemma descriptors_go_by_arrival_witness:
  "\<exists>bs m t. take_frame (length bs) [] (sample_transport\<lparr>read_buf := bs, pending_fds := [666, 77]\<rparr>) =
     (Done (Inr m), t, []) \<and> fds (sample_message\<lparr>fds := [77]\<rparr>) = [77] \<and> fds m = [666]"
proof -
  let ?m = "sample_message\<lparr>fds := [77]\<rparr>"
  have "\<exists>bs. to_bytes ?m = Inr bs \<and> length bs < 2 ^ 32 \<and> wf_message ?m"
  proof -
    have "case to_bytes ?m of Inr bs \<Rightarrow> length bs < 2 ^ 32 \<and> wf_message ?m | Inl e \<Rightarrow> False"
      by code_simp
    then show ?thesis
      by (auto split: sum.splits)
  qed
  then obtain bs where bs: "to_bytes ?m = Inr bs" "length bs < 2 ^ 32" "wf_message ?m"
    by blast
  let ?t = "sample_transport\<lparr>read_buf := bs, pending_fds := [666, 77]\<rparr>"
  have "take_frame (length bs) [] ?t = (Done (Inr ((received ?m)\<lparr>fds := [666]\<rparr>)),
      ?t\<lparr>read_buf := [], pending_fds := [77]\<rparr>, [])"
    using descriptors_go_by_arrival [OF bs(1,3,2), of ?t "[]" "[]"] by simp
  then show ?thesis
    by (intro exI [of _ bs] exI [of _ "(received ?m)\<lparr>fds := [666]\<rparr>"]
        exI [of _ "?t\<lparr>read_buf := [], pending_fds := [77]\<rparr>"]) simp
qed

text \<open>Two writes to the same connection are not kept apart: when the socket takes only a part of the
  first, all of the second may go out before its rest.\<close>

theorem writes_can_interleave:
  "\<exists>sched. shared_socket sched [a, b] = take k a @ b @ drop k a"
  by (rule exI [of _ "[(0, k), (1, length b), (0, length a)]"]) simp

end
