(* ===== verification/System_Properties.thy ===== *)
theory System_Properties
  imports System_Facts Client_Properties Daemon_Properties Transport_Properties
begin

text \<open>
  The properties of clients and bus together: the handshake, a method call from its caller to
  the exported object and back, and what the division of work between them lets through.
\<close>

section \<open>The handshake\<close>

text \<open>C26. A client of the socket's own user and the bus complete the handshake: each line of the client
  gets the answer that the client waits for, the bus ends with BEGIN as that user, and what follows
  the last answer is left for the reader of messages.\<close>

theorem handshake_completes:
  assumes "c_uid (hi_system io 0) = uid p" "External \<in> set ms"
    and "delivers es"
      "read_buf t @ stream es = wire_line (''OK '' @ guid) @ wire_line ''AGREE_UNIX_FD'' @ rest"
      "CHR 0x0D \<notin> set guid" "valid_utf8 (''OK '' @ guid)" "length guid + 3 < MAX_AUTH_LINE_BYTES"
    and "send_initial_nul (hi_nul io) = (w0, Done (Inr ()))"
      "write_line (hi_lines io 1) (external_line (c_uid (hi_system io 0))) = (w1, Done (Inr ()))"
      "write_line (hi_final io 1) ''NEGOTIATE_UNIX_FD'' = (w2, Done (Inr ()))"
      "write_line (hi_final io 0) ''BEGIN'' = (w3, Done (Inr ()))"
  shows "\<exists>line s1 s2 s3 t' es'.
    server_feed_line sha1 sio line (server_new p ms anon guid shome) = Some (Send [''OK '' @ guid], s1) \<and>
    server_feed_line sha1 sio ''NEGOTIATE_UNIX_FD'' s1 = Some (Send [''AGREE_UNIX_FD''], s2) \<and>
    server_feed_line sha1 sio ''BEGIN'' s2 = Some (Begin (Some (uid p)), s3) \<and>
    handshake sha1 io (External # others) True home es t =
      (0 # wire_line line @ wire_line ''NEGOTIATE_UNIX_FD'' @ wire_line ''BEGIN'', Ready (Inr ()), t', es') \<and>
    read_buf t' @ stream es' = rest"
proof -
  let ?c = "client_new (External # others) True home"
  obtain line c s1 where one: "client_start (hi_system io 0) ?c = Some (line, c)"
    "server_feed_line sha1 sio line (server_new p ms anon guid shome) = Some (Send [''OK '' @ guid], s1)"
    "s_state s1 = WaitingForBegin (Some (uid p))"
    using external_handshake [OF assms(1) refl assms(2), of others True home sha1 sio anon guid shome] by blast
  have line: "line = external_line (c_uid (hi_system io 0))"
    using one(1) external_start by simp
  have "split_command ''NEGOTIATE_UNIX_FD'' = (''NEGOTIATE_UNIX_FD'', [])" "split_command ''BEGIN'' = (''BEGIN'', [])"
    by code_simp+
  then have two: "server_feed_line sha1 sio ''NEGOTIATE_UNIX_FD'' s1 =
      Some (Send [''AGREE_UNIX_FD''], s1\<lparr>unix_fd_negotiated := True\<rparr>)"
    and three: "server_feed_line sha1 sio ''BEGIN'' (s1\<lparr>unix_fd_negotiated := True\<rparr>) =
      Some (Begin (Some (uid p)), s1\<lparr>unix_fd_negotiated := True\<rparr>)"
    using one(3) by (simp_all add: server_feed_line_def handle_waiting_for_begin_def)
  show ?thesis
    using handshake_external [OF assms(3-11), of sha1 others home] one(2) two three unfolding line by blast
qed

text \<open>The sample: user 7, and a socket that takes each line whole and gives the answers byte by byte.\<close>

definition sample_handshake_io :: handshake_io where
  "sample_handshake_io =
     \<lparr>hi_system = \<lambda>_. \<lparr>c_uid = 7, c_load = \<lambda>_. Inr [], c_challenge = [], c_error_text = \<lambda>_. []\<rparr>,
      hi_nul = [Accepts 1], hi_lines = \<lambda>_. [Accepts 18],
      hi_final = \<lambda>k. if k = 0 then [Accepts 7] else [Accepts 19]\<rparr>"

lemma handshake_completes_witness:
  "\<exists>line t' es'. handshake (\<lambda>_. []) sample_handshake_io [External] True None
     (byte_events (wire_line ''OK ab'' @ wire_line ''AGREE_UNIX_FD'')) sample_transport =
       (0 # wire_line line @ wire_line ''NEGOTIATE_UNIX_FD'' @ wire_line ''BEGIN'', Ready (Inr ()), t', es')"
proof -
  have w: "\<exists>w. send_initial_nul (hi_nul sample_handshake_io) = (w, Done (Inr ()))"
    "\<exists>w. write_line (hi_lines sample_handshake_io 1) (external_line (c_uid (hi_system sample_handshake_io 0))) = (w, Done (Inr ()))"
    "\<exists>w. write_line (hi_final sample_handshake_io 1) ''NEGOTIATE_UNIX_FD'' = (w, Done (Inr ()))"
    "\<exists>w. write_line (hi_final sample_handshake_io 0) ''BEGIN'' = (w, Done (Inr ()))"
    by (intro exI, code_simp)+
  have ok: "CHR 0x0D \<notin> set ''ab''" "valid_utf8 (''OK '' @ ''ab'')" "length ''ab'' + 3 < MAX_AUTH_LINE_BYTES"
    by code_simp+
  obtain w0 w1 w2 w3 where "send_initial_nul (hi_nul sample_handshake_io) = (w0, Done (Inr ()))"
    "write_line (hi_lines sample_handshake_io 1) (external_line (c_uid (hi_system sample_handshake_io 0))) = (w1, Done (Inr ()))"
    "write_line (hi_final sample_handshake_io 1) ''NEGOTIATE_UNIX_FD'' = (w2, Done (Inr ()))"
    "write_line (hi_final sample_handshake_io 0) ''BEGIN'' = (w3, Done (Inr ()))"
    using w by blast
  then show ?thesis
    using handshake_completes [OF _ _ _ _ ok, of sample_handshake_io "\<lparr>uid = 7, gid = 0, pid = 1\<rparr>" "[External]"
        "byte_events (wire_line ''OK ab'' @ wire_line ''AGREE_UNIX_FD'')" sample_transport "[]" w0 w1 w2 w3
        "\<lambda>_. []" undefined False None "[]" None]
    by (fastforce simp: sample_handshake_io_def transport_new_def)
qed

section \<open>Method calls\<close>

text \<open>C2. A call that the bus lets through is delivered to the connection its destination names. If it was
  sent to that client's unique name, the client answers it, and if the bus lets the answer through
  too, the caller gets exactly what the object returned, or its error. If it was sent to a
  well-known name, the client, which answers calls for its unique name alone, keeps it for its raw
  reader and writes nothing, and the caller goes on waiting.\<close>

theorem calls_are_answered:
  assumes a: "client_reachable a" "i = length (cl_calls a)"
      "a1 = call_written (Inr ()) i (start_call (Some d) path interface member args a)"
      "call = ca_message (cl_calls a1 ! i)"
    and bus: "delivers_calls io ca cb call b" "unique_name ca = ua" "unique_name cb = ub"
    and served: "cl_name s = Some ub" "\<And>m. wr m = Inr ()"
      "s1 = receive_message wr (set_sender ua call) s" "reply = last (cl_written s1)"
    and returned: "is_registered cb" "resolve_connection b2 ua = Some ca"
    and a3: "a3 = call_resumes i (receive_message wr2 (set_sender ub reply) a1)"
  shows "outbox (dispatch_incoming io ca call b) = outbox b @ [(ub, set_sender ua call)] \<and>
    (if d = ub then
       cl_written s1 = cl_written s @ [reply] \<and>
       (writable io2 ua (set_sender ub reply) \<longrightarrow>
          outbox (dispatch_incoming io2 cb reply b2) = outbox b2 @ [(ua, set_sender ub reply)] \<and>
          ca_phase (cl_calls a3 ! i) = Returned
            (case object_dispatch (cl_objects s) (path_str path) interface member (fst (extract_fds args)) of
               Inr vs \<Rightarrow> Inr (fst (extract_fds vs))
             | Inl e \<Rightarrow> Inl (CallError (me_name e) (me_message e))))
     else s1 = s\<lparr>cl_raw := cl_raw s @ [set_sender ua call]\<rparr> \<and>
       ca_phase (cl_calls a1 ! i) = Awaiting)"
proof -
  let ?st = "start_call (Some d) path interface member args a"
  let ?s = "fst (serial_next (cl_serials a))"
  let ?r = "object_dispatch (cl_objects s) (path_str path) interface member (fst (extract_fds args))"
  let ?answer = "case ?r of Inr vs \<Rightarrow> Inr (fst (extract_fds vs)) | Inl e \<Rightarrow> Inl (CallError (me_name e) (me_message e))"
  have call: "call = call_message (Some d) path interface member args ?s"
    using a(2-4) by (simp add: call_written_def Let_def started_call)
  note fields = call_message_fields [of "Some d" path interface member args ?s, folded call]
  have st: "i < length (cl_calls ?st)" "ca_phase (cl_calls ?st ! i) = Writing"
    using a(2) by (simp_all add: started_call)
  have reach: "client_reachable a1"
    unfolding a(3) by (rule moves [OF moves [OF a(1) calls] writes [OF st]])
  have a1: "ca_slot (cl_calls a1 ! i) = Open" "ca_serial (cl_calls a1 ! i) = ?s"
    "ca_phase (cl_calls a1 ! i) = Awaiting" "i < length (cl_calls a1)"
    using a(2,3) by (simp_all add: call_written_def Let_def started_call)
  have delivered: "outbox (dispatch_incoming io ca call b) = outbox b @ [(ub, set_sender ua call)]"
    using call_delivered [OF fields(1) bus(1)] bus(2,3) by simp
  show ?thesis
  proof (cases "d = ub")
    case False
    then have "\<not> is_for_us (set_sender ua call) s"
      using fields served(1) by (simp add: is_for_us_def)
    then have "s1 = s\<lparr>cl_raw := cl_raw s @ [set_sender ua call]\<rparr>"
      using fields(1) call_not_for_us served(3) by simp
    then show ?thesis
      using False delivered a1(3) by simp
  next
    case True
  obtain reply' where reply': "cl_written s1 = cl_written s @ [reply']"
    "reply' = exported_reply (set_sender ua call) ?r (fst (serial_next (cl_reply_counter s)))"
    using True answer_call_written [of "set_sender ua call" s path member wr] fields served(1-3)
    by (simp add: is_for_us_def Let_def)
  then have reply: "reply = reply'"
    using served(4) by simp
  have parts: "m_destination reply = Some ua" "m_reply_serial reply = Some ?s" "call_result reply = ?answer"
    "m_type reply = MethodReturn \<or> m_type reply = ErrorReply"
    using exported_reply_fields [of "set_sender ua call" ?r]
    by (simp_all add: reply reply'(2) call header_set_sender_sender split: sum.split)
  have returned_to: "outbox (dispatch_incoming io2 cb reply b2) = outbox b2 @ [(ua, set_sender ub reply)]"
    if "writable io2 ua (set_sender ub reply)"
    using reply_delivered [OF parts(4) returned(1), of b2 ca io2] parts(1) returned bus(2,3) that by simp
  have "is_reply_to (set_sender ub reply) ?s"
    using parts by (simp add: is_reply_to_def)
  then have "cl_calls (receive_message wr2 (set_sender ub reply) a1) ! i = (cl_calls a1 ! i)\<lparr>ca_slot := Filled (set_sender ub reply)\<rparr>"
    "i < length (cl_calls (receive_message wr2 (set_sender ub reply) a1))"
    using receive_reply [OF calls_ok_reachable [OF reach]] a1 by simp_all
  then have "ca_phase (cl_calls a3 ! i) = Returned ?answer"
    using parts(3) by (simp add: a3 call_resumes_def)
  then show ?thesis
    using True delivered reply'(1) reply returned_to by simp
  qed
qed

text \<open>The sample: \<open>:1.1\<close> calls an object that \<open>:1.2\<close> exports; \<open>:1.2\<close> owns \<open>a.b\<close> as well.\<close>

abbreviation caller_entry :: connection_entry where
  "caller_entry \<equiv> sample_client\<lparr>is_registered := True\<rparr>"

abbreviation server_entry :: connection_entry where
  "server_entry \<equiv> sample_client\<lparr>unique_name := '':1.2'', is_registered := True\<rparr>"

definition pair_bus :: bus where
  "pair_bus = sample_bus\<lparr>bu_registry := (bu_registry sample_bus)
     \<lparr>connections := [('':1.1'', caller_entry), ('':1.2'', server_entry)],
      names := [(''a.b'', [new_entry '':1.2'' 0])]\<rparr>\<rparr>"

definition serving_client :: client where
  "serving_client =
     (connection_new (register_object (ObjectPath ''/o'') sample_interface object_server_new) 1)\<lparr>cl_name := Some '':1.2''\<rparr>"

definition sample_call :: "string \<Rightarrow> message" where
  "sample_call dest = call_message (Some dest) (ObjectPath ''/o'') (Some ''a.I'') ''Get'' [VUInt32 5] 1"

lemma sample_call_delivered:
  "delivers_calls sample_io caller_entry server_entry (sample_call '':1.2'') pair_bus"
  "delivers_calls sample_io caller_entry server_entry (sample_call ''a.b'') pair_bus"
  by code_simp+

definition sample_answer :: message where
  "sample_answer = last (cl_written (receive_message (\<lambda>_. Inr ()) (set_sender '':1.1'' (sample_call '':1.2'')) serving_client))"

lemma calls_are_answered_witness:
  "ca_phase (cl_calls (call_resumes 0 (receive_message (\<lambda>_. Inr ()) (set_sender '':1.2'' sample_answer)
     (call_written (Inr ()) 0 (start_call (Some '':1.2'') (ObjectPath ''/o'') (Some ''a.I'') ''Get'' [VUInt32 5]
       (connection_new [] 1))))) ! 0) = Returned (Inr [VUInt32 5])"
proof -
  let ?a = "connection_new [] 1"
  let ?a1 = "call_written (Inr ()) 0
    (start_call (Some '':1.2'') (ObjectPath ''/o'') (Some ''a.I'') ''Get'' [VUInt32 5] ?a)"
  let ?s1 = "receive_message (\<lambda>_. Inr ()) (set_sender '':1.1'' (sample_call '':1.2'')) serving_client"
  have call: "sample_call '':1.2'' = ca_message (cl_calls ?a1 ! 0)"
    by (simp add: call_written_def Let_def started_call(2) [of _ _ _ _ _ ?a, unfolded connection_new_def, simplified]
        connection_new_def sample_call_def serial_next_eq start_call_def forget_pending_def)
  have "resolve_connection pair_bus '':1.1'' = Some caller_entry"
    "writable sample_io '':1.1'' (set_sender '':1.2'' sample_answer)"
    by code_simp+
  then show ?thesis
    using calls_are_answered [where a = ?a and i = 0 and ua = "'':1.1''" and ?b2.0 = pair_bus and ?io2.0 = sample_io and
        s = serving_client and wr = "\<lambda>_. Inr ()" and ?s1.0 = ?s1 and ?wr2.0 = "\<lambda>_. Inr ()" and
        reply = sample_answer,
        OF opens _ refl call sample_call_delivered(1) _ _ _ _ refl sample_answer_def _ _ refl]
    by (simp add: connection_new_def sample_client_def serving_client_def object_dispatch_def register_object_def
        object_server_new_def sample_interface_def extract_fds_def)
qed

text \<open>A call to a well-known name is delivered to its owner with that name as its destination, and the
  owner's client, which answers calls for its unique name alone, drops it: nothing is written, and
  the caller goes on waiting.\<close>

theorem well_known_names_are_not_served:
  assumes "m_type call = MethodCall" "m_destination call = Some n" "n \<noteq> ub"
    and "delivers_calls io ca cb call b" "unique_name ca = ua" "unique_name cb = ub"
    and "cl_name s = Some ub"
  shows "outbox (dispatch_incoming io ca call b) = outbox b @ [(ub, set_sender ua call)] \<and>
    receive_message wr (set_sender ua call) s = s\<lparr>cl_raw := cl_raw s @ [set_sender ua call]\<rparr>"
proof -
  have "\<not> is_for_us (set_sender ua call) s"
    using assms(2,3,7) by (simp add: is_for_us_def)
  then show ?thesis
    using call_delivered [OF assms(1,4)] assms(1,5,6) call_not_for_us by simp
qed

lemma well_known_names_are_not_served_witness:
  "cl_written (receive_message (\<lambda>_. Inr ()) (set_sender '':1.1'' (sample_call ''a.b'')) serving_client) = [] \<and>
   outbox (dispatch_incoming sample_io caller_entry (sample_call ''a.b'') pair_bus) =
     [('':1.2'', set_sender '':1.1'' (sample_call ''a.b''))]"
proof -
  have "m_type (sample_call ''a.b'') = MethodCall" "m_destination (sample_call ''a.b'') = Some ''a.b''"
    by (simp_all add: sample_call_def call_message_fields)
  moreover have "outbox pair_bus = []" by code_simp
  ultimately show ?thesis
    using well_known_names_are_not_served [where s = serving_client and wr = "\<lambda>_. Inr ()",
        OF _ _ _ sample_call_delivered(2), of "''a.b''" "'':1.2''" "'':1.1''"]
    by (simp add: serving_client_def connection_new_def sample_client_def)
qed

text \<open>C37. A reply is accepted from anyone: a registered connection that was never called sends a method
  return with another connection's name and the serial of one of its calls, the bus passes it on
  whatever the policy says, and it becomes the result of that call.\<close>

theorem forged_replies_are_accepted:
  assumes "m_type m = MethodReturn" "m_destination m = Some ua" "m_reply_serial m = Some (ca_serial (cl_calls a ! i))"
    and "is_registered forger" "resolve_connection b ua = Some ca" "unique_name ca = ua"
      "writable io ua (set_sender (unique_name forger) m)"
    and "client_reachable a" "i < length (cl_calls a)" "ca_slot (cl_calls a ! i) = Open"
  shows "outbox (dispatch_incoming io forger m b) = outbox b @ [(ua, set_sender (unique_name forger) m)] \<and>
    ca_phase (cl_calls (call_resumes i (receive_message wr (set_sender (unique_name forger) m) a)) ! i) =
      Returned (Inr (body m))"
proof -
  let ?m = "set_sender (unique_name forger) m"
  have "is_reply_to ?m (ca_serial (cl_calls a ! i))"
    using assms(1,3) by (simp add: is_reply_to_def)
  then have "cl_calls (receive_message wr ?m a) ! i = (cl_calls a ! i)\<lparr>ca_slot := Filled ?m\<rparr>"
    "i < length (cl_calls (receive_message wr ?m a))"
    using receive_reply [OF calls_ok_reachable [OF assms(8)]] assms(9,10) by simp_all
  moreover have "call_result ?m = Inr (body m)"
    using assms(1) by (simp add: call_result_def)
  moreover have "outbox (dispatch_incoming io forger m b) = outbox b @ [(ua, ?m)]"
    using reply_delivered [of m forger b ca io] assms(1,2,4-7) by simp
  ultimately show ?thesis
    by (simp add: call_resumes_def)
qed

definition forged_reply :: message where
  "forged_reply = build 9 (with_destination '':1.1'' (with_arg (VUInt32 666) (build_method_return 1)))"

lemma forged_replies_are_accepted_witness:
  "ca_phase (cl_calls (call_resumes 0 (receive_message (\<lambda>_. Inr ())
     (set_sender '':1.2'' forged_reply) calling_client)) ! 0) = Returned (Inr [VUInt32 666])"
proof -
  have "m_type forged_reply = MethodReturn" "m_destination forged_reply = Some '':1.1''"
    "m_reply_serial forged_reply = Some 1" "body forged_reply = [VUInt32 666]"
    "resolve_connection pair_bus '':1.1'' = Some caller_entry"
    "writable sample_io '':1.1'' (set_sender (unique_name server_entry) forged_reply)"
    by code_simp+
  then show ?thesis
    using forged_replies_are_accepted [where m = forged_reply and a = calling_client and i = 0 and forger = server_entry and
        b = pair_bus and ca = caller_entry and io = sample_io and ua = "'':1.1''" and wr = "\<lambda>_. Inr ()"] calling_client_state calling_client_reachable
    by (simp add: sample_client_def)
qed

end
