(* ===== verification/Listener.thy ===== *)
theory Listener
  imports Address Transport
begin

text \<open>
  \<open>oxibus-transport/src/listener.rs\<close>: which socket is bound or connected for an address, and
  how.  What the system answers is an argument; what is asked of it is a list of requests, in
  order.  A request to bind stands for \<open>socket\<close>, \<open>bind\<close> and \<open>listen\<close>, the first failure of which
  is its result; after a failure the new socket is closed.
\<close>

section \<open>Requests\<close>

datatype listen_error = Unsupported string | InvalidInput string | NotFound string | OsError string

datatype listen_request =
    CreatesDir string
  | RemovesFile string
  | BindsPath string
  | BindsAbstract "u8 list" nat
  | ConnectsPath string
  | ConnectsAbstract "u8 list" nat
  | TakesSocket int
  | ClearsListenVars

record listen_io =
  li_fails :: "listen_request \<Rightarrow> string option"
  li_exists :: "string \<Rightarrow> bool"
  li_random :: "u8 list"
  li_listen_pid :: "string option"
  li_listen_fds :: "string option"
  li_pid :: int

type_synonym 'a listening = "listen_request list \<times> (listen_error + 'a)"

definition request :: "listen_io \<Rightarrow> listen_request \<Rightarrow> 'a listening \<Rightarrow> 'a listening" where
  "request io r next_part =
     (case li_fails io r of
        Some e \<Rightarrow> ([r], Inl (OsError e))
      | None \<Rightarrow> (case next_part of (rs, x) \<Rightarrow> (r # rs, x)))"

definition request_ignored :: "listen_request \<Rightarrow> 'a listening \<Rightarrow> 'a listening" where
  "request_ignored r next_part = (case next_part of (rs, x) \<Rightarrow> (r # rs, x))"

section \<open>Abstract names\<close>

text \<open>The bytes of \<open>sun_path\<close> and the length of the address: the family, a zero byte and the name.\<close>

definition SUN_PATH_LEN :: nat where "SUN_PATH_LEN = 108"

definition build_abstract_sockaddr :: "u8 list \<Rightarrow> listen_error + (u8 list \<times> nat)" where
  "build_abstract_sockaddr name =
     (let max_len = SUN_PATH_LEN - 1 in
      if length name > max_len then Inl (InvalidInput ''abstract socket name too long'')
      else Inr (0 # name @ replicate (SUN_PATH_LEN - 1 - length name) 0, 2 + 1 + length name))"

definition bind_abstract :: "listen_io \<Rightarrow> u8 list \<Rightarrow> unit listening" where
  "bind_abstract io name =
     (case build_abstract_sockaddr name of
        Inl e \<Rightarrow> ([], Inl e)
      | Inr (sun_path, len) \<Rightarrow> request io (BindsAbstract sun_path len) ([], Inr ()))"

definition connect_abstract :: "listen_io \<Rightarrow> u8 list \<Rightarrow> unit listening" where
  "connect_abstract io name =
     (case build_abstract_sockaddr name of
        Inl e \<Rightarrow> ([], Inl e)
      | Inr (sun_path, len) \<Rightarrow> request io (ConnectsAbstract sun_path len) ([], Inr ()))"

section \<open>Sockets handed over by systemd\<close>

text \<open>\<open>str::parse\<close> at a signed type whose values are from \<open>- half\<close> and below \<open>half\<close>.\<close>

definition parse_int :: "nat \<Rightarrow> string \<Rightarrow> int option" where
  "parse_int half s =
     (case s of
        CHR ''-'' # r \<Rightarrow>
          (if prefix ''+'' r then None else map_option (\<lambda>n. - int n) (parse_uint (half + 1) r))
      | _ \<Rightarrow> map_option int (parse_uint half s))"

definition parse_i32 :: "string \<Rightarrow> int option" where
  "parse_i32 s = parse_int (2 ^ 31) s"

definition SD_LISTEN_FDS_START :: int where "SD_LISTEN_FDS_START = 3"

definition bind_systemd_activated :: "listen_io \<Rightarrow> address listening" where
  "bind_systemd_activated io =
     (case li_listen_pid io of
        None \<Rightarrow> ([], Inl (NotFound (''systemd: address given but LISTEN_PID is not set '' @
                   [CHR 0xE2, CHR 0x80, CHR 0x94] @ '' not socket-activated'')))
      | Some pid_var \<Rightarrow>
     (case li_listen_fds io of
        None \<Rightarrow> ([], Inl (NotFound (''systemd: address given but LISTEN_FDS is not set '' @
                   [CHR 0xE2, CHR 0x80, CHR 0x94] @ '' not socket-activated'')))
      | Some fds_var \<Rightarrow>
     (case parse_i32 pid_var of
        None \<Rightarrow> ([], Inl (InvalidInput ''LISTEN_PID is not a pid''))
      | Some expected_pid \<Rightarrow>
          if expected_pid \<noteq> li_pid io then
            ([], Inl (InvalidInput (''LISTEN_PID does not match our pid '' @ [CHR 0xE2, CHR 0x80, CHR 0x94] @
               '' these fds were meant for a different process'')))
          else
     (case parse_uint (2 ^ 32) fds_var of
        None \<Rightarrow> ([], Inl (InvalidInput ''LISTEN_FDS is not a count''))
      | Some count \<Rightarrow>
          if count = 0 then
            ([], Inl (NotFound (''LISTEN_FDS=0 '' @ [CHR 0xE2, CHR 0x80, CHR 0x94] @ '' systemd passed no sockets'')))
          else request io (TakesSocket SD_LISTEN_FDS_START) (request_ignored ClearsListenVars ([], Inr Systemd))))))"

section \<open>Addresses\<close>

text \<open>
  \<open>Path::parent\<close>: the path without its last component.  Slashes and \<open>.\<close> components at the end
  of what is left go with it; a path is taken from its end, so it is reversed here.
\<close>

fun trim_back :: "string \<Rightarrow> string" where
  "trim_back (CHR ''/'' # r) = trim_back r"
| "trim_back (CHR ''.'' # CHR ''/'' # r) = trim_back r"
| "trim_back r = r"

definition parent_dir :: "string \<Rightarrow> string option" where
  "parent_dir path =
     (let p = trim_back (rev path) in
      if p = [] then None
      else
        let front = dropWhile (\<lambda>c. c \<noteq> CHR ''/'') p in
        Some (if front = [] then [] else if trim_back front = [] then ''/'' else rev (trim_back front)))"

text \<open>Paths are equal when their components are.\<close>

definition path_components :: "string \<Rightarrow> string list" where
  "path_components s =
     (let parts = split_on CHR ''/'' s in
      (if prefix ''/'' s then [''/''] else if hd parts = ''.'' then [''.''] else []) @
      filter (\<lambda>c. c \<noteq> [] \<and> c \<noteq> ''.'') parts)"

definition bind_path :: "listen_io \<Rightarrow> string \<Rightarrow> address listening" where
  "bind_path io path =
     (let bind_it = request io (BindsPath path) ([], Inr (UnixPath path));
          clean = (if li_exists io path then request_ignored (RemovesFile path) bind_it else bind_it)
      in case parent_dir path of
           Some parent \<Rightarrow> request io (CreatesDir parent) clean
         | None \<Rightarrow> clean)"

definition bind_address :: "listen_io \<Rightarrow> address \<Rightarrow> address listening" where
  "bind_address io addr =
     (case addr of
        UnixPath path \<Rightarrow> bind_path io path
      | UnixAbstract name \<Rightarrow>
          (case bind_abstract io (as_bytes name) of
             (rs, Inl e) \<Rightarrow> (rs, Inl e)
           | (rs, Inr _) \<Rightarrow> (rs, Inr (UnixAbstract name)))
      | UnixTmpdir dir \<Rightarrow>
          let path = path_join dir (''oxibus-'' @ hex_encode (li_random io))
          in request io (BindsPath path) ([], Inr (UnixPath path))
      | Tcp _ _ \<Rightarrow>
          ([], Inl (Unsupported ''tcp: transport intentionally unsupported (Zainium is unix-socket-only, matches -Dx11_autolaunch=disabled / no remote bus)''))
      | Systemd \<Rightarrow> bind_systemd_activated io)"

definition connect_address :: "listen_io \<Rightarrow> address \<Rightarrow> unit listening" where
  "connect_address io addr =
     (case addr of
        UnixPath path \<Rightarrow> request io (ConnectsPath path) ([], Inr ())
      | UnixAbstract name \<Rightarrow> connect_abstract io (as_bytes name)
      | UnixTmpdir _ \<Rightarrow>
          ([], Inl (InvalidInput ''unix:tmpdir= is a listen-only address form (server picks the path)''))
      | Tcp _ _ \<Rightarrow> ([], Inl (Unsupported ''tcp: transport intentionally unsupported''))
      | Systemd \<Rightarrow>
          ([], Inl (InvalidInput ''systemd: is a listen-only address form (clients connect to the real socket path)'')))"

end
