(* ===== verification/Launch_Helper.thy ===== *)
theory Launch_Helper
  imports Bus
begin

text \<open>
  \<open>oxibus-daemon/src/bin/dbus-daemon-launch-helper.rs\<close>: the setuid-root program that starts
  services of the system bus as their users.  A run is the list of the privileged calls it
  makes, in order, and an exit code or the process image it turns into.  The system's answers
  are an argument; \<open>None\<close> is a panic of the standard library over text that is not UTF-8.
\<close>

section \<open>The process\<close>

record passwd =
  pw_uid :: u32
  pw_gid :: u32

datatype privileged_call = Initgroups string u32 | Setgid u32 | Setuid u32

record process_image =
  im_program :: string
  im_args :: "string list"
  im_env :: "(string \<times> string) list"

record helper_io =
  lh_exists :: "string \<Rightarrow> bool"
  lh_config :: config_io
  lh_real_uid :: u32
  lh_effective_uid :: u32
  lh_getpwnam :: "string \<Rightarrow> passwd option"
  lh_load :: load_io
  lh_succeeds :: "privileged_call \<Rightarrow> bool"
  lh_exec :: "process_image \<Rightarrow> string option"

definition config_error_text :: "config_error \<Rightarrow> string" where
  "config_error_text e =
     (case e of
        ConfigIo path source \<Rightarrow> ''read '' @ path @ '': '' @ source
      | ConfigParse path source \<Rightarrow> ''parse '' @ path @ '': '' @ source)"

section \<open>Environment\<close>

fun remove_vars :: "string list \<Rightarrow> (string \<times> string) list \<Rightarrow> (string \<times> string) list" where
  "remove_vars [] env = env"
| "remove_vars (k # ks) env = remove_vars ks (AList.delete k env)"

definition clear_environment :: "(string \<times> string) list \<Rightarrow> (string \<times> string) list option" where
  "clear_environment env =
     (if list_all (\<lambda>(k, v). valid_utf8 k \<and> valid_utf8 v) env then
        Some (AList.update ''LD_LIBRARY_PATH'' ''/overlayer/syshub/lib:/usr/lib:/lib''
          (AList.update ''PATH'' ''/overlayer/syshub/bin:/overlayer/syshub/sbin:/usr/bin:/usr/sbin:/bin:/sbin''
            (AList.update ''OXIBUS_STARTER_BUS_TYPE'' ''system''
              (AList.update ''DBUS_STARTER_BUS_TYPE'' ''system'' (remove_vars (map fst env) env)))))
      else None)"

section \<open>Users\<close>

definition helper_resolve_uid :: "helper_io \<Rightarrow> string \<Rightarrow> u32 option" where
  "helper_resolve_uid io user =
     (if CHR 0x00 \<in> set user then None else map_option pw_uid (lh_getpwnam io user))"

definition switch_user :: "helper_io \<Rightarrow> string \<Rightarrow> privileged_call list \<times> (helper_error + unit)" where
  "switch_user io user =
     (if CHR 0x00 \<in> set user then ([], Inl (UnknownUser user))
      else (case lh_getpwnam io user of
              None \<Rightarrow> ([], Inl (UnknownUser user))
            | Some pw \<Rightarrow>
                let gid = pw_gid pw; uid = pw_uid pw in
                if \<not> lh_succeeds io (Initgroups user gid) then
                  ([Initgroups user gid], Inl (SetupFailed ''could not initialize groups''))
                else if \<not> lh_succeeds io (Setgid gid) then
                  ([Initgroups user gid, Setgid gid],
                   Inl (SetupFailed (''cannot setgid to '' @ show_nat (unat gid))))
                else if \<not> lh_succeeds io (Setuid uid) then
                  ([Initgroups user gid, Setgid gid, Setuid uid],
                   Inl (SetupFailed (''cannot setuid to '' @ show_nat (unat uid))))
                else ([Initgroups user gid, Setgid gid, Setuid uid], Inr ())))"

section \<open>The run\<close>

definition TRUSTED_CONFIG_PATH :: string where
  "TRUSTED_CONFIG_PATH = ''/etc/oxibus/oxibus.toml''"

definition trusted_paths :: "string list" where
  "trusted_paths = [''/overlayer/syshub/etc/oxibus/oxibus.toml'', TRUSTED_CONFIG_PATH]"

fun load_trusted ::
  "helper_io \<Rightarrow> string list \<Rightarrow> helper_error option \<Rightarrow> helper_error + global_config" where
  "load_trusted io [] last_err =
     (case last_err of
        Some e \<Rightarrow> Inl e
      | None \<Rightarrow> Inl (ConfigInvalid TRUSTED_CONFIG_PATH ''Config file not found''))"
| "load_trusted io (path # paths) last_err =
     (if lh_exists io path then
        (case load_path (lh_config io) path of
           Inr c \<Rightarrow> Inr c
         | Inl e \<Rightarrow> load_trusted io paths (Some (ConfigInvalid path (config_error_text e))))
      else load_trusted io paths last_err)"

definition find_definition :: "helper_io \<Rightarrow> global_config \<Rightarrow> string \<Rightarrow> helper_error + service_def" where
  "find_definition io cfg bus_name =
     (let dirs = helper_service_dirs (pc_services_dir (cfg_paths cfg)) (pc_vendor_services_dir (cfg_paths cfg))
                   (pc_prefix (cfg_paths cfg))
      in find_service (load_services (toml_service (lh_load io)) (map (list_service_dir (lh_load io)) dirs)) bus_name)"

definition prepare :: "helper_io \<Rightarrow> string \<Rightarrow> helper_error + service_def" where
  "prepare io bus_name =
     (if \<not> is_valid_bus_name bus_name then Inl (InvalidBusName bus_name)
      else and_then (load_trusted io trusted_paths None) (\<lambda>cfg.
           and_then (check_permissions (bs_user (bc_system (cfg_bus cfg))) (lh_real_uid io)
                       (lh_effective_uid io) (helper_resolve_uid io)) (\<lambda>_.
           find_definition io cfg bus_name)))"

definition helper_run ::
  "helper_io \<Rightarrow> (string \<times> string) list \<Rightarrow> string \<Rightarrow>
     (privileged_call list \<times> (helper_error + process_image)) option" where
  "helper_run io env bus_name =
     Option.bind (clear_environment env) (\<lambda>env.
       case prepare io bus_name of
         Inl e \<Rightarrow> Some ([], Inl e)
       | Inr def \<Rightarrow>
           Option.bind (sv_user def) (\<lambda>user.
             case switch_user io user of
               (privileged, Inl e) \<Rightarrow> Some (privileged, Inl e)
             | (privileged, Inr _) \<Rightarrow>
                 let img = \<lparr>im_program = sv_exec def, im_args = sv_args def, im_env = env\<rparr> in
                 (case lh_exec io img of
                    None \<Rightarrow> Some (privileged, Inr img)
                  | Some err \<Rightarrow>
                      Some (privileged, Inl (HelperExecFailed
                        (''failed to exec '' @ single_quoted (sv_exec def) @ '': '' @ err))))))"

datatype helper_outcome = Exits int | Becomes process_image

definition helper_main ::
  "helper_io \<Rightarrow> (string \<times> string) list \<Rightarrow> string list \<Rightarrow>
     (privileged_call list \<times> helper_outcome) option" where
  "helper_main io env args =
     (if \<not> list_all valid_utf8 args then None
      else (case parse_args args of
              Inl _ \<Rightarrow>
                Some ([], Exits (if list_ex (\<lambda>a. a = ''--help'' \<or> a = ''-h'' \<or> a = ''-?'') args then 0
                                 else exit_code InvalidArgs))
            | Inr name \<Rightarrow>
                map_option (\<lambda>(privileged, r).
                  (privileged, case r of Inl e \<Rightarrow> Exits (exit_code e) | Inr img \<Rightarrow> Becomes img))
                  (helper_run io env name)))"

section \<open>What it becomes\<close>

definition helper_environment :: "(string \<times> string) list" where
  "helper_environment =
     [(''DBUS_STARTER_BUS_TYPE'', ''system''), (''OXIBUS_STARTER_BUS_TYPE'', ''system''),
      (''PATH'', ''/overlayer/syshub/bin:/overlayer/syshub/sbin:/usr/bin:/usr/sbin:/bin:/sbin''),
      (''LD_LIBRARY_PATH'', ''/overlayer/syshub/lib:/usr/lib:/lib'')]"

lemma remove_vars_keys: "set (map fst (remove_vars ks env)) = set (map fst env) - set ks"
proof (induction ks arbitrary: env)
  case (Cons k ks)
  have "set (map fst (AList.delete k env)) = set (map fst env) - {k}"
    by (simp add: delete_keys)
  then show ?case using Cons.IH [of "AList.delete k env"] by auto
qed simp

lemma clear_environment_Some:
  "clear_environment env = Some env' \<longleftrightarrow>
     list_all (\<lambda>(k, v). valid_utf8 k \<and> valid_utf8 v) env \<and> env' = helper_environment"
proof -
  have "remove_vars (map fst env) env = []"
    using remove_vars_keys [of "map fst env" env] by simp
  then show ?thesis
    by (auto simp: clear_environment_def helper_environment_def)
qed

lemma switch_user_Inr:
  "switch_user io user = (privileged, Inr u) \<longleftrightarrow>
     CHR 0x00 \<notin> set user \<and>
     (\<exists>pw. lh_getpwnam io user = Some pw \<and> list_all (lh_succeeds io) privileged \<and>
        privileged = [Initgroups user (pw_gid pw), Setgid (pw_gid pw), Setuid (pw_uid pw)])"
  by (auto simp: switch_user_def Let_def split: option.split)

lemma load_trusted_Inr:
  "load_trusted io paths e = Inr cfg \<Longrightarrow> \<exists>path \<in> set paths. lh_exists io path \<and> load_path (lh_config io) path = Inr cfg"
  by (induction paths arbitrary: e) (auto split: if_splits sum.splits option.splits)

lemma check_permissions_Inr:
  "check_permissions user real effective resolve = Inr u \<longleftrightarrow> resolve user = Some real \<and> effective = 0"
  by (auto simp: check_permissions_def split: option.split)

lemma helper_run_Inr:
  "helper_run io env n = Some (privileged, Inr img) \<longleftrightarrow>
     (\<exists>def user. prepare io n = Inr def \<and> sv_user def = Some user \<and>
        switch_user io user = (privileged, Inr ()) \<and> lh_exec io img = None \<and>
        list_all (\<lambda>(k, v). valid_utf8 k \<and> valid_utf8 v) env \<and>
        img = \<lparr>im_program = sv_exec def, im_args = sv_args def, im_env = helper_environment\<rparr>)"
proof (cases "clear_environment env")
  case None
  then have "\<not> list_all (\<lambda>(k, v). valid_utf8 k \<and> valid_utf8 v) env"
    by (simp add: clear_environment_def split: if_splits)
  then show ?thesis using None by (simp add: helper_run_def)
next
  case (Some env')
  then have env: "list_all (\<lambda>(k, v). valid_utf8 k \<and> valid_utf8 v) env" "env' = helper_environment"
    by (simp_all add: clear_environment_Some)
  show ?thesis
  proof (cases "prepare io n")
    case (Inl e)
    then show ?thesis using Some by (simp add: helper_run_def)
  next
    case (Inr def)
    show ?thesis
    proof (cases "sv_user def")
      case None
      then show ?thesis using Some Inr by (simp add: helper_run_def)
    next
      case user: (Some user)
      obtain p r where "switch_user io user = (p, r)" by fastforce
      then show ?thesis
        using Some Inr user env by (cases r) (auto simp: helper_run_def Let_def split: option.split)
    qed
  qed
qed

lemma prepare_Inr:
  "prepare io n = Inr def \<longleftrightarrow>
     is_valid_bus_name n \<and>
     (\<exists>cfg. load_trusted io trusted_paths None = Inr cfg \<and>
        helper_resolve_uid io (bs_user (bc_system (cfg_bus cfg))) = Some (lh_real_uid io) \<and>
        lh_effective_uid io = 0 \<and> find_definition io cfg n = Inr def)"
  by (auto simp: prepare_def result_simps check_permissions_Inr split: sum.splits)

text \<open>The helper reads the service files of the system bus.\<close>

lemma helper_reads_the_bus_dirs:
  "helper_service_dirs (pc_services_dir (cfg_paths cfg)) (pc_vendor_services_dir (cfg_paths cfg))
     (pc_prefix (cfg_paths cfg)) = service_dirs System cfg"
  by (simp add: helper_service_dirs_def service_dirs_def Let_def)

lemma find_definition_bus:
  "find_definition io cfg n = Inr def \<longleftrightarrow>
     map_of (bu_activation (bus_new (lh_load io) g System cfg)) n = Some def \<and> sv_user def \<noteq> None"
  by (simp add: find_definition_def helper_reads_the_bus_dirs bus_new_def find_service_loaded load_services_wf Let_def)

end
