(* ===== verification/Daemon_Start.thy ===== *)
theory Daemon_Start
  imports Dispatch Listener Launch_Helper
begin

text \<open>
  \<open>oxibus-daemon/src/main.rs\<close>, \<open>audit.rs\<close> and \<open>sd_notify.rs\<close>: how the daemon starts, what it
  tells the system about itself, and how it ends.  A start is the list of what it does to the
  outside, in order, and an error or the running daemon with its process.  Log messages are
  left out but for the two warnings after which the daemon goes on differently than asked.
\<close>

section \<open>Auditing\<close>

text \<open>\<open>dlopen\<close>, \<open>dlsym\<close> and the functions of \<open>libaudit\<close>; the state is \<open>AUDIT_LIB\<close> and \<open>AUDIT_FD\<close>.\<close>

record audit_io =
  au_library :: "string \<Rightarrow> bool"
  au_symbol :: "string \<Rightarrow> bool"
  au_open :: int

record audit_state =
  audit_lib :: "bool option"
  audit_fd :: "int option"

datatype audit_entry = KernelAvc int int string u32 | LogAvc u32 string

definition AUDIT_USER_AVC :: int where "AUDIT_USER_AVC = 1107"

definition audit_lib_available :: "audit_io \<Rightarrow> bool" where
  "audit_lib_available io \<longleftrightarrow>
     (au_library io ''libaudit.so.1'' \<or> au_library io ''libaudit.so'') \<and>
     au_symbol io ''audit_open'' \<and> au_symbol io ''audit_log_user_avc_message'' \<and>
     au_symbol io ''audit_close''"

definition get_audit_lib :: "audit_io \<Rightarrow> audit_state \<Rightarrow> bool \<times> audit_state" where
  "get_audit_lib io s =
     (case audit_lib s of
        Some b \<Rightarrow> (b, s)
      | None \<Rightarrow> (audit_lib_available io, s\<lparr>audit_lib := Some (audit_lib_available io)\<rparr>))"

definition audit_init :: "audit_io \<Rightarrow> audit_state \<Rightarrow> audit_state" where
  "audit_init io s =
     (case get_audit_lib io s of
        (True, s) \<Rightarrow>
          if au_open io \<ge> 0 \<and> audit_fd s = None then s\<lparr>audit_fd := Some (au_open io)\<rparr> else s
      | (False, s) \<Rightarrow> s)"

definition log_avc :: "audit_io \<Rightarrow> u32 \<Rightarrow> string \<Rightarrow> audit_state \<Rightarrow> audit_entry \<times> audit_state" where
  "log_avc io who msg s =
     (case get_audit_lib io s of
        (True, s) \<Rightarrow>
          (case audit_fd s of
             Some fd \<Rightarrow>
               if fd \<ge> 0 \<and> CHR 0x00 \<notin> set msg then (KernelAvc fd AUDIT_USER_AVC msg who, s)
               else (LogAvc who msg, s)
           | None \<Rightarrow> (LogAvc who msg, s))
      | (False, s) \<Rightarrow> (LogAvc who msg, s))"

text \<open>The descriptor that \<open>shutdown\<close> closes.\<close>

definition audit_shutdown :: "audit_io \<Rightarrow> audit_state \<Rightarrow> int option" where
  "audit_shutdown io s =
     (case get_audit_lib io s of
        (True, s) \<Rightarrow> (case audit_fd s of Some fd \<Rightarrow> if fd \<ge> 0 then Some fd else None | None \<Rightarrow> None)
      | (False, _) \<Rightarrow> None)"

section \<open>What a start does\<close>

record process =
  ps_pid :: int
  ps_uid :: u32
  ps_euid :: u32

datatype start_event =
    Prints string
  | CreatesParent string
  | WritesFile string string
  | Listens listen_request
  | SetsMode string nat
  | Forks int
  | ForkFails
  | StartsSession
  | SeversStdio
  | Privileged privileged_call
  | PrivilegesKept string
  | Notifies "u8 list" nat "u8 list"
  | RemovesSocket string
  | RemovesPidFile string
  | ClosesAudit int

datatype start_error =
    MissingBusKind
  | StartConfig config_error
  | StartAddress core_error
  | StartListen listen_error

record daemon_args =
  da_system :: bool
  da_session :: bool
  da_config :: "string option"
  da_address :: "string option"
  da_print_address :: bool
  da_print_pid :: bool
  da_fork :: bool
  da_nopidfile :: bool
  da_introspect :: bool

text \<open>
  The answers of the system: files, the two forks and \<open>setsid\<close>, the user database, the ids the
  process has after a \<open>setuid\<close>, and the environment.
\<close>

record start_io =
  st_config :: config_io
  st_load :: load_io
  st_audit :: audit_io
  st_listen :: listen_io
  st_read_file :: "string \<Rightarrow> string option"
  st_guid :: "u8 list"
  st_machine_guid :: "u8 list"
  st_fork :: "int option"
  st_setsid :: bool
  st_second_fork :: "int option"
  st_devnull :: bool
  st_getpwnam :: "string \<Rightarrow> passwd option"
  st_succeeds :: "privileged_call \<Rightarrow> bool"
  st_ids_after :: "u32 \<Rightarrow> u32 \<times> u32"
  st_notify_socket :: "string option"
  st_notify_reachable :: bool

record daemon =
  dm_bus :: bus
  dm_process :: process
  dm_listening :: "address list"
  dm_sockets :: "string list"
  dm_audit :: audit_state

section \<open>Files\<close>

definition generate_guid_hex :: "u8 list \<Rightarrow> string" where
  "generate_guid_hex random_bytes = hex_encode random_bytes"

definition creates_parent :: "string \<Rightarrow> start_event list" where
  "creates_parent path = (case parent_dir path of Some parent \<Rightarrow> [CreatesParent parent] | None \<Rightarrow> [])"

definition load_or_create_machine_id :: "start_io \<Rightarrow> bus \<Rightarrow> start_event list \<times> bus" where
  "load_or_create_machine_id io b =
     (let path = pc_machine_id_file (cfg_paths (bu_config b));
          generated = generate_guid_hex (st_machine_guid io);
          create = (creates_parent path @ [WritesFile path generated], set_guid generated b)
      in case st_read_file io path of
           Some existing \<Rightarrow> if trim existing \<noteq> [] then ([], set_guid (trim existing) b) else create
         | None \<Rightarrow> create)"

definition show_int :: "int \<Rightarrow> string" where
  "show_int i = (if i < 0 then CHR ''-'' # show_nat (nat (- i)) else show_nat (nat i))"

definition write_pid_file :: "bus \<Rightarrow> process \<Rightarrow> start_event list" where
  "write_pid_file b p =
     (let path = pc_system_pid_file (cfg_paths (bu_config b))
      in creates_parent path @ [WritesFile path (show_int (ps_pid p))])"

section \<open>Listening\<close>

definition legacy_differs :: "bus \<Rightarrow> bool" where
  "legacy_differs b \<longleftrightarrow>
     path_components (pc_system_socket (cfg_paths (bu_config b))) \<noteq>
     path_components (pc_legacy_system_socket (cfg_paths (bu_config b)))"

text \<open>The addresses to listen on, and whether a pid file belongs to them.\<close>

definition listen_addresses :: "daemon_args \<Rightarrow> bus \<Rightarrow> start_error + address list \<times> bool" where
  "listen_addresses args b =
     (case da_address args of
        Some addr_str \<Rightarrow>
          (case parse_address addr_str of
             Inl e \<Rightarrow> Inl (StartAddress e)
           | Inr a \<Rightarrow> Inr ([a], bu_kind b = System))
      | None \<Rightarrow>
          (case bu_kind b of
             System \<Rightarrow>
               Inr (UnixPath (pc_system_socket (cfg_paths (bu_config b))) #
                      (if legacy_differs b then [UnixPath (pc_legacy_system_socket (cfg_paths (bu_config b)))]
                       else []), True)
           | Session \<Rightarrow>
               (case parse_address (bn_listen (bc_session (cfg_bus (bu_config b)))) of
                  Inl e \<Rightarrow> Inl (StartAddress e)
                | Inr a \<Rightarrow> Inr ([a], False))))"

definition socket_paths :: "address \<Rightarrow> string list" where
  "socket_paths a = (case a of UnixPath p \<Rightarrow> [p] | _ \<Rightarrow> [])"

fun bind_all ::
  "listen_io \<Rightarrow> bool \<Rightarrow> address list \<Rightarrow> start_event list \<times> (start_error + address list)" where
  "bind_all io print_address [] = ([], Inr [])"
| "bind_all io print_address (a # as) =
     (case bind_address io a of
        (rs, Inl e) \<Rightarrow> (map Listens rs, Inl (StartListen e))
      | (rs, Inr effective) \<Rightarrow>
          let here = map Listens rs @
                (if print_address then [Prints (to_address_string effective)] else []) @
                map (\<lambda>p. SetsMode p 438) (socket_paths effective)
          in case bind_all io print_address as of
               (evs, r) \<Rightarrow> (here @ evs, map_sum id (\<lambda>effs. effective # effs) r))"

section \<open>Going into the background\<close>

definition daemonize :: "start_io \<Rightarrow> process \<Rightarrow> start_event list \<times> process \<times> bool" where
  "daemonize io p =
     (case st_fork io of
        None \<Rightarrow> ([], p, False)
      | Some child \<Rightarrow>
          let p = p\<lparr>ps_pid := child\<rparr> in
          if \<not> st_setsid io then ([Forks child], p, False)
          else (case st_second_fork io of
                  None \<Rightarrow> ([Forks child, StartsSession], p, False)
                | Some grandchild \<Rightarrow>
                    ([Forks child, StartsSession, Forks grandchild] @
                       (if st_devnull io then [SeversStdio] else []),
                     p\<lparr>ps_pid := grandchild\<rparr>, True)))"

section \<open>Giving up root\<close>

definition drop_privileges :: "start_io \<Rightarrow> string \<Rightarrow> process \<Rightarrow> privileged_call list \<times> process \<times> bool" where
  "drop_privileges io user p =
     (if ps_uid p \<noteq> 0 then ([], p, True)
      else if CHR 0x00 \<in> set user then ([], p, False)
      else (case st_getpwnam io user of
              None \<Rightarrow> ([], p, False)
            | Some pw \<Rightarrow>
                let groups = Initgroups user (pw_gid pw); gid = Setgid (pw_gid pw); uid = Setuid (pw_uid pw)
                in if \<not> st_succeeds io groups then ([groups], p, False)
                   else if \<not> st_succeeds io gid then ([groups, gid], p, False)
                   else if \<not> st_succeeds io uid then ([groups, gid, uid], p, False)
                   else
                     let ids = st_ids_after io (pw_uid pw);
                         p = p\<lparr>ps_uid := fst ids, ps_euid := snd ids\<rparr>
                     in ([groups, gid, uid], p, fst ids = pw_uid pw \<and> snd ids = pw_uid pw)))"

section \<open>Telling systemd\<close>

definition notify_target :: "string \<Rightarrow> (u8 list \<times> nat) option" where
  "notify_target path =
     (let bytes = as_bytes path;
          is_abstract = bytes \<noteq> [] \<and> hd bytes = byte_of (CHR ''@'');
          dest = (if is_abstract then tl bytes else bytes);
          offset = (if is_abstract then 1 else 0);
          max_len = SUN_PATH_LEN - offset - 1
      in if length dest > max_len then None
         else Some (replicate offset 0 @ dest @ replicate (SUN_PATH_LEN - offset - length dest) 0,
                    2 + offset + length dest))"

definition notify :: "start_io \<Rightarrow> string \<Rightarrow> start_event list" where
  "notify io state =
     (case st_notify_socket io of
        None \<Rightarrow> []
      | Some path \<Rightarrow>
          if path = [] \<or> \<not> st_notify_reachable io then []
          else (case notify_target path of
                  None \<Rightarrow> []
                | Some (sun_path, len) \<Rightarrow> [Notifies sun_path len (as_bytes state)]))"

definition notify_ready :: "start_io \<Rightarrow> process \<Rightarrow> start_event list" where
  "notify_ready io p = notify io (''READY=1'' @ [CHR 0x0A] @ ''MAINPID='' @ show_int (ps_pid p))"

section \<open>The start\<close>

definition loaded_config :: "start_io \<Rightarrow> daemon_args \<Rightarrow> start_error + global_config" where
  "loaded_config io args =
     (case da_config args of
        Some path \<Rightarrow> map_sum StartConfig id (load_path (st_config io) path)
      | None \<Rightarrow> Inr (load_default (st_config io)))"

definition become_ready :: "start_io \<Rightarrow> daemon_args \<Rightarrow> bus \<Rightarrow> process \<Rightarrow> start_event list \<times> process" where
  "become_ready io args b p =
     (let (forking, p) =
            (if da_fork args then
               (case daemonize io p of
                  (evs, p, ok) \<Rightarrow> (evs @ (if ok then [] else [ForkFails]), p))
             else ([], p));
          user = bs_user (bc_system (cfg_bus (bu_config b)));
          (dropping, p) =
            (if bu_kind b = System then
               (case drop_privileges io user p of
                  (calls, p, ok) \<Rightarrow> (map Privileged calls @ (if ok then [] else [PrivilegesKept user]), p))
             else ([], p))
      in (forking @ dropping @ notify_ready io p, p))"

definition async_main ::
  "start_io \<Rightarrow> daemon_args \<Rightarrow> process \<Rightarrow> start_event list \<times> (start_error + daemon)" where
  "async_main io args p =
     (let kind = (if da_system args then System else Session);
          au = audit_init (st_audit io) \<lparr>audit_lib = None, audit_fd = None\<rparr>
      in case loaded_config io args of
           Inl e \<Rightarrow> ([], Inl e)
         | Inr cfg \<Rightarrow>
             let b = bus_new (st_load io) (generate_guid_hex (st_guid io)) kind cfg;
                 (id_evs, b) = (if kind = System then load_or_create_machine_id io b else ([], b))
             in case listen_addresses args b of
                  Inl e \<Rightarrow> (id_evs, Inl e)
                | Inr (addresses, write_pid) \<Rightarrow>
                    let evs = id_evs @
                          (if write_pid \<and> \<not> da_nopidfile args then write_pid_file b p else []) @
                          (if da_print_pid args then [Prints (show_int (ps_pid p))] else [])
                    in case bind_all (st_listen io) (da_print_address args) addresses of
                         (binding, Inl e) \<Rightarrow> (evs @ binding, Inl e)
                       | (binding, Inr effective) \<Rightarrow>
                           let (last_evs, p') = become_ready io args b p
                           in (evs @ binding @ last_evs,
                               Inr \<lparr>dm_bus = b, dm_process = p', dm_listening = effective,
                                    dm_sockets = concat (map socket_paths effective), dm_audit = au\<rparr>))"

datatype started_daemon = Exited | Serving daemon

definition main ::
  "start_io \<Rightarrow> daemon_args \<Rightarrow> process \<Rightarrow> start_event list \<times> (start_error + started_daemon)" where
  "main io args p =
     (if da_introspect args then ([Prints driver_introspection_xml], Inr Exited)
      else if \<not> da_system args \<and> \<not> da_session args then ([], Inl MissingBusKind)
      else (case async_main io args p of (evs, r) \<Rightarrow> (evs, map_sum id Serving r)))"

section \<open>Signals\<close>

text \<open>A hangup comes with what the daemon reads when it reloads its policy.\<close>

datatype daemon_signal = Hangup load_io | Terminate | Interrupt

definition shut_down :: "audit_io \<Rightarrow> daemon \<Rightarrow> start_event list" where
  "shut_down io d =
     (case audit_shutdown io (dm_audit d) of Some fd \<Rightarrow> [ClosesAudit fd] | None \<Rightarrow> []) @
     map RemovesSocket (dm_sockets d) @
     (if bu_kind (dm_bus d) = System then
        [RemovesPidFile (pc_system_pid_file (cfg_paths (bu_config (dm_bus d))))]
      else [])"

text \<open>The daemon after the signals, or \<open>None\<close> when it has exited, and what it did to the outside.\<close>

fun handle_signals ::
  "audit_io \<Rightarrow> daemon_signal list \<Rightarrow> daemon \<Rightarrow> start_event list \<times> daemon option" where
  "handle_signals io [] d = ([], Some d)"
| "handle_signals io (Hangup l # s) d = handle_signals io s (d\<lparr>dm_bus := reload_policy l (dm_bus d)\<rparr>)"
| "handle_signals io (Terminate # s) d = (shut_down io d, None)"
| "handle_signals io (Interrupt # s) d = (shut_down io d, None)"

end
