(* ===== verification/Startup_Properties.thy ===== *)
theory Startup_Properties
  imports Daemon_Start Mediation
begin

text \<open>
  The properties of the start of the daemon and of the launch helper: who runs what as which
  user, what is published when, and which socket is taken.
\<close>

section \<open>The launch helper\<close>

lemma helper_outcome_becomes [simp]:
  "(case r of Inl e \<Rightarrow> Exits (exit_code e) | Inr img \<Rightarrow> Becomes img) = Becomes i \<longleftrightarrow> r = Inr i"
  by (cases r) auto

lemma parse_args_Inr: "parse_args args = Inr n \<longleftrightarrow> args = [n] \<and> n \<notin> {''--help'', ''-h'', ''-?''}"
  by (auto simp: parse_args_def split: list.splits)

lemma helper_main_Becomes:
  "helper_main io env args = Some (privileged, Becomes img) \<longleftrightarrow>
     list_all valid_utf8 args \<and>
     (\<exists>n. parse_args args = Inr n \<and> helper_run io env n = Some (privileged, Inr img))"
  by (cases "parse_args args") (auto simp: helper_main_def)

text \<open>C14. The helper becomes a program exactly when it was given the one name of a service in the tables
  of a system bus with the trusted configuration, by the bus's user and with root's rights; it
  becomes the program of this service, with its arguments and the fixed environment, after it
  has taken on the groups, the group and the user id of the service's user, in this order.\<close>

theorem helper_becomes_exactly:
  "helper_main io env args = Some (privileged, Becomes img) \<longleftrightarrow>
     list_all valid_utf8 args \<and> list_all (\<lambda>(k, v). valid_utf8 k \<and> valid_utf8 v) env \<and>
     (\<exists>n cfg def user pw.
        args = [n] \<and> n \<notin> {''--help'', ''-h'', ''-?''} \<and> is_valid_bus_name n \<and>
        load_trusted io trusted_paths None = Inr cfg \<and>
        helper_resolve_uid io (bs_user (bc_system (cfg_bus cfg))) = Some (lh_real_uid io) \<and>
        lh_effective_uid io = 0 \<and>
        map_of (bu_activation (bus_new (lh_load io) g System cfg)) n = Some def \<and>
        sv_user def = Some user \<and> CHR 0x00 \<notin> set user \<and> lh_getpwnam io user = Some pw \<and>
        privileged = [Initgroups user (pw_gid pw), Setgid (pw_gid pw), Setuid (pw_uid pw)] \<and>
        list_all (lh_succeeds io) privileged \<and>
        img = \<lparr>im_program = sv_exec def, im_args = sv_args def, im_env = helper_environment\<rparr> \<and>
        lh_exec io img = None)"
  unfolding helper_main_Becomes parse_args_Inr helper_run_Inr prepare_Inr switch_user_Inr
    find_definition_bus [where g = g] by blast

text \<open>C8. What becomes of a service that the system bus starts through the helper: the daemon runs the
  helper with nothing but the service's name, and when the helper trusts the same
  configuration, is set up as root's and runs for the bus's user, it becomes the program of
  the daemon's own table as the service's user, or exits when that user cannot be taken on.\<close>

theorem activated_service_runs_as_its_user:
  assumes "spawn pio (bu_activation (bus_new (lh_load io) g System cfg)) n env (ViaLaunchHelper helper) = Inr cmd"
    and "is_valid_bus_name n" "valid_utf8 n" "list_all (\<lambda>(k, v). valid_utf8 k \<and> valid_utf8 v) henv"
    and "load_trusted io trusted_paths None = Inr cfg" "lh_effective_uid io = 0"
      "helper_resolve_uid io (bs_user (bc_system (cfg_bus cfg))) = Some (lh_real_uid io)"
  shows "cmd_program cmd = helper \<and>
    (\<exists>def user. map_of (bu_activation (bus_new (lh_load io) g System cfg)) n = Some def \<and>
       sv_user def = Some user \<and>
       helper_main io henv (cmd_args cmd) =
         (let img = \<lparr>im_program = sv_exec def, im_args = sv_args def, im_env = helper_environment\<rparr>
          in case switch_user io user of
               (privileged, Inl e) \<Rightarrow> Some (privileged, Exits (exit_code e))
             | (privileged, Inr _) \<Rightarrow>
                 Some (privileged,
                   case lh_exec io img of None \<Rightarrow> Becomes img | Some err \<Rightarrow> Exits (exit_code (HelperExecFailed err)))))"
proof -
  obtain def user where def: "map_of (bu_activation (bus_new (lh_load io) g System cfg)) n = Some def"
    "sv_user def = Some user" "cmd = \<lparr>cmd_program = helper, cmd_args = [n], cmd_env = []\<rparr>"
    using assms(1) by (auto simp: spawn_Inr)
  have "prepare io n = Inr def"
    using assms(2,5-7) def(1,2) find_definition_bus [where g = g] by (auto simp: prepare_Inr)
  moreover have "n \<notin> {''--help'', ''-h'', ''-?''}"
  proof
    assume "n \<in> {''--help'', ''-h'', ''-?''}"
    moreover have "\<not> is_valid_bus_name ''--help''" "\<not> is_valid_bus_name ''-h''" "\<not> is_valid_bus_name ''-?''"
      by code_simp+
    ultimately show False using assms(2) by auto
  qed
  moreover have "clear_environment henv = Some helper_environment"
    using assms(4) by (simp add: clear_environment_Some)
  ultimately have "helper_main io henv (cmd_args cmd) =
         (let img = \<lparr>im_program = sv_exec def, im_args = sv_args def, im_env = helper_environment\<rparr>
          in case switch_user io user of
               (privileged, Inl e) \<Rightarrow> Some (privileged, Exits (exit_code e))
             | (privileged, Inr _) \<Rightarrow>
                 Some (privileged,
                   case lh_exec io img of None \<Rightarrow> Becomes img | Some err \<Rightarrow> Exits (exit_code (HelperExecFailed err))))"
    using def assms(3)
    by (cases "switch_user io user")
       (auto simp: helper_main_def parse_args_def helper_run_def Let_def split: sum.split option.split)
  then show ?thesis using def by auto
qed

text \<open>The sample: a bus with one service, \<open>a.b\<close>, that user 7 runs.\<close>

definition service_load :: load_io where
  "service_load =
     \<lparr>toml_policy = \<lambda>_. None,
      toml_service = \<lambda>_. Some \<lparr>sv_name = ''a.b'', sv_exec = ''/b'', sv_args = [''-x''],
        sv_user = Some ''u'', sv_environment = [(''A'', ''1'')]\<rparr>,
      list_policy_dir = \<lambda>_. NotADirectory,
      list_service_dir = \<lambda>d. if d = ''/etc/oxibus/services'' then Some [(''b.toml'', Some [])] else None\<rparr>"

definition service_helper :: helper_io where
  "service_helper =
     \<lparr>lh_exists = \<lambda>_. True,
      lh_config = \<lparr>cf_read = \<lambda>_. Inr [], cf_parse = \<lambda>_. Inr global_config_default, cf_env = None\<rparr>,
      lh_real_uid = 81, lh_effective_uid = 0,
      lh_getpwnam = \<lambda>n. Some (if n = ''u'' then \<lparr>pw_uid = 7, pw_gid = 8\<rparr> else \<lparr>pw_uid = 81, pw_gid = 81\<rparr>),
      lh_load = service_load, lh_succeeds = \<lambda>_. True, lh_exec = \<lambda>_. None\<rparr>"

lemma service_table:
  "bu_activation (bus_new service_load [] System global_config_default) =
     [(''a.b'', \<lparr>sv_name = ''a.b'', sv_exec = ''/b'', sv_args = [''-x''], sv_user = Some ''u'',
                 sv_environment = [(''A'', ''1'')]\<rparr>)]"
  by code_simp

lemma activated_service_runs_as_its_user_witness:
  "helper_main service_helper [(''SHELL'', ''x'')] [''a.b''] =
     Some ([Initgroups ''u'' 8, Setgid 8, Setuid 7],
           Becomes \<lparr>im_program = ''/b'', im_args = [''-x''], im_env = helper_environment\<rparr>)"
proof -
  let ?pio = "\<lparr>getpwnam = \<lambda>_. None, current_uid = 81, start_process = \<lambda>_. None\<rparr>"
  let ?cmd = "\<lparr>cmd_program = ''/h'', cmd_args = [''a.b''], cmd_env = []\<rparr>"
  have load: "lh_load service_helper = service_load"
    by (simp add: service_helper_def)
  have spawned: "spawn ?pio (bu_activation (bus_new (lh_load service_helper) [] System global_config_default))
      ''a.b'' [] (ViaLaunchHelper ''/h'') = Inr ?cmd"
    unfolding load service_table by (simp add: spawn_Inr)
  have "is_valid_bus_name ''a.b''" "valid_utf8 ''a.b''"
    "list_all (\<lambda>(k, v). valid_utf8 k \<and> valid_utf8 v) [(''SHELL'', ''x'')]"
    by code_simp+
  moreover have "load_trusted service_helper trusted_paths None = Inr global_config_default"
    by (simp add: service_helper_def trusted_paths_def load_path_def)
  moreover have "lh_effective_uid service_helper = 0"
    "helper_resolve_uid service_helper (bs_user (bc_system (cfg_bus global_config_default))) =
       Some (lh_real_uid service_helper)"
    by (simp add: service_helper_def) code_simp
  ultimately show ?thesis
    using activated_service_runs_as_its_user [OF spawned, of "[(''SHELL'', ''x'')]"]
    unfolding load service_table
    by (auto simp: switch_user_def service_helper_def Let_def)
qed

section \<open>The order of a start\<close>

text \<open>Setting up, going into the background, giving up root, and telling systemd.\<close>

fun stage :: "start_event \<Rightarrow> nat" where
  "stage (Forks _) = 1"
| "stage ForkFails = 1"
| "stage StartsSession = 1"
| "stage SeversStdio = 1"
| "stage (Privileged _) = 2"
| "stage (PrivilegesKept _) = 2"
| "stage (Notifies _ _ _) = 3"
| "stage _ = 0"

definition printed :: "start_event list \<Rightarrow> string list" where
  "printed evs = List.map_filter (\<lambda>e. case e of Prints s \<Rightarrow> Some s | _ \<Rightarrow> None) evs"

definition opened :: "start_event list \<Rightarrow> string list" where
  "opened evs = List.map_filter (\<lambda>e. case e of SetsMode p m \<Rightarrow> Some p | _ \<Rightarrow> None) evs"

named_theorems event_simps

lemma map_filter_append [event_simps]:
  "List.map_filter f (xs @ ys) = List.map_filter f xs @ List.map_filter f ys"
  by (simp add: List.map_filter_def)

lemma map_filter_all_None: "(\<And>x. x \<in> set xs \<Longrightarrow> f x = None) \<Longrightarrow> List.map_filter f xs = []"
  by (induction xs) (simp_all add: map_filter_simps)

lemma events_of_others [event_simps]:
  "List.map_filter (\<lambda>e. case e of Prints s \<Rightarrow> Some s | _ \<Rightarrow> None) (map Listens rs) = []"
  "List.map_filter (\<lambda>e. case e of SetsMode p m \<Rightarrow> Some p | _ \<Rightarrow> None) (map Listens rs) = []"
  "List.map_filter (\<lambda>e. case e of Prints s \<Rightarrow> Some s | _ \<Rightarrow> None) (map (\<lambda>p. SetsMode p m) ps) = []"
  "List.map_filter (\<lambda>e. case e of SetsMode p m \<Rightarrow> Some p | _ \<Rightarrow> None) (map (\<lambda>p. SetsMode p k) ps) = ps"
  by (auto simp: List.map_filter_def comp_def intro!: map_filter_all_None)

lemma stage_quiet:
  "\<forall>e \<in> set evs. stage e = 1 \<or> stage e = 2 \<or> stage e = 3 \<Longrightarrow> printed evs = [] \<and> opened evs = []"
  unfolding printed_def opened_def
  by (induction evs) (auto simp: map_filter_simps split: start_event.splits)

lemma bind_all_events:
  "bind_all io print_address as = (evs, r) \<Longrightarrow>
     (\<forall>e \<in> set evs. stage e = 0) \<and>
     (case r of
        Inl _ \<Rightarrow> True
      | Inr effective \<Rightarrow>
          printed evs = (if print_address then map to_address_string effective else []) \<and>
          opened evs = concat (map socket_paths effective))"
proof (induction as arbitrary: evs r)
  case Nil
  then show ?case by (auto simp: printed_def opened_def map_filter_simps)
next
  case (Cons a as)
  obtain rs x where one: "bind_address io a = (rs, x)" by fastforce
  obtain evs' r' where rest: "bind_all io print_address as = (evs', r')" by fastforce
  show ?case
    using Cons.prems Cons.IH [OF rest] one rest
    by (cases x; cases r') (auto simp: Let_def printed_def opened_def event_simps map_filter_simps)
qed

lemma daemonize_stage: "daemonize io p = (evs, p', ok) \<Longrightarrow> \<forall>e \<in> set evs. stage e = 1"
  by (auto simp: daemonize_def Let_def split: option.splits if_splits)

lemma notify_ready_stage: "\<forall>e \<in> set (notify_ready io p). stage e = 3"
  by (auto simp: notify_ready_def notify_def split: option.splits prod.splits if_splits)

lemma sorted_stages:
  assumes "\<forall>e \<in> set a. stage e = 0" "\<forall>e \<in> set b. stage e = 1" "\<forall>e \<in> set c. stage e = 2"
    "\<forall>e \<in> set d. stage e = 3"
  shows "sorted (map stage (a @ b @ c @ d))"
proof -
  have const: "sorted (map stage xs)" if "\<forall>e \<in> set xs. stage e = k" for xs k
    using that by (induction xs) auto
  show ?thesis
    using assms const [OF assms(1)] const [OF assms(2)] const [OF assms(3)] const [OF assms(4)]
    by (auto simp: sorted_append)
qed

lemma become_ready_events:
  assumes "become_ready io args b p = (evs, p')"
  shows "\<exists>f d. evs = f @ d @ notify_ready io p' \<and> (\<forall>e \<in> set f. stage e = 1) \<and> (\<forall>e \<in> set d. stage e = 2)"
proof -
  obtain f q ok where dm: "daemonize io p = (f, q, ok)" by (cases "daemonize io p")
  define f' where "f' = (if da_fork args then f @ (if ok then [] else [ForkFails]) else [])"
  define q' where "q' = (if da_fork args then q else p)"
  let ?user = "bs_user (bc_system (cfg_bus (bu_config b)))"
  obtain calls r dropped where dr: "drop_privileges io ?user q' = (calls, r, dropped)"
    by (cases "drop_privileges io ?user q'")
  define d where "d = (if bu_kind b = System then
      map Privileged calls @ (if dropped then [] else [PrivilegesKept ?user]) else [])"
  have "evs = f' @ d @ notify_ready io p'"
    using assms dm dr by (auto simp: become_ready_def f'_def d_def q'_def split: if_splits)
  moreover have "\<forall>e \<in> set f'. stage e = 1" using daemonize_stage [OF dm] by (auto simp: f'_def)
  moreover have "\<forall>e \<in> set d. stage e = 2" by (auto simp: d_def)
  ultimately show ?thesis by blast
qed

lemma setting_up:
  "load_or_create_machine_id io b = (evs, b') \<Longrightarrow> (\<forall>e \<in> set evs. stage e = 0) \<and> printed evs = [] \<and> opened evs = []"
  "(\<forall>e \<in> set (write_pid_file b p). stage e = 0) \<and> printed (write_pid_file b p) = [] \<and> opened (write_pid_file b p) = []"
  by (auto simp: load_or_create_machine_id_def write_pid_file_def creates_parent_def Let_def printed_def
      opened_def map_filter_simps split: option.splits if_splits)

text \<open>The parts of a start that succeeds.\<close>

lemma async_main_Inr:
  assumes "async_main io args p = (evs, Inr d)"
  obtains cfg ids b addresses write_pid binding last_evs
  where "loaded_config io args = Inr cfg"
    "(if da_system args then
        load_or_create_machine_id io (bus_new (st_load io) (generate_guid_hex (st_guid io)) System cfg)
      else ([], bus_new (st_load io) (generate_guid_hex (st_guid io)) Session cfg)) = (ids, b)"
    "listen_addresses args b = Inr (addresses, write_pid)"
    "bind_all (st_listen io) (da_print_address args) addresses = (binding, Inr (dm_listening d))"
    "become_ready io args b p = (last_evs, dm_process d)"
    "dm_bus d = b" "dm_sockets d = concat (map socket_paths (dm_listening d))"
    "evs = ids @ (if write_pid \<and> \<not> da_nopidfile args then write_pid_file b p else []) @
       (if da_print_pid args then [Prints (show_int (ps_pid p))] else []) @ binding @ last_evs"
  using assms
  by (auto simp: async_main_def Let_def split: sum.splits prod.splits if_splits)

lemma async_main_Inl:
  assumes "async_main io args p = (evs, Inl e)"
  shows "\<forall>e \<in> set evs. stage e = 0"
  using assms setting_up bind_all_events [of "st_listen io" "da_print_address args"]
  by (fastforce simp: async_main_def Let_def split: sum.splits prod.splits if_splits)

lemma events_append:
  "printed (xs @ ys) = printed xs @ printed ys" "opened (xs @ ys) = opened xs @ opened ys"
  by (simp_all add: printed_def opened_def event_simps)

lemma serving_stages:
  assumes "async_main io args p = (evs, Inr d)"
  shows "sorted (map stage evs)"
    and "printed evs = (if da_print_pid args then [show_int (ps_pid p)] else []) @
      (if da_print_address args then map to_address_string (dm_listening d) else [])"
    and "opened evs = dm_sockets d"
    and "suffix (notify_ready io (dm_process d)) evs"
proof -
  obtain cfg ids b addresses wp binding lst where parts:
    "(if da_system args then
        load_or_create_machine_id io (bus_new (st_load io) (generate_guid_hex (st_guid io)) System cfg)
      else ([], bus_new (st_load io) (generate_guid_hex (st_guid io)) Session cfg)) = (ids, b)"
    "bind_all (st_listen io) (da_print_address args) addresses = (binding, Inr (dm_listening d))"
    "become_ready io args b p = (lst, dm_process d)"
    "dm_sockets d = concat (map socket_paths (dm_listening d))"
    "evs = ids @ (if wp \<and> \<not> da_nopidfile args then write_pid_file b p else []) @
       (if da_print_pid args then [Prints (show_int (ps_pid p))] else []) @ binding @ lst"
    using async_main_Inr [OF assms] by metis
  obtain f dr where ready: "lst = f @ dr @ notify_ready io (dm_process d)"
    "\<forall>e \<in> set f. stage e = 1" "\<forall>e \<in> set dr. stage e = 2"
    using become_ready_events [OF parts(3)] by blast
  have quiet: "printed lst = []" "opened lst = []"
    using stage_quiet [of lst] ready notify_ready_stage [of io "dm_process d"] by auto
  have ids: "(\<forall>e \<in> set ids. stage e = 0) \<and> printed ids = [] \<and> opened ids = []"
    using parts(1) setting_up(1) by (auto simp: printed_def opened_def map_filter_simps split: if_splits)
  define prelims where "prelims = ids @ (if wp \<and> \<not> da_nopidfile args then write_pid_file b p else []) @
       (if da_print_pid args then [Prints (show_int (ps_pid p))] else []) @ binding"
  have prelims: "\<forall>e \<in> set prelims. stage e = 0"
    using ids setting_up(2) bind_all_events [OF parts(2)] by (auto simp: prelims_def)
  have evs: "evs = prelims @ f @ dr @ notify_ready io (dm_process d)"
    using parts(5) ready(1) by (simp add: prelims_def)
  show "sorted (map stage evs)"
    unfolding evs by (rule sorted_stages [OF prelims ready(2,3) notify_ready_stage])
  show "suffix (notify_ready io (dm_process d)) evs"
    unfolding evs by (auto simp: suffix_def)
  show "printed evs = (if da_print_pid args then [show_int (ps_pid p)] else []) @
      (if da_print_address args then map to_address_string (dm_listening d) else [])"
    "opened evs = dm_sockets d"
    using parts(4,5) ids quiet setting_up(2) [of b p] bind_all_events [OF parts(2)]
    by (simp_all add: events_append) (simp_all add: printed_def opened_def map_filter_simps)
qed

lemma start_stages:
  "case main io args p of (evs, r) \<Rightarrow>
     sorted (map stage evs) \<and>
     (case r of
        Inl _ \<Rightarrow> list_all (\<lambda>e. stage e = 0) evs
      | Inr Exited \<Rightarrow> evs = [Prints driver_introspection_xml]
      | Inr (Serving d) \<Rightarrow>
          printed evs = (if da_print_pid args then [show_int (ps_pid p)] else []) @
            (if da_print_address args then map to_address_string (dm_listening d) else []) \<and>
          opened evs = dm_sockets d \<and>
          suffix (notify_ready io (dm_process d)) evs)"
proof (cases "da_introspect args \<or> \<not> da_system args \<and> \<not> da_session args")
  case True
  then show ?thesis by (auto simp: main_def)
next
  case False
  obtain evs r where am: "async_main io args p = (evs, r)" by fastforce
  have m: "main io args p = (evs, map_sum id Serving r)"
    using False am by (auto simp: main_def)
  show ?thesis
  proof (cases r)
    case (Inl e)
    then have z: "\<forall>e \<in> set evs. stage e = 0" using async_main_Inl am by blast
    then have "sorted (map stage evs)" using sorted_stages [of evs "[]" "[]" "[]"] by simp
    then show ?thesis using m Inl z by (simp add: list_all_iff)
  next
    case (Inr d)
    then show ?thesis using m serving_stages [OF am [unfolded Inr]] by simp
  qed
qed

text \<open>C19. What a start does to the outside comes in order: files, sockets and everything that is printed,
  then the background, then root's rights, and systemd last.  It prints the pid and the addresses
  when asked, an address for each socket it listens on, and opens exactly the socket files that it
  removes in the end to all users.  A start that fails has done nothing but set up, and systemd
  hears of the process that serves.\<close>

theorem start_is_ordered:
  "case main io args p of (evs, r) \<Rightarrow>
     sorted (map stage evs) \<and>
     (case r of
        Inl _ \<Rightarrow> list_all (\<lambda>e. stage e = 0) evs
      | Inr Exited \<Rightarrow> evs = [Prints driver_introspection_xml]
      | Inr (Serving d) \<Rightarrow>
          printed evs = (if da_print_pid args then [show_int (ps_pid p)] else []) @
            (if da_print_address args then map to_address_string (dm_listening d) else []) \<and>
          opened evs = dm_sockets d \<and>
          suffix (notify_ready io (dm_process d)) evs)"
  by (rule start_stages)

section \<open>The process that serves\<close>

lemma daemonize_process:
  "daemonize io p = (evs, p', ok) \<Longrightarrow>
     p' = p\<lparr>ps_pid := (case st_fork io of None \<Rightarrow> ps_pid p | Some c \<Rightarrow>
       if st_setsid io then (case st_second_fork io of None \<Rightarrow> c | Some gc \<Rightarrow> gc) else c)\<rparr>"
  by (auto simp: daemonize_def Let_def split: option.splits if_splits)

text \<open>The entry of the user when the process can become that user.\<close>

definition can_become :: "start_io \<Rightarrow> string \<Rightarrow> passwd option" where
  "can_become io user =
     (if CHR 0x00 \<in> set user then None
      else Option.bind (st_getpwnam io user) (\<lambda>pw.
        if list_all (st_succeeds io) [Initgroups user (pw_gid pw), Setgid (pw_gid pw), Setuid (pw_uid pw)]
        then Some pw else None))"

lemma drop_privileges_root:
  assumes "drop_privileges io user p = (calls, p', ok)" "ps_uid p = 0" "\<And>u. st_ids_after io u = (u, u)"
  shows "case can_become io user of
      Some pw \<Rightarrow> ok \<and> p' = p\<lparr>ps_uid := pw_uid pw, ps_euid := pw_uid pw\<rparr> \<and>
        calls = [Initgroups user (pw_gid pw), Setgid (pw_gid pw), Setuid (pw_uid pw)]
    | None \<Rightarrow> \<not> ok \<and> p' = p"
  using assms by (auto simp: drop_privileges_def can_become_def Let_def split: option.splits if_splits)

lemma machine_id_keeps_config: "load_or_create_machine_id io b = (evs, b') \<Longrightarrow> bu_config b' = bu_config b \<and> bu_kind b' = bu_kind b"
  by (auto simp: load_or_create_machine_id_def set_guid_def Let_def split: option.splits if_splits)

lemma main_Serving: "main io args p = (evs, Inr (Serving d)) \<Longrightarrow> async_main io args p = (evs, Inr d)"
  by (cases "async_main io args p"; cases "snd (async_main io args p)") (auto simp: main_def split: if_splits)

lemma become_ready_system:
  assumes "become_ready io args b p = (evs, p')" "bu_kind b = System" "ps_uid p = 0" "\<And>u. st_ids_after io u = (u, u)"
    and "user = bs_user (bc_system (cfg_bus (bu_config b)))"
  shows "case can_become io user of
      Some pw \<Rightarrow> ps_uid p' = pw_uid pw \<and> ps_euid p' = pw_uid pw \<and>
        filter (\<lambda>e. stage e = 2) evs =
          map Privileged [Initgroups user (pw_gid pw), Setgid (pw_gid pw), Setuid (pw_uid pw)]
    | None \<Rightarrow> ps_uid p' = 0 \<and> ps_euid p' = ps_euid p \<and> PrivilegesKept user \<in> set evs"
proof -
  obtain f q ok where dm: "daemonize io p = (f, q, ok)" by (cases "daemonize io p")
  define f' where "f' = (if da_fork args then f @ (if ok then [] else [ForkFails]) else [])"
  define q' where "q' = (if da_fork args then q else p)"
  have q': "ps_uid q' = 0" "ps_euid q' = ps_euid p"
    using daemonize_process [OF dm] assms(3) by (simp_all add: q'_def)
  have other: "filter (\<lambda>e. stage e = 2) f' = []" "filter (\<lambda>e. stage e = 2) (notify_ready io p') = []"
    using daemonize_stage [OF dm] notify_ready_stage [of io p'] by (auto simp: f'_def filter_empty_conv)
  obtain calls r dropped where dr: "drop_privileges io user q' = (calls, r, dropped)"
    by (cases "drop_privileges io user q'")
  have "p' = r" "evs = f' @ (map Privileged calls @ (if dropped then [] else [PrivilegesKept user])) @ notify_ready io p'"
    using assms(1,2,5) dm dr by (auto simp: become_ready_def f'_def q'_def split: if_splits)
  then show ?thesis
    using drop_privileges_root [OF dr q'(1) assms(4)] q' other
    by (cases "can_become io user") auto
qed

text \<open>C28. A system bus that was started as root serves as its configured user exactly when this user is
  known and all three calls succeed, which were then made in order; in every other case it serves as
  root, and only the log says so.\<close>

theorem system_bus_serves_as:
  assumes "main io args p = (evs, Inr (Serving d))" "da_system args" "ps_uid p = 0"
    and "\<And>u. st_ids_after io u = (u, u)"
    and user: "user = bs_user (bc_system (cfg_bus (bu_config (dm_bus d))))"
  shows "case can_become io user of
      Some pw \<Rightarrow> ps_uid (dm_process d) = pw_uid pw \<and> ps_euid (dm_process d) = pw_uid pw \<and>
        filter (\<lambda>e. stage e = 2) evs =
          map Privileged [Initgroups user (pw_gid pw), Setgid (pw_gid pw), Setuid (pw_uid pw)]
    | None \<Rightarrow> ps_uid (dm_process d) = 0 \<and> ps_euid (dm_process d) = ps_euid p \<and>
        PrivilegesKept user \<in> set evs"
proof (rule async_main_Inr [OF main_Serving [OF assms(1)]])
  fix cfg ids b addresses wp binding lst
  assume b: "(if da_system args then
        load_or_create_machine_id io (bus_new (st_load io) (generate_guid_hex (st_guid io)) System cfg)
      else ([], bus_new (st_load io) (generate_guid_hex (st_guid io)) Session cfg)) = (ids, b)"
    and binding: "bind_all (st_listen io) (da_print_address args) addresses = (binding, Inr (dm_listening d))"
    and ready: "become_ready io args b p = (lst, dm_process d)" and bus: "dm_bus d = b"
    and evs: "evs = ids @ (if wp \<and> \<not> da_nopidfile args then write_pid_file b p else []) @
       (if da_print_pid args then [Prints (show_int (ps_pid p))] else []) @ binding @ lst"
  have id: "load_or_create_machine_id io (bus_new (st_load io) (generate_guid_hex (st_guid io)) System cfg) = (ids, b)"
    using b assms(2) by simp
  then have "bu_kind b = System"
    using machine_id_keeps_config [OF id] by (simp add: bus_new_def)
  moreover have "filter (\<lambda>e. stage e = 2) evs = filter (\<lambda>e. stage e = 2) lst"
    using setting_up(1) [OF id] setting_up(2) [of b p] bind_all_events [OF binding]
    by (auto simp: evs filter_empty_conv)
  moreover have "set lst \<subseteq> set evs" by (auto simp: evs)
  ultimately show ?thesis
    using become_ready_system [OF ready _ assms(3,4)] user bus
    by (auto split: option.splits)
qed

text \<open>The sample: a system where every call succeeds and user \<open>messagebus\<close> has number 81.\<close>

definition sample_start :: start_io where
  "sample_start =
     \<lparr>st_config = \<lparr>cf_read = \<lambda>_. Inl [], cf_parse = \<lambda>_. Inl [], cf_env = None\<rparr>,
      st_load = service_load,
      st_audit = \<lparr>au_library = \<lambda>_. False, au_symbol = \<lambda>_. False, au_open = -1\<rparr>,
      st_listen = \<lparr>li_fails = \<lambda>_. None, li_exists = \<lambda>_. False, li_random = [], li_listen_pid = None,
                   li_listen_fds = None, li_pid = 100\<rparr>,
      st_read_file = \<lambda>_. None, st_guid = [1], st_machine_guid = [0xAB],
      st_fork = Some 101, st_setsid = True, st_second_fork = Some 102, st_devnull = True,
      st_getpwnam = \<lambda>_. Some \<lparr>pw_uid = 81, pw_gid = 82\<rparr>, st_succeeds = \<lambda>_. True,
      st_ids_after = \<lambda>u. (u, u), st_notify_socket = Some ''@n'', st_notify_reachable = True\<rparr>"

definition forking_args :: daemon_args where
  "forking_args =
     \<lparr>da_system = True, da_session = False, da_config = None, da_address = None, da_print_address = True,
      da_print_pid = True, da_fork = True, da_nopidfile = False, da_introspect = False\<rparr>"

abbreviation root_process :: process where
  "root_process \<equiv> \<lparr>ps_pid = 100, ps_uid = 0, ps_euid = 0\<rparr>"

lemma sample_start_serves:
  obtains evs d where "main sample_start forking_args root_process = (evs, Inr (Serving d))"
    "bu_config (dm_bus d) = global_config_default"
proof -
  have "case main sample_start forking_args root_process of
      (evs, Inr (Serving d)) \<Rightarrow> bu_config (dm_bus d) = global_config_default | _ \<Rightarrow> False"
    by code_simp
  then show ?thesis using that by (auto split: prod.splits sum.splits started_daemon.splits)
qed

lemma system_bus_serves_as_witness:
  "\<exists>evs d. main sample_start forking_args root_process = (evs, Inr (Serving d)) \<and>
     ps_uid (dm_process d) = 81 \<and> ps_euid (dm_process d) = 81"
proof -
  obtain evs d where d: "main sample_start forking_args root_process = (evs, Inr (Serving d))"
    "bu_config (dm_bus d) = global_config_default"
    by (rule sample_start_serves)
  have "can_become sample_start (bs_user (bc_system (cfg_bus global_config_default))) =
      Some \<lparr>pw_uid = 81, pw_gid = 82\<rparr>"
    by code_simp
  then show ?thesis
    using system_bus_serves_as [OF d(1) _ _ _ refl] d
    by (auto simp: forking_args_def sample_start_def)
qed

section \<open>The pid file\<close>

definition written_to :: "string \<Rightarrow> start_event list \<Rightarrow> string list" where
  "written_to path evs =
     List.map_filter (\<lambda>e. case e of WritesFile q s \<Rightarrow> if q = path then Some s else None | _ \<Rightarrow> None) evs"

lemma written_to_append [event_simps]: "written_to path (xs @ ys) = written_to path xs @ written_to path ys"
  by (simp add: written_to_def event_simps)

lemma written_to_none: "(\<And>q s. WritesFile q s \<notin> set evs) \<Longrightarrow> written_to path evs = []"
  unfolding written_to_def by (rule map_filter_all_None) (auto split: start_event.splits)

lemma bind_all_writes: "WritesFile q s \<notin> set (fst (bind_all io print_address as))"
proof (induction as)
  case (Cons a as)
  obtain rs x where "bind_address io a = (rs, x)" by fastforce
  moreover obtain evs' r' where "bind_all io print_address as = (evs', r')" by fastforce
  ultimately show ?case using Cons.IH by (cases x; cases print_address) (simp_all add: image_iff)
qed simp

lemma become_ready_writes: "WritesFile q s \<notin> set (fst (become_ready io args b p))"
proof -
  obtain evs p' where r: "become_ready io args b p = (evs, p')" by (cases "become_ready io args b p")
  then obtain f d where "evs = f @ d @ notify_ready io p'" "\<forall>e \<in> set f. stage e = 1" "\<forall>e \<in> set d. stage e = 2"
    using become_ready_events [OF r] by blast
  moreover have "stage (WritesFile q s) = 0" by simp
  ultimately show ?thesis
    using r notify_ready_stage [of io p'] by (metis Un_iff fst_conv set_append zero_neq_numeral zero_neq_one)
qed

lemma become_ready_pid:
  "become_ready io args b p = (evs, p') \<Longrightarrow>
     ps_pid p' = (if da_fork args then
       (case st_fork io of None \<Rightarrow> ps_pid p | Some c \<Rightarrow>
          if st_setsid io then (case st_second_fork io of None \<Rightarrow> c | Some gc \<Rightarrow> gc) else c)
     else ps_pid p)"
proof -
  assume r: "become_ready io args b p = (evs, p')"
  have drop: "drop_privileges io user q = (calls, q', ok) \<Longrightarrow> ps_pid q' = ps_pid q" for user q calls q' ok
    by (auto simp: drop_privileges_def Let_def split: option.splits if_splits)
  obtain f q ok where dm: "daemonize io p = (f, q, ok)" by (cases "daemonize io p")
  define q' where "q' = (if da_fork args then q else p)"
  obtain calls s dropped where dr:
    "drop_privileges io (bs_user (bc_system (cfg_bus (bu_config b)))) q' = (calls, s, dropped)"
    by (cases "drop_privileges io (bs_user (bc_system (cfg_bus (bu_config b)))) q'")
  have "p' = (if bu_kind b = System then s else q')"
    using r dm dr by (auto simp: become_ready_def q'_def split: if_splits)
  then have "ps_pid p' = ps_pid q'"
    using drop [OF dr] by simp
  then show ?thesis
    using daemonize_process [OF dm] by (simp add: q'_def)
qed

text \<open>C40. The pid file of a system bus names the process that was started, also when the daemon goes into
  the background and another process serves; and at the end the file is removed, also when it was
  not written.\<close>

theorem pid_file_names_the_starter:
  assumes "main io args p = (evs, Inr (Serving d))" "da_system args"
    and paths: "paths = cfg_paths (bu_config (dm_bus d))" "pc_machine_id_file paths \<noteq> pc_system_pid_file paths"
  shows "written_to (pc_system_pid_file paths) evs = (if da_nopidfile args then [] else [show_int (ps_pid p)]) \<and>
    ps_pid (dm_process d) =
      (if da_fork args then
         (case st_fork io of None \<Rightarrow> ps_pid p | Some c \<Rightarrow>
            if st_setsid io then (case st_second_fork io of None \<Rightarrow> c | Some gc \<Rightarrow> gc) else c)
       else ps_pid p) \<and>
    RemovesPidFile (pc_system_pid_file paths) \<in> set (shut_down au d)"
proof (rule async_main_Inr [OF main_Serving [OF assms(1)]])
  fix cfg ids b addresses wp binding lst
  assume b: "(if da_system args then
        load_or_create_machine_id io (bus_new (st_load io) (generate_guid_hex (st_guid io)) System cfg)
      else ([], bus_new (st_load io) (generate_guid_hex (st_guid io)) Session cfg)) = (ids, b)"
    and addresses: "listen_addresses args b = Inr (addresses, wp)"
    and binding: "bind_all (st_listen io) (da_print_address args) addresses = (binding, Inr (dm_listening d))"
    and ready: "become_ready io args b p = (lst, dm_process d)" and bus: "dm_bus d = b"
    and evs: "evs = ids @ (if wp \<and> \<not> da_nopidfile args then write_pid_file b p else []) @
       (if da_print_pid args then [Prints (show_int (ps_pid p))] else []) @ binding @ lst"
  have id: "load_or_create_machine_id io (bus_new (st_load io) (generate_guid_hex (st_guid io)) System cfg) = (ids, b)"
    using b assms(2) by simp
  have kind: "bu_kind b = System" and conf: "bu_config b = cfg"
    using machine_id_keeps_config [OF id] by (simp_all add: bus_new_def)
  have "wp"
    using addresses kind by (auto simp: listen_addresses_def split: option.splits sum.splits)
  moreover have "written_to (pc_system_pid_file paths) ids = []"
    using id paths conf bus
    by (auto simp: load_or_create_machine_id_def creates_parent_def written_to_def bus_new_def set_guid_def
        map_filter_simps Let_def split: option.splits if_splits)
  moreover have "written_to (pc_system_pid_file paths) (write_pid_file b p) = [show_int (ps_pid p)]"
    using paths bus by (auto simp: write_pid_file_def creates_parent_def written_to_def map_filter_simps Let_def split: option.splits)
  moreover have "written_to (pc_system_pid_file paths) binding = []" "written_to (pc_system_pid_file paths) lst = []"
    "written_to (pc_system_pid_file paths) [Prints (show_int (ps_pid p))] = []" "written_to (pc_system_pid_file paths) [] = []"
    using bind_all_writes [of _ _ "st_listen io" "da_print_address args" addresses] binding
      become_ready_writes [of _ _ io args b p] ready
    by (auto intro: written_to_none)
  ultimately have "written_to (pc_system_pid_file paths) evs = (if da_nopidfile args then [] else [show_int (ps_pid p)])"
    by (auto simp: evs event_simps)
  moreover have "RemovesPidFile (pc_system_pid_file paths) \<in> set (shut_down au d)"
    using kind bus paths by (simp add: shut_down_def)
  ultimately show ?thesis
    using become_ready_pid [OF ready] by blast
qed

lemma pid_file_names_the_starter_witness:
  "\<exists>evs d. main sample_start forking_args root_process = (evs, Inr (Serving d)) \<and>
     written_to ''/run/oxibus/pid'' evs = [''100''] \<and> ps_pid (dm_process d) = 102"
proof -
  obtain evs d where d: "main sample_start forking_args root_process = (evs, Inr (Serving d))"
    "bu_config (dm_bus d) = global_config_default"
    by (rule sample_start_serves)
  have "pc_system_pid_file (cfg_paths global_config_default) = ''/run/oxibus/pid''"
    "pc_machine_id_file (cfg_paths global_config_default) \<noteq> ''/run/oxibus/pid''"
    "show_int 100 = ''100''"
    by code_simp+
  then show ?thesis
    using pid_file_names_the_starter [OF d(1) _ refl, of "st_audit sample_start"] d
    by (auto simp: forking_args_def sample_start_def)
qed

section \<open>Sockets\<close>

text \<open>With \<open>systemd:\<close> the daemon serves descriptor 3 exactly when the environment says that sockets
  were passed, at least one, and to this process; then no later reader finds these variables.\<close>

theorem systemd_socket_taken_exactly:
  "bind_address io Systemd = (rs, Inr a) \<longleftrightarrow>
     a = Systemd \<and> rs = [TakesSocket 3, ClearsListenVars] \<and> li_fails io (TakesSocket 3) = None \<and>
     (\<exists>pid_var fds_var n. li_listen_pid io = Some pid_var \<and> li_listen_fds io = Some fds_var \<and>
        parse_i32 pid_var = Some (li_pid io) \<and> parse_uint (2 ^ 32) fds_var = Some n \<and> 0 < n)"
  by (auto simp: bind_address_def bind_systemd_activated_def request_def request_ignored_def
      SD_LISTEN_FDS_START_def split: option.splits if_splits)

lemma request_fst: "fst (request io r ([], x)) = [r]"
  by (simp add: request_def split: option.splits)

text \<open>A bound address is where clients connect to.\<close>

lemma connects_where_bound:
  assumes "bind_address io a = (rs, Inr effective)"
  shows "case effective of
       UnixPath p \<Rightarrow> BindsPath p \<in> set rs \<and> fst (connect_address cio effective) = [ConnectsPath p]
     | UnixAbstract n \<Rightarrow>
         (\<exists>sun_path len. BindsAbstract sun_path len \<in> set rs \<and> length sun_path = SUN_PATH_LEN \<and>
            len = 3 + length n \<and> len \<le> 2 + SUN_PATH_LEN \<and>
            fst (connect_address cio effective) = [ConnectsAbstract sun_path len])
     | Systemd \<Rightarrow> (\<exists>why. connect_address cio effective = ([], Inl (InvalidInput why)))
     | UnixTmpdir _ \<Rightarrow> False
     | Tcp _ _ \<Rightarrow> False"
proof (cases a)
  case (UnixPath p)
  then show ?thesis
    using assms
    by (auto simp: bind_address_def bind_path_def connect_address_def request_fst request_ignored_def Let_def
        request_def split: option.splits if_splits prod.splits)
next
  case (UnixAbstract n)
  then show ?thesis
    using assms
    by (auto simp: bind_address_def bind_abstract_def connect_address_def connect_abstract_def request_fst
        build_abstract_sockaddr_def SUN_PATH_LEN_def Let_def request_def as_bytes_def
        split: option.splits if_splits prod.splits sum.splits)
next
  case (UnixTmpdir d)
  then show ?thesis
    using assms by (auto simp: bind_address_def connect_address_def request_fst Let_def request_def split: option.splits)
next
  case (Tcp h n)
  then show ?thesis using assms by (simp add: bind_address_def)
next
  case Systemd
  then show ?thesis
    using assms
    by (auto simp: bind_address_def bind_systemd_activated_def connect_address_def request_def request_ignored_def
        split: option.splits if_splits)
qed

text \<open>C31. What the daemon prints for a socket is parsed as the address of this socket, and a client that
  connects to it asks for the very path or abstract name that was bound; but the address of a socket
  from systemd is one that no client can connect to.\<close>

theorem printed_address_reaches_the_socket:
  assumes "bind_address io a = (rs, Inr effective)" "wf_address effective"
  shows "parse_address (to_address_string effective) = Inr effective \<and>
    (case effective of
       UnixPath p \<Rightarrow> BindsPath p \<in> set rs \<and> fst (connect_address cio effective) = [ConnectsPath p]
     | UnixAbstract n \<Rightarrow>
         (\<exists>sun_path len. BindsAbstract sun_path len \<in> set rs \<and> length sun_path = SUN_PATH_LEN \<and>
            len = 3 + length n \<and> len \<le> 2 + SUN_PATH_LEN \<and>
            fst (connect_address cio effective) = [ConnectsAbstract sun_path len])
     | Systemd \<Rightarrow> (\<exists>why. connect_address cio effective = ([], Inl (InvalidInput why)))
     | UnixTmpdir _ \<Rightarrow> False
     | Tcp _ _ \<Rightarrow> False)"
  using address_printed [OF assms(2)] connects_where_bound [OF assms(1)] by blast

lemma printed_address_reaches_the_socket_witness:
  "parse_address ''unix:abstract=a%20b'' = Inr (UnixAbstract ''a b'') \<and>
   (\<exists>sun_path. length sun_path = SUN_PATH_LEN \<and>
      fst (connect_address (st_listen sample_start) (UnixAbstract ''a b'')) = [ConnectsAbstract sun_path 6])"
proof -
  have "\<exists>rs. bind_address (st_listen sample_start) (UnixAbstract ''a b'') = (rs, Inr (UnixAbstract ''a b''))"
    by (simp add: sample_start_def bind_address_def bind_abstract_def build_abstract_sockaddr_def request_def
        SUN_PATH_LEN_def as_bytes_def)
  moreover have "wf_address (UnixAbstract ''a b'')" "to_address_string (UnixAbstract ''a b'') = ''unix:abstract=a%20b''"
    by code_simp+
  ultimately show ?thesis
    using printed_address_reaches_the_socket [of "st_listen sample_start" "UnixAbstract ''a b''" _ "UnixAbstract ''a b''" "st_listen sample_start"]
    by auto
qed

end
