(* ===== verification/Libdbus_Message.thy ===== *)
theory Libdbus_Message
  imports Message Address
begin

text \<open>
  \<open>oxibus-libdbus-compat/src/lib.rs\<close>, \<open>error.rs\<close> and \<open>message.rs\<close>: the C interface.  A pointer
  is a number, or \<open>None\<close> when it is null; what it points to is in a memory that the functions
  take and give back.  Using a pointer after the last reference is gone has the result
  \<open>Undefined\<close>.  A C string is the bytes that its pointer points to.  The storage that a caller
  keeps for an iterator is taken to be large enough: that \<open>iter_size\<close> is more than programs
  written for \<open>libdbus\<close> keep is not an outcome of the functions that write to it.
\<close>

section \<open>Memory\<close>

datatype 'a c_result = Undefined | Blocks | Returns 'a

fun c_then :: "'a c_result \<Rightarrow> ('a \<Rightarrow> 'b c_result) \<Rightarrow> 'b c_result" where
  "c_then (Returns a) f = f a"
| "c_then Blocks f = Blocks"
| "c_then Undefined f = Undefined"

type_synonym pointer = "nat option"
type_synonym c_string = "string option"
type_synonym c_int = int

text \<open>\<open>cstr\<close>, and \<open>CString::new(s).into_raw()\<close> with null for a string that has a NUL.\<close>

definition cstr :: "c_string \<Rightarrow> string option" where
  "cstr ptr =
     (case ptr of
        None \<Rightarrow> None
      | Some bytes \<Rightarrow>
          let s = takeWhile (\<lambda>c. c \<noteq> CHR 0x00) bytes in if valid_utf8 s then Some s else None)"

definition into_raw :: "string \<Rightarrow> c_string" where
  "into_raw s = (if CHR 0x00 \<in> set s then None else Some s)"

text \<open>\<open>Arc::into_raw\<close>: cells with a count of references; an address is never used twice.\<close>

record 'a arc_cell =
  ac_refs :: nat
  ac_value :: 'a

record 'a arc_heap =
  ah_next :: nat
  ah_cells :: "(nat \<times> 'a arc_cell) list"

definition arc_new :: "'a \<Rightarrow> 'a arc_heap \<Rightarrow> pointer \<times> 'a arc_heap" where
  "arc_new x h =
     (Some (ah_next h),
      h\<lparr>ah_next := Suc (ah_next h), ah_cells := AList.update (ah_next h) \<lparr>ac_refs = 1, ac_value = x\<rparr> (ah_cells h)\<rparr>)"

text \<open>\<open>handle\<close>: a borrowed reference; the count is as before when the borrow ends.\<close>

definition arc_handle :: "pointer \<Rightarrow> 'a arc_heap \<Rightarrow> 'a option c_result" where
  "arc_handle ptr h =
     (case ptr of
        None \<Rightarrow> Returns None
      | Some a \<Rightarrow>
          (case map_of (ah_cells h) a of Some c \<Rightarrow> Returns (Some (ac_value c)) | None \<Rightarrow> Undefined))"

definition arc_set :: "pointer \<Rightarrow> 'a \<Rightarrow> 'a arc_heap \<Rightarrow> 'a arc_heap" where
  "arc_set ptr x h =
     (case ptr of
        None \<Rightarrow> h
      | Some a \<Rightarrow>
          (case map_of (ah_cells h) a of
             Some c \<Rightarrow> h\<lparr>ah_cells := AList.update a (c\<lparr>ac_value := x\<rparr>) (ah_cells h)\<rparr>
           | None \<Rightarrow> h))"

definition arc_ref :: "pointer \<Rightarrow> 'a arc_heap \<Rightarrow> (pointer \<times> 'a arc_heap) c_result" where
  "arc_ref ptr h =
     (case ptr of
        None \<Rightarrow> Returns (None, h)
      | Some a \<Rightarrow>
          (case map_of (ah_cells h) a of
             Some c \<Rightarrow>
               Returns (ptr, h\<lparr>ah_cells := AList.update a (c\<lparr>ac_refs := Suc (ac_refs c)\<rparr>) (ah_cells h)\<rparr>)
           | None \<Rightarrow> Undefined))"

definition arc_unref :: "pointer \<Rightarrow> 'a arc_heap \<Rightarrow> 'a arc_heap c_result" where
  "arc_unref ptr h =
     (case ptr of
        None \<Rightarrow> Returns h
      | Some a \<Rightarrow>
          (case map_of (ah_cells h) a of
             Some c \<Rightarrow>
               Returns (h\<lparr>ah_cells :=
                 (if ac_refs c = 1 then AList.delete a (ah_cells h)
                  else AList.update a (c\<lparr>ac_refs := ac_refs c - 1\<rparr>) (ah_cells h))\<rparr>)
           | None \<Rightarrow> Undefined))"

definition reading :: "pointer \<Rightarrow> 'a arc_heap \<Rightarrow> 'b \<Rightarrow> ('a \<Rightarrow> 'b) \<Rightarrow> 'b c_result" where
  "reading ptr h d f =
     c_then (arc_handle ptr h) (\<lambda>x. Returns (case x of None \<Rightarrow> d | Some v \<Rightarrow> f v))"

section \<open>Errors\<close>

record dbus_error =
  er_name :: c_string
  er_message :: c_string
  er_flags :: u32
  er_reserved :: u32
  er_padding1 :: nat

type_synonym errors = "nat \<Rightarrow> dbus_error"

definition no_error :: dbus_error where
  "no_error = \<lparr>er_name = None, er_message = None, er_flags = 0, er_reserved = 0, er_padding1 = 0\<rparr>"

definition leak_cstring :: "string \<Rightarrow> c_string" where
  "leak_cstring s = into_raw (filter (\<lambda>c. c \<noteq> CHR 0x00) s)"

definition error_clear :: "dbus_error \<Rightarrow> dbus_error" where
  "error_clear e = no_error"

definition error_set :: "string \<Rightarrow> string \<Rightarrow> dbus_error \<Rightarrow> dbus_error" where
  "error_set name message e =
     (error_clear e)\<lparr>er_name := leak_cstring name, er_message := leak_cstring message\<rparr>"

definition at_error :: "pointer \<Rightarrow> (dbus_error \<Rightarrow> dbus_error) \<Rightarrow> errors \<Rightarrow> errors" where
  "at_error ptr f m = (case ptr of None \<Rightarrow> m | Some a \<Rightarrow> m(a := f (m a)))"

definition dbus_error_init :: "pointer \<Rightarrow> errors \<Rightarrow> errors" where
  "dbus_error_init ptr m = at_error ptr (\<lambda>_. no_error) m"

definition dbus_error_free :: "pointer \<Rightarrow> errors \<Rightarrow> errors" where
  "dbus_error_free ptr m = at_error ptr error_clear m"

definition dbus_error_is_set :: "pointer \<Rightarrow> errors \<Rightarrow> c_int" where
  "dbus_error_is_set ptr m =
     (case ptr of None \<Rightarrow> 0 | Some a \<Rightarrow> if er_name (m a) \<noteq> None then 1 else 0)"

definition dbus_error_has_name :: "pointer \<Rightarrow> c_string \<Rightarrow> errors \<Rightarrow> c_int" where
  "dbus_error_has_name ptr name m =
     (case ptr of
        None \<Rightarrow> 0
      | Some a \<Rightarrow>
          (case (er_name (m a), cstr name) of
             (Some have_name, Some wanted) \<Rightarrow> if from_utf8_lossy have_name = wanted then 1 else 0
           | _ \<Rightarrow> 0))"

definition or_empty :: "string option \<Rightarrow> string" where
  "or_empty s = (case s of Some x \<Rightarrow> x | None \<Rightarrow> [])"

definition dbus_set_error_const :: "pointer \<Rightarrow> c_string \<Rightarrow> c_string \<Rightarrow> errors \<Rightarrow> errors" where
  "dbus_set_error_const ptr name message m =
     at_error ptr (error_set (or_empty (cstr name)) (or_empty (cstr message))) m"

definition dbus_move_error :: "pointer \<Rightarrow> pointer \<Rightarrow> errors \<Rightarrow> errors" where
  "dbus_move_error src dest m =
     (case (src, dest) of
        (Some s, Some d) \<Rightarrow>
          if s = d then m
          else m(d := (error_clear (m d))\<lparr>er_name := er_name (m s), er_message := er_message (m s)\<rparr>,
                 s := no_error)
      | _ \<Rightarrow> m)"

section \<open>Messages\<close>

datatype msg_kind = KindMethodCall | KindMethodReturn | KindSignal | KindError

record outgoing =
  ou_kind :: msg_kind
  ou_path :: "object_path option"
  ou_interface :: "string option"
  ou_member :: "string option"
  ou_destination :: "string option"
  ou_reply_serial :: "u32 option"
  ou_args :: "dvalue list"

datatype dbus_message = Out outgoing | In message

type_synonym messages = "dbus_message arc_heap"

definition new_outgoing :: "msg_kind \<Rightarrow> outgoing" where
  "new_outgoing kind =
     \<lparr>ou_kind = kind, ou_path = None, ou_interface = None, ou_member = None, ou_destination = None,
      ou_reply_serial = None, ou_args = []\<rparr>"

definition wrap_incoming :: "message \<Rightarrow> messages \<Rightarrow> pointer \<times> messages" where
  "wrap_incoming msg h = arc_new (In msg) h"

definition path_arg :: "c_string \<Rightarrow> object_path option" where
  "path_arg p =
     Option.bind (cstr p) (\<lambda>s. case object_path_new s of Inr path \<Rightarrow> Some path | Inl _ \<Rightarrow> None)"

definition dbus_message_new_method_call ::
  "c_string \<Rightarrow> c_string \<Rightarrow> c_string \<Rightarrow> c_string \<Rightarrow> messages \<Rightarrow> pointer \<times> messages" where
  "dbus_message_new_method_call destination path interface method h =
     (case (path_arg path, cstr method) of
        (Some p, Some m) \<Rightarrow>
          arc_new (Out ((new_outgoing KindMethodCall)\<lparr>ou_path := Some p, ou_member := Some m,
            ou_interface := cstr interface, ou_destination := cstr destination\<rparr>)) h
      | _ \<Rightarrow> (None, h))"

definition dbus_message_new_signal ::
  "c_string \<Rightarrow> c_string \<Rightarrow> c_string \<Rightarrow> messages \<Rightarrow> pointer \<times> messages" where
  "dbus_message_new_signal path interface name h =
     (case (path_arg path, cstr interface, cstr name) of
        (Some p, Some i, Some n) \<Rightarrow>
          arc_new (Out ((new_outgoing KindSignal)\<lparr>ou_path := Some p, ou_interface := Some i,
            ou_member := Some n\<rparr>)) h
      | _ \<Rightarrow> (None, h))"

definition dbus_message_new_method_return :: "pointer \<Rightarrow> messages \<Rightarrow> (pointer \<times> messages) c_result" where
  "dbus_message_new_method_return method_call h =
     c_then (arc_handle method_call h) (\<lambda>x. Returns
       (case x of
          Some (In m) \<Rightarrow>
            arc_new (Out ((new_outgoing KindMethodReturn)\<lparr>ou_reply_serial := Some (m_serial m),
              ou_destination := m_sender m\<rparr>)) h
        | _ \<Rightarrow> (None, h)))"

definition dbus_message_new_error ::
  "pointer \<Rightarrow> c_string \<Rightarrow> c_string \<Rightarrow> messages \<Rightarrow> (pointer \<times> messages) c_result" where
  "dbus_message_new_error reply_to_ptr error_name error_message h =
     (case cstr error_name of
        None \<Rightarrow> Returns (None, h)
      | Some name \<Rightarrow>
          c_then (arc_handle reply_to_ptr h) (\<lambda>x. Returns
            (case x of
               Some (In m) \<Rightarrow>
                 arc_new (Out ((new_outgoing KindError)\<lparr>ou_reply_serial := Some (m_serial m),
                   ou_destination := m_sender m, ou_member := Some name,
                   ou_args := (case cstr error_message of Some msg \<Rightarrow> [VString msg] | None \<Rightarrow> [])\<rparr>)) h
             | _ \<Rightarrow> (None, h))))"

definition dbus_message_ref :: "pointer \<Rightarrow> messages \<Rightarrow> (pointer \<times> messages) c_result" where
  "dbus_message_ref message h = arc_ref message h"

definition dbus_message_unref :: "pointer \<Rightarrow> messages \<Rightarrow> messages c_result" where
  "dbus_message_unref message h = arc_unref message h"

definition dbus_message_get_type :: "pointer \<Rightarrow> messages \<Rightarrow> c_int c_result" where
  "dbus_message_get_type message h =
     reading message h 0 (\<lambda>x. case x of
       Out r \<Rightarrow>
         (case ou_kind r of KindMethodCall \<Rightarrow> 1 | KindMethodReturn \<Rightarrow> 2 | KindError \<Rightarrow> 3 | KindSignal \<Rightarrow> 4)
     | In m \<Rightarrow> (case m_type m of MethodCall \<Rightarrow> 1 | MethodReturn \<Rightarrow> 2 | ErrorReply \<Rightarrow> 3 | Signal \<Rightarrow> 4))"

definition leak_opt :: "string option \<Rightarrow> c_string" where
  "leak_opt s = Option.bind s into_raw"

definition dbus_message_get_interface :: "pointer \<Rightarrow> messages \<Rightarrow> c_string c_result" where
  "dbus_message_get_interface message h =
     reading message h None (\<lambda>x. leak_opt (case x of Out r \<Rightarrow> ou_interface r | In m \<Rightarrow> m_interface m))"

definition dbus_message_get_member :: "pointer \<Rightarrow> messages \<Rightarrow> c_string c_result" where
  "dbus_message_get_member message h =
     reading message h None (\<lambda>x. leak_opt (case x of Out r \<Rightarrow> ou_member r | In m \<Rightarrow> m_member m))"

definition dbus_message_get_destination :: "pointer \<Rightarrow> messages \<Rightarrow> c_string c_result" where
  "dbus_message_get_destination message h =
     reading message h None (\<lambda>x. leak_opt (case x of Out r \<Rightarrow> ou_destination r | In m \<Rightarrow> m_destination m))"

definition dbus_message_get_sender :: "pointer \<Rightarrow> messages \<Rightarrow> c_string c_result" where
  "dbus_message_get_sender message h =
     reading message h None (\<lambda>x. leak_opt (case x of Out _ \<Rightarrow> None | In m \<Rightarrow> m_sender m))"

definition dbus_message_get_error_name :: "pointer \<Rightarrow> messages \<Rightarrow> c_string c_result" where
  "dbus_message_get_error_name message h =
     reading message h None (\<lambda>x. leak_opt (case x of
       Out r \<Rightarrow> if ou_kind r = KindError then ou_member r else None
     | In m \<Rightarrow> header_error_name (header m)))"

definition dbus_message_get_path :: "pointer \<Rightarrow> messages \<Rightarrow> c_string c_result" where
  "dbus_message_get_path message h =
     reading message h None (\<lambda>x. leak_opt (map_option path_str (case x of Out r \<Rightarrow> ou_path r | In m \<Rightarrow> m_path m)))"

definition dbus_message_set_destination :: "pointer \<Rightarrow> c_string \<Rightarrow> messages \<Rightarrow> (c_int \<times> messages) c_result" where
  "dbus_message_set_destination message destination h =
     c_then (arc_handle message h) (\<lambda>x. Returns
       (case x of
          Some (Out r) \<Rightarrow> (1, arc_set message (Out (r\<lparr>ou_destination := cstr destination\<rparr>)) h)
        | _ \<Rightarrow> (0, h)))"

definition dbus_message_get_serial :: "pointer \<Rightarrow> messages \<Rightarrow> u32 c_result" where
  "dbus_message_get_serial message h =
     reading message h 0 (\<lambda>x. case x of Out _ \<Rightarrow> 0 | In m \<Rightarrow> m_serial m)"

definition dbus_message_get_reply_serial :: "pointer \<Rightarrow> messages \<Rightarrow> u32 c_result" where
  "dbus_message_get_reply_serial message h =
     reading message h 0 (\<lambda>x. case x of
       Out _ \<Rightarrow> 0 | In m \<Rightarrow> (case m_reply_serial m of Some n \<Rightarrow> n | None \<Rightarrow> 0))"

section \<open>Iterators\<close>

text \<open>
  The iterator is in memory of the caller, who keeps 72 bytes for it.  Its fields come after an
  opaque part of this size; \<open>repr(C)\<close> with eight byte pointers and sizes.
\<close>

record message_iter =
  it_msg :: pointer
  it_appending :: bool
  it_read_pos :: nat

definition iter_opaque_size :: nat where "iter_opaque_size = 72"

definition field_end :: "nat \<Rightarrow> nat \<Rightarrow> nat" where
  "field_end offset n = (offset + (n - 1)) div n * n + n"

definition iter_size :: nat where
  "iter_size =
     (let msg_end = field_end iter_opaque_size 8;
          appending_end = field_end msg_end 1;
          read_pos_end = field_end appending_end 8
      in (read_pos_end + 7) div 8 * 8)"

definition TYPE_INVALID :: c_int where "TYPE_INVALID = 0"

definition type_of_code :: "char \<Rightarrow> c_int" where
  "type_of_code c = int (of_char c)"

definition value_type_code :: "dvalue \<Rightarrow> c_int" where
  "value_type_code v =
     (case v of
        VByte _ \<Rightarrow> type_of_code CHR ''y''
      | VBoolean _ \<Rightarrow> type_of_code CHR ''b''
      | VInt16 _ \<Rightarrow> type_of_code CHR ''n''
      | VUInt16 _ \<Rightarrow> type_of_code CHR ''q''
      | VInt32 _ \<Rightarrow> type_of_code CHR ''i''
      | VUInt32 _ \<Rightarrow> type_of_code CHR ''u''
      | VInt64 _ \<Rightarrow> type_of_code CHR ''x''
      | VUInt64 _ \<Rightarrow> type_of_code CHR ''t''
      | VDouble _ \<Rightarrow> type_of_code CHR ''d''
      | VString _ \<Rightarrow> type_of_code CHR ''s''
      | VObjectPath _ \<Rightarrow> type_of_code CHR ''o''
      | _ \<Rightarrow> TYPE_INVALID)"

definition args_of :: "dbus_message \<Rightarrow> dvalue list" where
  "args_of x = (case x of Out r \<Rightarrow> ou_args r | In m \<Rightarrow> body m)"

text \<open>The content of the iterator that the pointer points to, or \<open>None\<close> for a null pointer.\<close>

definition dbus_message_iter_init_append :: "pointer \<Rightarrow> message_iter option \<Rightarrow> message_iter option" where
  "dbus_message_iter_init_append message iter =
     map_option (\<lambda>_. \<lparr>it_msg = message, it_appending = True, it_read_pos = 0\<rparr>) iter"

definition dbus_message_iter_init ::
  "pointer \<Rightarrow> message_iter option \<Rightarrow> messages \<Rightarrow> (c_int \<times> message_iter option) c_result" where
  "dbus_message_iter_init message iter h =
     (case iter of
        None \<Rightarrow> Returns (0, None)
      | Some _ \<Rightarrow>
          c_then (reading message h 0 (\<lambda>x. if args_of x \<noteq> [] then 1 else 0)) (\<lambda>has_args.
            Returns (has_args, Some \<lparr>it_msg = message, it_appending = False, it_read_pos = 0\<rparr>)))"

definition dbus_message_iter_get_arg_type :: "message_iter option \<Rightarrow> messages \<Rightarrow> c_int c_result" where
  "dbus_message_iter_get_arg_type iter h =
     (case iter of
        None \<Rightarrow> Returns TYPE_INVALID
      | Some it \<Rightarrow>
          reading (it_msg it) h TYPE_INVALID (\<lambda>x.
            if it_read_pos it \<ge> length (args_of x) then TYPE_INVALID
            else value_type_code (args_of x ! it_read_pos it)))"

definition dbus_message_iter_next ::
  "message_iter option \<Rightarrow> messages \<Rightarrow> (c_int \<times> message_iter option) c_result" where
  "dbus_message_iter_next iter h =
     (case iter of
        None \<Rightarrow> Returns (0, None)
      | Some it \<Rightarrow>
          let iter = Some (it\<lparr>it_read_pos := it_read_pos it + 1\<rparr>) in
          c_then (dbus_message_iter_get_arg_type iter h) (\<lambda>t.
            Returns (if t \<noteq> TYPE_INVALID then 1 else 0, iter)))"

text \<open>What is written to, or read from, the storage for a value of basic type.\<close>

datatype c_basic = C8 u8 | C16 u16 | C32 u32 | C64 u64 | CString c_string

definition basic_of_value :: "dvalue \<Rightarrow> c_basic option" where
  "basic_of_value v =
     (case v of
        VByte b \<Rightarrow> Some (C8 b)
      | VBoolean b \<Rightarrow> Some (C32 (if b then 1 else 0))
      | VInt16 n \<Rightarrow> Some (C16 n)
      | VUInt16 n \<Rightarrow> Some (C16 n)
      | VInt32 n \<Rightarrow> Some (C32 n)
      | VUInt32 n \<Rightarrow> Some (C32 n)
      | VInt64 n \<Rightarrow> Some (C64 n)
      | VUInt64 n \<Rightarrow> Some (C64 n)
      | VDouble d \<Rightarrow> Some (C64 d)
      | VString s \<Rightarrow> Some (CString (into_raw s))
      | VObjectPath p \<Rightarrow> Some (CString (into_raw (path_str p)))
      | _ \<Rightarrow> None)"

definition dbus_message_iter_get_basic :: "message_iter option \<Rightarrow> messages \<Rightarrow> c_basic option c_result" where
  "dbus_message_iter_get_basic iter h =
     (case iter of
        None \<Rightarrow> Returns None
      | Some it \<Rightarrow>
          reading (it_msg it) h None (\<lambda>x.
            if it_read_pos it < length (args_of x) then basic_of_value (args_of x ! it_read_pos it) else None))"

text \<open>Storage of another size than the type's is \<open>Undefined\<close>; the inner \<open>None\<close> is an argument that is refused.\<close>

definition value_of_basic :: "c_int \<Rightarrow> c_basic \<Rightarrow> dvalue option c_result" where
  "value_of_basic ty store =
     (if ty = type_of_code CHR ''y'' then
        (case store of C8 b \<Rightarrow> Returns (Some (VByte b)) | _ \<Rightarrow> Undefined)
      else if ty = type_of_code CHR ''b'' then
        (case store of C32 n \<Rightarrow> Returns (Some (VBoolean (n \<noteq> 0))) | _ \<Rightarrow> Undefined)
      else if ty = type_of_code CHR ''n'' then
        (case store of C16 n \<Rightarrow> Returns (Some (VInt16 n)) | _ \<Rightarrow> Undefined)
      else if ty = type_of_code CHR ''q'' then
        (case store of C16 n \<Rightarrow> Returns (Some (VUInt16 n)) | _ \<Rightarrow> Undefined)
      else if ty = type_of_code CHR ''i'' then
        (case store of C32 n \<Rightarrow> Returns (Some (VInt32 n)) | _ \<Rightarrow> Undefined)
      else if ty = type_of_code CHR ''u'' then
        (case store of C32 n \<Rightarrow> Returns (Some (VUInt32 n)) | _ \<Rightarrow> Undefined)
      else if ty = type_of_code CHR ''x'' then
        (case store of C64 n \<Rightarrow> Returns (Some (VInt64 n)) | _ \<Rightarrow> Undefined)
      else if ty = type_of_code CHR ''t'' then
        (case store of C64 n \<Rightarrow> Returns (Some (VUInt64 n)) | _ \<Rightarrow> Undefined)
      else if ty = type_of_code CHR ''d'' then
        (case store of C64 n \<Rightarrow> Returns (Some (VDouble n)) | _ \<Rightarrow> Undefined)
      else if ty = type_of_code CHR ''s'' then
        (case store of CString p \<Rightarrow> Returns (map_option VString (cstr p)) | _ \<Rightarrow> Undefined)
      else if ty = type_of_code CHR ''o'' then
        (case store of CString p \<Rightarrow> Returns (map_option VObjectPath (path_arg p)) | _ \<Rightarrow> Undefined)
      else Returns None)"

definition dbus_message_iter_append_basic ::
  "message_iter option \<Rightarrow> c_int \<Rightarrow> c_basic option \<Rightarrow> messages \<Rightarrow> (c_int \<times> messages) c_result" where
  "dbus_message_iter_append_basic iter ty store h =
     (case (iter, store) of
        (Some it, Some content) \<Rightarrow>
          if \<not> it_appending it then Returns (0, h)
          else c_then (value_of_basic ty content) (\<lambda>v.
            case v of
              None \<Rightarrow> Returns (0, h)
            | Some v \<Rightarrow>
                c_then (arc_handle (it_msg it) h) (\<lambda>x. Returns
                  (case x of
                     Some (Out r) \<Rightarrow> (1, arc_set (it_msg it) (Out (r\<lparr>ou_args := ou_args r @ [v]\<rparr>)) h)
                   | _ \<Rightarrow> (0, h))))
      | _ \<Rightarrow> Returns (0, h))"

definition take_outgoing :: "pointer \<Rightarrow> messages \<Rightarrow> (outgoing option \<times> messages) c_result" where
  "take_outgoing msg h =
     c_then (arc_handle msg h) (\<lambda>x. Returns
       (case x of
          Some (Out r) \<Rightarrow> (Some r, arc_set msg (Out (new_outgoing (ou_kind r))) h)
        | _ \<Rightarrow> (None, h)))"

end
