(* ===== verification/Tools.thy ===== *)
theory Tools
  imports Client Daemon_Start
begin

text \<open>
  \<open>oxibus-tools\<close>: the command line programs.  What a program reads (its arguments, the
  environment, files, the answers of the processes it starts) is an argument; what it does is a
  list of effects, in order, and how it ends.  Parsing and printing of floating point numbers
  (\<open>f64\<close>) are parameters.
\<close>

section \<open>Addresses\<close>

datatype bus_choice = ChooseSystem | ChooseSession

datatype tool_error = ToolError string | ToolCore core_error

type_synonym environment = "(string \<times> string) list"

text \<open>\<open>std::env::var\<close>: a variable that is not UTF-8 counts as missing.\<close>

definition env_var :: "environment \<Rightarrow> string \<Rightarrow> string option" where
  "env_var env n = (case map_of env n of Some v \<Rightarrow> if valid_utf8 v then Some v else None | None \<Rightarrow> None)"

definition or_else :: "'a option \<Rightarrow> 'a option \<Rightarrow> 'a option" where
  "or_else a b = (case a of Some x \<Rightarrow> Some x | None \<Rightarrow> b)"

definition tool_address :: "string \<Rightarrow> tool_error + address" where
  "tool_address s = map_sum ToolCore id (parse_address s)"

definition resolve_address ::
  "environment \<Rightarrow> config_io \<Rightarrow> bus_choice \<Rightarrow> string option \<Rightarrow> tool_error + address" where
  "resolve_address env io choice explicit =
     (case explicit of
        Some a \<Rightarrow> tool_address a
      | None \<Rightarrow>
          (case choice of
             ChooseSession \<Rightarrow>
               (case or_else (env_var env ''OXIBUS_SESSION_BUS_ADDRESS'') (env_var env ''DBUS_SESSION_BUS_ADDRESS'') of
                  Some a \<Rightarrow> tool_address a
                | None \<Rightarrow>
                    Inl (ToolError ''OXIBUS_SESSION_BUS_ADDRESS (or DBUS_SESSION_BUS_ADDRESS) is not set''))
           | ChooseSystem \<Rightarrow>
               (case env_var env ''OXIBUS_SYSTEM_BUS_ADDRESS'' of
                  Some a \<Rightarrow> tool_address a
                | None \<Rightarrow> Inr (UnixPath (pc_system_socket (cfg_paths (load_default io)))))))"

section \<open>Typed arguments\<close>

text \<open>A number that cannot be parsed is an error of the standard library; it is kept as the text it is about.\<close>

definition int_arg :: "string \<Rightarrow> (int \<Rightarrow> dvalue) \<Rightarrow> nat \<Rightarrow> tool_error + dvalue" where
  "int_arg s f half = (case parse_int half s of Some i \<Rightarrow> Inr (f i) | None \<Rightarrow> Inl (ToolError s))"

definition uint_arg :: "string \<Rightarrow> (nat \<Rightarrow> dvalue) \<Rightarrow> nat \<Rightarrow> tool_error + dvalue" where
  "uint_arg s f bound = (case parse_uint bound s of Some n \<Rightarrow> Inr (f n) | None \<Rightarrow> Inl (ToolError s))"

definition element_type :: "string \<Rightarrow> tool_error + dtype" where
  "element_type elem_ty =
     (if elem_ty = ''string'' then Inr TString
      else if elem_ty = ''int32'' then Inr TInt32
      else if elem_ty = ''uint32'' then Inr TUInt32
      else if elem_ty = ''double'' then Inr TDouble
      else Inl (ToolError (''unsupported array element type '' @ single_quoted elem_ty)))"

lemma try_map_cong [fundef_cong]:
  "xs = ys \<Longrightarrow> (\<And>x. x \<in> set ys \<Longrightarrow> f x = g x) \<Longrightarrow> try_map f xs = try_map g ys"
  by (induction xs arbitrary: ys) auto

lemma split_on_length: "p \<in> set (split_on c s) \<Longrightarrow> length p \<le> length s"
  by (induction s arbitrary: p) (auto split: if_splits list.splits intro: le_SucI)

lemma split_once_length: "split_once c s = Some (a, b) \<Longrightarrow> length s = Suc (length a + length b)"
  by (simp add: split_once_Some)

function parse_typed_arg :: "(string \<Rightarrow> u64 option) \<Rightarrow> string \<Rightarrow> tool_error + dvalue" where
  "parse_typed_arg f64 spec =
     (case split_once CHR '':'' spec of
        None \<Rightarrow> Inl (ToolError (''argument '' @ single_quoted spec @ '' is not in type:value form''))
      | Some (ty, val) \<Rightarrow>
          if ty = ''string'' then Inr (VString val)
          else if ty = ''objpath'' then map_sum ToolCore VObjectPath (object_path_new val)
          else if ty = ''boolean'' then
            (if val = ''true'' \<or> val = ''1'' then Inr (VBoolean True)
             else if val = ''false'' \<or> val = ''0'' then Inr (VBoolean False)
             else Inl (ToolError (''invalid boolean '' @ single_quoted val)))
          else if ty = ''byte'' then uint_arg val (\<lambda>n. VByte (word_of_nat n)) (2 ^ 8)
          else if ty = ''int16'' then int_arg val (\<lambda>i. VInt16 (word_of_int i)) (2 ^ 15)
          else if ty = ''uint16'' then uint_arg val (\<lambda>n. VUInt16 (word_of_nat n)) (2 ^ 16)
          else if ty = ''int32'' then int_arg val (\<lambda>i. VInt32 (word_of_int i)) (2 ^ 31)
          else if ty = ''uint32'' then uint_arg val (\<lambda>n. VUInt32 (word_of_nat n)) (2 ^ 32)
          else if ty = ''int64'' then int_arg val (\<lambda>i. VInt64 (word_of_int i)) (2 ^ 63)
          else if ty = ''uint64'' then uint_arg val (\<lambda>n. VUInt64 (word_of_nat n)) (2 ^ 64)
          else if ty = ''double'' then
            (case f64 val of Some d \<Rightarrow> Inr (VDouble d) | None \<Rightarrow> Inl (ToolError val))
          else if ty = ''array'' then
            (case split_once CHR '':'' val of
               None \<Rightarrow> Inl (ToolError ''array needs an element type, e.g. array:string:a,b'')
             | Some (elem_ty, elems) \<Rightarrow>
                 and_then
                   (if elems = [] then Inr []
                    else try_map (\<lambda>v. parse_typed_arg f64 (elem_ty @ '':'' @ v)) (split_on CHR '','' elems))
                   (\<lambda>elements. and_then (element_type elem_ty) (\<lambda>t. Inr (VArray t elements))))
          else Inl (ToolError (''unsupported type '' @ single_quoted ty)))"
  by pat_completeness auto

termination
proof (relation "measure (\<lambda>(f, s). length s)", goal_cases)
  case (2 f64 spec p ty val q elem_ty elems v)
  have "split_once CHR '':'' spec = Some (ty, val)" "split_once CHR '':'' val = Some (elem_ty, elems)"
    using 2(1,2,15,16) by simp_all
  then have "length spec = Suc (length ty + length val)" "length val = Suc (length elem_ty + length elems)"
    by (simp_all only: split_once_length)
  moreover have "length v \<le> length elems" using 2(18) by (rule split_on_length)
  moreover have "ty = ''array''" using 2(14) by simp
  ultimately show ?case by simp
qed simp

declare parse_typed_arg.simps [simp del]

section \<open>Printing values\<close>

fun join_str :: "string \<Rightarrow> string list \<Rightarrow> string" where
  "join_str sep [] = []"
| "join_str sep [x] = x"
| "join_str sep (x # y # r) = x @ sep @ join_str sep (y # r)"

definition word_text :: "'a::len word \<Rightarrow> string" where
  "word_text w = show_nat (unat w)"

definition int_text :: "'a::len word \<Rightarrow> string" where
  "int_text w = show_int (sint w)"

fun format_value :: "(u64 \<Rightarrow> string) \<Rightarrow> dvalue \<Rightarrow> string" where
  "format_value f64 (VByte b) = ''byte '' @ word_text b"
| "format_value f64 (VBoolean b) = ''boolean '' @ (if b then ''true'' else ''false'')"
| "format_value f64 (VInt16 i) = ''int16 '' @ int_text i"
| "format_value f64 (VUInt16 i) = ''uint16 '' @ word_text i"
| "format_value f64 (VInt32 i) = ''int32 '' @ int_text i"
| "format_value f64 (VUInt32 i) = ''uint32 '' @ word_text i"
| "format_value f64 (VInt64 i) = ''int64 '' @ int_text i"
| "format_value f64 (VUInt64 i) = ''uint64 '' @ word_text i"
| "format_value f64 (VDouble d) = ''double '' @ f64 d"
| "format_value f64 (VString s) = ''string '' @ double_quoted s"
| "format_value f64 (VObjectPath p) = ''object path '' @ double_quoted (path_str p)"
| "format_value f64 (VSignature s) = ''signature '' @ double_quoted (sig_str s)"
| "format_value f64 (VUnixFd fd) = ''unix fd '' @ word_text fd"
| "format_value f64 (VArray t els) = ''array ['' @ join_str '', '' (map (format_value f64) els) @ '']''"
| "format_value f64 (VStruct els) = ''struct {'' @ join_str '', '' (map (format_value f64) els) @ ''}''"
| "format_value f64 (VDictEntry k v) =
     ''dict entry('' @ format_value f64 k @ '' '' @ format_value f64 v @ '')''"
| "format_value f64 (VVariant inner) = ''variant '' @ format_value f64 inner"

section \<open>What a program does\<close>

text \<open>Standard output, processes, files, and what is sent to a bus; and the end of the program.\<close>

datatype bus_request =
    CallsMethod "string option" object_path "string option" string "dvalue list"
  | EmitsSignal object_path string string "dvalue list"

datatype tool_effect =
    PrintsLine string
  | PrintsRaw string
  | StartsDaemon spawn_command
  | LosesTerminal
  | RunsCommand spawn_command
  | KillsDaemon
  | CreatesDirs string
  | SavesFile string string
  | DeletesFile string
  | SendsRequest address bus_request

datatype tool_end = ToolDone | ToolFails tool_error | ToolExits int | ToolPanics | ToolWaits

text \<open>
  What the daemon and the command do that a program starts: whether the daemon starts, the first
  line it prints and its pid, whether going into the background works, and the exit status of
  the command.
\<close>

record child_io =
  ch_start :: "spawn_command \<Rightarrow> string option"
  ch_line :: "string + string"
  ch_pid :: nat
  ch_background :: bool
  ch_exit :: "int option option"

definition exit_status :: "int option option \<Rightarrow> int" where
  "exit_status st = (case st of Some (Some c) \<Rightarrow> c | _ \<Rightarrow> 1)"

text \<open>Start the daemon with these arguments and read its address from the first line it prints.\<close>

definition daemon_address ::
  "child_io \<Rightarrow> spawn_command \<Rightarrow> tool_effect list \<Rightarrow> tool_effect list \<times> (tool_error + string)" where
  "daemon_address io cmd on_silence =
     (case ch_start io cmd of
        Some e \<Rightarrow> ([], Inl (ToolError (''failed to start '' @ cmd_program cmd @ '': '' @ e)))
      | None \<Rightarrow>
          (case ch_line io of
             Inl e \<Rightarrow> ([StartsDaemon cmd], Inl (ToolError e))
           | Inr line \<Rightarrow>
               if trim line = [] then
                 (StartsDaemon cmd # on_silence, Inl (ToolError ''dbus-daemon did not print a bus address''))
               else ([StartsDaemon cmd], Inr (trim line))))"

section \<open>dbus-launch\<close>

datatype shell_syntax = Sh | Csh | Binary

definition detect_shell_syntax :: "environment \<Rightarrow> shell_syntax" where
  "detect_shell_syntax env =
     (case env_var env ''SHELL'' of Some s \<Rightarrow> if contains_str ''csh'' s then Csh else Sh | None \<Rightarrow> Sh)"

record launch_options =
  lo_exit_with_session :: bool
  lo_print_pid :: bool
  lo_fork :: bool
  lo_config :: "string option"
  lo_syslog :: bool
  lo_syslog_only :: bool
  lo_syntax :: "shell_syntax option"
  lo_command :: "string list"

definition launch_defaults :: launch_options where
  "launch_defaults =
     \<lparr>lo_exit_with_session = False, lo_print_pid = False, lo_fork = False, lo_config = None,
      lo_syslog = False, lo_syslog_only = False, lo_syntax = None, lo_command = []\<rparr>"

definition launch_help :: string where
  "launch_help = ''Usage: dbus-launch [--exit-with-session] [--print-pid] [--fork] [--config-file=FILE] [--syslog|--syslog-only] [--sh-syntax|--csh-syntax|--binary-syntax|--auto-syntax] [-- COMMAND [ARGS...]]''"

text \<open>The left side is a line to print instead of running.\<close>

fun launch_args :: "environment \<Rightarrow> string list \<Rightarrow> launch_options \<Rightarrow> string + launch_options" where
  "launch_args env [] r = Inr r"
| "launch_args env (a # as) r =
     (if a = ''--exit-with-session'' then launch_args env as (r\<lparr>lo_exit_with_session := True\<rparr>)
      else if a = ''--print-pid'' then launch_args env as (r\<lparr>lo_print_pid := True\<rparr>)
      else if a = ''--fork'' then launch_args env as (r\<lparr>lo_fork := True\<rparr>)
      else if a = ''--config-file'' then
        (case as of
           [] \<Rightarrow> Inr (r\<lparr>lo_config := None\<rparr>)
         | f # rest \<Rightarrow> launch_args env rest (r\<lparr>lo_config := Some f\<rparr>))
      else if a = ''--syslog'' then launch_args env as (r\<lparr>lo_syslog := True\<rparr>)
      else if a = ''--syslog-only'' then launch_args env as (r\<lparr>lo_syslog_only := True\<rparr>)
      else if a = ''--sh-syntax'' then launch_args env as (r\<lparr>lo_syntax := Some Sh\<rparr>)
      else if a = ''--csh-syntax'' then launch_args env as (r\<lparr>lo_syntax := Some Csh\<rparr>)
      else if a = ''--binary-syntax'' then launch_args env as (r\<lparr>lo_syntax := Some Binary\<rparr>)
      else if a = ''--auto-syntax'' then launch_args env as (r\<lparr>lo_syntax := Some (detect_shell_syntax env)\<rparr>)
      else if a = ''--version'' then Inl ''dbus-launch (oxibus) 0.1.0''
      else if a = ''--help'' \<or> a = ''-h'' then Inl launch_help
      else if a = ''--'' then Inr (r\<lparr>lo_command := lo_command r @ as\<rparr>)
      else launch_args env as r)"

definition daemon_bin :: "environment \<Rightarrow> string" where
  "daemon_bin env = (case env_var env ''OXIBUS_DAEMON_BIN'' of Some b \<Rightarrow> b | None \<Rightarrow> ''dbus-daemon'')"

definition launch_daemon :: "environment \<Rightarrow> launch_options \<Rightarrow> spawn_command" where
  "launch_daemon env r =
     \<lparr>cmd_program = daemon_bin env,
      cmd_args = [''--session'', ''--print-address''] @
        (case lo_config r of Some cfg \<Rightarrow> [''--config'', cfg] | None \<Rightarrow> []) @
        (if lo_syslog_only r then [''--syslog-only''] else if lo_syslog r then [''--syslog''] else []),
      cmd_env = []\<rparr>"

definition print_startup :: "shell_syntax \<Rightarrow> string \<Rightarrow> nat \<Rightarrow> bool \<Rightarrow> tool_effect list" where
  "print_startup syntax address the_pid print_pid =
     (let pid_line = (if print_pid then [PrintsLine (show_nat the_pid)] else []) in
      case syntax of
        Sh \<Rightarrow>
          [PrintsLine (''OXIBUS_SESSION_BUS_ADDRESS='' @ single_quoted address @ ''; export OXIBUS_SESSION_BUS_ADDRESS;''),
           PrintsLine (''OXIBUS_SESSION_BUS_PID='' @ show_nat the_pid @ '';'')] @ pid_line
      | Csh \<Rightarrow>
          [PrintsLine (''setenv OXIBUS_SESSION_BUS_ADDRESS '' @ single_quoted address @ '';''),
           PrintsLine (''set OXIBUS_SESSION_BUS_PID='' @ show_nat the_pid @ '';'')] @ pid_line
      | Binary \<Rightarrow>
          [PrintsRaw (''OXIBUS_SESSION_BUS_ADDRESS='' @ address @ [CHR 0x00] @
             ''OXIBUS_SESSION_BUS_PID='' @ show_nat the_pid @ [CHR 0x00])])"

definition dbus_launch :: "environment \<Rightarrow> child_io \<Rightarrow> string list \<Rightarrow> tool_effect list \<times> tool_end" where
  "dbus_launch env io args =
     (case launch_args env args launch_defaults of
        Inl line \<Rightarrow> ([PrintsLine line], ToolDone)
      | Inr r \<Rightarrow>
          let syntax = (case lo_syntax r of Some x \<Rightarrow> x | None \<Rightarrow> Sh);
              background = (if lo_fork r \<and> ch_background io then [LosesTerminal] else [])
          in case daemon_address io (launch_daemon env r) [] of
               (effs, Inl e) \<Rightarrow> (effs, ToolFails e)
             | (effs, Inr address) \<Rightarrow>
                 (case lo_command r of
                    [] \<Rightarrow> (effs @ print_startup syntax address (ch_pid io) (lo_print_pid r) @ background, ToolDone)
                  | prog # rest \<Rightarrow>
                      (effs @ background @
                         [RunsCommand \<lparr>cmd_program = prog, cmd_args = rest,
                            cmd_env = [(''OXIBUS_SESSION_BUS_ADDRESS'', address),
                                       (''OXIBUS_SESSION_BUS_PID'', show_nat (ch_pid io))]\<rparr>] @
                         (if lo_exit_with_session r then [KillsDaemon] else []),
                       ToolExits (exit_status (ch_exit io)))))"

section \<open>dbus-run-session\<close>

record session_options =
  so_daemon :: "string option"
  so_config :: "string option"
  so_address :: "string option"
  so_print_address :: bool
  so_command :: "string list"

definition session_defaults :: session_options where
  "session_defaults =
     \<lparr>so_daemon = None, so_config = None, so_address = None, so_print_address = False, so_command = []\<rparr>"

definition session_help :: string where
  "session_help = ''Usage: dbus-run-session [--dbus-daemon=BINARY] [--config-file=FILE] [--address=ADDRESS] [--print-address] -- COMMAND [ARGS...]''"

fun session_args :: "string list \<Rightarrow> session_options \<Rightarrow> string + session_options" where
  "session_args [] r = Inr r"
| "session_args (a # as) r =
     (if a = ''--'' then Inr (r\<lparr>so_command := so_command r @ as\<rparr>)
      else if a = ''--session'' \<or> a = ''--nofork'' then session_args as r
      else if a = ''--print-address'' then session_args as (r\<lparr>so_print_address := True\<rparr>)
      else if a = ''--dbus-daemon'' then
        (case as of [] \<Rightarrow> Inr (r\<lparr>so_daemon := None\<rparr>) | f # rest \<Rightarrow> session_args rest (r\<lparr>so_daemon := Some f\<rparr>))
      else if a = ''--config-file'' then
        (case as of [] \<Rightarrow> Inr (r\<lparr>so_config := None\<rparr>) | f # rest \<Rightarrow> session_args rest (r\<lparr>so_config := Some f\<rparr>))
      else if a = ''--address'' then
        (case as of [] \<Rightarrow> Inr (r\<lparr>so_address := None\<rparr>) | f # rest \<Rightarrow> session_args rest (r\<lparr>so_address := Some f\<rparr>))
      else if a = ''--version'' then Inl ''dbus-run-session (oxibus) 0.1.0''
      else if a = ''--help'' \<or> a = ''-h'' then Inl session_help
      else session_args as (r\<lparr>so_command := so_command r @ [a]\<rparr>))"

definition session_daemon :: "environment \<Rightarrow> session_options \<Rightarrow> spawn_command" where
  "session_daemon env r =
     \<lparr>cmd_program = (case so_daemon r of Some b \<Rightarrow> b | None \<Rightarrow> daemon_bin env),
      cmd_args = [''--session'', ''--print-address''] @
        (case so_config r of Some cfg \<Rightarrow> [''--config'', cfg] | None \<Rightarrow> []) @
        (case so_address r of Some a \<Rightarrow> [''--address'', a] | None \<Rightarrow> []),
      cmd_env = []\<rparr>"

definition session_environment :: "string \<Rightarrow> environment" where
  "session_environment address =
     [(''DBUS_SESSION_BUS_ADDRESS'', address), (''OXIBUS_SESSION_BUS_ADDRESS'', address)]"

definition dbus_run_session :: "environment \<Rightarrow> child_io \<Rightarrow> string list \<Rightarrow> tool_effect list \<times> tool_end" where
  "dbus_run_session env io args =
     (case session_args args session_defaults of
        Inl line \<Rightarrow> ([PrintsLine line], ToolDone)
      | Inr r \<Rightarrow>
          (case so_command r of
             [] \<Rightarrow> ([], ToolFails (ToolError ''usage: dbus-run-session -- COMMAND [ARGS...]''))
           | prog # rest \<Rightarrow>
               (case daemon_address io (session_daemon env r) [KillsDaemon] of
                  (effs, Inl e) \<Rightarrow> (effs, ToolFails e)
                | (effs, Inr address) \<Rightarrow>
                    (effs @ (if so_print_address r then [PrintsLine address] else []) @
                       [RunsCommand \<lparr>cmd_program = prog, cmd_args = rest, cmd_env = session_environment address\<rparr>,
                        KillsDaemon],
                     ToolExits (exit_status (ch_exit io))))))"

section \<open>dbus-uuidgen\<close>

definition split_flag :: "string \<Rightarrow> string \<Rightarrow> string option option" where
  "split_flag a flag =
     (case strip_prefix flag a of
        None \<Rightarrow> None
      | Some rest \<Rightarrow> if rest = [] then Some None else map_option Some (strip_prefix ''='' rest))"

datatype uuid_args = UuidRun bool bool "string option" | UuidPrints string | UuidUnknown

fun uuidgen_args :: "string list \<Rightarrow> bool \<Rightarrow> bool \<Rightarrow> string option \<Rightarrow> uuid_args" where
  "uuidgen_args [] ensure get_id filename = UuidRun ensure get_id filename"
| "uuidgen_args (a # as) ensure get_id filename =
     (case split_flag a ''--ensure'' of
        Some f \<Rightarrow> uuidgen_args as True get_id (or_else f filename)
      | None \<Rightarrow>
          (case split_flag a ''--get'' of
             Some f \<Rightarrow> uuidgen_args as ensure True (or_else f filename)
           | None \<Rightarrow>
               if a = ''--help'' then UuidPrints ''Usage: dbus-uuidgen [--ensure[=FILENAME]] [--get[=FILENAME]]''
               else if a = ''--version'' then UuidPrints ''OxiBus UUID Generator 0.1.0''
               else UuidUnknown))"

text \<open>The files that can be read, whether a file can be written, and the random bytes.\<close>

definition dbus_uuidgen ::
  "config_io \<Rightarrow> (string \<Rightarrow> string option) \<Rightarrow> (string \<Rightarrow> bool) \<Rightarrow> u8 list \<Rightarrow> string list \<Rightarrow>
     tool_effect list \<times> tool_end" where
  "dbus_uuidgen cfg read_file writable random_bytes args =
     (case uuidgen_args args False False None of
        UuidPrints line \<Rightarrow> ([PrintsLine line], ToolDone)
      | UuidUnknown \<Rightarrow> ([], ToolExits 1)
      | UuidRun ensure get_id filename \<Rightarrow>
          let path = (case filename of Some f \<Rightarrow> f | None \<Rightarrow> pc_machine_id_file (cfg_paths (load_default cfg)));
              existing = (case read_file path of Some s \<Rightarrow> trim s | None \<Rightarrow> [])
          in if get_id then
               (if existing \<noteq> [] then ([PrintsLine existing], ToolDone) else ([], ToolExits 1))
             else if ensure then
               (if existing \<noteq> [] then ([], ToolDone)
                else ((case parent_dir path of Some d \<Rightarrow> [CreatesDirs d] | None \<Rightarrow> []) @
                        [SavesFile path (generate_guid_hex random_bytes)],
                      if writable path then ToolDone else ToolExits 1))
             else ([PrintsLine (generate_guid_hex random_bytes)], ToolDone))"

section \<open>dbus-cleanup-sockets\<close>

text \<open>An entry of the directory, with what connecting to it and removing it gives.\<close>

datatype connect_outcome = Answers | Refuses | FailsOtherwise

record dir_entry =
  de_path :: string
  de_socket :: "bool option"
  de_connect :: connect_outcome
  de_removable :: bool

fun cleanup_entries :: "dir_entry list \<Rightarrow> tool_effect list \<times> nat" where
  "cleanup_entries [] = ([], 0)"
| "cleanup_entries (d # ds) =
     (let stale = de_socket d = Some True \<and> de_connect d = Refuses;
          here = (if stale then DeletesFile (de_path d) #
                    (if de_removable d then [PrintsLine (''removed stale socket '' @ de_path d)] else [])
                  else [])
      in case cleanup_entries ds of
           (effs, n) \<Rightarrow> (here @ effs, if stale \<and> de_removable d then Suc n else n))"

definition dbus_cleanup_sockets ::
  "(string \<Rightarrow> dir_entry list option) \<Rightarrow> string list \<Rightarrow> tool_effect list \<times> tool_end" where
  "dbus_cleanup_sockets read_dir args =
     (if list_ex (\<lambda>a. a = ''--help'' \<or> a = ''-h'') args then
        ([PrintsLine ''Usage: dbus-cleanup-sockets [DIRECTORY]''], ToolDone)
      else if list_ex (\<lambda>a. a = ''--version'') args then
        ([PrintsLine ''dbus-cleanup-sockets (oxibus) 0.1.0''], ToolDone)
      else
        let dir = (case find (\<lambda>a. \<not> prefix ''-'' a) args of Some d \<Rightarrow> d | None \<Rightarrow> ''/tmp'') in
        (case read_dir dir of
           None \<Rightarrow> ([], ToolExits 1)
         | Some entries \<Rightarrow>
             (case cleanup_entries entries of
                (effs, n) \<Rightarrow>
                  (effs @ [PrintsLine (''dbus-cleanup-sockets: removed '' @ show_nat n @
                     '' stale socket(s) from '' @ dir)], ToolDone))))"

section \<open>dbus-send\<close>

text \<open>How connecting to a bus and saying Hello ends, and how a request ends.\<close>

datatype reply_outcome = Replied "dvalue list" | RequestFails string | TimesOut

record bus_io_tool =
  bt_connect :: "address \<Rightarrow> string option"
  bt_reply :: "bus_request \<Rightarrow> reply_outcome"

record send_args =
  sa_system :: bool
  sa_session :: bool
  sa_address :: "string option"
  sa_bus :: "string option"
  sa_peer :: "string option"
  sa_dest :: "string option"
  sa_type :: string
  sa_print_reply :: bool
  sa_reply_timeout :: "nat option"
  sa_object_path :: string
  sa_interface_member :: string
  sa_typed_args :: "string list"

definition rsplit_once :: "char \<Rightarrow> string \<Rightarrow> (string \<times> string) option" where
  "rsplit_once c s = map_option (\<lambda>(a, b). (rev b, rev a)) (split_once c (rev s))"

definition bus_choice_of :: "bool \<Rightarrow> bus_choice" where
  "bus_choice_of system = (if system then ChooseSystem else ChooseSession)"

text \<open>What is sent, and where, before the type of the message is looked at.\<close>

definition send_target ::
  "environment \<Rightarrow> config_io \<Rightarrow> (string \<Rightarrow> u64 option) \<Rightarrow> send_args \<Rightarrow>
     tool_error + address \<times> object_path \<times> string \<times> string \<times> dvalue list" where
  "send_target env cfg f64 args =
     (let explicit = or_else (or_else (sa_address args) (sa_bus args)) (sa_peer args) in
      if explicit \<noteq> None \<and> (sa_system args \<or> sa_session args) then
        Inl (ToolError ''--address/--bus/--peer may not be used with --system or --session'')
      else
        and_then (resolve_address env cfg (bus_choice_of (sa_system args)) explicit) (\<lambda>a.
        case rsplit_once CHR ''.'' (sa_interface_member args) of
          None \<Rightarrow> Inl (ToolError (''expected INTERFACE.MEMBER, got '' @ single_quoted (sa_interface_member args)))
        | Some (interface, member) \<Rightarrow>
            and_then (map_sum ToolCore id (object_path_new (sa_object_path args))) (\<lambda>path.
            and_then (try_map (parse_typed_arg f64) (sa_typed_args args)) (\<lambda>values.
            Inr (a, path, interface, member, values)))))"

definition print_reply_lines :: "(u64 \<Rightarrow> string) \<Rightarrow> dvalue list \<Rightarrow> tool_effect list" where
  "print_reply_lines f64 reply =
     PrintsLine ''method return'' # map (\<lambda>v. PrintsLine (''   '' @ format_value f64 v)) reply"

definition dbus_send ::
  "environment \<Rightarrow> config_io \<Rightarrow> (string \<Rightarrow> u64 option) \<Rightarrow> (u64 \<Rightarrow> string) \<Rightarrow> bus_io_tool \<Rightarrow> send_args \<Rightarrow>
     tool_effect list \<times> tool_end" where
  "dbus_send env cfg f64 show_f64 io args =
     (case send_target env cfg f64 args of
        Inl e \<Rightarrow> ([], ToolFails e)
      | Inr (a, path, interface, member, values) \<Rightarrow>
          (case bt_connect io a of
             Some e \<Rightarrow> ([], ToolFails (ToolError e))
           | None \<Rightarrow>
               if sa_type args = ''signal'' then
                 (let r = EmitsSignal path interface member values in
                  ([SendsRequest a r],
                   case bt_reply io r of
                     RequestFails e \<Rightarrow> ToolFails (ToolError e) | TimesOut \<Rightarrow> ToolWaits | Replied _ \<Rightarrow> ToolDone))
               else if sa_type args = ''method_call'' then
                 (let r = CallsMethod (sa_dest args) path (Some interface) member values in
                  case (bt_reply io r, sa_reply_timeout args) of
                    (Replied reply, _) \<Rightarrow>
                      (SendsRequest a r # (if sa_print_reply args then print_reply_lines show_f64 reply else []),
                       ToolDone)
                  | (RequestFails e, _) \<Rightarrow> ([SendsRequest a r], ToolFails (ToolError e))
                  | (TimesOut, Some ms) \<Rightarrow>
                      ([SendsRequest a r],
                       ToolFails (ToolError (''no reply within '' @ show_nat ms @ ''ms (--reply-timeout)'')))
                  | (TimesOut, None) \<Rightarrow> ([SendsRequest a r], ToolWaits))
               else ([], ToolFails (ToolError (''unsupported --type '' @ single_quoted (sa_type args) @
                           '' (use method_call or signal)'')))))"

section \<open>dbus-update-activation-environment\<close>

record update_args =
  ua_system :: bool
  ua_address :: "string option"
  ua_all :: bool
  ua_vars :: "string list"

text \<open>\<open>std::env::vars\<close> panics over a name or a value that is not UTF-8.\<close>

definition environment_pairs :: "environment \<Rightarrow> update_args \<Rightarrow> environment option" where
  "environment_pairs env args =
     (if ua_all args then
        (if list_all (\<lambda>(k, v). valid_utf8 k \<and> valid_utf8 v) env then Some env else None)
      else Some (map (\<lambda>v. case split_once CHR ''='' v of
             Some (n, x) \<Rightarrow> (n, x)
           | None \<Rightarrow> (v, case env_var env v of Some x \<Rightarrow> x | None \<Rightarrow> [])) (ua_vars args)))"

definition environment_arg :: "environment \<Rightarrow> dvalue" where
  "environment_arg pairs =
     VArray (TDictEntry TString TString) (map (\<lambda>(n, v). VDictEntry (VString n) (VString v)) pairs)"

definition update_request :: "environment \<Rightarrow> bus_request" where
  "update_request pairs =
     CallsMethod (Some BUS_NAME) (ObjectPath BUS_PATH) (Some BUS_INTERFACE)
       ''UpdateActivationEnvironment'' [environment_arg pairs]"

definition dbus_update_activation_environment ::
  "environment \<Rightarrow> config_io \<Rightarrow> bus_io_tool \<Rightarrow> update_args \<Rightarrow> tool_effect list \<times> tool_end" where
  "dbus_update_activation_environment env cfg io args =
     (if ua_vars args = [] \<and> \<not> ua_all args then
        ([], ToolFails (ToolError
           ''usage: dbus-update-activation-environment [--system|--session] [--all] NAME[=VALUE]...''))
      else
        case resolve_address env cfg (bus_choice_of (ua_system args)) (ua_address args) of
          Inl e \<Rightarrow> ([], ToolFails e)
        | Inr a \<Rightarrow>
            (case environment_pairs env args of
               None \<Rightarrow> ([], ToolPanics)
             | Some pairs \<Rightarrow>
                 (case bt_connect io a of
                    Some e \<Rightarrow> ([], ToolFails (ToolError e))
                  | None \<Rightarrow>
                      ([SendsRequest a (update_request pairs)],
                       case bt_reply io (update_request pairs) of
                         RequestFails e \<Rightarrow> ToolFails (ToolError e)
                       | TimesOut \<Rightarrow> ToolWaits
                       | Replied _ \<Rightarrow> ToolDone))))"

section \<open>dbus-monitor\<close>

record monitor_args =
  ma_system :: bool
  ma_address :: "string option"
  ma_binary :: bool
  ma_pcap :: bool
  ma_profile :: bool
  ma_rules :: "string list"

definition or_text :: "string \<Rightarrow> string option \<Rightarrow> string" where
  "or_text d x = (case x of Some s \<Rightarrow> s | None \<Rightarrow> d)"

definition print_message :: "(u64 \<Rightarrow> string) \<Rightarrow> message \<Rightarrow> tool_effect list" where
  "print_message f64 msg =
     (let kind = (case m_type msg of
              MethodCall \<Rightarrow> ''method call'' | MethodReturn \<Rightarrow> ''method return''
            | ErrorReply \<Rightarrow> ''error'' | Signal \<Rightarrow> ''signal'')
      in PrintsLine (kind @ '' sender='' @ or_text ''(none)'' (m_sender msg) @
           '' destination='' @ or_text ''(none)'' (m_destination msg) @
           '' path='' @ or_text [] (map_option path_str (m_path msg)) @
           '' interface='' @ or_text [] (m_interface msg) @ '' member='' @ or_text [] (m_member msg)) #
         map (\<lambda>v. PrintsLine (''   '' @ format_value f64 v)) (body msg))"

definition monitor_request :: "string list \<Rightarrow> bus_request" where
  "monitor_request rules =
     CallsMethod (Some BUS_NAME) (ObjectPath BUS_PATH) (Some MONITORING_INTERFACE) ''BecomeMonitor''
       [VArray TString (map VString rules), VUInt32 0]"

text \<open>The messages that the monitor receives until its connection closes.\<close>

definition dbus_monitor ::
  "environment \<Rightarrow> config_io \<Rightarrow> (u64 \<Rightarrow> string) \<Rightarrow> bus_io_tool \<Rightarrow> message list \<Rightarrow> monitor_args \<Rightarrow>
     tool_effect list \<times> tool_end" where
  "dbus_monitor env cfg f64 io seen args =
     (if ma_binary args \<or> ma_pcap args \<or> ma_profile args then
        ([], ToolFails (ToolError ''dbus-monitor: --binary/--pcap/--profile are not implemented yet''))
      else
        case resolve_address env cfg (bus_choice_of (ma_system args)) (ma_address args) of
          Inl e \<Rightarrow> ([], ToolFails e)
        | Inr a \<Rightarrow>
            (case bt_connect io a of
               Some e \<Rightarrow> ([], ToolFails (ToolError e))
             | None \<Rightarrow>
                 let r = monitor_request (ma_rules args) in
                 (case bt_reply io r of
                    RequestFails e \<Rightarrow> ([SendsRequest a r], ToolFails (ToolError e))
                  | TimesOut \<Rightarrow> ([SendsRequest a r], ToolWaits)
                  | Replied _ \<Rightarrow> (SendsRequest a r # concat (map (print_message f64) seen), ToolDone))))"

end
