(* ===== verification/Libdbus_Connection.thy ===== *)
theory Libdbus_Connection
  imports Libdbus_Message Tools
begin

text \<open>
  \<open>oxibus-libdbus-compat/src/connection.rs\<close>: connections of C programs.  Every function blocks
  until the client library has its result; these results are arguments.  A connection is
  counted like a message, and what is kept of it is its unique name.
\<close>

type_synonym connections = "string option arc_heap"

record libdbus_io =
  ld_env :: environment
  ld_config :: config_io
  ld_core_text :: "core_error \<Rightarrow> string"
  ld_connect :: "address \<Rightarrow> string + string option"
  ld_request :: "bus_request \<Rightarrow> nat option \<Rightarrow> reply_outcome"
  ld_request_name :: "string \<Rightarrow> u32 \<Rightarrow> string + u32"
  ld_add_match :: "string \<Rightarrow> string + unit"

definition ERROR_FAILED :: string where
  "ERROR_FAILED = ''org.freedesktop.DBus.Error.Failed''"

definition fail_with :: "pointer \<Rightarrow> string \<Rightarrow> errors \<Rightarrow> errors" where
  "fail_with error text m =
     (if error \<noteq> None then dbus_set_error_const error (Some ERROR_FAILED) (Some (or_empty (into_raw text))) m
      else m)"

section \<open>Opening\<close>

definition bus_address :: "libdbus_io \<Rightarrow> string \<Rightarrow> string + address" where
  "bus_address io s = map_sum (ld_core_text io) id (parse_address s)"

definition resolve_bus_address :: "libdbus_io \<Rightarrow> c_int \<Rightarrow> string + address" where
  "resolve_bus_address io bus_type =
     (if bus_type = 0 \<or> bus_type = 2 then
        (case or_else (env_var (ld_env io) ''DBUS_SESSION_BUS_ADDRESS'')
                      (env_var (ld_env io) ''OXIBUS_SESSION_BUS_ADDRESS'') of
           Some s \<Rightarrow> bus_address io s
         | None \<Rightarrow> Inl ''DBUS_SESSION_BUS_ADDRESS is not set'')
      else if bus_type = 1 then
        (case env_var (ld_env io) ''DBUS_SYSTEM_BUS_ADDRESS'' of
           Some s \<Rightarrow> bus_address io s
         | None \<Rightarrow> Inr (UnixPath (pc_system_socket (cfg_paths (load_default (ld_config io))))))
      else Inl (''unknown DBusBusType '' @ show_int bus_type))"

definition connect_and_hello ::
  "libdbus_io \<Rightarrow> address \<Rightarrow> pointer \<Rightarrow> connections \<Rightarrow> errors \<Rightarrow> pointer \<times> connections \<times> errors" where
  "connect_and_hello io addr error c m =
     (case ld_connect io addr of
        Inr name \<Rightarrow> (case arc_new name c of (ptr, c) \<Rightarrow> (ptr, c, m))
      | Inl e \<Rightarrow> (None, c, fail_with error e m))"

definition dbus_bus_get ::
  "libdbus_io \<Rightarrow> c_int \<Rightarrow> pointer \<Rightarrow> connections \<Rightarrow> errors \<Rightarrow> pointer \<times> connections \<times> errors" where
  "dbus_bus_get io bus_type error c m =
     (case resolve_bus_address io bus_type of
        Inr addr \<Rightarrow> connect_and_hello io addr error c m
      | Inl msg \<Rightarrow> (None, c, fail_with error msg m))"

definition dbus_bus_get_private ::
  "libdbus_io \<Rightarrow> c_int \<Rightarrow> pointer \<Rightarrow> connections \<Rightarrow> errors \<Rightarrow> pointer \<times> connections \<times> errors" where
  "dbus_bus_get_private io bus_type error c m = dbus_bus_get io bus_type error c m"

definition dbus_connection_open ::
  "libdbus_io \<Rightarrow> c_string \<Rightarrow> pointer \<Rightarrow> connections \<Rightarrow> errors \<Rightarrow> pointer \<times> connections \<times> errors" where
  "dbus_connection_open io addr error c m =
     (case cstr addr of
        None \<Rightarrow> (None, c, m)
      | Some s \<Rightarrow>
          (case bus_address io s of
             Inr a \<Rightarrow> connect_and_hello io a error c m
           | Inl e \<Rightarrow> (None, c, fail_with error e m)))"

definition dbus_connection_open_private ::
  "libdbus_io \<Rightarrow> c_string \<Rightarrow> pointer \<Rightarrow> connections \<Rightarrow> errors \<Rightarrow> pointer \<times> connections \<times> errors" where
  "dbus_connection_open_private io addr error c m = dbus_connection_open io addr error c m"

section \<open>References\<close>

definition dbus_connection_ref :: "pointer \<Rightarrow> connections \<Rightarrow> (pointer \<times> connections) c_result" where
  "dbus_connection_ref ptr c = arc_ref ptr c"

definition dbus_connection_unref :: "pointer \<Rightarrow> connections \<Rightarrow> connections c_result" where
  "dbus_connection_unref ptr c = arc_unref ptr c"

definition dbus_connection_get_is_connected :: "pointer \<Rightarrow> connections \<Rightarrow> c_int c_result" where
  "dbus_connection_get_is_connected ptr c = reading ptr c 0 (\<lambda>_. 1)"

definition dbus_connection_get_is_authenticated :: "pointer \<Rightarrow> connections \<Rightarrow> c_int c_result" where
  "dbus_connection_get_is_authenticated ptr c = reading ptr c 0 (\<lambda>_. 1)"

definition dbus_bus_get_unique_name :: "pointer \<Rightarrow> connections \<Rightarrow> c_string c_result" where
  "dbus_bus_get_unique_name ptr c = reading ptr c None leak_opt"

section \<open>Requests to the bus\<close>

definition dbus_bus_request_name ::
  "libdbus_io \<Rightarrow> pointer \<Rightarrow> c_string \<Rightarrow> u32 \<Rightarrow> pointer \<Rightarrow> connections \<Rightarrow> errors \<Rightarrow> (c_int \<times> errors) c_result" where
  "dbus_bus_request_name io ptr name flags error c m =
     c_then (arc_handle ptr c) (\<lambda>h. Returns
       (case (h, cstr name) of
          (Some _, Some n) \<Rightarrow>
            (case ld_request_name io n flags of
               Inr r \<Rightarrow> (sint r, m)
             | Inl e \<Rightarrow> (-1, fail_with error e m))
        | _ \<Rightarrow> (-1, m)))"

definition dbus_bus_add_match ::
  "libdbus_io \<Rightarrow> pointer \<Rightarrow> c_string \<Rightarrow> pointer \<Rightarrow> connections \<Rightarrow> errors \<Rightarrow> errors c_result" where
  "dbus_bus_add_match io ptr rule error c m =
     c_then (arc_handle ptr c) (\<lambda>h. Returns
       (case (h, cstr rule) of
          (Some _, Some r) \<Rightarrow> (case ld_add_match io r of Inr _ \<Rightarrow> m | Inl e \<Rightarrow> fail_with error e m)
        | _ \<Rightarrow> m))"

section \<open>Sending\<close>

definition timeout_of :: "c_int \<Rightarrow> nat option" where
  "timeout_of ms = (if ms > 0 then Some (nat ms) else None)"

definition reply_message :: "dvalue list \<Rightarrow> message" where
  "reply_message args = build 0 (with_args args (build_method_return 0))"

definition dbus_connection_send_with_reply_and_block ::
  "libdbus_io \<Rightarrow> pointer \<Rightarrow> pointer \<Rightarrow> c_int \<Rightarrow> pointer \<Rightarrow> connections \<Rightarrow> messages \<Rightarrow> errors \<Rightarrow>
     (pointer \<times> messages \<times> errors) c_result" where
  "dbus_connection_send_with_reply_and_block io ptr msg timeout_ms error c h m =
     c_then (arc_handle ptr c) (\<lambda>conn.
     case conn of
       None \<Rightarrow> Returns (None, h, m)
     | Some _ \<Rightarrow>
         c_then (take_outgoing msg h) (\<lambda>(out, h).
         case out of
           None \<Rightarrow>
             Returns (None, h, fail_with error ''message is not a call under construction, or has already been sent'' m)
         | Some r \<Rightarrow>
             if ou_kind r \<noteq> KindMethodCall then
               Returns (None, h, fail_with error ''only method-call messages can be sent with a blocking reply'' m)
             else
               (case (ou_path r, ou_member r) of
                  (Some path, Some member) \<Rightarrow>
                    (case (ld_request io (CallsMethod (ou_destination r) path (ou_interface r) member (ou_args r))
                             (timeout_of timeout_ms), timeout_of timeout_ms) of
                       (Replied reply, _) \<Rightarrow>
                         (case wrap_incoming (reply_message reply) h of (reply_ptr, h) \<Rightarrow> Returns (reply_ptr, h, m))
                     | (RequestFails e, _) \<Rightarrow> Returns (None, h, fail_with error e m)
                     | (TimesOut, Some _) \<Rightarrow>
                         Returns (None, h, fail_with error ''no reply within the requested timeout'' m)
                     | (TimesOut, None) \<Rightarrow> Blocks)
                | _ \<Rightarrow> Returns (None, h, m))))"

text \<open>The number that is written for the serial, when it was asked for.\<close>

definition dbus_connection_send ::
  "libdbus_io \<Rightarrow> pointer \<Rightarrow> pointer \<Rightarrow> bool \<Rightarrow> connections \<Rightarrow> messages \<Rightarrow>
     (c_int \<times> u32 option \<times> messages) c_result" where
  "dbus_connection_send io ptr msg wants_serial c h =
     c_then (arc_handle ptr c) (\<lambda>conn.
     c_then (take_outgoing msg h) (\<lambda>(out, h).
     case (conn, out) of
       (Some _, Some r) \<Rightarrow>
         if ou_kind r \<noteq> KindSignal then Returns (0, None, h)
         else
           (case (ou_path r, ou_interface r, ou_member r) of
              (Some path, Some interface, Some member) \<Rightarrow>
                (case ld_request io (EmitsSignal path interface member (ou_args r)) None of
                   Replied _ \<Rightarrow> Returns (1, if wants_serial then Some 0 else None, h)
                 | RequestFails _ \<Rightarrow> Returns (0, None, h)
                 | TimesOut \<Rightarrow> Blocks)
            | _ \<Rightarrow> Returns (0, None, h))
     | _ \<Rightarrow> Returns (0, None, h)))"

end
