(* ===== verification/Libdbus_Properties.thy ===== *)
theory Libdbus_Properties
  imports Libdbus_Connection
begin

text \<open>
  The properties of the C interface: references, arguments through iterators, and what a
  message is after it was sent.
\<close>

section \<open>References\<close>

datatype ref_op = TakesRef | DropsRef

fun run_refs :: "ref_op list \<Rightarrow> pointer \<Rightarrow> messages \<Rightarrow> messages c_result" where
  "run_refs [] p h = Returns h"
| "run_refs (TakesRef # ops) p h = c_then (dbus_message_ref p h) (\<lambda>(_, h). run_refs ops p h)"
| "run_refs (DropsRef # ops) p h = c_then (dbus_message_unref p h) (\<lambda>h. run_refs ops p h)"

text \<open>The number of references that are left, or nothing when one was used that was not there.\<close>

fun refs_left :: "nat \<Rightarrow> ref_op list \<Rightarrow> nat option" where
  "refs_left n [] = Some n"
| "refs_left n (TakesRef # ops) = (if n = 0 then None else refs_left (Suc n) ops)"
| "refs_left n (DropsRef # ops) = (if n = 0 then None else refs_left (n - 1) ops)"

definition refs_of :: "nat \<Rightarrow> messages \<Rightarrow> nat" where
  "refs_of a h = (case map_of (ah_cells h) a of Some c \<Rightarrow> ac_refs c | None \<Rightarrow> 0)"

definition counted :: "messages \<Rightarrow> bool" where
  "counted h \<longleftrightarrow> (\<forall>a c. map_of (ah_cells h) a = Some c \<longrightarrow> 0 < ac_refs c)"

lemma counted_new: "counted h \<Longrightarrow> counted (snd (arc_new x h))"
  by (auto simp: counted_def arc_new_def update_conv')

lemma run_refs_left:
  "counted h \<Longrightarrow>
   (case refs_left (refs_of a h) ops of
      None \<Rightarrow> run_refs ops (Some a) h = Undefined
    | Some n \<Rightarrow> \<exists>h'. run_refs ops (Some a) h = Returns h' \<and> counted h' \<and> refs_of a h' = n \<and>
        (0 < n \<longrightarrow> arc_handle (Some a) h' = arc_handle (Some a) h) \<and>
        (n = 0 \<longrightarrow> arc_handle (Some a) h' = Undefined) \<and>
        (\<forall>b. b \<noteq> a \<longrightarrow> map_of (ah_cells h') b = map_of (ah_cells h) b))"
proof (induction ops arbitrary: h)
  case Nil
  then show ?case
    by (auto simp: refs_of_def arc_handle_def counted_def split: option.splits)
next
  case (Cons x ops)
  show ?case
  proof (cases "map_of (ah_cells h) a")
    case None
    then show ?thesis
      by (cases x) (simp_all add: refs_of_def dbus_message_ref_def arc_ref_def dbus_message_unref_def arc_unref_def)
  next
    case (Some c)
    have pos: "0 < ac_refs c" using Cons.prems Some by (auto simp: counted_def)
    define cells where "cells = (case x of
        TakesRef \<Rightarrow> AList.update a (c\<lparr>ac_refs := Suc (ac_refs c)\<rparr>) (ah_cells h)
      | DropsRef \<Rightarrow>
          if ac_refs c = 1 then AList.delete a (ah_cells h)
          else AList.update a (c\<lparr>ac_refs := ac_refs c - 1\<rparr>) (ah_cells h))"
    let ?h = "h\<lparr>ah_cells := cells\<rparr>"
    have step: "run_refs (x # ops) (Some a) h = run_refs ops (Some a) ?h"
      using Some by (cases x) (simp_all add: dbus_message_ref_def arc_ref_def dbus_message_unref_def arc_unref_def cells_def)
    have "counted ?h" and others: "\<forall>b. b \<noteq> a \<longrightarrow> map_of (ah_cells ?h) b = map_of (ah_cells h) b"
      using Cons.prems pos
      by (cases x; auto simp: counted_def cells_def update_conv' delete_conv' split: if_splits)+
    moreover have "refs_left (refs_of a h) (x # ops) = refs_left (refs_of a ?h) ops"
      using Some pos by (cases x) (simp_all add: refs_of_def cells_def update_conv' delete_conv')
    moreover have "0 < refs_of a ?h \<Longrightarrow> arc_handle (Some a) ?h = arc_handle (Some a) h"
      using Some pos by (cases x) (simp_all add: refs_of_def arc_handle_def cells_def update_conv' delete_conv' split: if_splits)
    moreover have "refs_left 0 ops = Some n \<Longrightarrow> n = 0" for n
      by (cases ops; cases "hd ops") simp_all
    ultimately show ?thesis
      using Cons.IH [of ?h] unfolding step
      by (cases "refs_of a ?h = 0") (force split: option.splits)+
  qed
qed

text \<open>C30. A message can be used exactly as long as references to it are left: a sequence of \<open>ref\<close> and
  \<open>unref\<close> on it is undefined exactly when one of them comes after the last reference is gone, and
  otherwise the message is there, unchanged, while the count is positive, and no other message
  is touched.\<close>

theorem messages_live_while_referenced:
  assumes "counted h"
  shows "case refs_left (refs_of a h) ops of
      None \<Rightarrow> run_refs ops (Some a) h = Undefined
    | Some n \<Rightarrow> \<exists>h'. run_refs ops (Some a) h = Returns h' \<and> counted h' \<and> refs_of a h' = n \<and>
        (0 < n \<longrightarrow> arc_handle (Some a) h' = arc_handle (Some a) h) \<and>
        (n = 0 \<longrightarrow> arc_handle (Some a) h' = Undefined) \<and>
        (\<forall>b. b \<noteq> a \<longrightarrow> map_of (ah_cells h') b = map_of (ah_cells h) b)"
  using assms by (rule run_refs_left)

definition no_messages :: messages where
  "no_messages = \<lparr>ah_next = 0, ah_cells = []\<rparr>"

lemma messages_live_while_referenced_witness:
  "run_refs [TakesRef, DropsRef, DropsRef, DropsRef] (Some 0) (snd (wrap_incoming (reply_message []) no_messages)) = Undefined"
proof -
  let ?h = "snd (wrap_incoming (reply_message []) no_messages)"
  have "counted no_messages"
    by (simp add: counted_def no_messages_def)
  then have "counted ?h"
    unfolding wrap_incoming_def by (rule counted_new)
  moreover have "refs_of 0 ?h = 1"
    by (simp add: refs_of_def wrap_incoming_def arc_new_def no_messages_def)
  ultimately show ?thesis
    using messages_live_while_referenced [where h = ?h and a = 0 and ops = "[TakesRef, DropsRef, DropsRef, DropsRef]"] by simp
qed

section \<open>Arguments\<close>

text \<open>The loop of a C program: look at the type, fetch the value, go on while there is one.\<close>

fun append_args :: "message_iter option \<Rightarrow> dvalue list \<Rightarrow> messages \<Rightarrow> messages c_result" where
  "append_args iter [] h = Returns h"
| "append_args iter (v # vs) h =
     c_then (dbus_message_iter_append_basic iter (value_type_code v) (basic_of_value v) h) (\<lambda>(_, h).
     append_args iter vs h)"

fun read_args :: "nat \<Rightarrow> message_iter option \<Rightarrow> messages \<Rightarrow> (c_int \<times> c_basic option) list c_result" where
  "read_args 0 iter h = Returns []"
| "read_args (Suc n) iter h =
     c_then (dbus_message_iter_get_arg_type iter h) (\<lambda>ty.
     if ty = TYPE_INVALID then Returns []
     else c_then (dbus_message_iter_get_basic iter h) (\<lambda>store.
          c_then (dbus_message_iter_next iter h) (\<lambda>(_, iter).
          c_then (read_args n iter h) (\<lambda>rest. Returns ((ty, store) # rest)))))"

definition basic_arg :: "dvalue \<Rightarrow> bool" where
  "basic_arg v \<longleftrightarrow> value_type_code v \<noteq> TYPE_INVALID"

lemma read_args_from:
  assumes "arc_handle p h = Returns (Some x)" "length (args_of x) - pos < n"
  shows "read_args n (Some \<lparr>it_msg = p, it_appending = False, it_read_pos = pos\<rparr>) h =
    Returns (map (\<lambda>v. (value_type_code v, basic_of_value v)) (takeWhile basic_arg (drop pos (args_of x))))"
  using assms(2)
proof (induction n arbitrary: pos)
  case (Suc n)
  show ?case
  proof (cases "pos < length (args_of x)")
    case True
    then have "drop pos (args_of x) = args_of x ! pos # drop (Suc pos) (args_of x)"
      by (simp add: Cons_nth_drop_Suc)
    then show ?thesis
      using True Suc assms(1)
      by (simp add: dbus_message_iter_get_arg_type_def dbus_message_iter_get_basic_def dbus_message_iter_next_def
          reading_def basic_arg_def)
  next
    case False
    then show ?thesis
      using assms(1) by (simp add: dbus_message_iter_get_arg_type_def reading_def)
  qed
qed simp

text \<open>A C program that reads a message with the iterator gets its arguments, in order, up to the first
  that is an array, a structure, a variant, a signature or a descriptor; this one and all that come
  after it look like the end of the message.\<close>

theorem iterator_stops_at_containers:
  assumes "arc_handle p h = Returns (Some x)" "length (args_of x) < n"
  shows "\<exists>iter. dbus_message_iter_init p (Some old) h = Returns (if args_of x \<noteq> [] then 1 else 0, iter) \<and>
    read_args n iter h =
      Returns (map (\<lambda>v. (value_type_code v, basic_of_value v)) (takeWhile basic_arg (args_of x)))"
  using read_args_from [OF assms(1), of 0 n] assms by (simp add: dbus_message_iter_init_def reading_def)

lemma iterator_stops_at_containers_witness:
  "read_args 4 (Some \<lparr>it_msg = Some 0, it_appending = False, it_read_pos = 0\<rparr>)
     (snd (wrap_incoming (reply_message [VByte 7, VArray TByte [], VByte 8]) no_messages)) =
   Returns [(121, Some (C8 7))]"
proof -
  let ?x = "In (reply_message [VByte 7, VArray TByte [], VByte 8])"
  let ?h = "snd (wrap_incoming (reply_message [VByte 7, VArray TByte [], VByte 8]) no_messages)"
  have args: "args_of ?x = [VByte 7, VArray TByte [], VByte 8]"
    by code_simp
  have "arc_handle (Some 0) ?h = Returns (Some ?x)"
    by (simp add: wrap_incoming_def arc_new_def arc_handle_def no_messages_def)
  moreover have "length (args_of ?x) < 4" by (simp add: args)
  ultimately obtain iter where "dbus_message_iter_init (Some 0) (Some \<lparr>it_msg = None, it_appending = False, it_read_pos = 0\<rparr>) ?h =
      Returns (1, iter)"
    "read_args 4 iter ?h = Returns [(121, Some (C8 7))]"
    using iterator_stops_at_containers [of "Some 0" ?h ?x 4 "\<lparr>it_msg = None, it_appending = False, it_read_pos = 0\<rparr>"]
    by (auto simp: args basic_arg_def value_type_code_def TYPE_INVALID_def type_of_code_def basic_of_value_def)
  then show ?thesis
    by (auto simp: dbus_message_iter_init_def reading_def wrap_incoming_def arc_new_def arc_handle_def no_messages_def)
qed

text \<open>The values that C programs can put into a message.\<close>

definition c_value :: "dvalue \<Rightarrow> bool" where
  "c_value v \<longleftrightarrow> basic_arg v \<and>
     (case v of
        VString s \<Rightarrow> valid_utf8 s \<and> CHR 0x00 \<notin> set s
      | VObjectPath p \<Rightarrow> is_valid_object_path (path_str p)
      | _ \<Rightarrow> True)"

lemma cstr_plain: "CHR 0x00 \<notin> set s \<Longrightarrow> valid_utf8 s \<Longrightarrow> cstr (into_raw s) = Some s"
proof -
  assume s: "CHR 0x00 \<notin> set s" "valid_utf8 s"
  have "takeWhile (\<lambda>c. c \<noteq> CHR 0x00) s = s"
    using s(1) by (induction s) auto
  then show ?thesis
    unfolding cstr_def into_raw_def using s by (simp only: option.case Let_def if_True if_False not_False_eq_True simp_thms)
qed

lemma object_path_plain:
  assumes v: "is_valid_object_path s"
  shows "CHR 0x00 \<notin> set s \<and> valid_utf8 s"
proof -
  have "CHR 0x00 \<notin> set s"
  proof
    assume n: "CHR 0x00 \<in> set s"
    then have "s \<noteq> ''/''" by auto
    then obtain r where s: "s = CHR ''/'' # r" and segs: "list_all valid_segment (split_on CHR ''/'' r)"
      using v by (auto simp: is_valid_object_path_def prefix_def split: if_splits)
    have "CHR 0x00 \<in> set (join_with CHR ''/'' (split_on CHR ''/'' r))"
      using n s by (simp add: join_split_on)
    then have "\<exists>p \<in> set (split_on CHR ''/'' r). CHR 0x00 \<in> set p"
      by (rule join_with_member) simp
    then show False
      using segs path_char_not_slash(2) by (fastforce simp: list_all_iff valid_segment_def)
  qed
  then show ?thesis using is_ascii_valid_utf8 [OF valid_object_path_ascii [OF v]] by simp
qed

lemma stored_value:
  assumes "c_value v"
  obtains store where "basic_of_value v = Some store" "value_of_basic (value_type_code v) store = Returns (Some v)"
proof (cases v)
  case (VString s)
  then show ?thesis
    using that assms cstr_plain [of s]
    by (simp add: c_value_def basic_of_value_def value_type_code_def value_of_basic_def type_of_code_def)
next
  case (VObjectPath p)
  then show ?thesis
    using that assms object_path_plain [of "path_str p"] cstr_plain [of "path_str p"]
    by (simp add: c_value_def basic_of_value_def value_type_code_def value_of_basic_def type_of_code_def
        path_arg_def object_path_new_def)
qed (use that assms in \<open>simp_all add: c_value_def basic_arg_def basic_of_value_def value_type_code_def
       value_of_basic_def type_of_code_def\<close>)

lemma append_args_Out:
  assumes "list_all c_value vs" "arc_handle (it_msg it) h = Returns (Some (Out r))" "it_appending it"
  shows "\<exists>h'. append_args (Some it) vs h = Returns h' \<and>
    arc_handle (it_msg it) h' = Returns (Some (Out (r\<lparr>ou_args := ou_args r @ vs\<rparr>)))"
  using assms(1,2)
proof (induction vs arbitrary: h r)
  case Nil
  then show ?case by simp
next
  case (Cons v vs)
  obtain store where store: "basic_of_value v = Some store" "value_of_basic (value_type_code v) store = Returns (Some v)"
    using Cons.prems(1) stored_value [of v] by auto
  let ?r = "r\<lparr>ou_args := ou_args r @ [v]\<rparr>"
  let ?h = "arc_set (it_msg it) (Out ?r) h"
  have "dbus_message_iter_append_basic (Some it) (value_type_code v) (basic_of_value v) h = Returns (1, ?h)"
    using store Cons.prems(2) assms(3) by (simp add: dbus_message_iter_append_basic_def)
  moreover have "arc_handle (it_msg it) ?h = Returns (Some (Out ?r))"
    using Cons.prems(2) by (auto simp: arc_handle_def arc_set_def update_conv' split: option.splits)
  ultimately show ?case
    using Cons.IH [of ?h ?r] Cons.prems(1) by simp
qed

lemma new_call_handle:
  assumes "dbus_message_new_method_call dest path interface method h = (p, h')" "p \<noteq> None"
  shows "\<exists>pa m. path_arg path = Some pa \<and> cstr method = Some m \<and>
    arc_handle p h' = Returns (Some (Out ((new_outgoing KindMethodCall)\<lparr>ou_path := Some pa, ou_member := Some m,
      ou_interface := cstr interface, ou_destination := cstr dest\<rparr>)))"
  using assms by (auto simp: dbus_message_new_method_call_def arc_new_def arc_handle_def update_conv' split: option.splits)

text \<open>C29. The arguments that a C program appends to a new method call are what is sent when it sends the
  call, and what it reads back from it; the answer is a message with the values of the reply, and
  of a call that fails the error has the general name, whatever the error's own name was. The
  storage that the program keeps for an iterator is taken to be as large as the code writes to.\<close>

theorem appended_arguments_are_sent:
  assumes "dbus_message_new_method_call dest path interface method h = (p, h1)" "p \<noteq> None"
    and "list_all c_value vs" "arc_handle conn c = Returns (Some name)"
    and "ld_request io (CallsMethod (cstr dest) (the (path_arg path)) (cstr interface) (the (cstr method)) vs)
           (timeout_of ms) = outcome"
  shows "\<exists>h2. append_args (dbus_message_iter_init_append p (Some old)) vs h1 = Returns h2 \<and>
    read_args (Suc (length vs)) (Some \<lparr>it_msg = p, it_appending = False, it_read_pos = 0\<rparr>) h2 =
      Returns (map (\<lambda>v. (value_type_code v, basic_of_value v)) vs) \<and>
    (case outcome of
       Replied reply \<Rightarrow>
         (\<exists>q h3. dbus_connection_send_with_reply_and_block io conn p ms err c h2 m = Returns (q, h3, m) \<and>
            arc_handle q h3 = Returns (Some (In (reply_message reply))))
     | RequestFails e \<Rightarrow>
         (\<exists>h3. dbus_connection_send_with_reply_and_block io conn p ms err c h2 m =
            Returns (None, h3, fail_with err e m))
     | TimesOut \<Rightarrow>
         (if ms \<le> 0 then dbus_connection_send_with_reply_and_block io conn p ms err c h2 m = Blocks
          else \<exists>h3. dbus_connection_send_with_reply_and_block io conn p ms err c h2 m =
            Returns (None, h3, fail_with err ''no reply within the requested timeout'' m)))"
proof -
  obtain pa me where new: "path_arg path = Some pa" "cstr method = Some me"
    "arc_handle p h1 = Returns (Some (Out ((new_outgoing KindMethodCall)\<lparr>ou_path := Some pa, ou_member := Some me,
      ou_interface := cstr interface, ou_destination := cstr dest\<rparr>)))"
    using new_call_handle [OF assms(1,2)] by blast
  let ?it = "\<lparr>it_msg = p, it_appending = True, it_read_pos = 0\<rparr>"
  define r where "r = (new_outgoing KindMethodCall)\<lparr>ou_path := Some pa, ou_member := Some me,
      ou_interface := cstr interface, ou_destination := cstr dest, ou_args := vs\<rparr>"
  obtain h2 where h2: "append_args (Some ?it) vs h1 = Returns h2" "arc_handle p h2 = Returns (Some (Out r))"
    using append_args_Out [OF assms(3), of ?it h1] new(3) by (auto simp: r_def new_outgoing_def)
  have basic: "takeWhile basic_arg vs = vs"
    using assms(3) by (induction vs) (auto simp: c_value_def)
  have read: "read_args (Suc (length vs)) (Some \<lparr>it_msg = p, it_appending = False, it_read_pos = 0\<rparr>) h2 =
      Returns (map (\<lambda>v. (value_type_code v, basic_of_value v)) vs)"
    using read_args_from [OF h2(2), of 0 "Suc (length vs)"] basic by (simp add: args_of_def r_def del: read_args.simps)
  have taken: "take_outgoing p h2 = Returns (Some r, arc_set p (Out (new_outgoing KindMethodCall)) h2)"
    using h2(2) by (simp add: take_outgoing_def r_def new_outgoing_def)
  have "ou_kind r = KindMethodCall" "ou_path r = Some pa" "ou_member r = Some me" "ou_args r = vs"
    "ou_destination r = cstr dest" "ou_interface r = cstr interface"
    by (simp_all add: r_def new_outgoing_def)
  then show ?thesis
    using h2(1) read taken assms(4,5) new(1,2)
    by (cases outcome)
       (auto simp: dbus_message_iter_init_append_def dbus_connection_send_with_reply_and_block_def timeout_of_def
        wrap_incoming_def arc_new_def arc_handle_def update_conv')
qed

text \<open>The sample: a bus that answers every call with its arguments.\<close>

definition echo_io :: libdbus_io where
  "echo_io =
     \<lparr>ld_env = [], ld_config = \<lparr>cf_read = \<lambda>_. Inl [], cf_parse = \<lambda>_. Inl [], cf_env = None\<rparr>,
      ld_core_text = \<lambda>_. [], ld_connect = \<lambda>_. Inr None,
      ld_request = \<lambda>r _. case r of CallsMethod _ _ _ _ vs \<Rightarrow> Replied vs | _ \<Rightarrow> Replied [],
      ld_request_name = \<lambda>_ _. Inl [], ld_add_match = \<lambda>_. Inr ()\<rparr>"

lemma appended_arguments_are_sent_witness:
  "\<exists>p h1 h2 q h3. dbus_message_new_method_call None (Some ''/'') None (Some ''M'') no_messages = (p, h1) \<and>
     append_args (dbus_message_iter_init_append p (Some \<lparr>it_msg = None, it_appending = False, it_read_pos = 0\<rparr>))
       [VInt32 5, VString ''x''] h1 = Returns h2 \<and>
     dbus_connection_send_with_reply_and_block echo_io (Some 0) p (-1) None
       \<lparr>ah_next = 1, ah_cells = [(0, \<lparr>ac_refs = 1, ac_value = None\<rparr>)]\<rparr> h2 (\<lambda>_. no_error) =
         Returns (q, h3, \<lambda>_. no_error) \<and>
     arc_handle q h3 = Returns (Some (In (reply_message [VInt32 5, VString ''x''])))"
proof -
  let ?c = "\<lparr>ah_next = 1, ah_cells = [(0 :: nat, \<lparr>ac_refs = 1, ac_value = None :: string option\<rparr>)]\<rparr>"
  have args: "path_arg (Some ''/'') = Some (ObjectPath ''/'')" "cstr (Some ''M'') = Some ''M''" "cstr None = None"
    by code_simp+
  obtain p h1 where new: "dbus_message_new_method_call None (Some ''/'') None (Some ''M'') no_messages = (p, h1)" "p \<noteq> None"
    by (simp add: dbus_message_new_method_call_def args arc_new_def)
  have vs: "list_all c_value [VInt32 5, VString ''x'']"
    by code_simp
  have conn: "arc_handle (Some 0) ?c = Returns (Some None)"
    by (simp add: arc_handle_def)
  have req: "ld_request echo_io (CallsMethod (cstr None) (the (path_arg (Some ''/''))) (cstr None) (the (cstr (Some ''M'')))
      [VInt32 5, VString ''x'']) (timeout_of (-1)) = Replied [VInt32 5, VString ''x'']"
    by (simp add: echo_io_def)
  show ?thesis
    using appended_arguments_are_sent [OF new vs conn req, of "\<lparr>it_msg = None, it_appending = False, it_read_pos = 0\<rparr>"
        None "\<lambda>_. no_error"] new(1)
    by auto
qed

section \<open>After a message was sent\<close>

definition fresh_addresses :: "messages \<Rightarrow> bool" where
  "fresh_addresses h \<longleftrightarrow> (\<forall>a c. map_of (ah_cells h) a = Some c \<longrightarrow> a < ah_next h)"

lemma update_same: "map_of al k = Some v \<Longrightarrow> AList.update k v al = al"
  by (induction al) (auto split: if_splits)

lemma arc_set_same: "arc_handle p h = Returns (Some x) \<Longrightarrow> arc_set p x h = h"
  by (auto simp: arc_handle_def arc_set_def update_same split: option.splits)

lemma arc_set_handle: "arc_handle p h = Returns (Some x) \<Longrightarrow> arc_handle p (arc_set p y h) = Returns (Some y)"
  by (auto simp: arc_handle_def arc_set_def update_conv' split: option.splits)

lemma arc_new_handle:
  "fresh_addresses h \<Longrightarrow> arc_handle p h = Returns (Some x) \<Longrightarrow> arc_handle p (snd (arc_new y h)) = Returns (Some x)"
  by (fastforce simp: arc_handle_def arc_new_def update_conv' fresh_addresses_def split: option.splits)

lemma fresh_set: "fresh_addresses h \<Longrightarrow> fresh_addresses (arc_set p y h)"
  by (auto simp: fresh_addresses_def arc_set_def update_conv' split: option.splits)

lemma empty_is_refused:
  assumes "arc_handle p h = Returns (Some (Out (new_outgoing KindMethodCall)))" "arc_handle conn c = Returns (Some name)"
  shows "dbus_connection_send_with_reply_and_block io conn p ms err c h m = Returns (None, h, m)"
  using assms arc_set_same [OF assms(1)]
  by (simp add: dbus_connection_send_with_reply_and_block_def take_outgoing_def new_outgoing_def)

text \<open>C38. Sending takes everything out of a message, also when it fails.  A method call that was tried with
  the function for signals is refused and lost, and a call that is sent a second time gets a null
  pointer without an error being set, not the error that the code has for a message that was
  already sent.\<close>

theorem sent_messages_are_empty:
  assumes "arc_handle p h = Returns (Some (Out r))" "ou_kind r = KindMethodCall" "fresh_addresses h"
    and "arc_handle conn c = Returns (Some name)"
  shows "(\<exists>h'. dbus_connection_send io conn p wants_serial c h = Returns (0, None, h') \<and>
      dbus_connection_send_with_reply_and_block io conn p ms err c h' m = Returns (None, h', m)) \<and>
    (case dbus_connection_send_with_reply_and_block io conn p ms err c h m of
       Returns (q, h', m') \<Rightarrow>
         dbus_connection_send_with_reply_and_block io conn p ms err c h' m' = Returns (None, h', m')
     | Blocks \<Rightarrow> True
     | Undefined \<Rightarrow> False)"
proof -
  let ?h = "arc_set p (Out (new_outgoing KindMethodCall)) h"
  have taken: "take_outgoing p h = Returns (Some r, ?h)"
    using assms(1,2) by (simp add: take_outgoing_def)
  have empty: "arc_handle p ?h = Returns (Some (Out (new_outgoing KindMethodCall)))"
    using arc_set_handle [OF assms(1)] .
  have refused: "dbus_connection_send_with_reply_and_block io conn p ms err c h' m' = Returns (None, h', m')"
    if "h' = ?h \<or> (\<exists>y. h' = snd (arc_new y ?h))" for h' m'
    using that empty_is_refused assms(4) empty arc_new_handle [OF fresh_set [OF assms(3)] empty] by blast
  have "dbus_connection_send io conn p wants_serial c h = Returns (0, None, ?h)"
    using taken assms(2,4) by (simp add: dbus_connection_send_def)
  moreover have "case dbus_connection_send_with_reply_and_block io conn p ms err c h m of
       Returns (q, h', m') \<Rightarrow> h' = ?h \<or> (\<exists>y. h' = snd (arc_new y ?h))
     | Blocks \<Rightarrow> True | Undefined \<Rightarrow> False"
    using taken assms(2,4)
    by (auto simp: dbus_connection_send_with_reply_and_block_def wrap_incoming_def arc_new_def
        split: option.split reply_outcome.split prod.split)
  ultimately show ?thesis
    using refused by (auto split: c_result.splits)
qed

lemma sent_messages_are_empty_witness:
  "\<exists>h h'. dbus_connection_send echo_io (Some 0) (Some 0) False
       \<lparr>ah_next = 1, ah_cells = [(0, \<lparr>ac_refs = 1, ac_value = None\<rparr>)]\<rparr> h = Returns (0, None, h') \<and>
     arc_handle (Some 0) h = Returns (Some (Out ((new_outgoing KindMethodCall)\<lparr>ou_path := Some (ObjectPath ''/''),
       ou_member := Some ''M''\<rparr>)))"
proof -
  let ?r = "(new_outgoing KindMethodCall)\<lparr>ou_path := Some (ObjectPath ''/''), ou_member := Some ''M''\<rparr>"
  let ?h = "\<lparr>ah_next = 1, ah_cells = [(0 :: nat, \<lparr>ac_refs = 1, ac_value = Out ?r\<rparr>)]\<rparr>"
  let ?c = "\<lparr>ah_next = 1, ah_cells = [(0 :: nat, \<lparr>ac_refs = 1, ac_value = None :: string option\<rparr>)]\<rparr>"
  have "arc_handle (Some 0) ?h = Returns (Some (Out ?r))" "ou_kind ?r = KindMethodCall" "fresh_addresses ?h"
    "arc_handle (Some 0) ?c = Returns (Some None)"
    by (simp_all add: arc_handle_def fresh_addresses_def new_outgoing_def)
  then show ?thesis
    using sent_messages_are_empty [of "Some 0" ?h ?r "Some 0" ?c None echo_io False] by blast
qed

end
