(* ===== verification/Tools_Properties.thy ===== *)
theory Tools_Properties
  imports Libdbus_Properties Startup_Properties Encodable
begin

text \<open>
  The properties of the command line programs, alone and with the daemon, the driver and the
  C library.
\<close>

section \<open>Typed arguments\<close>

lemma parse_typed_arg_type:
  assumes "parse_typed_arg f64 spec = Inr v" "split_once CHR '':'' spec = Some (ty, val)" "element_type ty = Inr t"
  shows "value_type v = t"
  using assms by (subst (asm) parse_typed_arg.simps)
    (auto simp: element_type_def int_arg_def uint_arg_def split: if_splits option.splits)

lemma split_once_join:
  "CHR '':'' \<notin> set a \<Longrightarrow> split_once CHR '':'' (a @ '':'' @ b) = Some (a, b)"
  by (induction a) auto

lemma element_type_no_colon: "element_type ty = Inr t \<Longrightarrow> CHR '':'' \<notin> set ty"
  by (auto simp: element_type_def split: if_splits)

lemma solid_elements: "element_type ty = Inr t \<Longrightarrow> solid t"
  by (auto simp: element_type_def split: if_splits)

text \<open>What stands between ASCII characters of valid UTF-8 is valid UTF-8.\<close>

lemma valid_utf8_codes_split:
  "c < 0x80 \<Longrightarrow> valid_utf8_codes (xs @ c # ys) \<Longrightarrow> valid_utf8_codes xs \<and> valid_utf8_codes ys"
proof (induction "length xs" arbitrary: xs rule: less_induct)
  case less
  show ?case
  proof (cases xs)
    case Nil
    then show ?thesis using less.prems by simp
  next
    case (Cons a r)
    have IH: "valid_utf8_codes (zs @ c # ys) \<Longrightarrow> length zs < length xs \<Longrightarrow> valid_utf8_codes zs \<and> valid_utf8_codes ys" for zs
      using less.hyps less.prems(1) by blast
    have c: "\<not> utf8_cont c" "\<not> utf8_second a c"
      using less.prems(1) by (auto simp: utf8_cont_def utf8_second_def)
    have v: "valid_utf8_codes (a # r @ c # ys)"
      using less.prems(2) Cons by simp
    consider "a < 0x80" | "\<not> a < 0x80" "0xC2 \<le> a \<and> a \<le> 0xDF"
      | "\<not> a < 0x80" "\<not> (0xC2 \<le> a \<and> a \<le> 0xDF)" "0xE0 \<le> a \<and> a \<le> 0xEF"
      | "\<not> a < 0x80" "\<not> (0xC2 \<le> a \<and> a \<le> 0xDF)" "\<not> (0xE0 \<le> a \<and> a \<le> 0xEF)" "0xF0 \<le> a \<and> a \<le> 0xF4"
      using v by (simp split: if_splits)
    then show ?thesis
    proof cases
      case 1
      then show ?thesis using v Cons IH [of r] by simp
    next
      case 2
      then obtain b r' where r: "r = b # r'" using v c by (cases r) auto
      then show ?thesis using 2 v Cons IH [of r'] by simp
    next
      case 3
      then obtain b d r' where r: "r = b # d # r'"
        using v c by (cases r; cases "tl r") (auto split: list.splits)
      then show ?thesis using 3 v Cons IH [of r'] by simp
    next
      case 4
      then obtain b d e r' where r: "r = b # d # e # r'"
        using v c by (cases r; cases "tl r"; cases "tl (tl r)") (auto split: list.splits)
      then show ?thesis using 4 v Cons IH [of r'] by simp
    qed
  qed
qed

lemma valid_utf8_split:
  "code_of c < 0x80 \<Longrightarrow> valid_utf8 (xs @ c # ys) \<Longrightarrow> valid_utf8 xs \<and> valid_utf8 ys"
  using valid_utf8_codes_split [of "of_char c" "map of_char xs" "map of_char ys"]
  by (simp add: valid_utf8_def)

lemma valid_utf8_split_on:
  "code_of c < 0x80 \<Longrightarrow> valid_utf8 s \<Longrightarrow> p \<in> set (split_on c s) \<Longrightarrow> valid_utf8 p"
proof (induction "length s" arbitrary: s rule: less_induct)
  case less
  show ?case
  proof (cases "c \<in> set s")
    case False
    then show ?thesis using less.prems split_on_no_sep [of c s] by simp
  next
    case True
    then obtain xs ys where s: "s = xs @ c # ys" "c \<notin> set xs"
      by (meson split_list_first)
    then have "split_on c s = xs # split_on c ys"
      using split_on_append [of c xs ys] by simp
    moreover have "valid_utf8 xs" "valid_utf8 ys"
      using valid_utf8_split less.prems(1,2) s(1) by blast+
    ultimately show ?thesis
      using less.hyps [of ys] less.prems s(1) by auto
  qed
qed

lemma valid_utf8_join: "is_ascii a \<Longrightarrow> valid_utf8 b \<Longrightarrow> valid_utf8 (a @ b)"
proof -
  have "list_all (\<lambda>x. x < 0x80) xs \<Longrightarrow> valid_utf8_codes ys \<Longrightarrow> valid_utf8_codes (xs @ ys)" for xs ys
    by (induction xs) auto
  then show "is_ascii a \<Longrightarrow> valid_utf8 b \<Longrightarrow> valid_utf8 (a @ b)"
    by (simp add: valid_utf8_def is_ascii_def list.pred_map comp_def)
qed

lemma split_on_length_less: "p \<in> set (split_on c s) \<Longrightarrow> length s < n \<Longrightarrow> length p < n"
  using split_on_length [of p c s] by simp

lemma list_all2_source: "list_all2 P xs ys \<Longrightarrow> y \<in> set ys \<Longrightarrow> \<exists>x \<in> set xs. P x y"
  by (induction rule: list_all2_induct) auto

lemma element_well_formed:
  assumes "parse_typed_arg f64 (ty @ '':'' @ val) = Inr v" "element_type ty = Inr t"
    and "valid_utf8 val" "length val < 2 ^ 32"
  shows "value_type v = t \<and> wf_value v"
proof -
  have split: "split_once CHR '':'' (ty @ '':'' @ val) = Some (ty, val)"
    using assms(2) element_type_no_colon split_once_join by blast
  have "wf_value v"
    using assms split by (subst (asm) parse_typed_arg.simps)
      (auto simp: element_type_def int_arg_def uint_arg_def split: if_splits option.splits)
  then show ?thesis
    using parse_typed_arg_type [OF assms(1) split assms(2)] by simp
qed

text \<open>An accepted argument is a well-formed value: its strings are valid and its paths well formed,
  and the elements of an array have the array's type.\<close>

lemma typed_argument_wf:
  assumes "parse_typed_arg f64 spec = Inr v" "valid_utf8 spec" "length spec < 2 ^ 32"
  shows "wf_value v \<and> solid (value_type v)"
proof -
  obtain ty val where split: "split_once CHR '':'' spec = Some (ty, val)"
    using assms(1) by (subst (asm) parse_typed_arg.simps) (auto split: option.splits)
  have spec: "spec = ty @ CHR '':'' # val" using split by (simp add: split_once_Some)
  have val: "valid_utf8 val" "length val < 2 ^ 32"
    using valid_utf8_split [of "CHR '':''" ty val] assms(2,3) spec by simp_all
  show ?thesis
  proof (cases "ty = ''array''")
    case False
    then show ?thesis
      using assms(1) split val
      by (subst (asm) parse_typed_arg.simps)
         (auto simp: int_arg_def uint_arg_def object_path_new_def split: if_splits option.splits sum.splits)
  next
    case True
    obtain elem_ty elems where parts: "split_once CHR '':'' val = Some (elem_ty, elems)"
      using assms(1) split True by (subst (asm) parse_typed_arg.simps) (auto split: option.splits)
    have "val = elem_ty @ CHR '':'' # elems" using parts by (simp add: split_once_Some)
    then have elems: "valid_utf8 elems" "length elems < 2 ^ 32"
      using valid_utf8_split [of "CHR '':''" elem_ty elems] val by simp_all
    obtain vs t where vs: "v = VArray t vs" "element_type elem_ty = Inr t"
      "(if elems = [] then Inr []
        else try_map (\<lambda>v. parse_typed_arg f64 (elem_ty @ '':'' @ v)) (split_on CHR '','' elems)) = Inr vs"
      using assms(1) split True parts
      by (subst (asm) parse_typed_arg.simps) (auto simp: result_simps split: if_splits)
    have "value_type w = t \<and> wf_value w" if w: "w \<in> set vs" for w
    proof -
      have all2: "list_all2 (\<lambda>x y. parse_typed_arg f64 (elem_ty @ '':'' @ x) = Inr y) (split_on CHR '','' elems) vs"
        using vs(3) w by (auto simp: try_map_Inr split: if_splits)
      obtain x where x: "x \<in> set (split_on CHR '','' elems)" "parse_typed_arg f64 (elem_ty @ '':'' @ x) = Inr w"
        using list_all2_source [OF all2 w] by blast
      then show ?thesis
        using element_well_formed [OF x(2) vs(2)] valid_utf8_split_on [OF _ elems(1) x(1)]
          split_on_length_less [OF x(1) elems(2)] by simp
    qed
    then show ?thesis using vs(1) solid_elements [OF vs(2)] by simp
  qed
qed

text \<open>Its type is a basic one or an array of a basic one.\<close>

lemma typed_argument_type:
  assumes "parse_typed_arg f64 spec = Inr v"
  shows "wf_type False 0 0 (value_type v) \<and> length (to_signature_string (value_type v)) \<le> 2"
  using assms
  by (subst (asm) parse_typed_arg.simps)
    (auto simp: int_arg_def uint_arg_def element_type_def result_simps to_signature_string_eq
      object_path_new_def MAX_ARRAY_DEPTH_def
      split: if_splits option.splits sum.splits)

text \<open>Its encoding is not much longer than its text.\<close>

lemma enc_word_short:
  "length (enc_word be n (w1 :: u16)) \<le> 16" "length (enc_word be n (w2 :: u32)) \<le> 16"
  "length (enc_word be n (w3 :: u64)) \<le> 16"
  using padding_less [of 2 n] padding_less [of 4 n] padding_less [of 8 n] by simp_all

lemma scalar_shape:
  assumes "parse_typed_arg f64 spec = Inr v" "split_once CHR '':'' spec = Some (ty, val)" "ty \<noteq> ''array''"
  shows "v = VString val \<or> v = VObjectPath (ObjectPath val) \<or> v \<in> range VByte \<or> v \<in> range VBoolean \<or>
    v \<in> range VInt16 \<or> v \<in> range VUInt16 \<or> v \<in> range VInt32 \<or> v \<in> range VUInt32 \<or>
    v \<in> range VInt64 \<or> v \<in> range VUInt64 \<or> v \<in> range VDouble"
  using assms by (subst (asm) parse_typed_arg.simps)
    (auto simp: int_arg_def uint_arg_def object_path_new_def split: if_splits option.splits sum.splits)

lemma scalar_encodes:
  assumes "parse_typed_arg f64 spec = Inr v" "split_once CHR '':'' spec = Some (ty, val)"
    and "ty \<noteq> ''array''" "plain val"
  shows "\<exists>bs. enc be n v = Inr bs \<and> length bs \<le> length val + 16"
proof -
  have "\<exists>bs. enc_string be n val = Inr bs \<and> length bs \<le> length val + 16"
    using enc_string_plain [OF assms(4), of be n] by auto
  moreover note enc_word_short [of be n, THEN trans_le_add2 [of _ _ "length val"]]
  ultimately show ?thesis
    using scalar_shape [OF assms(1-3)]
    by (elim disjE imageE) (simp_all del: length_enc_word)
qed

lemma split_on_total:
  "sum_list (map length (split_on c s)) + length (split_on c s) = length s + 1"
proof (induction s)
  case (Cons x s)
  then show ?case by (cases "split_on c s") auto
qed simp

lemma split_on_set: "p \<in> set (split_on c s) \<Longrightarrow> set p \<subseteq> set s"
  by (induction s arbitrary: p) (fastforce split: if_splits list.splits)+

lemma elements_encode:
  assumes "list_all2 (\<lambda>x v. \<forall>n. \<exists>bs. enc be n v = Inr bs \<and> length bs \<le> length x + 16) xs vs"
  shows "\<exists>bs. enc_seq be n vs = Inr bs \<and> length bs \<le> sum_list (map length xs) + 16 * length xs"
  using assms
proof (induction arbitrary: n rule: list_all2_induct)
  case (Cons x xs v vs)
  obtain bs where bs: "enc be n v = Inr bs" "length bs \<le> length x + 16"
    using Cons.hyps by blast
  obtain cs where "enc_seq be (n + length bs) vs = Inr cs"
    "length cs \<le> sum_list (map length xs) + 16 * length xs"
    using Cons.IH by blast
  then show ?case
    using bs by simp
qed simp

lemma typed_argument_encodes:
  assumes "parse_typed_arg f64 spec = Inr v" "plain spec" "length spec < 2 ^ 17"
  shows "\<exists>bs. enc be n v = Inr bs"
proof -
  obtain ty val where split: "split_once CHR '':'' spec = Some (ty, val)"
    using assms(1) by (subst (asm) parse_typed_arg.simps) (auto split: option.splits)
  then have val: "plain val" "length val < 2 ^ 17"
    using assms(2,3) by (auto simp: split_once_Some plain_def)
  show ?thesis
  proof (cases "ty = ''array''")
    case False
    then show ?thesis
      using scalar_encodes [OF assms(1) split False val(1)] by blast
  next
    case True
    obtain elem_ty elems where parts: "split_once CHR '':'' val = Some (elem_ty, elems)"
      using assms(1) split True by (subst (asm) parse_typed_arg.simps) (auto split: option.splits)
    then have elems: "plain elems" "length elems < 2 ^ 17"
      using val by (auto simp: split_once_Some plain_def)
    obtain vs t where vs: "v = VArray t vs" "element_type elem_ty = Inr t"
      "(if elems = [] then Inr []
        else try_map (\<lambda>v. parse_typed_arg f64 (elem_ty @ '':'' @ v)) (split_on CHR '','' elems)) = Inr vs"
      using assms(1) split True parts
      by (subst (asm) parse_typed_arg.simps) (auto simp: result_simps split: if_splits)
    let ?xs = "split_on CHR '','' elems"
    have "\<exists>bs. enc_seq be m vs = Inr bs \<and> length bs \<le> MAX_ARRAY_LEN" for m
    proof (cases "elems = []")
      case False
      then have "list_all2 (\<lambda>x y. parse_typed_arg f64 (elem_ty @ '':'' @ x) = Inr y) ?xs vs"
        using vs(3) by (simp add: try_map_Inr)
      moreover have "\<exists>bs. enc be k y = Inr bs \<and> length bs \<le> length x + 16"
        if "x \<in> set ?xs" "parse_typed_arg f64 (elem_ty @ '':'' @ x) = Inr y" for x y k
      proof (rule scalar_encodes [OF that(2)])
        show "split_once CHR '':'' (elem_ty @ '':'' @ x) = Some (elem_ty, x)"
          using element_type_no_colon [OF vs(2)] by (rule split_once_join)
        show "elem_ty \<noteq> ''array''"
          using vs(2) by (auto simp: element_type_def)
        show "plain x"
          using split_on_set [OF that(1)] elems(1) by (auto simp: plain_def)
      qed
      ultimately have "list_all2 (\<lambda>x v. \<forall>k. \<exists>bs. enc be k v = Inr bs \<and> length bs \<le> length x + 16) ?xs vs"
        by (simp add: list_all2_conv_all_nth)
      from elements_encode [OF this, of m] show ?thesis
        using split_on_total [of "CHR '',''" elems] elems(2) by (auto simp: MAX_ARRAY_LEN_def)
    qed (use vs(3) in simp)
    then obtain bs where "enc_seq be (array_start t n) vs = Inr bs" "length bs \<le> MAX_ARRAY_LEN"
      by blast
    then show ?thesis
      by (simp add: vs(1) enc_array_def)
  qed
qed

lemma values_encode:
  "(\<And>v n. v \<in> set vs \<Longrightarrow> \<exists>bs. enc be n v = Inr bs) \<Longrightarrow> \<exists>bs. enc_seq be n vs = Inr bs"
proof (induction vs arbitrary: n)
  case (Cons v vs)
  obtain bs where "enc be n v = Inr bs"
    using Cons.prems [of v n] by auto
  moreover obtain cs where "enc_seq be (n + length bs) vs = Inr cs"
    using Cons.IH [of "n + length bs"] Cons.prems by auto
  ultimately show ?case by simp
qed simp

text \<open>C36. Typed arguments of the command line that are accepted make a body that can be sent: it has an
  encoding in both byte orders, and whoever decodes it with the signature that goes with it gets
  the same values. The arguments are valid UTF-8 without NUL, as the arguments of a process on
  Linux shorter than 128 KiB each, and at most 127, as a signature has at most 255 characters.\<close>

theorem typed_arguments_can_be_sent:
  assumes "try_map (parse_typed_arg f64) specs = Inr vs"
    and "\<forall>spec \<in> set specs. valid_utf8 spec \<and> CHR 0x00 \<notin> set spec \<and> length spec < 2 ^ 17"
    and "length specs \<le> 127"
  shows "(\<forall>v \<in> set vs. wf_value v) \<and>
    (\<exists>bs sig. marshal_body vs be = Inr (bs, sig) \<and> unmarshal_body bs sig be = Some (Inr vs))"
proof -
  let ?sig = "concat (map (\<lambda>v. to_signature_string (value_type v)) vs)"
  have parsed: "list_all2 (\<lambda>s v. parse_typed_arg f64 s = Inr v) specs vs"
    using assms(1) by (simp add: try_map_Inr)
  have each: "wf_value v \<and> wf_type False 0 0 (value_type v) \<and> length (to_signature_string (value_type v)) \<le> 2 \<and>
      (\<forall>n. \<exists>bs. enc be n v = Inr bs)" if v: "v \<in> set vs" for v
  proof -
    obtain spec where spec: "spec \<in> set specs" "parse_typed_arg f64 spec = Inr v"
      using list_all2_source [OF parsed v] by blast
    then show ?thesis
      using typed_argument_wf [OF spec(2)] typed_argument_type [OF spec(2)]
        typed_argument_encodes [OF spec(2)] assms(2) by (auto simp: plain_def)
  qed
  have "\<exists>bs. enc_seq be 0 vs = Inr bs"
    using each by (intro values_encode) blast
  then obtain bs where "enc_seq (big_endian (marshaler_new be)) (length (buf (marshaler_new be))) vs = Inr bs"
    by (auto simp: marshaler_new_def)
  then have w: "write_values vs (marshaler_new be) = Inr (push_bytes bs (marshaler_new be))"
    by (simp add: write_value_enc)
  have "length ?sig \<le> 2 * length vs"
    using each by (induction vs) fastforce+
  then have "length ?sig \<le> 255"
    using list_all2_lengthD [OF parsed] assms(3) by simp
  then have sig: "parse_signature ?sig = Inr (map value_type vs)"
    using each by (auto simp: parse_signature_eq wf_signature_def comp_def)
  have "\<forall>v \<in> set vs. wf_value v \<and> solid (value_type v)"
    using each wf_type_solid by blast
  from read_values_written [OF w this, of "unmarshaler_new bs be" "length bs"]
  have "unmarshal_body bs ?sig be = Some (Inr vs)"
    by (simp add: unmarshal_body_def sig unmarshaler_new_def marshaler_new_def u_remaining_def)
  moreover have "marshal_body vs be = Inr (bs, ?sig)"
    using w by (simp add: marshal_body_def marshaler_new_def)
  ultimately show ?thesis
    using each by blast
qed

lemma typed_arguments_can_be_sent_witness:
  "\<exists>bs sig. marshal_body [VArray TInt32 [VInt32 1, VInt32 (-2)], VString ''hi''] True = Inr (bs, sig) \<and>
     unmarshal_body bs sig True = Some (Inr [VArray TInt32 [VInt32 1, VInt32 (-2)], VString ''hi''])"
proof -
  have "try_map (parse_typed_arg (\<lambda>_. None)) [''array:int32:1,-2'', ''string:hi''] =
      Inr [VArray TInt32 [VInt32 1, VInt32 (-2)], VString ''hi'']"
    "\<forall>spec \<in> set [''array:int32:1,-2'', ''string:hi'']. valid_utf8 spec \<and> CHR 0x00 \<notin> set spec \<and> length spec < 2 ^ 17"
    "length [''array:int32:1,-2'', ''string:hi''] \<le> 127"
    by code_simp+
  then show ?thesis
    using typed_arguments_can_be_sent by blast
qed

section \<open>Options\<close>

text \<open>The usage texts of \<open>dbus-run-session\<close> and \<open>dbus-launch\<close> show options with their value after an
  equals sign.  In this form the first takes the option for a word of the command that it is to run,
  and the second takes no notice of it; only the form with two words sets the option.\<close>

theorem documented_options_are_not_options:
  "contains_str ''--dbus-daemon=BINARY'' session_help \<and> contains_str ''--config-file=FILE'' session_help \<and>
   contains_str ''--config-file=FILE'' launch_help \<and>
   session_args ((''--dbus-daemon='' @ f) # as) r = session_args as (r\<lparr>so_command := so_command r @ [''--dbus-daemon='' @ f]\<rparr>) \<and>
   session_args ((''--config-file='' @ f) # as) r = session_args as (r\<lparr>so_command := so_command r @ [''--config-file='' @ f]\<rparr>) \<and>
   launch_args env ((''--config-file='' @ f) # as) l = launch_args env as l \<and>
   session_args (''--dbus-daemon'' # f # as) r = session_args as (r\<lparr>so_daemon := Some f\<rparr>) \<and>
   session_args (''--config-file'' # f # as) r = session_args as (r\<lparr>so_config := Some f\<rparr>) \<and>
   launch_args env (''--config-file'' # f # as) l = launch_args env as (l\<lparr>lo_config := Some f\<rparr>)"
proof -
  have "contains_str ''--dbus-daemon=BINARY'' session_help" "contains_str ''--config-file=FILE'' session_help"
    "contains_str ''--config-file=FILE'' launch_help"
    by code_simp+
  then show ?thesis by simp
qed

section \<open>The activation environment\<close>

lemma env_insert_pairs:
  "fold env_insert (map (\<lambda>(n, v). VDictEntry (VString n) (VString v)) pairs) env =
     fold (\<lambda>(k, v). AList.update k v) pairs env"
  by (induction pairs arbitrary: env) auto

lemma map_of_fold_update: "map_of (fold (\<lambda>(k, v). AList.update k v) pairs env) = map_of env ++ map_of (rev pairs)"
  by (induction pairs arbitrary: env) (auto simp: update_conv' map_add_def fun_eq_iff split: option.splits)

lemma distinct_fold_update: "distinct (map fst env) \<Longrightarrow> distinct (map fst (fold (\<lambda>(k, v). AList.update k v) pairs env))"
  by (induction pairs arbitrary: env) (auto simp: distinct_update)

lemma map_of_rev_distinct: "distinct (map fst xs) \<Longrightarrow> map_of (rev xs) = map_of xs"
  by (intro map_of_inject_set [THEN iffD2]) (auto simp: rev_map [symmetric])

text \<open>What \<open>dbus-update-activation-environment\<close> sends is taken over by a session bus pair by pair, later
  pairs over earlier ones, and is in the environment of the services it starts from then on unless
  the service says otherwise; a system bus refuses it and keeps its environment.\<close>

theorem activation_environment_reaches_services:
  assumes "distinct (map fst (bu_env b))"
    and "handle_update_activation_env [environment_arg pairs] b = (outcome, b')"
  shows "if bu_kind b = System then b' = b \<and> outcome \<noteq> ok_outcome [] []
    else outcome = ok_outcome [] [] \<and> b' = b\<lparr>bu_env := bu_env b'\<rparr> \<and>
      map_of (bu_env b') = map_of (bu_env b) ++ map_of (rev pairs) \<and>
      map_of (spawn_env (bu_env b') def) =
        map_of (bu_env b) ++ map_of (rev pairs) ++ map_of (rev (sv_environment def))"
proof (cases "bu_kind b = System")
  case True
  then show ?thesis using assms(2) by (auto simp: handle_update_activation_env_def err_outcome_def ok_outcome_def)
next
  case False
  let ?env = "fold (\<lambda>(k, v). AList.update k v) pairs (bu_env b)"
  have "outcome = ok_outcome [] []" "b' = b\<lparr>bu_env := ?env\<rparr>"
    using False assms(2)
    by (auto simp: handle_update_activation_env_def environment_arg_def arg_def env_insert_pairs)
  moreover have "map_of (spawn_env ?env def) =
      map_of (bu_env b) ++ map_of (rev pairs) ++ map_of (rev (sv_environment def))"
    using map_of_rev_distinct [OF distinct_fold_update [OF assms(1), of pairs]]
    by (simp add: spawn_env_def map_of_fold_update)
  ultimately show ?thesis using False by (simp add: map_of_fold_update)
qed

lemma activation_environment_reaches_services_witness:
  "map_of (bu_env (snd (handle_update_activation_env [environment_arg [(''A'', ''1''), (''A'', ''2'')]]
     (bus_new service_load [] Session global_config_default)))) = [''A'' \<mapsto> ''2'']"
proof -
  let ?b = "bus_new service_load [] Session global_config_default"
  obtain r b' where h: "handle_update_activation_env [environment_arg [(''A'', ''1''), (''A'', ''2'')]] ?b = (r, b')"
    by fastforce
  have "bu_env ?b = []" "bu_kind ?b = Session" by (simp_all add: bus_new_def)
  then show ?thesis
    using activation_environment_reaches_services [OF _ h] h by (simp add: fun_eq_iff map_add_def)
qed

section \<open>The bus of a session\<close>

lemma trailing_newline: "trailing_whitespace (s @ [CHR 0x0A]) = Some [CHR 0x0A]"
proof -
  have w: "whitespace_chars = [CHR 0x09] # [CHR 0x0A] # tl (tl whitespace_chars)"
    by code_simp
  have "\<not> suffix [CHR 0x09] (s @ [CHR 0x0A])" "suffix [CHR 0x0A] (s @ [CHR 0x0A])"
    by (simp_all add: suffix_def)
  then show ?thesis
    unfolding trailing_whitespace_def by (subst w) simp
qed

lemma trim_line:
  assumes "s \<noteq> []" "list_all graphic s"
  shows "trim (s @ [CHR 0x0A]) = s"
proof -
  obtain c r where s: "s = c # r" "graphic c" using assms by (cases s) auto
  have g: "graphic (hd s)" "graphic (last s)" using assms by (auto simp: list_all_iff)
  have "trim_start (s @ [CHR 0x0A]) = s @ [CHR 0x0A]"
    using trim_start_graphic [OF s(2), of "r @ [CHR 0x0A]"] s(1) by simp
  moreover have "trim_end (s @ [CHR 0x0A]) = trim_end s"
    by (subst trim_end.simps) (simp add: trailing_newline)
  moreover have "trim_end s = s"
    using trim_end_graphic [OF g(2), of "butlast s"] assms(1) by simp
  ultimately show ?thesis by (simp add: trim_def)
qed

lemma safe_graphic: "is_safe c \<Longrightarrow> graphic c"
  by (auto simp: is_safe_def is_ascii_alphanumeric_def is_ascii_alphabetic_def is_ascii_digit_def graphic_def)

lemma address_graphic:
  assumes "a = UnixPath q \<or> a = UnixAbstract q"
  shows "list_all graphic (to_address_string a)" "to_address_string a \<noteq> []"
    "CHR 0x27 \<notin> set (to_address_string a)" "is_ascii (to_address_string a)"
proof -
  have esc: "list_all graphic (escape q)" "CHR 0x27 \<notin> set (escape q)"
    using escape_chars [of _ q] safe_graphic
    by (fastforce simp: list_all_iff graphic_def is_safe_def is_ascii_alphanumeric_def is_ascii_alphabetic_def
        is_ascii_digit_def)+
  have "list_all graphic ''unix:path=''" "list_all graphic ''unix:abstract=''"
    by (simp_all add: graphic_def)
  then show g: "list_all graphic (to_address_string a)"
    using assms esc(1) unfolding list_all_iff by auto
  show "to_address_string a \<noteq> []" "CHR 0x27 \<notin> set (to_address_string a)"
    using assms esc by auto
  show "is_ascii (to_address_string a)"
    using g by (auto simp: is_ascii_def list_all_iff graphic_def)
qed

text \<open>A daemon that serves one socket, and the line with which its starter learns where.\<close>

definition serves_at :: "start_event list \<times> (start_error + started_daemon) \<Rightarrow> address \<Rightarrow> bool" where
  "serves_at result a \<longleftrightarrow> (case result of (_, Inr (Serving d)) \<Rightarrow> dm_listening d = [a] | _ \<Rightarrow> False)"

definition first_line :: "start_event list \<Rightarrow> string" where
  "first_line evs = hd (printed evs) @ [CHR 0x0A]"

lemma first_line_address:
  assumes "serves_at (main sio dargs p) a" "da_print_address dargs" "\<not> da_print_pid dargs"
    and "a = UnixPath q \<or> a = UnixAbstract q"
  shows "trim (first_line (fst (main sio dargs p))) = to_address_string a"
proof -
  obtain evs d where m: "main sio dargs p = (evs, Inr (Serving d))" "dm_listening d = [a]"
    using assms(1) by (auto simp: serves_at_def split: prod.splits sum.splits started_daemon.splits)
  have "printed evs = [to_address_string a]"
    using start_stages [where io = sio and args = dargs and p = p] m assms(2,3) by simp
  then show ?thesis
    using trim_line [OF address_graphic(2,1) [OF assms(4)]] m(1) by (simp add: first_line_def)
qed

lemma daemon_address_line:
  assumes "serves_at (main sio dargs p) a" "da_print_address dargs" "\<not> da_print_pid dargs"
    and "a = UnixPath q \<or> a = UnixAbstract q"
    and "ch_start io cmd = None" "ch_line io = Inr (first_line (fst (main sio dargs p)))"
  shows "daemon_address io cmd effs = ([StartsDaemon cmd], Inr (to_address_string a))"
  using first_line_address [OF assms(1-4)] address_graphic(2) [OF assms(4)] assms(5,6)
  by (simp add: daemon_address_def)

lemma address_in_environment:
  assumes "a = UnixPath q \<or> a = UnixAbstract q" "valid_utf8 q" "map_of env n = Some (to_address_string a)"
  shows "env_var env n = Some (to_address_string a)" "parse_address (to_address_string a) = Inr a"
proof -
  show "env_var env n = Some (to_address_string a)"
    using assms(3) is_ascii_valid_utf8 [OF address_graphic(4) [OF assms(1)]] by (simp add: env_var_def)
  show "parse_address (to_address_string a) = Inr a"
    using address_printed [of a] assms(1,2) by (auto simp: wf_address_def)
qed

definition command_environment :: "spawn_command \<Rightarrow> environment \<Rightarrow> environment" where
  "command_environment cmd env = fold (\<lambda>(k, v). AList.update k v) (cmd_env cmd) env"

text \<open>C11. A command that \<open>dbus-run-session\<close> runs finds the bus that was started for it: from the line that
  the daemon prints to the environment of the command and back, both the tools and the C library
  come to the address that the daemon serves, whatever was in the environment before. The daemon
  is one that was told to print its address and not its pid, as the code starts it.\<close>

theorem session_command_finds_the_bus:
  assumes "serves_at (main sio dargs p) a" "da_print_address dargs" "\<not> da_print_pid dargs"
    and "a = UnixPath q \<or> a = UnixAbstract q" "valid_utf8 q"
    and "ch_start io (session_daemon env r) = None" "ch_line io = Inr (first_line (fst (main sio dargs p)))"
    and "session_args args session_defaults = Inr r" "so_command r = prog # rest"
  shows "\<exists>cmd. RunsCommand cmd \<in> set (fst (dbus_run_session env io args)) \<and>
    cmd_program cmd = prog \<and> cmd_args cmd = rest \<and>
    resolve_address (command_environment cmd cenv) cfg ChooseSession None = Inr a \<and>
    resolve_bus_address (lio\<lparr>ld_env := command_environment cmd cenv\<rparr>) 0 = Inr a"
proof -
  let ?s = "to_address_string a"
  let ?cmd = "\<lparr>cmd_program = prog, cmd_args = rest, cmd_env = session_environment ?s\<rparr>"
  have "RunsCommand ?cmd \<in> set (fst (dbus_run_session env io args))"
    using daemon_address_line [OF assms(1-4,6,7)] assms(8,9) by (simp add: dbus_run_session_def)
  moreover have "map_of (command_environment ?cmd cenv) ''OXIBUS_SESSION_BUS_ADDRESS'' = Some ?s"
    "map_of (command_environment ?cmd cenv) ''DBUS_SESSION_BUS_ADDRESS'' = Some ?s"
    by (simp_all add: command_environment_def session_environment_def update_conv')
  then have "resolve_address (command_environment ?cmd cenv) cfg ChooseSession None = Inr a"
    "resolve_bus_address (lio\<lparr>ld_env := command_environment ?cmd cenv\<rparr>) 0 = Inr a"
    using address_in_environment [OF assms(4,5)]
    by (simp_all add: resolve_address_def resolve_bus_address_def or_else_def tool_address_def bus_address_def)
  ultimately show ?thesis by (intro exI [of _ ?cmd]) simp
qed

text \<open>C39. A command that \<open>dbus-launch\<close> runs only has the OxiBus variables: where the environment already
  names another session bus, the tools in it come to the bus that was started, and programs that
  use the C library to the other one.\<close>

theorem launched_commands_disagree:
  assumes "serves_at (main sio dargs p) a" "da_print_address dargs" "\<not> da_print_pid dargs"
    and "a = UnixPath q \<or> a = UnixAbstract q" "valid_utf8 q"
    and "ch_start io (launch_daemon env r) = None" "ch_line io = Inr (first_line (fst (main sio dargs p)))"
    and "launch_args env args launch_defaults = Inr r" "lo_command r = prog # rest"
    and "env_var cenv ''DBUS_SESSION_BUS_ADDRESS'' = Some other" "parse_address other = Inr b"
  shows "\<exists>cmd. RunsCommand cmd \<in> set (fst (dbus_launch env io args)) \<and>
    resolve_address (command_environment cmd cenv) cfg ChooseSession None = Inr a \<and>
    resolve_bus_address (lio\<lparr>ld_env := command_environment cmd cenv\<rparr>) 0 = Inr b"
proof -
  let ?s = "to_address_string a"
  let ?cmd = "\<lparr>cmd_program = prog, cmd_args = rest,
    cmd_env = [(''OXIBUS_SESSION_BUS_ADDRESS'', ?s), (''OXIBUS_SESSION_BUS_PID'', show_nat (ch_pid io))]\<rparr>"
  have "RunsCommand ?cmd \<in> set (fst (dbus_launch env io args))"
    using daemon_address_line [OF assms(1-4,6,7)] assms(8,9) by (simp add: dbus_launch_def Let_def)
  moreover have "map_of (command_environment ?cmd cenv) ''OXIBUS_SESSION_BUS_ADDRESS'' = Some ?s"
    "env_var (command_environment ?cmd cenv) ''DBUS_SESSION_BUS_ADDRESS'' = Some other"
    using assms(10) by (simp_all add: command_environment_def env_var_def update_conv')
  then have "resolve_address (command_environment ?cmd cenv) cfg ChooseSession None = Inr a"
    "resolve_bus_address (lio\<lparr>ld_env := command_environment ?cmd cenv\<rparr>) 0 = Inr b"
    using address_in_environment [OF assms(4,5)] assms(11)
    by (simp_all add: resolve_address_def resolve_bus_address_def or_else_def tool_address_def bus_address_def)
  ultimately show ?thesis by (intro exI [of _ ?cmd]) simp
qed

text \<open>The sample: a daemon that listens at \<open>/tmp/s\<close>, and a starter that reads its first line.\<close>

definition session_args_of_daemon :: daemon_args where
  "session_args_of_daemon =
     \<lparr>da_system = False, da_session = True, da_config = None, da_address = Some ''unix:path=/tmp/s'',
      da_print_address = True, da_print_pid = False, da_fork = False, da_nopidfile = False,
      da_introspect = False\<rparr>"

definition sample_children :: child_io where
  "sample_children =
     \<lparr>ch_start = \<lambda>_. None, ch_line = Inr (first_line (fst (main sample_start session_args_of_daemon root_process))),
      ch_pid = 100, ch_background = True, ch_exit = Some (Some 0)\<rparr>"

lemma sample_serves: "serves_at (main sample_start session_args_of_daemon root_process) (UnixPath ''/tmp/s'')"
  by code_simp

lemma session_command_finds_the_bus_witness:
  "\<exists>cmd. RunsCommand cmd \<in> set (fst (dbus_run_session [] sample_children [''--'', ''ls'', ''-l''])) \<and>
     cmd_program cmd = ''ls'' \<and> cmd_args cmd = [''-l''] \<and>
     resolve_address (command_environment cmd [(''DBUS_SESSION_BUS_ADDRESS'', ''x'')]) (st_config sample_start)
       ChooseSession None = Inr (UnixPath ''/tmp/s'')"
proof -
  let ?r = "session_defaults\<lparr>so_command := [''ls'', ''-l'']\<rparr>"
  have args: "session_args [''--'', ''ls'', ''-l''] session_defaults = Inr ?r" "so_command ?r = ''ls'' # [''-l'']"
    by (simp_all add: session_defaults_def)
  have flags: "da_print_address session_args_of_daemon" "\<not> da_print_pid session_args_of_daemon"
    by (simp_all add: session_args_of_daemon_def)
  have start: "ch_start sample_children (session_daemon [] ?r) = None"
    "ch_line sample_children = Inr (first_line (fst (main sample_start session_args_of_daemon root_process)))"
    by (simp_all add: sample_children_def)
  have "valid_utf8 ''/tmp/s''" by code_simp
  then show ?thesis
    using session_command_finds_the_bus [OF sample_serves flags disjI1 [OF refl] _ start args] by blast
qed

lemma launched_commands_disagree_witness:
  "\<exists>cmd. RunsCommand cmd \<in> set (fst (dbus_launch [] sample_children [''--'', ''ls''])) \<and>
     resolve_bus_address (echo_io\<lparr>ld_env := command_environment cmd [(''DBUS_SESSION_BUS_ADDRESS'', ''unix:path=/x'')]\<rparr>) 0 =
       Inr (UnixPath ''/x'')"
proof -
  let ?r = "launch_defaults\<lparr>lo_command := [''ls'']\<rparr>"
  have args: "launch_args [] [''--'', ''ls''] launch_defaults = Inr ?r" "lo_command ?r = ''ls'' # []"
    by (simp_all add: launch_defaults_def)
  have flags: "da_print_address session_args_of_daemon" "\<not> da_print_pid session_args_of_daemon"
    by (simp_all add: session_args_of_daemon_def)
  have start: "ch_start sample_children (launch_daemon [] ?r) = None"
    "ch_line sample_children = Inr (first_line (fst (main sample_start session_args_of_daemon root_process)))"
    by (simp_all add: sample_children_def)
  have "valid_utf8 ''/tmp/s''"
    "env_var [(''DBUS_SESSION_BUS_ADDRESS'', ''unix:path=/x'')] ''DBUS_SESSION_BUS_ADDRESS'' = Some ''unix:path=/x''"
    "parse_address ''unix:path=/x'' = Inr (UnixPath ''/x'')"
    by code_simp+
  then show ?thesis
    using launched_commands_disagree [OF sample_serves flags disjI1 [OF refl] _ start args] by blast
qed

end
