(* ===== verification/Peer_Identity.thy ===== *)
theory Peer_Identity
  imports Policy Address
begin

text \<open>
  \<open>oxibus-transport/src/credentials.rs\<close> and \<open>oxibus-daemon/src/identity.rs\<close>: the security label
  of a peer, and the user and group names that the policy is matched against.  The answers of
  \<open>getsockopt\<close> and of the user database are arguments.
\<close>

section \<open>The label of a peer\<close>

text \<open>What \<open>SO_PEERSEC\<close> writes to a buffer of 1024 bytes, up to the length it reports.\<close>

definition peer_security_label :: "u8 list option \<Rightarrow> u8 list option" where
  "peer_security_label answer =
     (case answer of
        None \<Rightarrow> None
      | Some written \<Rightarrow>
          let label = takeWhile (\<lambda>x. x \<noteq> 0) written
          in if label \<noteq> [] then Some label else None)"

section \<open>Users and groups\<close>

text \<open>
  \<open>getgrouplist\<close> for a name, a group and room for so many groups: whether they fit, what was
  written, and the number of groups it reports.
\<close>

record user_db =
  ud_getpwuid :: "u32 \<Rightarrow> (string \<times> u32) option"
  ud_getgrouplist :: "string \<Rightarrow> u32 \<Rightarrow> nat \<Rightarrow> bool \<times> u32 list \<times> nat"
  ud_getgrgid :: "u32 \<Rightarrow> string option"

text \<open>A buffer of zeros of this size, with the groups written to its front.\<close>

definition group_buffer :: "u32 list \<Rightarrow> nat \<Rightarrow> u32 list" where
  "group_buffer written n = take n (written @ replicate n 0)"

definition user_gids :: "user_db \<Rightarrow> string \<Rightarrow> u32 \<Rightarrow> u32 list" where
  "user_gids db name base_gid =
     (case ud_getgrouplist db name base_gid 32 of
        (True, written, ngroups) \<Rightarrow> take ngroups (group_buffer written 32)
      | (False, _, ngroups) \<Rightarrow>
          (case ud_getgrouplist db name base_gid ngroups of
             (_, written, _) \<Rightarrow> group_buffer written ngroups))"

definition resolve_identity :: "user_db \<Rightarrow> u32 \<Rightarrow> policy_identity" where
  "resolve_identity db who =
     (let entry = map_option (\<lambda>(n, gid). (from_utf8_lossy n, gid)) (ud_getpwuid db who)
      in \<lparr>id_uid = who,
          id_user_name = map_option fst entry,
          id_group_names =
            (case entry of
               Some (name, gid) \<Rightarrow>
                 if CHR 0x00 \<notin> set name then
                   List.map_filter (\<lambda>g. map_option from_utf8_lossy (ud_getgrgid db g)) (user_gids db name gid)
                 else []
             | None \<Rightarrow> [])\<rparr>)"

text \<open>
  The documented behaviour of \<open>getgrouplist\<close>: it reports the number of groups of the user, and
  writes as many of them as there is room for.
\<close>

definition lists_groups :: "user_db \<Rightarrow> (string \<Rightarrow> u32 \<Rightarrow> u32 list) \<Rightarrow> bool" where
  "lists_groups db groups \<longleftrightarrow>
     (\<forall>name gid n. ud_getgrouplist db name gid n =
        (length (groups name gid) \<le> n, take n (groups name gid), length (groups name gid)))"

lemma user_gids_all:
  assumes "lists_groups db groups"
  shows "user_gids db name gid = groups name gid"
  using assms unfolding lists_groups_def
  by (cases "length (groups name gid) \<le> 32") (auto simp: user_gids_def group_buffer_def)

text \<open>A rule for a group applies to a peer exactly when one of the groups of its user has this name,
  however many groups that are; a rule for a user when it gives the user's name or number.\<close>

theorem group_rules_reach_every_group:
  assumes "lists_groups db groups" "ud_getpwuid db who = Some (n, gid)" "valid_utf8 n" "CHR 0x00 \<notin> set n"
  shows "rule_applies (resolve_identity db who) rule \<longleftrightarrow>
    (case pr_context rule of
       CtxDefault \<Rightarrow> True
     | CtxMandatory \<Rightarrow> True
     | CtxUser \<Rightarrow> pr_user rule = Some n \<or> pr_user rule = Some (show_nat (unat who))
     | CtxGroup \<Rightarrow> (\<exists>i < length (groups n gid). \<exists>name.
         ud_getgrgid db (groups n gid ! i) = Some name \<and> pr_group rule = Some (from_utf8_lossy name)))"
proof -
  have names: "set (List.map_filter f xs) = {y. \<exists>i < length xs. f (xs ! i) = Some y}"
    for f :: "u32 \<Rightarrow> string option" and xs
    by (force simp: map_filter_def in_set_conv_nth image_iff)
  show ?thesis
    using assms user_gids_all [OF assms(1)]
    by (cases "pr_context rule"; cases "pr_group rule")
       (auto simp: rule_applies_def resolve_identity_def from_utf8_lossy_valid names)
qed

text \<open>The sample: user \<open>u\<close> is in forty groups, which is more than there is room for at first.\<close>

definition forty_groups :: user_db where
  "forty_groups =
     \<lparr>ud_getpwuid = \<lambda>_. Some (''u'', 0),
      ud_getgrouplist = \<lambda>_ _ n. (40 \<le> n, take n (map word_of_nat [0..<40]), 40),
      ud_getgrgid = \<lambda>g. Some (''g'' @ show_nat (unat g))\<rparr>"

lemma group_rules_reach_every_group_witness:
  "rule_applies (resolve_identity forty_groups 7)
     \<lparr>pr_context = CtxGroup, pr_user = None, pr_group = Some ''g39'', allow_own = [], deny_own = [],
      allow_send = [], deny_send = [], allow_receive = [], deny_receive = []\<rparr>"
proof -
  have "lists_groups forty_groups (\<lambda>_ _. map word_of_nat [0..<40])"
    by (auto simp: lists_groups_def forty_groups_def take_map)
  moreover have "ud_getpwuid forty_groups 7 = Some (''u'', 0)" "CHR 0x00 \<notin> set ''u''"
    by (simp_all add: forty_groups_def)
  moreover have "valid_utf8 ''u''" by code_simp
  moreover have "ud_getgrgid forty_groups 39 = Some ''g39''" "from_utf8_lossy ''g39'' = ''g39''"
    by code_simp+
  moreover have "(map word_of_nat [0..<40] :: u32 list) ! 39 = 39" "(39 :: nat) < 40"
    by simp_all
  ultimately show ?thesis
    by (subst group_rules_reach_every_group) (auto intro!: exI [of _ "39 :: nat"])
qed

end
