(* ===== verification/Spec2Isabelle.thy ===== *)
theory Spec2Isabelle
  imports Wire_Properties Auth_Properties Bus_Properties System_Properties Startup_Properties
    Tools_Properties Libdbus_Properties Peer_Identity
begin

text \<open>
  A verification development for oxibus, a D-Bus implementation in Rust (\<open>src/crates\<close>).

  \<^bold>\<open>The program.\<close>  \<open>oxibus-core\<close> defines the wire format: types, values, signatures, message
  headers, messages and bus addresses.  \<open>oxibus-auth\<close> runs the SASL exchange that every
  connection starts with.  \<open>oxibus-transport\<close> moves lines and frames over Unix sockets.
  \<open>oxibus-daemon\<close> is the bus: a registry of connections and well-known names, match rules, a
  security policy, mandatory access control, the driver (the bus's own methods), dispatch,
  service activation and the life of a connection.  \<open>oxibus-client\<close> is the library of the bus's
  clients: calls and their replies, exported objects, proxies.  \<open>oxibus-config\<close> holds the
  configuration.  \<open>oxibus-tools\<close> are the command line programs, \<open>oxibus-libdbus-compat\<close> is the
  interface of the client library to C; the setuid helper of \<open>oxibus-daemon\<close> starts the services of
  the system bus as their users.

  \<^bold>\<open>The theories of the wire.\<close>
  \<^item> \<open>Prelude\<close>, \<open>Rust_Strings\<close>, \<open>Utf8_Whitespace\<close>: results with errors as \<open>Inl\<close>, results that
    may run out of fuel, machine words as bytes, UTF-8, and the string functions of Rust's
    standard library that the program calls.
  \<^item> \<open>Core_Types\<close> (\<open>types.rs\<close>, \<open>error.rs\<close>), \<open>Names\<close> (\<open>lib.rs\<close>), \<open>Signature_Parser\<close>
    (\<open>signature.rs\<close>), \<open>Marshal\<close> (\<open>marshal.rs\<close>), \<open>Unmarshal\<close> (\<open>unmarshal.rs\<close>), \<open>Header\<close>
    (\<open>header.rs\<close>), \<open>Message\<close> (\<open>message.rs\<close>), \<open>Address\<close> (\<open>addr.rs\<close>): the core.  \<open>Wire_Roundtrip\<close>
    relates reader and writer through the reference encoding \<open>enc\<close>, \<open>Encodable\<close> tells which
    messages have an encoding.
  \<^item> \<open>Transport\<close> (\<open>stream.rs\<close>, the receiving half of \<open>fds.rs\<close>): sockets as lists of events;
    \<open>Transport_Progress\<close> shows that every line and message read takes bytes.
  \<^item> \<open>Listener\<close> (\<open>listener.rs\<close>): what is asked of the system to bind or connect an address;
    \<open>Peer_Identity\<close> (\<open>credentials.rs\<close>, \<open>identity.rs\<close>): the label, user and groups of a peer.
  \<^item> \<open>Keyring\<close>, \<open>Auth_Server\<close>, \<open>Auth_Client\<close>: the files of the same names of \<open>oxibus-auth\<close>.

  \<^bold>\<open>The theories of the bus.\<close>
  \<^item> \<open>Config\<close>: the tables of \<open>oxibus-config\<close>.  \<open>Match_Rules\<close>, \<open>Registry\<close>, \<open>Policy\<close>, \<open>Policy_Xml\<close>,
    \<open>Activation\<close> (with \<open>launch_helper.rs\<close>), \<open>Apparmor\<close>: the tables of the daemon and their
    operations.  \<open>Bus\<close> (\<open>bus.rs\<close>, \<open>stats.rs\<close>): the state that all handlers share.
    \<open>Match_Language\<close> and \<open>Policy_Precedence\<close> state what the parts of a match rule and the order of
    the policy's rules mean, apart from the code that evaluates them.
  \<^item> \<open>Driver\<close> (\<open>driver.rs\<close>), \<open>Dispatch\<close> (\<open>dispatch.rs\<close>), \<open>Connections\<close> (\<open>connection_handler.rs\<close>):
    the handlers, and the states of the bus that any number of connections reach together.
  \<^item> \<open>Launch_Helper\<close> (\<open>bin/dbus-daemon-launch-helper.rs\<close>) and \<open>Daemon_Start\<close> (\<open>main.rs\<close>, \<open>audit.rs\<close>,
    \<open>sd_notify.rs\<close>): a run is the list of what it does to the outside, in order, with its end.
  \<^item> \<open>Registry_Limits\<close>, \<open>Handler_Laws\<close>, \<open>Handler_Invariants\<close>, \<open>Dispatch_Facts\<close>, \<open>Mediation\<close>,
    \<open>Announcements\<close>: what a handler leaves as it is, what it keeps, what it writes and to whom.
    \<open>Bus_Answers\<close>: the exact reply that is written for each outcome of a call.

  \<^bold>\<open>The theories of the client.\<close>
  \<^item> \<open>Object_Server\<close>, \<open>Client\<close> (\<open>connection.rs\<close>), \<open>Client_Handshake\<close>, \<open>Proxy\<close>.  A connection is a
    step relation: callers, the reader's task and the socket's failures interleave.
    \<open>Client_Facts\<close>: the table of pending calls and the calls are linked in every reachable state.
  \<^item> \<open>System_Facts\<close>: client and bus together.
  \<^item> \<open>Tools\<close> (\<open>oxibus-tools\<close>): each program as what it does, in order, and how it ends.
  \<^item> \<open>Libdbus_Message\<close>, \<open>Libdbus_Connection\<close> (\<open>oxibus-libdbus-compat\<close>): pointers are addresses in a
    memory of counted objects, and the use of one without references is a result of its own.

  \<^bold>\<open>The properties.\<close>  \<open>Wire_Properties\<close>, \<open>Auth_Properties\<close>, \<open>Bus_Properties\<close> (the tables),
  \<open>Daemon_Properties\<close> (the handlers), \<open>Transport_Properties\<close>, \<open>Client_Properties\<close>,
  \<open>System_Properties\<close>, \<open>Startup_Properties\<close>, \<open>Tools_Properties\<close> and \<open>Libdbus_Properties\<close>:
  round trips and totality of the codec; what the SASL machines accept; what the registry, the policy and the match language mean; that the bus never lets anyone speak in
  another's name, mediates every call and answers or refuses it as its cases say, confines a
  connection without Hello and tells listeners the truth about well-known names in runs that
  start no service; that lines and messages survive any cutting by the socket; and that a call
  to the unique name of a client is answered by its object, over the bus, exactly once, while a
  call to a well-known name is not answered at all.
  The start of the daemon publishes nothing before it is bound and serves as the configured user;
  the helper becomes exactly the program of a service file, as its user;
  a command run in a session finds the bus that was started for it; and references, arguments and
  sent messages of the C interface are what the client library sees.
  The locales state what one component relies on in another: a bus of tables whose operations
  report changes, listeners that replay them, counts that operations keep; each is interpreted
  on the model's own operations.

  \<^bold>\<open>How the code is rendered.\<close>  A struct is a record, an enum a datatype, \<open>u8\<close> to \<open>u64\<close> are words
  (signed integers and floats are kept as their bits), strings are their UTF-8 bytes as
  characters.  A method with \<open>&mut self\<close> returns the updated record.  An error is a value of
  the error datatype in \<open>Inl\<close>; a panic is \<open>None\<close>, or \<open>Panicked\<close> and \<open>Crashed\<close> where an operation
  may also wait.  What the system answers (clock, random numbers, files, user ids, sockets) is
  an argument; the crates \<open>sha1\<close> and \<open>toml\<close> are parameters.  A handler of the bus is one step,
  except where it waits for a service: the states it then finds are arguments (\<open>polls\<close>,
  \<open>resumed\<close>).  A hash map is an association list, its order of iteration the list's.

  \<^bold>\<open>Fuel.\<close>  \<open>read_value\<close> needs it for the element loop of an array and for nested variants.
  \<open>read_value_total\<close> shows that as much fuel as there are bytes left is enough for every type
  that a signature can denote, and \<open>read_value_mono\<close> that more changes nothing;
  \<open>unmarshal_body\<close> and \<open>header_read\<close> start with the length of their buffer.  The client's reader
  and its handshake count rounds; each round takes bytes, and \<open>reader_rounds_enough\<close> and
  \<open>handshake_rounds_enough\<close> show that more rounds than bytes change nothing.

  The code itself has no bound here: \<open>read_value\<close> calls itself for the value inside a variant, and
  no limit is put on how deep variants are nested.  A message of nested variants, three bytes a
  level, can exhaust the stack of its reader; the stack is outside the model, and what is said of
  decoding holds as long as it suffices.

  \<^bold>\<open>Not modelled.\<close>  The stack, and its exhaustion by deep recursion.  The system calls themselves
  (with the sending half of \<open>fds.rs\<close>), the setting up of logging and what is written to logs and standard error,
  but for two warnings of the start; the parsing of arguments that \<open>clap\<close> generates; the text of
  floating point numbers.  Of the C interface: the opaque bytes behind an iterator (which is 96 bytes
  long, while programs written for \<open>libdbus\<close> keep 72 for it: the storage of an iterator is taken to
  be large enough, and the write past the end of a smaller one is outside the model), functions
  that do nothing, strings leaked on purpose.  Dropping a future in the middle of a write is modelled
  as a caller that gives up; the bounded broadcast channels of the client are logs without their
  limit.
\<close>

end
